(* ===== verification/Go_Prelude.thy ===== *)
theory Go_Prelude
  imports Main "HOL-Library.Char_ord" "HOL-Library.List_Lexorder"
begin

text \<open>
  The prelude of the development: the part of Go's standard library on strings that the
  controller uses, and the generic list lemmas that the components share.

  A Go string is a byte sequence, modelled as \<^typ>\<open>string\<close> (a list of 8-bit characters).
  The functions that depend on Unicode tables (\<open>ToLower\<close>, \<open>ToUpper\<close>, \<open>EqualFold\<close>,
  \<open>TrimSpace\<close>) are modelled on ASCII: a byte outside ASCII is left as it is.
\<close>

named_theorems go_strings \<open>lemmas about the string functions of Go\<close>

section \<open>Package strings\<close>

definition HasSuffix :: "string \<Rightarrow> string \<Rightarrow> bool" where
  "HasSuffix s suf \<longleftrightarrow> length suf \<le> length s \<and> drop (length s - length suf) s = suf"

definition TrimSuffix :: "string \<Rightarrow> string \<Rightarrow> string" where
  "TrimSuffix s suf = (if HasSuffix s suf then take (length s - length suf) s else s)"

definition HasPrefix :: "string \<Rightarrow> string \<Rightarrow> bool" where
  "HasPrefix s p \<longleftrightarrow> take (length p) s = p"

definition TrimPrefix :: "string \<Rightarrow> string \<Rightarrow> string" where
  "TrimPrefix s p = (if HasPrefix s p then drop (length p) s else s)"

definition isSpace :: "char \<Rightarrow> bool" where
  "isSpace c \<longleftrightarrow> of_char c \<in> {9, 10, 11, 12, 13, 32 :: nat}"

definition TrimLeftFunc :: "(char \<Rightarrow> bool) \<Rightarrow> string \<Rightarrow> string" where
  "TrimLeftFunc P s = dropWhile P s"

definition TrimRightFunc :: "(char \<Rightarrow> bool) \<Rightarrow> string \<Rightarrow> string" where
  "TrimRightFunc P s = rev (dropWhile P (rev s))"

definition TrimSpace :: "string \<Rightarrow> string" where
  "TrimSpace s = TrimRightFunc isSpace (TrimLeftFunc isSpace s)"

text \<open>\<open>strings.TrimRight(s, cutset)\<close>\<close>

definition TrimRight :: "string \<Rightarrow> string \<Rightarrow> string" where
  "TrimRight s cutset = TrimRightFunc (\<lambda>c. c \<in> set cutset) s"

text \<open>\<open>strings.Split(s, sep)\<close> for a separator of one byte; the result is never empty.\<close>

fun Split :: "string \<Rightarrow> char \<Rightarrow> string list" where
  "Split [] sep = [[]]"
| "Split (c # s) sep =
     (if c = sep then [] # Split s sep
      else (case Split s sep of [] \<Rightarrow> [[c]] | w # ws \<Rightarrow> (c # w) # ws))"

text \<open>\<open>strings.Join(parts, sep)\<close> for a separator of one byte\<close>

fun Join :: "string list \<Rightarrow> char \<Rightarrow> string" where
  "Join [] sep = []"
| "Join [w] sep = w"
| "Join (w # v # ws) sep = w @ sep # Join (v # ws) sep"

definition lower_char :: "char \<Rightarrow> char" where
  "lower_char c = (let n = of_char c :: nat in if 65 \<le> n \<and> n \<le> 90 then char_of (n + 32) else c)"

definition upper_char :: "char \<Rightarrow> char" where
  "upper_char c = (let n = of_char c :: nat in if 97 \<le> n \<and> n \<le> 122 then char_of (n - 32) else c)"

definition ToLower :: "string \<Rightarrow> string" where
  "ToLower s = map lower_char s"

definition ToUpper :: "string \<Rightarrow> string" where
  "ToUpper s = map upper_char s"

definition EqualFold :: "string \<Rightarrow> string \<Rightarrow> bool" where
  "EqualFold s t \<longleftrightarrow> ToLower s = ToLower t"

text \<open>\<open>strings.ReplaceAll(s, old, new)\<close> where old and new are single bytes\<close>

definition ReplaceAll :: "string \<Rightarrow> char \<Rightarrow> char \<Rightarrow> string" where
  "ReplaceAll s old new = map (\<lambda>c. if c = old then new else c) s"

section \<open>Package strconv: decimal numbers\<close>

definition is_digit :: "char \<Rightarrow> bool" where
  "is_digit c \<longleftrightarrow> (let n = of_char c :: nat in 48 \<le> n \<and> n \<le> 57)"

definition digit_char :: "nat \<Rightarrow> char" where
  "digit_char n = char_of (48 + n)"

definition digit_val :: "char \<Rightarrow> nat" where
  "digit_val c = of_char c - 48"

fun Utoa :: "nat \<Rightarrow> string" where
  "Utoa n = (if n < 10 then [digit_char n] else Utoa (n div 10) @ [digit_char (n mod 10)])"

declare Utoa.simps [simp del]

text \<open>\<open>fmt.Sprint\<close> and the verb \<open>%d\<close> on a Go int\<close>

definition Sprint :: "int \<Rightarrow> string" where
  "Sprint i = (if i < 0 then CHR ''-'' # Utoa (nat (- i)) else Utoa (nat i))"

definition dec_val :: "string \<Rightarrow> nat" where
  "dec_val s = foldl (\<lambda>a c. a * 10 + digit_val c) 0 s"

section \<open>Loops that return at the first error\<close>

text \<open>\<open>for _, x := range xs { if err := f(x); err != nil { return err } }\<close>; \<open>None\<close> is a nil error.\<close>

fun first_error :: "('a \<Rightarrow> 'e option) \<Rightarrow> 'a list \<Rightarrow> 'e option" where
  "first_error f [] = None"
| "first_error f (x # xs) = (case f x of Some e \<Rightarrow> Some e | None \<Rightarrow> first_error f xs)"

lemma first_error_append [simp]:
  "first_error f (xs @ ys) = (case first_error f xs of Some e \<Rightarrow> Some e | None \<Rightarrow> first_error f ys)"
  by (induction xs) (simp_all split: option.split)

lemma first_error_None_iff [simp]: "first_error f xs = None \<longleftrightarrow> (\<forall>x \<in> set xs. f x = None)"
  by (induction xs) (auto split: option.splits)

text \<open>The error returned is that of the first element that has one.\<close>

lemma first_error_Some:
  "first_error f xs = Some e \<Longrightarrow>
    \<exists>us x vs. xs = us @ x # vs \<and> f x = Some e \<and> (\<forall>u \<in> set us. f u = None)"
proof (induction xs)
  case (Cons y ys)
  show ?case
  proof (cases "f y")
    case None
    with Cons obtain us x vs where "ys = us @ x # vs" "f x = Some e" "\<forall>u \<in> set us. f u = None"
      by auto
    with None show ?thesis by (intro exI [of _ "y # us"] exI [of _ x] exI [of _ vs]) simp
  next
    case (Some a)
    with Cons.prems show ?thesis by (intro exI [of _ "[]"]) simp
  qed
qed simp

section \<open>Lemmas\<close>

lemma set_map_filter: "x \<in> set (List.map_filter f xs) \<longleftrightarrow> (\<exists>y \<in> set xs. f y = Some x)"
  by (force simp: List.map_filter_def)

lemma of_char_char_of_small [simp]: "n < 256 \<Longrightarrow> (of_char (char_of n :: char) :: nat) = n"
  by (simp add: of_char_of)

lemma is_digit_digit_char [simp]: "n < 10 \<Longrightarrow> is_digit (digit_char n)"
  by (simp add: is_digit_def digit_char_def)

lemma digit_val_digit_char [simp]: "n < 10 \<Longrightarrow> digit_val (digit_char n) = n"
  by (simp add: digit_val_def digit_char_def)

lemma dec_val_snoc [simp]: "dec_val (s @ [c]) = dec_val s * 10 + digit_val c"
  by (simp add: dec_val_def)

lemma dec_val_Nil [simp]: "dec_val [] = 0"
  by (simp add: dec_val_def)

lemma Utoa_not_Nil [simp]: "Utoa n \<noteq> []"
  by (subst Utoa.simps) simp

lemma Utoa_digits [simp]: "list_all is_digit (Utoa n)"
proof (induction n rule: Utoa.induct)
  case (1 n)
  then show ?case by (cases "n < 10") (simp_all add: Utoa.simps [of n])
qed

lemma dec_val_Utoa [simp]: "dec_val (Utoa n) = n"
proof (induction n rule: Utoa.induct)
  case (1 n)
  show ?case
  proof (cases "n < 10")
    case True
    have "dec_val ([] @ [digit_char n]) = n"
      using True by (simp only: dec_val_snoc) simp
    with True show ?thesis by (simp add: Utoa.simps [of n])
  next
    case False
    with "1.IH" show ?thesis by (simp add: Utoa.simps [of n])
  qed
qed

lemma Utoa_inject [simp]: "Utoa m = Utoa n \<longleftrightarrow> m = n"
  by (metis dec_val_Utoa)

lemma digit_char_eq_iff: "m < 10 \<Longrightarrow> n < 10 \<Longrightarrow> digit_char m = digit_char n \<longleftrightarrow> m = n"
  by (metis digit_val_digit_char)

text \<open>A decimal numeral has no leading zero unless it is the numeral of zero.\<close>

lemma Utoa_no_leading_zero: "1 < length (Utoa n) \<Longrightarrow> hd (Utoa n) \<noteq> CHR ''0''"
proof (induction n rule: Utoa.induct)
  case (1 n)
  have zero: "CHR ''0'' = digit_char 0" by code_simp
  show ?case
  proof (cases "n < 10")
    case True
    with "1.prems" show ?thesis by (simp add: Utoa.simps [of n])
  next
    case False
    let ?m = "n div 10"
    have hd: "hd (Utoa n) = hd (Utoa ?m)"
      using False by (simp add: Utoa.simps [of n])
    show ?thesis
    proof (cases "1 < length (Utoa ?m)")
      case True
      with "1.IH" False hd show ?thesis by simp
    next
      case nl: False
      have small: "?m < 10"
      proof (rule ccontr)
        assume "\<not> ?m < 10"
        then have "length (Utoa ?m) = Suc (length (Utoa (?m div 10)))"
          by (simp add: Utoa.simps [of ?m])
        with nl show False by simp
      qed
      then have "hd (Utoa ?m) = digit_char ?m" by (simp add: Utoa.simps [of ?m])
      with small False hd show ?thesis by (simp add: zero digit_char_eq_iff)
    qed
  qed
qed

lemma Sprint_of_nat [simp]: "Sprint (int n) = Utoa n"
  by (simp add: Sprint_def)

lemma Split_not_Nil [simp]: "Split s sep \<noteq> []"
  by (cases s) (auto split: list.splits)

lemma Split_no_sep: "sep \<notin> set s \<Longrightarrow> Split s sep = [s]"
  by (induction s) auto

lemma Split_append_sep: "sep \<notin> set w \<Longrightarrow> Split (w @ sep # s) sep = w # Split s sep"
  by (induction w) auto

text \<open>\<open>Split\<close> inverts \<open>Join\<close> on a non-empty list of words free of the separator.\<close>

lemma Split_Join [go_strings]:
  "ws \<noteq> [] \<Longrightarrow> \<forall>w \<in> set ws. sep \<notin> set w \<Longrightarrow> Split (Join ws sep) sep = ws"
  by (induction ws sep rule: Join.induct) (auto simp: Split_no_sep Split_append_sep)

lemma Join_Split [go_strings]: "Join (Split s sep) sep = s"
proof (induction s sep rule: Split.induct)
  case (2 c s sep)
  obtain w ws where "Split s sep = w # ws" by (cases "Split s sep") auto
  with "2.IH" show ?case by (cases ws) auto
qed simp

lemma Split_words_no_sep: "w \<in> set (Split s sep) \<Longrightarrow> sep \<notin> set w"
proof (induction s sep arbitrary: w rule: Split.induct)
  case (2 c s sep)
  obtain v vs where "Split s sep = v # vs" by (cases "Split s sep") auto
  with "2.IH" "2.prems" show ?case by (auto split: if_splits)
qed simp

lemma HasSuffix_append [go_strings, simp]: "HasSuffix (s @ suf) suf"
  by (simp add: HasSuffix_def)

lemma HasSuffix_iff [go_strings]: "HasSuffix s suf \<longleftrightarrow> (\<exists>p. s = p @ suf)"
proof
  assume "HasSuffix s suf"
  then have "s = take (length s - length suf) s @ suf"
    unfolding HasSuffix_def by (metis append_take_drop_id)
  then show "\<exists>p. s = p @ suf" ..
qed auto

lemma TrimSuffix_append [go_strings, simp]: "TrimSuffix (s @ suf) suf = s"
  by (simp add: TrimSuffix_def)

lemma TrimSuffix_cases:
  obtains "HasSuffix s suf" "s = TrimSuffix s suf @ suf" | "\<not> HasSuffix s suf" "TrimSuffix s suf = s"
  by (metis TrimSuffix_def TrimSuffix_append HasSuffix_iff)

lemma lower_char_idem [simp]: "lower_char (lower_char c) = lower_char c"
  by (simp add: lower_char_def Let_def)

lemma ToLower_idem [go_strings, simp]: "ToLower (ToLower s) = ToLower s"
  by (simp add: ToLower_def)

lemma length_ToLower [simp]: "length (ToLower s) = length s"
  by (simp add: ToLower_def)

lemma length_ToUpper [simp]: "length (ToUpper s) = length s"
  by (simp add: ToUpper_def)

end
