(* ===== verification/Kube_Meta.thy ===== *)
theory Kube_Meta
  imports Go_Prelude "HOL-Library.Finite_Map"
begin

text \<open>
  The Kubernetes metadata types that every resource carries (\<open>k8s.io/apimachinery\<close> and
  \<open>k8s.io/api/core/v1\<close>), with the fields the controller reads or writes. A Go map is a finite
  map; a nil map and an empty map are not told apart. A \<open>metav1.Time\<close> that may be absent is an
  option; \<open>IsZero\<close> is \<open>= None\<close>.
\<close>

type_synonym strmap = "(string, string) fmap"
type_synonym time = int

record TypeMeta =
  tm_APIVersion :: string
  tm_Kind :: string

record OwnerReference =
  or_APIVersion :: string
  or_Kind :: string
  or_Name :: string
  or_UID :: string
  or_Controller :: "bool option"

record ObjectMeta =
  om_Name :: string
  om_Namespace :: string
  om_UID :: string
  om_ResourceVersion :: string
  om_Generation :: int
  om_CreationTimestamp :: "time option"
  om_DeletionTimestamp :: "time option"
  om_DeletionGracePeriodSeconds :: "int option"
  om_Labels :: strmap
  om_Annotations :: strmap
  om_OwnerReferences :: "OwnerReference list"
  om_Finalizers :: "string list"
  om_ManagedFields :: "string list"

record LocalObjectReference =
  lor_Name :: string

record LabelSelectorRequirement =
  lsr_Key :: string
  lsr_Operator :: string
  lsr_Values :: "string list"

record LabelSelector =
  ls_MatchLabels :: strmap
  ls_MatchExpressions :: "LabelSelectorRequirement list"

record NamespacedName =
  nn_Namespace :: string
  nn_Name :: string

definition empty_TypeMeta :: TypeMeta where
  "empty_TypeMeta = \<lparr>tm_APIVersion = [], tm_Kind = []\<rparr>"

text \<open>\<open>metav1.ObjectMeta{Name: name, Namespace: namespace}\<close>\<close>

definition new_ObjectMeta :: "string \<Rightarrow> string \<Rightarrow> ObjectMeta" where
  "new_ObjectMeta name namespace =
     \<lparr>om_Name = name, om_Namespace = namespace, om_UID = [], om_ResourceVersion = [],
      om_Generation = 0, om_CreationTimestamp = None, om_DeletionTimestamp = None,
      om_DeletionGracePeriodSeconds = None, om_Labels = fmempty, om_Annotations = fmempty,
      om_OwnerReferences = [], om_Finalizers = [], om_ManagedFields = []\<rparr>"

definition key_of :: "ObjectMeta \<Rightarrow> NamespacedName" where
  "key_of m = \<lparr>nn_Namespace = om_Namespace m, nn_Name = om_Name m\<rparr>"

text \<open>\<open>metav1.GetControllerOf\<close>: the first owner reference marked as the controller\<close>

definition GetControllerOf :: "ObjectMeta \<Rightarrow> OwnerReference option" where
  "GetControllerOf m = List.find (\<lambda>r. or_Controller r = Some True) (om_OwnerReferences m)"

text \<open>\<open>metav1.IsControlledBy(obj, owner)\<close> compares the UID of the controller reference.\<close>

definition IsControlledBy :: "ObjectMeta \<Rightarrow> ObjectMeta \<Rightarrow> bool" where
  "IsControlledBy m owner =
     (case GetControllerOf m of None \<Rightarrow> False | Some r \<Rightarrow> or_UID r = om_UID owner)"

text \<open>\<open>controllerutil.ContainsFinalizer\<close>, \<open>AddFinalizer\<close> and \<open>RemoveFinalizer\<close>\<close>

definition ContainsFinalizer :: "ObjectMeta \<Rightarrow> string \<Rightarrow> bool" where
  "ContainsFinalizer m f \<longleftrightarrow> f \<in> set (om_Finalizers m)"

definition AddFinalizer :: "ObjectMeta \<Rightarrow> string \<Rightarrow> ObjectMeta" where
  "AddFinalizer m f =
     (if ContainsFinalizer m f then m else m\<lparr>om_Finalizers := om_Finalizers m @ [f]\<rparr>)"

definition RemoveFinalizer :: "ObjectMeta \<Rightarrow> string \<Rightarrow> ObjectMeta" where
  "RemoveFinalizer m f = m\<lparr>om_Finalizers := filter (\<lambda>g. g \<noteq> f) (om_Finalizers m)\<rparr>"

lemma ContainsFinalizer_Add [simp]: "ContainsFinalizer (AddFinalizer m f) f"
  by (simp add: AddFinalizer_def ContainsFinalizer_def)

lemma ContainsFinalizer_Remove [simp]: "\<not> ContainsFinalizer (RemoveFinalizer m f) f"
  by (simp add: RemoveFinalizer_def ContainsFinalizer_def)

lemma key_of_finalizers [simp]:
  "key_of (AddFinalizer m f) = key_of m" "key_of (RemoveFinalizer m f) = key_of m"
  by (simp_all add: key_of_def AddFinalizer_def RemoveFinalizer_def)

end
