(* ===== verification/Api_Types.thy ===== *)
theory Api_Types
  imports Kube_Meta
begin

text \<open>
  The resources of the API group \<open>infrastructure.edgecdnx.com/v1alpha1\<close>
  (\<open>api/v1alpha1/*_types.go\<close>): one record per struct, one field per field, with a prefix per
  struct. A pointer is an option, a slice a list, a Go map a finite map; the widths of the
  integer fields do not matter to the code and they are \<^typ>\<open>int\<close>; a
  \<open>metav1.Duration\<close> is its number of nanoseconds.
\<close>

section \<open>Project and APIKey\<close>

record RuleSpec =
  rule_PType :: string
  rule_V0 :: string
  rule_V1 :: string
  rule_V2 :: string
  rule_V3 :: string
  rule_V4 :: string
  rule_V5 :: string

record RBACSpec =
  rbac_Groups :: "RuleSpec list"
  rbac_Rules :: "RuleSpec list"

record ProjectSpec =
  prjs_Name :: string
  prjs_Description :: string
  prjs_Rbac :: RBACSpec

record Project =
  prj_TypeMeta :: TypeMeta
  prj_Meta :: ObjectMeta
  prj_Spec :: ProjectSpec

record CredentialSpec =
  cred_FormatVersion :: string
  cred_Algorithm :: string
  cred_Digest :: string

record APIKeySpec =
  aks_DisplayName :: string
  aks_Project :: "LocalObjectReference option"
  aks_Credential :: CredentialSpec
  aks_ExpiresAt :: "time option"

record APIKey =
  ak_TypeMeta :: TypeMeta
  ak_Meta :: ObjectMeta
  ak_Spec :: APIKeySpec

section \<open>Zone and DNSEndpoint\<close>

record ZoneSpec =
  zones_Project :: "LocalObjectReference option"
  zones_Zone :: string
  zones_Email :: string

record ZoneStatus =
  zonest_Status :: string

record Zone =
  zone_TypeMeta :: TypeMeta
  zone_Meta :: ObjectMeta
  zone_Spec :: ZoneSpec
  zone_Status :: ZoneStatus

record DNSEndpointSpec =
  des_Project :: "LocalObjectReference option"
  des_DNSName :: string
  des_RoutingPolicy :: string
  des_RecordTTL :: int
  des_RecordType :: string
  des_Targets :: "string list"
  des_RouteSelector :: "LabelSelector option"
  des_Zone :: "LocalObjectReference option"

record DNSEndpointStatus =
  dest_Status :: string

record DNSEndpoint =
  de_TypeMeta :: TypeMeta
  de_Meta :: ObjectMeta
  de_Spec :: DNSEndpointSpec
  de_Status :: DNSEndpointStatus

section \<open>HealthCheckProfile\<close>

record TCPHealthCheckProbeSpec =
  tcp_Port :: int
  tcp_Target :: string
  tcp_Stack :: string

record HTTPHealthCheckProbeSpec =
  http_Protocol :: string
  http_Port :: int
  http_Target :: string
  http_Path :: string
  http_Host :: string
  http_Stack :: string

record AssumeHealthCheckProbeSpec =
  assume_Status :: string
  assume_Stack :: string

record HealthCheckProbeSpec =
  probe_Name :: string
  probe_Type :: string
  probe_Interval :: int
  probe_Timeout :: int
  probe_TCP :: "TCPHealthCheckProbeSpec option"
  probe_HTTP :: "HTTPHealthCheckProbeSpec option"
  probe_Assume :: "AssumeHealthCheckProbeSpec option"

record HealthCheckProfileSpec =
  hcps_Project :: "LocalObjectReference option"
  hcps_Probes :: "HealthCheckProbeSpec list"

record HealthCheckProfileStatus =
  hcpst_Status :: string

record HealthCheckProfile =
  hcp_TypeMeta :: TypeMeta
  hcp_Meta :: ObjectMeta
  hcp_Spec :: HealthCheckProfileSpec
  hcp_Status :: HealthCheckProfileStatus

section \<open>Location\<close>

record GeoLookupAttributeValuesSpec =
  glav_Value :: string
  glav_Weight :: int

record GeoLookupAttributeSpec =
  gla_Weight :: int
  gla_Values :: "GeoLookupAttributeValuesSpec list"

record GeoLookupSpec =
  gl_Weight :: int
  gl_Attributes :: "(string, GeoLookupAttributeSpec) fmap"

record PrometheusAlertMatcherSpec =
  pam_AlertName :: string
  pam_Labels :: strmap

record NodeSpec =
  node_Name :: string
  node_Ipv4 :: string
  node_Ipv6 :: string
  node_Caches :: "string list"
  node_MaintenanceMode :: bool
  node_Alerts :: "PrometheusAlertMatcherSpec list"
  node_HealthCheck :: "LocalObjectReference option"

record CacheConfigSpec =
  cc_Name :: string
  cc_Path :: string
  cc_KeysZone :: string
  cc_Inactive :: string
  cc_MaxSize :: string

record NodeGroupSpec =
  ng_Name :: string
  ng_Flavor :: string
  ng_Nodes :: "NodeSpec list"
  ng_CacheConfig :: CacheConfigSpec
  ng_Metadata :: strmap
  ng_NodeSelector :: strmap
  ng_HealthCheck :: "LocalObjectReference option"
  ng_Labels :: strmap

record LocationSpec =
  locs_Project :: "LocalObjectReference option"
  locs_FallbackLocations :: "string list"
  locs_Nodes :: "NodeSpec list"
  locs_GeoLookup :: GeoLookupSpec
  locs_Weight :: int
  locs_MaintenanceMode :: bool
  locs_NodeGroups :: "NodeGroupSpec list"
  locs_Alerts :: "PrometheusAlertMatcherSpec list"
  locs_Parent :: string

record NodeCondition =
  nc_Type :: string
  nc_Stack :: string
  nc_HealthCheckKey :: string
  nc_Status :: bool
  nc_LastTransitionTime :: "time option"
  nc_Reason :: string
  nc_ObservedGeneration :: int

record PrometheusAlertStatus =
  pas_AlertName :: string
  pas_State :: string
  pas_Labels :: strmap
  pas_LastTransitionTime :: "time option"

record NodeInstanceStatus =
  nis_Conditions :: "NodeCondition list"
  nis_Alerts :: "PrometheusAlertStatus list"

record LocationStatus =
  locst_Status :: string
  locst_Alerts :: "PrometheusAlertStatus list"
  locst_NodeStatus :: "(string, NodeInstanceStatus) fmap"

record Location =
  loc_TypeMeta :: TypeMeta
  loc_Meta :: ObjectMeta
  loc_Spec :: LocationSpec
  loc_Status :: LocationStatus

section \<open>PrefixList\<close>

text \<open>\<open>V4PrefixSpec\<close> and \<open>V6PrefixSpec\<close> have the same two fields.\<close>

record PrefixEntry =
  Address :: string
  Size :: int

type_synonym V4PrefixSpec = PrefixEntry
type_synonym V6PrefixSpec = PrefixEntry

record PrefixSpec =
  prefix_V4 :: "V4PrefixSpec list"
  prefix_V6 :: "V6PrefixSpec list"

record PrefixListSpec =
  pls_Project :: "LocalObjectReference option"
  pls_Source :: string
  pls_Prefix :: PrefixSpec
  pls_Destination :: string

record PrefixListStatus =
  plst_Status :: string
  plst_ConsoliadtionStatus :: string

record PrefixList =
  pl_TypeMeta :: TypeMeta
  pl_Meta :: ObjectMeta
  pl_Spec :: PrefixListSpec
  pl_Status :: PrefixListStatus

section \<open>Service\<close>

record StaticOriginSpec =
  so_Upstream :: string
  so_Port :: int
  so_HostHeader :: string
  so_Scheme :: string

record S3OriginSpec =
  s3_AwsSigsVersion :: int
  s3_S3AccessKeyId :: string
  s3_S3SecretKey :: string
  s3_S3BucketName :: string
  s3_S3Region :: string
  s3_S3Server :: string
  s3_S3ServerProto :: string
  s3_S3ServerPort :: int
  s3_S3Style :: string

record CustomerSpec =
  cust_Name :: string
  cust_Id :: int

record CertificateSpec =
  cert_CertificateRef :: string
  cert_SecretRef :: string
  cert_Crt :: string
  cert_Key :: string

record SecureKeySpec =
  sk_Name :: string
  sk_Value :: string
  sk_CreatedAt :: "time option"

record CacheKeySpec =
  ck_QueryParams :: "string list"
  ck_Headers :: "string list"

record WafSpec =
  waf_Enabled :: bool

record CorsSpec =
  cors_AllowMethods :: string
  cors_AllowOrigin :: string
  cors_AllowCredentials :: bool

record HostAliasSpec =
  ha_Name :: string
  ha_Certificate :: CertificateSpec

record MirrorSpec =
  mirror_URL :: string
  mirror_HostHeader :: string

record PathSpec =
  path_Paths :: "string list"
  path_Rewrite :: string

record ServiceSpec =
  ss_Project :: "LocalObjectReference option"
  ss_Name :: string
  ss_Domain :: string
  ss_Certificate :: CertificateSpec
  ss_OriginType :: string
  ss_StaticOrigins :: "StaticOriginSpec list"
  ss_S3OriginSpec :: "S3OriginSpec list"
  ss_SecureKeys :: "SecureKeySpec list"
  ss_Customer :: CustomerSpec
  ss_Cache :: string
  ss_CacheKeySpec :: CacheKeySpec
  ss_MirrorSpec :: MirrorSpec
  ss_HostAliases :: "HostAliasSpec list"
  ss_Waf :: WafSpec
  ss_Cors :: CorsSpec
  ss_Path :: PathSpec
  ss_RouteSelector :: "LabelSelector option"

record ServiceStatus =
  sst_Status :: string

record Service =
  svc_TypeMeta :: TypeMeta
  svc_Meta :: ObjectMeta
  svc_Spec :: ServiceSpec
  svc_Status :: ServiceStatus

definition OriginTypeStatic :: string where "OriginTypeStatic = ''static''"
definition OriginTypeS3 :: string where "OriginTypeS3 = ''s3''"

section \<open>Health status of a resource\<close>

definition HealthStatusHealthy :: string where "HealthStatusHealthy = ''Healthy''"
definition HealthStatusProgressing :: string where "HealthStatusProgressing = ''Progressing''"

end
