(* ===== verification/Net_Roundtrip.thy ===== *)
theory Net_Roundtrip
  imports Net_IP
begin

text \<open>
  Printing an address or a network and parsing it back: the lemmas that let the prefix
  consolidation use the printed form of a network as the key of a map.
\<close>

section \<open>Digits\<close>

lemma length_digits_be [simp]: "length (digits_be B k x) = k"
  by (induction k arbitrary: x) auto

lemma digits_be_bound: "0 < B \<Longrightarrow> d \<in> set (digits_be B k x) \<Longrightarrow> d < B"
  by (induction k arbitrary: x) auto

lemma undigits_be_snoc [simp]: "undigits_be B (ds @ [d]) = undigits_be B ds * B + d"
  by (simp add: undigits_be_def)

lemma undigits_digits_be: "0 < B \<Longrightarrow> undigits_be B (digits_be B k x) = x mod B ^ k"
proof (induction k arbitrary: x)
  case 0
  then show ?case by (simp add: undigits_be_def)
next
  case (Suc k)
  then show ?case by (simp add: mod_mult2_eq)
qed

lemma of_octets_octets [simp]: "of_octets (octets w) = w"
proof -
  have "unat w mod 256 ^ 4 = unat w" using unsigned_less [of w, where ?'a = nat] by simp
  then show ?thesis by (simp add: of_octets_def octets_def undigits_digits_be)
qed

lemma of_groups_groups [simp]: "of_groups (groups w) = w"
proof -
  have "unat w mod 65536 ^ 8 = unat w" using unsigned_less [of w, where ?'a = nat] by simp
  then show ?thesis by (simp add: of_groups_def groups_def undigits_digits_be)
qed

lemma length_octets [simp]: "length (octets w) = 4"
  by (simp add: octets_def)

lemma length_groups [simp]: "length (groups w) = 8"
  by (simp add: groups_def)

lemma groups_not_Nil [simp]: "groups w \<noteq> []"
  by (metis length_groups list.size(3) zero_neq_numeral)

lemma octets_bound: "d \<in> set (octets w) \<Longrightarrow> d \<le> 255"
  using digits_be_bound [of 256 d 4] by (fastforce simp: octets_def)

lemma groups_bound: "d \<in> set (groups w) \<Longrightarrow> d < 65536"
  using digits_be_bound [of 65536 d 8] by (simp add: groups_def)

section \<open>IPv4\<close>

lemma parse_octet_Utoa [simp]: "n \<le> 255 \<Longrightarrow> parse_octet (Utoa n) = Some n"
  by (simp add: parse_octet_def Utoa_no_leading_zero)

lemma digit_not_special:
  assumes "is_digit c"
  shows "c \<noteq> CHR ''.''" "c \<noteq> CHR '':''" "c \<noteq> CHR ''%''" "c \<noteq> CHR ''/''"
  using assms by (auto simp: is_digit_def)

lemma Utoa_special:
  shows "CHR ''.'' \<notin> set (Utoa n)" "CHR '':'' \<notin> set (Utoa n)"
    "CHR ''%'' \<notin> set (Utoa n)" "CHR ''/'' \<notin> set (Utoa n)"
  using Utoa_digits [of n] by (auto simp: list_all_iff dest: digit_not_special)

lemma four_elements: "length xs = 4 \<Longrightarrow> \<exists>a b c d. xs = [a, b, c, d]"
  by (auto simp: numeral_eq_Suc length_Suc_conv)

lemma parseIPv4_String [simp]: "parseIPv4 (v4_String w) = Some (octets w)"
proof -
  obtain a b c d where o: "octets w = [a, b, c, d]" using four_elements [OF length_octets, of w] by blast
  then have "a \<le> 255" "b \<le> 255" "c \<le> 255" "d \<le> 255"
    using octets_bound [of _ w] by simp_all
  moreover have "Split (v4_String w) CHR ''.'' = map Utoa (octets w)"
    unfolding v4_String_def by (rule Split_Join) (auto simp: o Utoa_special)
  ultimately show ?thesis by (simp add: parseIPv4_def o)
qed

lemma set_Join: "set (Join ws sep) \<subseteq> insert sep (\<Union>w \<in> set ws. set w)"
  by (induction ws sep rule: Join.induct) auto

lemma v4_String_special:
  shows "CHR '':'' \<notin> set (v4_String w)" "CHR ''%'' \<notin> set (v4_String w)" "CHR ''/'' \<notin> set (v4_String w)"
  using set_Join [of "map Utoa (octets w)" "CHR ''.''"]
  by (auto simp: v4_String_def Utoa_special)

lemma v4_String_dot: "CHR ''.'' \<in> set (v4_String w)"
proof -
  obtain a b c d where "octets w = [a, b, c, d]" using four_elements [OF length_octets, of w] by blast
  then show ?thesis by (simp add: v4_String_def)
qed

lemma ParseIP_v4_String: "ParseIP (v4_String w) = Some (IP4 w)"
proof -
  let ?P = "\<lambda>c. c \<notin> {CHR ''.'', CHR '':'', CHR ''%''}"
  have "dropWhile ?P (v4_String w) \<noteq> []"
    using v4_String_dot [of w] by (auto simp: dropWhile_eq_Nil_conv)
  then obtain c s where cs: "dropWhile ?P (v4_String w) = c # s" by (meson neq_Nil_conv)
  have "\<not> ?P c" using cs by (metis dropWhile_eq_Cons_conv)
  moreover have "c \<in> set (v4_String w)" using cs by (metis list.set_intros(1) set_dropWhileD)
  ultimately have "c = CHR ''.''" using v4_String_special [of w] by auto
  with cs show ?thesis by (simp add: ParseIP_def)
qed

section \<open>IPv6 groups\<close>

lemma is_hex_hex_char [simp]: "n < 16 \<Longrightarrow> is_hex (hex_char n)"
  by (auto simp: is_hex_def hex_char_def)

lemma hex_digit_hex_char [simp]: "n < 16 \<Longrightarrow> hex_digit (hex_char n) = n"
  by (auto simp: hex_digit_def hex_char_def)

lemma hex_val_snoc [simp]: "hex_val (s @ [c]) = hex_val s * 16 + hex_digit c"
  by (simp add: hex_val_def)

lemma hex_string_not_Nil [simp]: "hex_string n \<noteq> []"
  by (subst hex_string.simps) simp

lemma hex_string_hex: "c \<in> set (hex_string n) \<Longrightarrow> is_hex c"
proof (induction n rule: hex_string.induct)
  case (1 n)
  then show ?case by (cases "n < 16") (auto simp: hex_string.simps [of n])
qed

lemma hex_val_hex_string [simp]: "hex_val (hex_string n) = n"
proof (induction n rule: hex_string.induct)
  case (1 n)
  show ?case
  proof (cases "n < 16")
    case True
    then show ?thesis by (simp add: hex_string.simps [of n] hex_val_def)
  next
    case False
    with 1 show ?thesis by (simp add: hex_string.simps [of n])
  qed
qed

lemma length_hex_string: "n < 16 ^ Suc k \<Longrightarrow> length (hex_string n) \<le> Suc k"
proof (induction k arbitrary: n)
  case 0
  then show ?case by (simp add: hex_string.simps)
next
  case (Suc k)
  show ?case
  proof (cases "n < 16")
    case True
    then show ?thesis by (simp add: hex_string.simps [of n])
  next
    case False
    have "n div 16 < 16 ^ Suc k" using Suc.prems by (simp add: div_less_iff_less_mult mult.commute)
    from Suc.IH [OF this] False show ?thesis by (simp add: hex_string.simps [of n])
  qed
qed

lemma length_group: "g < 65536 \<Longrightarrow> length (hex_string g) \<le> 4"
  using length_hex_string [of g 3] by simp

lemma hex_not_special:
  assumes "is_hex c"
  shows "c \<noteq> CHR ''.''" "c \<noteq> CHR '':''" "c \<noteq> CHR ''%''" "c \<noteq> CHR ''/''"
  using assms by (auto simp: is_hex_def)

lemma not_is_hex [simp]: "\<not> is_hex CHR '':''" "\<not> is_hex CHR ''.''"
  by (auto simp: is_hex_def)

lemma takeWhile_hex_string [simp]:
  "takeWhile is_hex (hex_string g @ CHR '':'' # r) = hex_string g"
  "takeWhile is_hex (hex_string g) = hex_string g"
  "dropWhile is_hex (hex_string g @ CHR '':'' # r) = CHR '':'' # r"
  "dropWhile is_hex (hex_string g) = []"
  using hex_string_hex [of _ g] by (simp_all add: takeWhile_append dropWhile_append takeWhile_eq_all_conv)

text \<open>One round of the loop on a printed group\<close>

lemma parse6_group_end:
  "g < 65536 \<Longrightarrow> parse6_loop (Suc n) (hex_string g) gs e = Some (gs @ [g], e)"
  using length_group [of g] by simp

lemma hd_hex_string: "\<exists>c r. hex_string g = c # r \<and> c \<noteq> CHR '':''"
proof -
  obtain c r where "hex_string g = c # r" using hex_string_not_Nil by (meson neq_Nil_conv)
  moreover from this have "is_hex c" using hex_string_hex [of c g] by simp
  ultimately show ?thesis using hex_not_special(2) by blast
qed

lemma hd_Join_hex:
  "ys \<noteq> [] \<Longrightarrow> \<exists>c r. Join (map hex_string ys) CHR '':'' = c # r \<and> c \<noteq> CHR '':''"
proof -
  assume "ys \<noteq> []"
  then obtain y ys' where ys: "ys = y # ys'" by (meson neq_Nil_conv)
  obtain c r where "hex_string y = c # r" "c \<noteq> CHR '':''" using hd_hex_string by blast
  then show ?thesis by (cases ys') (auto simp: ys)
qed

lemma parse6_group_colon:
  assumes "g < 65536" and "s = c # r" and "c \<noteq> CHR '':''"
  shows "parse6_loop (Suc n) (hex_string g @ CHR '':'' # s) gs e = parse6_loop n s (gs @ [g]) e"
  using assms length_group [of g] by simp

lemma parse6_group_ellipsis:
  assumes "g < 65536"
  shows "parse6_loop (Suc n) (hex_string g @ CHR '':'' # CHR '':'' # s) gs None =
    (if s = [] then Some (gs @ [g], Some (Suc (length gs)))
     else parse6_loop n s (gs @ [g]) (Some (Suc (length gs))))"
  using assms length_group [of g] by simp

declare parse6_loop.simps(2) [simp del]

lemma parse6_groups:
  assumes "ys \<noteq> []" and "length ys \<le> n" and "\<forall>y \<in> set ys. y < 65536"
  shows "parse6_loop n (Join (map hex_string ys) CHR '':'') gs e = Some (gs @ ys, e)"
  using assms
proof (induction ys arbitrary: n gs)
  case Nil
  then show ?case by simp
next
  case (Cons y ys)
  then obtain m where n: "n = Suc m" by (cases n) auto
  show ?case
  proof (cases ys)
    case Nil
    with Cons.prems n show ?thesis by (simp add: parse6_group_end)
  next
    case (Cons z zs)
    obtain c r where "Join (map hex_string ys) CHR '':'' = c # r" "c \<noteq> CHR '':''"
      using hd_Join_hex [of ys] Cons by auto
    then have "parse6_loop n (Join (map hex_string (y # ys)) CHR '':'') gs e =
        parse6_loop m (Join (map hex_string ys) CHR '':'') (gs @ [y]) e"
      using Cons Cons.prems n by (simp add: parse6_group_colon)
    with Cons.IH [of m "gs @ [y]"] Cons.prems n Cons show ?thesis by simp
  qed
qed

lemma parse6_ellipsis:
  assumes "xs \<noteq> []" and "length xs + length ys \<le> n" and "\<forall>y \<in> set (xs @ ys). y < 65536"
  shows "parse6_loop n (Join (map hex_string xs) CHR '':'' @ ''::'' @ Join (map hex_string ys) CHR '':'')
    gs None = Some (gs @ xs @ ys, Some (length gs + length xs))"
  using assms
proof (induction xs arbitrary: n gs)
  case Nil
  then show ?case by simp
next
  case (Cons x xs)
  then obtain m where n: "n = Suc m" by (cases n) auto
  show ?case
  proof (cases xs)
    case Nil
    have "Join (map hex_string ys) CHR '':'' = [] \<longleftrightarrow> ys = []"
      using hd_Join_hex [of ys] by (cases ys) auto
    with Cons.prems n Nil show ?thesis
      using parse6_groups [of ys m "gs @ [x]" "Some (Suc (length gs))"]
      by (auto simp: parse6_group_ellipsis)
  next
    case (Cons z zs)
    obtain c r where "Join (map hex_string xs) CHR '':'' = c # r" "c \<noteq> CHR '':''"
      using hd_Join_hex [of xs] Cons by auto
    then have "parse6_loop n (Join (map hex_string (x # xs)) CHR '':'' @ ''::''
          @ Join (map hex_string ys) CHR '':'') gs None =
        parse6_loop m (Join (map hex_string xs) CHR '':'' @ ''::''
          @ Join (map hex_string ys) CHR '':'') (gs @ [x]) None"
      using Cons Cons.prems n by (simp add: parse6_group_colon)
    with Cons.IH [of m "gs @ [x]"] Cons.prems n Cons show ?thesis by simp
  qed
qed

section \<open>The run of zeros\<close>

text \<open>A candidate run is inside the list, spans at least two groups and holds zeros only.\<close>

definition good_run :: "nat list \<Rightarrow> nat \<times> nat \<Rightarrow> bool" where
  "good_run gs r \<longleftrightarrow> (case r of (s, e) \<Rightarrow>
     s + 2 \<le> e \<and> e \<le> length gs \<and> take (e - s) (drop s gs) = replicate (e - s) 0)"

lemma zero_run_take: "take (zero_run gs) gs = replicate (zero_run gs) 0"
proof -
  have "take (zero_run gs) gs = takeWhile (\<lambda>g. g = 0) gs"
    by (simp add: zero_run_def takeWhile_eq_take [symmetric])
  also have "\<dots> = replicate (zero_run gs) 0"
    by (rule replicate_eqI) (auto simp: zero_run_def dest: set_takeWhileD)
  finally show ?thesis .
qed

lemma zero_run_le: "zero_run gs \<le> length gs"
  by (simp add: zero_run_def length_takeWhile_le)

lemma longest_zero_run_good:
  assumes "longest_zero_run gs = Some r"
  shows "good_run gs r"
proof -
  let ?f = "\<lambda>i best. let l = zero_run (drop i gs) in
       if 2 \<le> l \<and> (case best of None \<Rightarrow> True | Some (s, e) \<Rightarrow> e - s < l) then Some (i, i + l)
       else best"
  have step: "good_run gs r"
    if "?f i best = Some r" and "\<And>r. best = Some r \<Longrightarrow> good_run gs r" and "i < length gs" for i best r
    using that zero_run_take [of "drop i gs"] zero_run_le [of "drop i gs"]
    by (auto simp: good_run_def Let_def split: if_splits)
  have "good_run gs r" if "fold ?f is best = Some r" and "\<forall>i \<in> set is. i < length gs"
    and "\<And>r. best = Some r \<Longrightarrow> good_run gs r" for "is" best r
    using that
  proof (induction "is" arbitrary: best)
    case Nil
    then show ?case by simp
  next
    case (Cons i "is")
    show ?case
      by (rule Cons.IH [of "?f i best"]) (use Cons.prems step in simp_all)
  qed
  from this [of "[0..<length gs]" None r] assms show ?thesis
    unfolding longest_zero_run_def by auto
qed

text \<open>Cutting a run out of the groups and expanding \<open>::\<close> in its place gives the groups back.\<close>

lemma expand6_run:
  assumes "good_run gs (s, e)" and "length gs = 8"
  shows "expand6 (take s gs @ drop e gs, Some s) = Some gs"
proof -
  have "gs = take s gs @ take (e - s) (drop s gs) @ drop e gs"
  proof -
    have "drop e gs = drop (e - s) (drop s gs)" using assms by (simp add: good_run_def)
    then show ?thesis by (simp only: append_take_drop_id)
  qed
  also have "\<dots> = take s gs @ replicate (e - s) 0 @ drop e gs"
    using assms by (simp add: good_run_def)
  finally have gs: "gs = take s gs @ replicate (e - s) 0 @ drop e gs" .
  have le: "s + 2 \<le> e" "e \<le> 8" using assms by (simp_all add: good_run_def)
  then have len: "length (take s gs @ drop e gs) = 8 - (e - s)" "8 - (e - s) < 8" "min 8 s = s"
    using assms by auto
  have "8 - (8 - (e - s)) = e - s" using le by simp
  with gs len assms show ?thesis by (simp add: expand6_def)
qed

section \<open>IPv6\<close>

lemma Join_hex_special:
  "c \<in> set (Join (map hex_string gs) CHR '':'') \<Longrightarrow> is_hex c \<or> c = CHR '':''"
  using set_Join [of "map hex_string gs" "CHR '':''"] by (auto dest: hex_string_hex)

lemma v6_String_chars: "c \<in> set (v6_String w) \<Longrightarrow> is_hex c \<or> c = CHR '':''"
  by (auto simp: v6_String_def Let_def split: option.splits dest: Join_hex_special)

lemma v6_String_special:
  shows "CHR ''.'' \<notin> set (v6_String w)" "CHR ''%'' \<notin> set (v6_String w)" "CHR ''/'' \<notin> set (v6_String w)"
  using v6_String_chars [of _ w] by (auto dest: hex_not_special)

lemma take2_Join_hex:
  assumes "gs \<noteq> []"
  shows "take 2 (Join (map hex_string gs) CHR '':'' @ s) \<noteq> ''::''"
proof -
  obtain c r where "Join (map hex_string gs) CHR '':'' = c # r" "c \<noteq> CHR '':''"
    using hd_Join_hex [OF assms] by blast
  then show ?thesis by (simp add: numeral_2_eq_2)
qed

lemma parseIPv6_String [simp]: "parseIPv6 (v6_String w) = Some (groups w)"
proof -
  let ?gs = "groups w"
  have b: "\<forall>g \<in> set ?gs. g < 65536" by (simp add: groups_bound)
  show ?thesis
  proof (cases "longest_zero_run ?gs")
    case None
    have ne: "?gs \<noteq> []" by simp
    have "parse6_loop 8 (Join (map hex_string ?gs) CHR '':'') [] None = Some ([] @ ?gs, None)"
      by (rule parse6_groups) (use ne b in simp_all)
    then show ?thesis
      using None take2_Join_hex [OF ne, of "[]"] v6_String_special(2) [of w]
      by (simp add: parseIPv6_def v6_String_def expand6_def)
  next
    case (Some r)
    obtain s e where r: "r = (s, e)" by (cases r)
    have good: "good_run ?gs (s, e)" using longest_zero_run_good [OF Some] r by simp
    then have len: "s + 2 \<le> e" "e \<le> 8" by (simp_all add: good_run_def)
    have ex: "expand6 (take s ?gs @ drop e ?gs, Some s) = Some ?gs"
      by (rule expand6_run [OF good]) simp
    have b2: "\<forall>g \<in> set (take s ?gs @ drop e ?gs). g < 65536"
      using b by (auto dest: in_set_takeD in_set_dropD)
    have str: "v6_String w = Join (map hex_string (take s ?gs)) CHR '':'' @ ''::''
        @ Join (map hex_string (drop e ?gs)) CHR '':''"
      using Some r by (simp add: v6_String_def Let_def)
    show ?thesis
    proof (cases "s = 0")
      case True
      show ?thesis
      proof (cases "drop e ?gs = []")
        case True
        with \<open>s = 0\<close> str ex v6_String_special(2) [of w] show ?thesis
          by (simp add: parseIPv6_def expand6_def)
      next
        case False
        have "parse6_loop 8 (Join (map hex_string (drop e ?gs)) CHR '':'') [] (Some 0)
            = Some ([] @ drop e ?gs, Some 0)"
          by (rule parse6_groups) (use False b2 in auto)
        moreover have "Join (map hex_string (drop e ?gs)) CHR '':'' \<noteq> []"
          using hd_Join_hex [OF False] by auto
        ultimately show ?thesis
          using \<open>s = 0\<close> str ex v6_String_special(2) [of w] by (simp add: parseIPv6_def)
      qed
    next
      case False
      then have ne: "take s ?gs \<noteq> []" by simp
      have "parse6_loop 8 (v6_String w) [] None
          = Some ([] @ take s ?gs @ drop e ?gs, Some (length ([]::nat list) + length (take s ?gs)))"
        unfolding str by (rule parse6_ellipsis) (use ne b2 len in auto)
      then have "parse6_loop 8 (v6_String w) [] None = Some (take s ?gs @ drop e ?gs, Some s)"
        using len by simp
      then show ?thesis
        using ex str take2_Join_hex [OF ne] v6_String_special(2) [of w]
        by (simp add: parseIPv6_def)
    qed
  qed
qed

lemma v6_String_colon: "CHR '':'' \<in> set (v6_String w)"
proof (cases "longest_zero_run (groups w)")
  case None
  have "length (groups w) = Suc (Suc 6)" by simp
  then obtain a b gs where "groups w = a # b # gs" by (metis length_Suc_conv)
  with None show ?thesis by (simp add: v6_String_def)
qed (auto simp: v6_String_def Let_def)

lemma ParseIP_v6_String: "ParseIP (v6_String w) = Some (IP16 w)"
proof -
  let ?P = "\<lambda>c. c \<notin> {CHR ''.'', CHR '':'', CHR ''%''}"
  have "dropWhile ?P (v6_String w) \<noteq> []"
    using v6_String_colon [of w] by (auto simp: dropWhile_eq_Nil_conv)
  then obtain c s where cs: "dropWhile ?P (v6_String w) = c # s" by (meson neq_Nil_conv)
  have "\<not> ?P c" using cs by (metis dropWhile_eq_Cons_conv)
  moreover have "c \<in> set (v6_String w)" using cs by (metis list.set_intros(1) set_dropWhileD)
  ultimately have "c = CHR '':''" using v6_String_special [of w] by auto
  with cs show ?thesis by (simp add: ParseIP_def)
qed

section \<open>Addresses and networks\<close>

text \<open>An address is plain when it is not an IPv4-mapped IPv6 address.\<close>

fun plain :: "ip \<Rightarrow> bool" where
  "plain (IP4 w) \<longleftrightarrow> True"
| "plain (IP16 w) \<longleftrightarrow> \<not> is4in6 w"

lemma ParseIP_String: "plain a \<Longrightarrow> ParseIP (IP_String a) = Some a"
  by (cases a) (simp_all add: IP_String_def ParseIP_v4_String ParseIP_v6_String)

lemma IP_String_slash: "CHR ''/'' \<notin> set (IP_String a)"
  by (cases a) (auto simp: IP_String_def v4_String_special v6_String_special)

lemma dtoi_Utoa: "n < 16777215 \<Longrightarrow> dtoi (Utoa n) = Some n"
  by (simp add: dtoi_def)

text \<open>Parsing an address and a mask length that were joined with a slash\<close>

lemma ParseCIDR_join:
  assumes "CHR ''/'' \<notin> set s"
  shows "ParseCIDR (s @ CHR ''/'' # Utoa n) =
    (case ParseIP s of
       Some a \<Rightarrow> if n \<le> BitLen a then Some (As16 a, \<lparr>net_IP = Mask n a, net_Ones = n\<rparr>) else None
     | None \<Rightarrow> None)"
proof -
  have "takeWhile (\<lambda>c. c \<noteq> CHR ''/'') (s @ CHR ''/'' # Utoa n) = s"
    using assms by (auto simp: takeWhile_append takeWhile_eq_all_conv)
  moreover have "dtoi (Utoa n) = (if n < 16777215 then Some n else None)"
    by (simp add: dtoi_def)
  moreover have "BitLen a < 16777215" for a by (cases a) simp_all
  ultimately show ?thesis
    by (simp add: ParseCIDR_def not_less split: option.splits) (metis leD less_le_trans not_le_imp_less)
qed

text \<open>A network is canonical when it is plain and its address has no bit outside the mask.\<close>

definition canonical :: "ipnet \<Rightarrow> bool" where
  "canonical n \<longleftrightarrow> plain (net_IP n) \<and> net_Ones n \<le> BitLen (net_IP n)
     \<and> Mask (net_Ones n) (net_IP n) = net_IP n"

lemma networkNumberAndMask_plain:
  "plain (net_IP n) \<Longrightarrow> networkNumberAndMask n = (net_IP n, net_Ones n)"
  by (cases "net_IP n") (simp_all add: networkNumberAndMask_def)

theorem ParseCIDR_net_String:
  assumes "canonical n"
  shows "ParseCIDR (net_String n) = Some (As16 (net_IP n), n)"
proof -
  have "net_String n = IP_String (net_IP n) @ CHR ''/'' # Utoa (net_Ones n)"
    using assms by (simp add: net_String_def networkNumberAndMask_plain canonical_def)
  with assms show ?thesis
    by (simp add: ParseCIDR_join IP_String_slash ParseIP_String canonical_def)
qed

corollary net_String_inject:
  "canonical m \<Longrightarrow> canonical n \<Longrightarrow> net_String m = net_String n \<longleftrightarrow> m = n"
  by (metis ParseCIDR_net_String option.inject prod.inject)

end
