(* ===== verification/Consolidation.thy ===== *)
theory Consolidation
  imports Api_Types Net_Roundtrip "HOL-Library.AList" "HOL-Library.Multiset"
begin

text \<open>
  Prefix consolidation (\<open>internal/consolidation/consolidation.go\<close>). \<open>ConsolidateV4\<close> and
  \<open>ConsolidateV6\<close> are the same code up to the number of bits of an address, so both are
  instances of \<open>consolidate\<close>. Two things the language leaves open are arguments: the order
  in which a map is ranged over (\<open>ord\<close>, one order per round) and the result of the unstable
  \<open>sort.Slice\<close> (\<open>srt\<close>). What Go guarantees of them is the locale \<open>go_runtime\<close>. The error
  result of both functions is always nil: no branch of the model is an \<open>Inl\<close>.
\<close>

section \<open>The model\<close>

text \<open>\<open>subnet.Address + "/" + fmt.Sprint(size)\<close>\<close>

definition cidr :: "string \<Rightarrow> int \<Rightarrow> string" where
  "cidr address sz = address @ ''/'' @ Sprint sz"

text \<open>The values of the map \<open>consolidables\<close>\<close>

record consolidable =
  con_mask :: int
  con_prefixes :: "ip list"

definition add_consolidable ::
  "int \<Rightarrow> PrefixEntry \<Rightarrow> (string \<times> consolidable) list \<Rightarrow> (string \<times> consolidable) list" where
  "add_consolidable prefixlen subnet m =
     (case ParseCIDR (cidr (Address subnet) prefixlen) of
        None \<Rightarrow> m
      | Some (_, subnetB) \<Rightarrow>
          (case ParseCIDR (cidr (Address subnet) (Size subnet)) of
             None \<Rightarrow> m
           | Some (_, subnetC) \<Rightarrow>
               (case map_of m (net_String subnetB) of
                  Some val \<Rightarrow>
                    if IP_Equal (hd (con_prefixes val)) (net_IP subnetC) then m
                    else AList.update (net_String subnetB)
                           (val\<lparr>con_prefixes := con_prefixes val @ [net_IP subnetC]\<rparr>) m
                | None \<Rightarrow>
                    AList.update (net_String subnetB)
                      \<lparr>con_mask = Size subnet, con_prefixes = [net_IP subnetC]\<rparr> m)))"

definition consolidated :: "string \<times> consolidable \<Rightarrow> PrefixEntry option" where
  "consolidated kv = (case kv of (key, val) \<Rightarrow>
     if 1 < length (con_prefixes val) then
       (case ParseCIDR key of
          None \<Rightarrow> None
        | Some (_, newPrefix) \<Rightarrow>
            Some \<lparr>Address = IP_String (net_IP newPrefix), Size = int (net_Ones newPrefix)\<rparr>)
     else None)"

text \<open>One round: join the pairs of networks one bit longer than \<open>prefixlen\<close>.\<close>

definition consolidate_round ::
  "((string \<times> consolidable) list \<Rightarrow> (string \<times> consolidable) list) \<Rightarrow> int
   \<Rightarrow> PrefixEntry list \<Rightarrow> PrefixEntry list" where
  "consolidate_round ord prefixlen prefixes =
     (let smallerSubnets = filter (\<lambda>subnet. Size subnet - 1 = prefixlen) prefixes in
      if length smallerSubnets \<le> 1 then prefixes
      else prefixes @ List.map_filter consolidated
             (ord (fold (add_consolidable prefixlen) smallerSubnets [])))"

text \<open>The descending loop \<open>for prefixlen := bits - 1; prefixlen > 1; prefixlen--\<close>\<close>

definition merge_rounds ::
  "(int \<Rightarrow> (string \<times> consolidable) list \<Rightarrow> (string \<times> consolidable) list) \<Rightarrow> nat
   \<Rightarrow> PrefixEntry list \<Rightarrow> PrefixEntry list" where
  "merge_rounds ord bits prefixes =
     fold (\<lambda>k ps. consolidate_round (ord (int k)) (int k) ps) (rev [2..<bits]) prefixes"

text \<open>Marking what a supernet contains\<close>

definition mark_child ::
  "int \<Rightarrow> ipnet \<Rightarrow> PrefixEntry \<Rightarrow> (string \<times> PrefixEntry) list \<Rightarrow> (string \<times> PrefixEntry) list" where
  "mark_child prefixlen subnetS subnetCh toBeDeleted =
     (if prefixlen < Size subnetCh then
        (case ParseCIDR (cidr (Address subnetCh) (Size subnetCh)) of
           None \<Rightarrow> toBeDeleted
         | Some (_, subnetChP) \<Rightarrow>
             if Contains subnetS (net_IP subnetChP) then
               (case map_of toBeDeleted (net_String subnetChP) of
                  Some _ \<Rightarrow> toBeDeleted
                | None \<Rightarrow> AList.update (net_String subnetChP) subnetCh toBeDeleted)
             else toBeDeleted)
      else toBeDeleted)"

definition mark_supernet ::
  "PrefixEntry list \<Rightarrow> int \<Rightarrow> PrefixEntry \<Rightarrow> (string \<times> PrefixEntry) list
   \<Rightarrow> (string \<times> PrefixEntry) list" where
  "mark_supernet prefixes prefixlen subnet toBeDeleted =
     (if Size subnet = prefixlen then
        (case ParseCIDR (cidr (Address subnet) prefixlen) of
           None \<Rightarrow> toBeDeleted
         | Some (_, subnetS) \<Rightarrow> fold (mark_child prefixlen subnetS) prefixes toBeDeleted)
      else toBeDeleted)"

definition mark_all :: "nat \<Rightarrow> PrefixEntry list \<Rightarrow> (string \<times> PrefixEntry) list" where
  "mark_all bits prefixes =
     fold (\<lambda>k d. fold (mark_supernet prefixes (int k)) prefixes d) [0..<bits] []"

definition keep_prefixes ::
  "(string \<times> PrefixEntry) list \<Rightarrow> PrefixEntry list \<Rightarrow> PrefixEntry list" where
  "keep_prefixes toBeDeleted prefixes =
     filter (\<lambda>prefix.
       (case ParseCIDR (cidr (Address prefix) (Size prefix)) of
          None \<Rightarrow> False
        | Some (_, s) \<Rightarrow> map_of toBeDeleted (net_String s) = None)) prefixes"

text \<open>The comparison of \<open>sort.Slice\<close>: the printed addresses, as strings\<close>

definition ip_text :: "PrefixEntry \<Rightarrow> string" where
  "ip_text p = (case ParseCIDR (cidr (Address p) (Size p)) of
     None \<Rightarrow> ''<nil>'' | Some (ip, _) \<Rightarrow> IP_String ip)"

definition prefix_less :: "PrefixEntry \<Rightarrow> PrefixEntry \<Rightarrow> bool" where
  "prefix_less p q \<longleftrightarrow> ip_text p < ip_text q"

definition consolidate ::
  "(int \<Rightarrow> (string \<times> consolidable) list \<Rightarrow> (string \<times> consolidable) list)
   \<Rightarrow> ((PrefixEntry \<Rightarrow> PrefixEntry \<Rightarrow> bool) \<Rightarrow> PrefixEntry list \<Rightarrow> PrefixEntry list)
   \<Rightarrow> nat \<Rightarrow> PrefixEntry list \<Rightarrow> string + PrefixEntry list" where
  "consolidate ord srt bits prefixes =
     (let prefixes' = merge_rounds ord bits prefixes in
      Inr (srt prefix_less (keep_prefixes (mark_all bits prefixes') prefixes')))"

definition ConsolidateV4 where
  "ConsolidateV4 ord srt prefixes = consolidate ord srt 32 prefixes"

definition ConsolidateV6 where
  "ConsolidateV6 ord srt prefixes = consolidate ord srt 128 prefixes"

section \<open>What the language guarantees\<close>

text \<open>
  A range over a map visits every entry once, in some order; \<open>sort.Slice\<close> permutes the slice
  so that no element is less than an earlier one, when \<open>less\<close> compares keys of a linear order.
\<close>

locale go_runtime =
  fixes ord :: "int \<Rightarrow> (string \<times> consolidable) list \<Rightarrow> (string \<times> consolidable) list"
    and srt :: "(PrefixEntry \<Rightarrow> PrefixEntry \<Rightarrow> bool) \<Rightarrow> PrefixEntry list \<Rightarrow> PrefixEntry list"
  assumes ord_mset: "mset (ord k m) = mset m"
    and srt_mset: "mset (srt lt xs) = mset xs"
    and srt_sorted: "(\<And>x y. lt x y \<longleftrightarrow> (f x :: string) < f y) \<Longrightarrow> sorted_wrt (\<lambda>x y. f x \<le> f y) (srt lt xs)"
begin

lemma ord_set [simp]: "set (ord k m) = set m"
  using ord_mset by (metis set_mset_mset)

lemma srt_set [simp]: "set (srt lt xs) = set xs"
  using srt_mset by (metis set_mset_mset)

end

text \<open>A runtime that ranges in insertion order and sorts by insertion\<close>

fun insort_less :: "('a \<Rightarrow> 'a \<Rightarrow> bool) \<Rightarrow> 'a \<Rightarrow> 'a list \<Rightarrow> 'a list" where
  "insort_less lt x [] = [x]"
| "insort_less lt x (y # ys) = (if lt y x then y # insort_less lt x ys else x # y # ys)"

definition insertion_sort :: "('a \<Rightarrow> 'a \<Rightarrow> bool) \<Rightarrow> 'a list \<Rightarrow> 'a list" where
  "insertion_sort lt xs = foldr (insort_less lt) xs []"

definition insertion_order :: "int \<Rightarrow> 'b list \<Rightarrow> 'b list" where
  "insertion_order k m = m"

lemma mset_insort_less: "mset (insort_less lt x xs) = add_mset x (mset xs)"
  by (induction xs) auto

lemma set_insort_less [simp]: "set (insort_less lt x xs) = insert x (set xs)"
  by (metis mset_insort_less set_mset_add_mset_insert set_mset_mset)

lemma mset_insertion_sort: "mset (insertion_sort lt xs) = mset xs"
  unfolding insertion_sort_def by (induction xs) (simp_all add: mset_insort_less)

lemma sorted_insort_less:
  fixes f :: "'a \<Rightarrow> 'k::linorder"
  assumes "\<And>x y. lt x y \<longleftrightarrow> f x < f y" and "sorted_wrt (\<lambda>x y. f x \<le> f y) xs"
  shows "sorted_wrt (\<lambda>x y. f x \<le> f y) (insort_less lt x xs)"
  using assms(2)
proof (induction xs)
  case (Cons y ys)
  show ?case
  proof (cases "f y < f x")
    case True
    with Cons show ?thesis by (auto simp: assms(1) [of y x])
  next
    case False
    with Cons.prems show ?thesis by (simp add: assms(1) [of y x]) force
  qed
qed simp

lemma sorted_insertion_sort:
  fixes f :: "'a \<Rightarrow> 'k::linorder"
  assumes "\<And>x y. lt x y \<longleftrightarrow> f x < f y"
  shows "sorted_wrt (\<lambda>x y. f x \<le> f y) (insertion_sort lt xs)"
  unfolding insertion_sort_def
  by (induction xs) (simp_all add: sorted_insort_less [OF assms])

interpretation reference_runtime: go_runtime insertion_order insertion_sort
  by unfold_locales
    (simp_all add: insertion_order_def mset_insertion_sort sorted_insertion_sort)

end
