(* ===== verification/Consolidation_Correct.thy ===== *)
theory Consolidation_Correct
  imports Consolidation
begin

unbundle bit_operations_syntax

text \<open>
  Correctness of the prefix consolidation: what a list of prefixes covers is what the
  consolidated list covers, no kept prefix lies inside another, no two halves of a network of
  length at least two are left over, and consolidating again changes nothing.
\<close>

section \<open>Masks\<close>

lemma bit_mask_word:
  fixes w :: "'a::len word"
  shows "bit (mask_word n w) i \<longleftrightarrow> LENGTH('a) - n \<le> i \<and> bit w i"
  by (auto simp: mask_word_def bit_simps dest: bit_imp_le_length)

lemma mask_word_eq_iff:
  fixes v w :: "'a::len word"
  shows "mask_word n v = mask_word n w \<longleftrightarrow>
    (\<forall>i. LENGTH('a) - n \<le> i \<longrightarrow> i < LENGTH('a) \<longrightarrow> bit v i = bit w i)"
  by (auto simp: bit_eq_iff bit_mask_word dest: bit_imp_le_length)

lemma mask_word_mask_word [simp]:
  "m \<le> n \<Longrightarrow> mask_word m (mask_word n w) = mask_word m w"
  by (rule bit_word_eqI) (auto simp: bit_mask_word)

lemma mask_word_anti: "m \<le> n \<Longrightarrow> mask_word n v = mask_word n w \<Longrightarrow> mask_word m v = mask_word m w"
  by (metis mask_word_mask_word)

text \<open>A network of length \<open>k\<close> is the union of its two halves of length \<open>k + 1\<close>.\<close>

lemma mask_word_halves:
  fixes u v x :: "'a::len word"
  assumes "Suc k \<le> LENGTH('a)" and "mask_word k u = mask_word k v"
    and "mask_word (Suc k) u \<noteq> mask_word (Suc k) v" and "mask_word k x = mask_word k u"
  shows "mask_word (Suc k) x = mask_word (Suc k) u \<or> mask_word (Suc k) x = mask_word (Suc k) v"
proof -
  let ?j = "LENGTH('a) - Suc k"
  have split: "mask_word (Suc k) a = mask_word (Suc k) b \<longleftrightarrow>
      mask_word k a = mask_word k b \<and> bit a ?j = bit b ?j" for a b :: "'a word"
  proof -
    have "LENGTH('a) - Suc k \<le> i \<longleftrightarrow> LENGTH('a) - k \<le> i \<or> i = ?j" for i
      using assms(1) by auto
    then show ?thesis using assms(1) by (auto simp: mask_word_eq_iff)
  qed
  from assms show ?thesis by (auto simp: split)
qed

lemma is4in6_mask_word:
  assumes "n \<le> 128"
  shows "is4in6 (mask_word n w) \<longleftrightarrow> 96 \<le> n \<and> is4in6 w"
proof -
  have eq: "is4in6 x \<longleftrightarrow> (\<forall>i. 32 \<le> i \<longrightarrow> i < 128 \<longrightarrow> bit x i = (i < 48))" for x :: "128 word"
  proof -
    have c: "(65535 :: 128 word) = mask 16" by (simp add: mask_eq_exp_minus_1)
    have "is4in6 x \<longleftrightarrow> (\<forall>i. i < 128 \<longrightarrow> bit x (32 + i) = (i < 16))"
      by (auto simp: is4in6_def c bit_eq_iff bit_simps)
    also have "\<dots> \<longleftrightarrow> (\<forall>i. 32 \<le> i \<longrightarrow> i < 128 \<longrightarrow> bit x i = (i < 48))"
    proof (rule iffI; intro allI impI)
      fix i :: nat assume "\<forall>i. i < 128 \<longrightarrow> bit x (32 + i) = (i < 16)" and "32 \<le> i" "i < 128"
      then show "bit x i = (i < 48)" by (auto dest!: spec [of _ "i - 32"])
    next
      fix i :: nat
      assume a: "\<forall>i. 32 \<le> i \<longrightarrow> i < 128 \<longrightarrow> bit x i = (i < 48)" and "i < 128"
      show "bit x (32 + i) = (i < 16)"
      proof (cases "32 + i < 128")
        case True
        with a show ?thesis by auto
      next
        case False
        then have "\<not> bit x (32 + i)" using bit_imp_le_length [of x "32 + i"] by auto
        with False show ?thesis by simp
      qed
    qed
    finally show ?thesis .
  qed
  show ?thesis
  proof
    assume l: "is4in6 (mask_word n w)"
    then have "bit (mask_word n w) 32" by (simp add: eq)
    then have "128 - n \<le> 32" by (simp add: bit_mask_word)
    then have n: "96 \<le> n" using assms by linarith
    with l assms have "is4in6 w" by (auto simp: eq bit_mask_word)
    with n show "96 \<le> n \<and> is4in6 w" by simp
  next
    assume "96 \<le> n \<and> is4in6 w"
    with assms show "is4in6 (mask_word n w)" by (auto simp: eq bit_mask_word)
  qed
qed

section \<open>Masks of addresses\<close>

lemma Mask_Mask [simp]: "m \<le> n \<Longrightarrow> Mask m (Mask n a) = Mask m a"
  by (cases a) simp_all

lemma BitLen_Mask [simp]: "BitLen (Mask n a) = BitLen a"
  by (cases a) simp_all

lemma Mask_eq_BitLen: "Mask n a = Mask n b \<Longrightarrow> BitLen a = BitLen b"
  by (metis BitLen_Mask)

lemma Mask_anti: "m \<le> n \<Longrightarrow> Mask n a = Mask n b \<Longrightarrow> Mask m a = Mask m b"
  by (metis Mask_Mask)

lemma Mask_halves:
  assumes "Suc k \<le> BitLen a" and "Mask k a = Mask k b" and "Mask (Suc k) a \<noteq> Mask (Suc k) b"
    and "Mask k x = Mask k a"
  shows "Mask (Suc k) x = Mask (Suc k) a \<or> Mask (Suc k) x = Mask (Suc k) b"
  using assms mask_word_halves [where ?'a = 32] mask_word_halves [where ?'a = 128]
  by (cases a; cases b; cases x) auto

lemma plain_Mask:
  "n \<le> BitLen a \<Longrightarrow> plain (Mask n a) \<longleftrightarrow> (case a of IP4 w \<Rightarrow> True | IP16 w \<Rightarrow> n < 96 \<or> \<not> is4in6 w)"
  by (cases a) (auto simp: is4in6_mask_word)

lemma plain_Mask_anti: "m \<le> n \<Longrightarrow> n \<le> BitLen a \<Longrightarrow> plain (Mask n a) \<Longrightarrow> plain (Mask m a)"
  by (auto simp: plain_Mask split: ip.splits)

text \<open>The form in which an address is compared: four bytes for an IPv4 address\<close>

definition norm :: "ip \<Rightarrow> ip" where
  "norm x = (case To4 x of Some v \<Rightarrow> IP4 v | None \<Rightarrow> x)"

lemma norm_plain [simp]: "plain a \<Longrightarrow> norm a = a"
  by (cases a) (simp_all add: norm_def)

lemma Contains_plain:
  "plain (net_IP n) \<Longrightarrow> Contains n x \<longleftrightarrow> Mask (net_Ones n) (net_IP n) = Mask (net_Ones n) (norm x)"
  by (auto simp: Contains_def networkNumberAndMask_plain norm_def Let_def dest: Mask_eq_BitLen)

lemma IP_Equal_refl [simp]: "IP_Equal a a"
  by (cases a) simp_all

lemma IP_Equal_same_family: "BitLen a = BitLen b \<Longrightarrow> IP_Equal a b \<longleftrightarrow> a = b"
  by (cases a; cases b) simp_all

section \<open>Parsing an entry\<close>

lemma ParseCIDR_cidr:
  "ParseCIDR (cidr s k) =
    (if CHR ''/'' \<in> set s \<or> k < 0 then None
     else case ParseIP s of
       Some a \<Rightarrow> if nat k \<le> BitLen a then Some (As16 a, \<lparr>net_IP = Mask (nat k) a, net_Ones = nat k\<rparr>) else None
     | None \<Rightarrow> None)"
proof (cases "CHR ''/'' \<in> set s \<or> k < 0")
  case True
  have "dtoi (drop (Suc (length (takeWhile (\<lambda>c. c \<noteq> CHR ''/'') (cidr s k)))) (cidr s k)) = None"
  proof (cases "CHR ''/'' \<in> set s")
    case slash: True
    then obtain u v where s: "s = u @ CHR ''/'' # v" "CHR ''/'' \<notin> set u" by (meson split_list_first)
    then have "takeWhile (\<lambda>c. c \<noteq> CHR ''/'') (cidr s k) = u"
      by (auto simp: cidr_def takeWhile_append takeWhile_eq_all_conv)
    moreover have "\<not> is_digit CHR ''/''" by (simp add: is_digit_def)
    ultimately show ?thesis by (auto simp: s cidr_def dtoi_def)
  next
    case False
    then have "takeWhile (\<lambda>c. c \<noteq> CHR ''/'') (cidr s k) = s"
      by (auto simp: cidr_def takeWhile_append takeWhile_eq_all_conv)
    moreover have "\<not> is_digit CHR ''-''" by (simp add: is_digit_def)
    ultimately show ?thesis using True False by (simp add: cidr_def dtoi_def Sprint_def)
  qed
  with True show ?thesis by (auto simp: ParseCIDR_def Let_def split: option.splits)
next
  case False
  then have "cidr s k = s @ CHR ''/'' # Utoa (nat k)" by (simp add: cidr_def Sprint_def)
  with False show ?thesis by (simp add: ParseCIDR_join)
qed

text \<open>The network an entry stands for, if its text is an address and its size fits\<close>

definition net_of :: "PrefixEntry \<Rightarrow> ipnet option" where
  "net_of p = map_option snd (ParseCIDR (cidr (Address p) (Size p)))"

lemma net_of_SomeE:
  assumes "net_of p = Some N"
  obtains a n where "CHR ''/'' \<notin> set (Address p)" "ParseIP (Address p) = Some a" "Size p = int n"
    "n \<le> BitLen a" "N = \<lparr>net_IP = Mask n a, net_Ones = n\<rparr>"
  using assms that [of _ "nat (Size p)"]
  by (auto simp: net_of_def ParseCIDR_cidr split: if_splits option.splits)

lemma ParseCIDR_of_net:
  "ParseCIDR (cidr (Address p) (Size p)) = Some (i, N) \<Longrightarrow> net_of p = Some N"
  by (simp add: net_of_def)

text \<open>The addresses an entry covers, and a list of entries\<close>

definition covers :: "PrefixEntry \<Rightarrow> ip set" where
  "covers p = (case net_of p of None \<Rightarrow> {} | Some N \<Rightarrow> {x. Contains N x})"

definition covered :: "PrefixEntry list \<Rightarrow> ip set" where
  "covered ps = (\<Union>p \<in> set ps. covers p)"

text \<open>An entry is plain when it does not name a network of IPv4-mapped IPv6 addresses.\<close>

definition plain_entry :: "PrefixEntry \<Rightarrow> bool" where
  "plain_entry p \<longleftrightarrow> (case net_of p of None \<Rightarrow> True | Some N \<Rightarrow> plain (net_IP N))"

lemma covers_plain:
  assumes "net_of p = Some N" and "plain_entry p"
  shows "x \<in> covers p \<longleftrightarrow> Mask (net_Ones N) (net_IP N) = Mask (net_Ones N) (norm x)"
  using assms by (simp add: covers_def plain_entry_def Contains_plain)

lemma net_of_canonical:
  assumes "net_of p = Some N" and "plain_entry p"
  shows "canonical N"
  using assms by (auto elim!: net_of_SomeE simp: canonical_def plain_entry_def)

text \<open>The parent network of an entry, one bit shorter\<close>

definition parent_of :: "PrefixEntry \<Rightarrow> ipnet option" where
  "parent_of p = map_option snd (ParseCIDR (cidr (Address p) (Size p - 1)))"

lemma parent_of_net:
  assumes "net_of p = Some N" and "1 \<le> Size p"
  shows "parent_of p = Some \<lparr>net_IP = Mask (net_Ones N - 1) (net_IP N), net_Ones = net_Ones N - 1\<rparr>"
  using assms by (elim net_of_SomeE) (auto simp: parent_of_def ParseCIDR_cidr nat_diff_distrib')

lemma parent_of_canonical:
  assumes "net_of p = Some N" and "1 \<le> Size p" and "plain_entry p" and "parent_of p = Some B"
  shows "canonical B"
proof -
  obtain a n where N: "n \<le> BitLen a" "N = \<lparr>net_IP = Mask n a, net_Ones = n\<rparr>"
    using assms(1) by (elim net_of_SomeE)
  moreover have "plain (net_IP N)" using assms by (simp add: plain_entry_def)
  ultimately have "plain (Mask (n - 1) a)" using plain_Mask_anti [of "n - 1" n a] by simp
  with N assms(4) parent_of_net [OF assms(1,2)] show ?thesis by (auto simp: canonical_def)
qed

section \<open>One round\<close>

text \<open>Entry \<open>s\<close> puts the address \<open>x\<close> under the key of its parent network.\<close>

definition child :: "PrefixEntry \<Rightarrow> string \<Rightarrow> ip \<Rightarrow> bool" where
  "child s key x \<longleftrightarrow> (\<exists>B C. parent_of s = Some B \<and> net_of s = Some C \<and> key = net_String B \<and> x = net_IP C)"

text \<open>
  What the map \<open>consolidables\<close> holds after the entries \<open>L\<close>: every value lists addresses of
  entries under its key and does not repeat the first of them, and every entry of \<open>L\<close> is there.
\<close>

definition con_ok :: "PrefixEntry set \<Rightarrow> string \<Rightarrow> consolidable \<Rightarrow> bool" where
  "con_ok L key val \<longleftrightarrow> con_prefixes val \<noteq> [] \<and>
     (\<forall>x \<in> set (tl (con_prefixes val)). \<not> IP_Equal (hd (con_prefixes val)) x) \<and>
     (\<forall>x \<in> set (con_prefixes val). \<exists>s \<in> L. child s key x)"

definition con_has :: "(string \<times> consolidable) list \<Rightarrow> PrefixEntry \<Rightarrow> bool" where
  "con_has m s \<longleftrightarrow> (\<forall>key x. child s key x \<longrightarrow>
     (\<exists>val. map_of m key = Some val \<and> (\<exists>y \<in> set (con_prefixes val). IP_Equal y x)))"

definition con_inv :: "PrefixEntry set \<Rightarrow> (string \<times> consolidable) list \<Rightarrow> bool" where
  "con_inv L m \<longleftrightarrow> distinct (map fst m) \<and>
     (\<forall>key val. map_of m key = Some val \<longrightarrow> con_ok L key val) \<and> (\<forall>s \<in> L. con_has m s)"

lemma con_inv_Nil [simp]: "con_inv {} []"
  by (simp add: con_inv_def)

lemma con_ok_insert: "con_ok L key val \<Longrightarrow> con_ok (insert s L) key val"
  by (auto simp: con_ok_def)

lemma child_unique: "child s key x \<Longrightarrow> child s key' x' \<Longrightarrow> key' = key \<and> x' = x"
  by (auto simp: child_def)

lemma con_hasI:
  "child s key x \<Longrightarrow> map_of m key = Some val \<Longrightarrow> y \<in> set (con_prefixes val) \<Longrightarrow> IP_Equal y x
   \<Longrightarrow> con_has m s"
  unfolding con_has_def using child_unique by blast

lemma con_has_update:
  assumes "con_has m s" and "\<And>old. map_of m key = Some old \<Longrightarrow> set (con_prefixes old) \<subseteq> set (con_prefixes new)"
  shows "con_has (AList.update key new m) s"
  using assms unfolding con_has_def update_conv' by (metis fun_upd_apply in_mono option.inject)

lemma add_consolidable_eq:
  assumes "Size s - 1 = k"
  shows "(\<nexists>key x. child s key x) \<Longrightarrow> add_consolidable k s m = m"
    and "child s key x \<Longrightarrow> add_consolidable k s m =
      (case map_of m key of
         Some val \<Rightarrow> if IP_Equal (hd (con_prefixes val)) x then m
                     else AList.update key (val\<lparr>con_prefixes := con_prefixes val @ [x]\<rparr>) m
       | None \<Rightarrow> AList.update key \<lparr>con_mask = Size s, con_prefixes = [x]\<rparr> m)"
  using assms
  by (auto simp: add_consolidable_def child_def parent_of_def net_of_def split: option.splits)

lemma con_inv_update:
  assumes "con_inv L m" and "con_ok (insert s L) key new" and "child s key x"
    and "x \<in> set (con_prefixes new)"
    and "\<And>old. map_of m key = Some old \<Longrightarrow> set (con_prefixes old) \<subseteq> set (con_prefixes new)"
  shows "con_inv (insert s L) (AList.update key new m)"
proof -
  have "con_has (AList.update key new m) s"
    by (rule con_hasI [OF assms(3) _ assms(4)]) (simp_all add: update_conv')
  moreover have "\<forall>t \<in> L. con_has (AList.update key new m) t"
    using assms(1,5) con_has_update unfolding con_inv_def by blast
  ultimately show ?thesis
    using assms(1,2) by (auto simp: con_inv_def distinct_update update_conv' con_ok_insert)
qed

lemma con_inv_step:
  assumes inv: "con_inv L m" and k: "Size s - 1 = k"
  shows "con_inv (insert s L) (add_consolidable k s m)"
proof (cases "\<exists>key x. child s key x")
  case False
  then have "con_has m s" by (simp add: con_has_def)
  with inv have "con_inv (insert s L) m" by (simp add: con_inv_def con_ok_insert)
  with False show ?thesis by (simp add: add_consolidable_eq(1) [OF k])
next
  case True
  then obtain key x where ch: "child s key x" by blast
  show ?thesis
  proof (cases "map_of m key")
    case None
    have "con_inv (insert s L) (AList.update key \<lparr>con_mask = Size s, con_prefixes = [x]\<rparr> m)"
      by (rule con_inv_update [OF inv _ ch]) (use ch None in \<open>auto simp: con_ok_def\<close>)
    with None show ?thesis by (simp add: add_consolidable_eq(2) [OF k ch])
  next
    case (Some val)
    have ok: "con_ok L key val" using inv Some by (simp add: con_inv_def)
    then have ne: "con_prefixes val \<noteq> []" by (simp add: con_ok_def)
    show ?thesis
    proof (cases "IP_Equal (hd (con_prefixes val)) x")
      case True
      have "con_has m s" by (rule con_hasI [OF ch Some _ True]) (use ne in simp)
      with inv have "con_inv (insert s L) m" by (simp add: con_inv_def con_ok_insert)
      with True Some show ?thesis by (simp add: add_consolidable_eq(2) [OF k ch])
    next
      case False
      have "con_inv (insert s L) (AList.update key (val\<lparr>con_prefixes := con_prefixes val @ [x]\<rparr>) m)"
        by (rule con_inv_update [OF inv _ ch])
          (use ch ok ne False Some in \<open>auto simp: con_ok_def\<close>)
      with False Some show ?thesis by (simp add: add_consolidable_eq(2) [OF k ch])
    qed
  qed
qed

lemma con_inv_fold:
  assumes "\<forall>s \<in> set ss. Size s - 1 = k"
  shows "con_inv (set ss) (fold (add_consolidable k) ss [])"
proof -
  have "con_inv (L \<union> set ss) (fold (add_consolidable k) ss m)" if "con_inv L m" for L m
    using assms that
  proof (induction ss arbitrary: L m)
    case (Cons s ss)
    have "con_inv (insert s L) (add_consolidable k s m)"
      using Cons.prems by (simp add: con_inv_step)
    from Cons.IH [OF _ this] Cons.prems show ?case by simp
  qed simp
  from this [of "{}" "[]"] show ?thesis by simp
qed

text \<open>The entry that a joined network is written as\<close>

definition entry_of :: "ipnet \<Rightarrow> PrefixEntry" where
  "entry_of B = \<lparr>Address = IP_String (net_IP B), Size = int (net_Ones B)\<rparr>"

lemma net_of_entry_of [simp]: "canonical B \<Longrightarrow> net_of (entry_of B) = Some B"
proof -
  assume B: "canonical B"
  then have "cidr (Address (entry_of B)) (Size (entry_of B)) = net_String B"
    by (simp add: entry_of_def cidr_def net_String_def canonical_def networkNumberAndMask_plain)
  with B show ?thesis by (simp add: net_of_def ParseCIDR_net_String)
qed

lemma Size_entry_of [simp]: "Size (entry_of B) = int (net_Ones B)"
  by (simp add: entry_of_def)

lemma plain_entry_of [simp]: "canonical B \<Longrightarrow> plain_entry (entry_of B)"
  by (simp add: plain_entry_def canonical_def [of B])

text \<open>Two entries of the same length are siblings when they are the two halves of one network.\<close>

definition siblings :: "PrefixEntry \<Rightarrow> PrefixEntry \<Rightarrow> ipnet \<Rightarrow> bool" where
  "siblings p q B \<longleftrightarrow> Size p = Size q \<and> 1 \<le> Size p \<and> parent_of p = Some B \<and> parent_of q = Some B \<and>
     (\<exists>P Q. net_of p = Some P \<and> net_of q = Some Q \<and> net_IP P \<noteq> net_IP Q)"

lemma siblings_parent:
  assumes "siblings p q B" and "plain_entry p"
  shows "canonical B" and "int (net_Ones B) = Size p - 1"
proof -
  obtain P where P: "net_of p = Some P" "1 \<le> Size p" "parent_of p = Some B"
    using assms(1) unfolding siblings_def by blast
  show "canonical B" by (rule parent_of_canonical [OF P(1,2) assms(2) P(3)])
  have "Size p = int (net_Ones P)" using P(1) by (elim net_of_SomeE) simp
  with P show "int (net_Ones B) = Size p - 1"
    using parent_of_net [OF P(1,2)] by auto
qed

text \<open>A joined network covers exactly what its halves cover.\<close>

lemma siblings_cover:
  assumes "siblings p q B" and "plain_entry p" and "plain_entry q"
  shows "covers (entry_of B) = covers p \<union> covers q"
proof -
  obtain P Q where PQ: "net_of p = Some P" "net_of q = Some Q" "net_IP P \<noteq> net_IP Q"
    and sz: "Size p = Size q" "1 \<le> Size p" and B: "parent_of p = Some B" "parent_of q = Some B"
    using assms(1) unfolding siblings_def by blast
  obtain a n where a: "Size p = int n" "n \<le> BitLen a" "P = \<lparr>net_IP = Mask n a, net_Ones = n\<rparr>"
    using PQ(1) by (elim net_of_SomeE)
  obtain b m where b: "Size q = int m" "m \<le> BitLen b" "Q = \<lparr>net_IP = Mask m b, net_Ones = m\<rparr>"
    using PQ(2) by (elim net_of_SomeE)
  have "n = m" "1 \<le> n" using a(1) b(1) sz by linarith+
  then obtain k where k: "n = Suc k" "m = Suc k" by (cases n) auto
  have B': "B = \<lparr>net_IP = Mask k a, net_Ones = k\<rparr>" "Mask k a = Mask k b"
    using B sz parent_of_net [OF PQ(1)] parent_of_net [OF PQ(2)] by (auto simp: a b k)
  have can: "canonical B" by (rule siblings_parent(1) [OF assms(1,2)])
  have neq: "Mask (Suc k) a \<noteq> Mask (Suc k) b" using PQ(3) by (simp add: a b k)
  have cov: "x \<in> covers p \<longleftrightarrow> Mask (Suc k) a = Mask (Suc k) (norm x)"
    "x \<in> covers q \<longleftrightarrow> Mask (Suc k) b = Mask (Suc k) (norm x)"
    "x \<in> covers (entry_of B) \<longleftrightarrow> Mask k a = Mask k (norm x)" for x
    using covers_plain [OF PQ(1) assms(2)] covers_plain [OF PQ(2) assms(3)]
      covers_plain [OF net_of_entry_of [OF can] plain_entry_of [OF can]]
    by (simp_all add: a b k B'(1))
  show ?thesis
  proof (intro equalityI subsetI)
    fix x assume "x \<in> covers (entry_of B)"
    then have "Mask k (norm x) = Mask k a" by (simp add: cov)
    with Mask_halves [OF _ B'(2) neq, of "norm x"] a k
    have "Mask (Suc k) (norm x) = Mask (Suc k) a \<or> Mask (Suc k) (norm x) = Mask (Suc k) b" by simp
    then show "x \<in> covers p \<union> covers q" by (auto simp: cov)
  next
    fix x assume "x \<in> covers p \<union> covers q"
    then show "x \<in> covers (entry_of B)"
      using Mask_anti [of k "Suc k" a "norm x"] Mask_anti [of k "Suc k" b "norm x"] B'(2)
      by (auto simp: cov)
  qed
qed

lemma childE:
  assumes "child s key x" and "plain_entry s" and "1 \<le> Size s"
  obtains B C where "parent_of s = Some B" "net_of s = Some C" "canonical B" "key = net_String B"
    "x = net_IP C" "BitLen x = BitLen (net_IP B)"
proof -
  obtain B C where BC: "parent_of s = Some B" "net_of s = Some C" "key = net_String B" "x = net_IP C"
    using assms(1) unfolding child_def by blast
  moreover have "canonical B" using parent_of_canonical BC assms by blast
  moreover have "BitLen x = BitLen (net_IP B)" using parent_of_net [OF BC(2) assms(3)] BC by auto
  ultimately show ?thesis using that by blast
qed

text \<open>The joined networks of one round are exactly the parents of the siblings.\<close>

lemma consolidated_siblings:
  assumes sm: "\<forall>s \<in> set ss. Size s - 1 = k \<and> plain_entry s" and k: "0 \<le> k"
  shows "(\<exists>kv \<in> set (fold (add_consolidable k) ss []). consolidated kv = Some e) \<longleftrightarrow>
    (\<exists>p \<in> set ss. \<exists>q \<in> set ss. \<exists>B. siblings p q B \<and> e = entry_of B)"
proof -
  define m where "m = fold (add_consolidable k) ss []"
  have inv: "con_inv (set ss) m" unfolding m_def using con_inv_fold sm by blast
  have sz: "1 \<le> Size s" "plain_entry s" "Size s = k + 1" if "s \<in> set ss" for s
    using sm k that by force+
  have "\<exists>p \<in> set ss. \<exists>q \<in> set ss. \<exists>B. siblings p q B \<and> e = entry_of B"
    if kv: "(key, val) \<in> set m" "consolidated (key, val) = Some e" for key val
  proof -
    have "map_of m key = Some val" using kv(1) inv by (simp add: con_inv_def)
    then have ok: "con_ok (set ss) key val" using inv by (simp add: con_inv_def)
    have "1 < length (con_prefixes val)" using kv(2) by (simp add: consolidated_def split: if_splits)
    then obtain x y r where xy: "con_prefixes val = x # y # r"
      by (cases "con_prefixes val"; cases "tl (con_prefixes val)") auto
    have neq: "x \<noteq> y" using ok xy by (auto simp: con_ok_def)
    obtain p q where pq: "p \<in> set ss" "q \<in> set ss" "child p key x" "child q key y"
      using ok xy by (auto simp: con_ok_def)
    obtain B C where p: "parent_of p = Some B" "net_of p = Some C" "canonical B" "key = net_String B"
      "x = net_IP C" using childE [OF pq(3) sz(2,1)] pq(1) by metis
    obtain B' D where q: "parent_of q = Some B'" "net_of q = Some D" "canonical B'" "key = net_String B'"
      "y = net_IP D" using childE [OF pq(4) sz(2,1)] pq(2) by metis
    have "B' = B" using p q net_String_inject by blast
    then have "siblings p q B" using p q neq sz [OF pq(1)] sz [OF pq(2)] by (auto simp: siblings_def)
    moreover have "e = entry_of B"
      using kv(2) xy p ParseCIDR_net_String [OF p(3)] by (simp add: consolidated_def entry_of_def)
    ultimately show ?thesis using pq by blast
  qed
  moreover have "\<exists>kv \<in> set m. consolidated kv = Some (entry_of B)"
    if pq: "p \<in> set ss" "q \<in> set ss" and sib: "siblings p q B" for p q B
  proof -
    obtain P Q where PQ: "net_of p = Some P" "net_of q = Some Q" "net_IP P \<noteq> net_IP Q"
      "parent_of p = Some B" "parent_of q = Some B" using sib unfolding siblings_def by blast
    have can: "canonical B" using siblings_parent(1) [OF sib] sz pq(1) by blast
    have ch: "child p (net_String B) (net_IP P)" "child q (net_String B) (net_IP Q)"
      using PQ by (auto simp: child_def)
    then obtain val y z where v: "map_of m (net_String B) = Some val"
      and y: "y \<in> set (con_prefixes val)" "IP_Equal y (net_IP P)"
      and z: "z \<in> set (con_prefixes val)" "IP_Equal z (net_IP Q)"
      using inv pq unfolding con_inv_def con_has_def by (metis option.inject)
    have fam: "BitLen w = BitLen (net_IP B)"
      if "child s (net_String B) w" "s \<in> set ss" for s w
      using childE [OF that(1) sz(2,1)] that(2) can net_String_inject by metis
    have "con_ok (set ss) (net_String B) val" using inv v by (simp add: con_inv_def)
    then have "BitLen y = BitLen (net_IP B)" "BitLen z = BitLen (net_IP B)"
      using y(1) z(1) fam unfolding con_ok_def by blast+
    then have "y = net_IP P" "z = net_IP Q"
      using y(2) z(2) fam ch pq IP_Equal_same_family by metis+
    then have "card {net_IP P, net_IP Q} \<le> length (con_prefixes val)"
      using y(1) z(1) by (intro order_trans [OF card_mono card_length]) auto
    then have "1 < length (con_prefixes val)" using PQ(3) by simp
    then have "consolidated (net_String B, val) = Some (entry_of B)"
      using can by (simp add: consolidated_def ParseCIDR_net_String entry_of_def)
    then show ?thesis using map_of_SomeD [OF v] by blast
  qed
  ultimately show ?thesis unfolding m_def by (metis surj_pair)
qed

section \<open>Marking\<close>

definition marked :: "(string \<times> PrefixEntry) list \<Rightarrow> string \<Rightarrow> bool" where
  "marked d key \<longleftrightarrow> map_of d key \<noteq> None"

lemma marked_Nil [simp]: "\<not> marked [] key"
  by (simp add: marked_def)

lemma fold_marks:
  assumes "\<And>x d. marked (f x d) key = (marked d key \<or> P x)"
  shows "marked (fold f xs d) key = (marked d key \<or> (\<exists>x \<in> set xs. P x))"
proof (induction xs arbitrary: d)
  case (Cons x xs)
  have "marked (fold f (x # xs) d) key = (marked (f x d) key \<or> (\<exists>x \<in> set xs. P x))"
    using Cons.IH [of "f x d"] by simp
  then show ?case unfolding assms by auto
qed simp

lemma mark_child_marks:
  "marked (mark_child k S ch d) key = (marked d key \<or>
     (k < Size ch \<and> (\<exists>C. net_of ch = Some C \<and> Contains S (net_IP C) \<and> key = net_String C)))"
  by (auto simp: marked_def mark_child_def net_of_def update_conv' split: option.splits)

lemma mark_supernet_marks:
  "marked (mark_supernet ps k S d) key = (marked d key \<or>
     (Size S = k \<and> (\<exists>N. net_of S = Some N \<and> (\<exists>ch \<in> set ps. k < Size ch \<and>
        (\<exists>C. net_of ch = Some C \<and> Contains N (net_IP C) \<and> key = net_String C)))))"
proof (cases "Size S = k")
  case True
  show ?thesis
  proof (cases "ParseCIDR (cidr (Address S) (Size S))")
    case None
    with True show ?thesis by (auto simp: mark_supernet_def net_of_def)
  next
    case (Some r)
    obtain i N where r: "r = (i, N)" by (cases r)
    have "mark_supernet ps k S d = fold (mark_child k N) ps d" "net_of S = Some N"
      using True Some r by (auto simp: mark_supernet_def net_of_def)
    then show ?thesis using True by (simp add: fold_marks [OF mark_child_marks])
  qed
qed (simp add: mark_supernet_def)

lemma mark_all_marks:
  "marked (mark_all bits ps) key = (\<exists>S \<in> set ps. \<exists>N. net_of S = Some N \<and> Size S < int bits \<and>
     (\<exists>ch \<in> set ps. Size S < Size ch \<and> (\<exists>C. net_of ch = Some C \<and> Contains N (net_IP C) \<and> key = net_String C)))"
  (is "_ = ?R")
proof -
  let ?P = "\<lambda>k S. Size S = k \<and> (\<exists>N. net_of S = Some N \<and> (\<exists>ch \<in> set ps. k < Size ch \<and>
        (\<exists>C. net_of ch = Some C \<and> Contains N (net_IP C) \<and> key = net_String C)))"
  have "marked (mark_all bits ps) key = (\<exists>k \<in> set [0..<bits]. \<exists>S \<in> set ps. ?P (int k) S)"
    unfolding mark_all_def
    using fold_marks [of "\<lambda>k d. fold (mark_supernet ps (int k)) ps d" key
        "\<lambda>k. \<exists>S \<in> set ps. ?P (int k) S" "[0..<bits]" "[]"]
    by (simp add: fold_marks [OF mark_supernet_marks])
  also have "\<dots> = ?R"
  proof
    assume ?R
    then obtain S N where S: "S \<in> set ps" "net_of S = Some N" "Size S < int bits" "?P (Size S) S" by blast
    then obtain n where "Size S = int n" by (elim net_of_SomeE)
    with S show "\<exists>k \<in> set [0..<bits]. \<exists>S \<in> set ps. ?P (int k) S" by (intro bexI [of _ n] bexI [of _ S]) auto
  next
    assume "\<exists>k \<in> set [0..<bits]. \<exists>S \<in> set ps. ?P (int k) S"
    then obtain k S where kS: "k < bits" "S \<in> set ps" "?P (int k) S"
      unfolding set_upt Bex_def atLeastLessThan_iff by blast
    then have "Size S < int bits" "?P (Size S) S" by auto
    with kS(2) show ?R by blast
  qed
  finally show ?thesis .
qed

text \<open>An entry is marked when a shorter entry of the list contains its network.\<close>

lemma marked_plain:
  assumes pl: "\<forall>p \<in> set ps. plain_entry p" and p: "p \<in> set ps" "net_of p = Some N"
  shows "marked (mark_all bits ps) (net_String N) \<longleftrightarrow>
    (\<exists>S \<in> set ps. \<exists>M. net_of S = Some M \<and> Size S < int bits \<and> Size S < Size p \<and> Contains M (net_IP N))"
proof -
  have "C = N \<and> Size ch = Size p"
    if "ch \<in> set ps" "net_of ch = Some C" "net_String N = net_String C" for ch C
  proof -
    have "C = N" using that p pl net_of_canonical net_String_inject by metis
    then show ?thesis using that(2) p(2) by (elim net_of_SomeE) auto
  qed
  then show ?thesis unfolding mark_all_marks using p by metis
qed

lemma keep_prefixes_iff:
  "p \<in> set (keep_prefixes d ps) \<longleftrightarrow> p \<in> set ps \<and> (\<exists>N. net_of p = Some N \<and> \<not> marked d (net_String N))"
  by (auto simp: marked_def keep_prefixes_def net_of_def split: option.splits)

lemma keep_prefixes_id:
  assumes "\<And>p. p \<in> set ps \<Longrightarrow> \<exists>N. net_of p = Some N \<and> \<not> marked d (net_String N)"
  shows "keep_prefixes d ps = ps"
  unfolding keep_prefixes_def
proof (rule filter_True, rule ballI)
  fix p assume "p \<in> set ps"
  from assms [OF this] show "case ParseCIDR (cidr (Address p) (Size p)) of None \<Rightarrow> False
      | Some (_, s) \<Rightarrow> map_of d (net_String s) = None"
    by (auto simp: net_of_def marked_def)
qed

lemma covers_nested:
  assumes "net_of S = Some M" "plain_entry S" "net_of p = Some N" "plain_entry p" "Size S < Size p"
  shows "Contains M (net_IP N) \<longleftrightarrow> covers p \<subseteq> covers S"
    and "\<not> Contains M (net_IP N) \<longleftrightarrow> covers S \<inter> covers p = {}"
proof -
  have lt: "net_Ones M \<le> net_Ones N"
    using assms(1,3,5) by (elim net_of_SomeE) auto
  have pl: "plain (net_IP M)" "plain (net_IP N)" using assms by (simp_all add: plain_entry_def)
  have c: "Contains M (net_IP N) \<longleftrightarrow> Mask (net_Ones M) (net_IP M) = Mask (net_Ones M) (net_IP N)"
    by (simp add: Contains_plain pl)
  have S: "x \<in> covers S \<longleftrightarrow> Mask (net_Ones M) (net_IP M) = Mask (net_Ones M) (norm x)"
    and p: "x \<in> covers p \<longleftrightarrow> Mask (net_Ones N) (net_IP N) = Mask (net_Ones N) (norm x)" for x
    using covers_plain assms by blast+
  have in_p: "net_IP N \<in> covers p" by (simp add: p pl)
  have anti: "Mask (net_Ones M) (net_IP N) = Mask (net_Ones M) (norm x)" if "x \<in> covers p" for x
    using that p Mask_anti [OF lt] by blast
  show 1: "Contains M (net_IP N) \<longleftrightarrow> covers p \<subseteq> covers S"
    using anti in_p S c pl by (metis norm_plain subset_iff)
  show "\<not> Contains M (net_IP N) \<longleftrightarrow> covers S \<inter> covers p = {}"
    using anti in_p S c pl 1 by (metis disjoint_iff norm_plain)
qed

lemma same_size_nets:
  assumes "net_of p = Some P" "net_of q = Some Q" "plain_entry p" "plain_entry q" "Size p = Size q"
  shows "covers p \<inter> covers q = {} \<or> P = Q"
proof -
  obtain a n where a: "Size p = int n" "P = \<lparr>net_IP = Mask n a, net_Ones = n\<rparr>"
    using assms(1) by (elim net_of_SomeE)
  obtain b m where b: "Size q = int m" "Q = \<lparr>net_IP = Mask m b, net_Ones = m\<rparr>"
    using assms(2) by (elim net_of_SomeE)
  have "m = n" using a b assms(5) by simp
  then show ?thesis
    using covers_plain [OF assms(1,3)] covers_plain [OF assms(2,4)] a b by (auto 0 3)
qed

lemma keep_covered:
  assumes pl: "\<forall>p \<in> set ps. plain_entry p"
  shows "covered (keep_prefixes (mark_all bits ps) ps) = covered ps"
proof -
  have "\<exists>q \<in> set (keep_prefixes (mark_all bits ps) ps). x \<in> covers q"
    if "p \<in> set ps" "x \<in> covers p" for p x
    using that
  proof (induction "nat (Size p)" arbitrary: p rule: less_induct)
    case less
    obtain N where N: "net_of p = Some N"
      using less.prems(2) by (auto simp: covers_def split: option.splits)
    show ?case
    proof (cases "marked (mark_all bits ps) (net_String N)")
      case False
      with less.prems N show ?thesis by (auto simp: keep_prefixes_iff)
    next
      case True
      then obtain S M where S: "S \<in> set ps" "net_of S = Some M" "Size S < Size p" "Contains M (net_IP N)"
        using marked_plain [OF pl less.prems(1) N, of bits] by auto
      have "x \<in> covers S"
        using covers_nested(1) [OF S(2) _ N _ S(3)] pl S less.prems by blast
      moreover have "nat (Size S) < nat (Size p)" using S(2,3) by (elim net_of_SomeE) auto
      ultimately show ?thesis using less.hyps S(1) by blast
    qed
  qed
  moreover have "set (keep_prefixes (mark_all bits ps) ps) \<subseteq> set ps" by (auto simp: keep_prefixes_def)
  ultimately show ?thesis unfolding covered_def by blast
qed

context go_runtime
begin

lemma round_set:
  assumes pl: "\<forall>p \<in> set ps. plain_entry p" and k: "0 \<le> k"
  shows "set (consolidate_round (ord j) k ps) = set ps \<union>
    {entry_of B | p q B. p \<in> set ps \<and> q \<in> set ps \<and> Size p = k + 1 \<and> siblings p q B}"
proof -
  let ?ss = "filter (\<lambda>s. Size s - 1 = k) ps"
  have sib: "siblings p q B \<Longrightarrow> Size q = Size p" "siblings p q B \<Longrightarrow> p \<noteq> q" for p q B
    by (auto simp: siblings_def)
  have iff: "p \<in> set ?ss \<longleftrightarrow> p \<in> set ps \<and> Size p = k + 1" for p by auto
  show ?thesis
  proof (cases "length ?ss \<le> 1")
    case True
    have no: "\<not> siblings p q B" if "p \<in> set ?ss" "q \<in> set ?ss" for p q B
    proof
      assume "siblings p q B"
      then have "card {p, q} = 2" using sib(2) by simp
      moreover have "card {p, q} \<le> length ?ss"
        using that by (intro order_trans [OF card_mono card_length]) auto
      ultimately show False using True by simp
    qed
    have "\<not> (p \<in> set ps \<and> q \<in> set ps \<and> Size p = k + 1 \<and> siblings p q B)" for p q B
      using no [of p q B] sib(1) [of p q B] iff by metis
    with True show ?thesis by (auto simp: consolidate_round_def)
  next
    case False
    have "e \<in> set (List.map_filter consolidated (ord j (fold (add_consolidable k) ?ss []))) \<longleftrightarrow>
        (\<exists>p q B. p \<in> set ps \<and> q \<in> set ps \<and> Size p = k + 1 \<and> siblings p q B \<and> e = entry_of B)" for e
    proof -
      have "e \<in> set (List.map_filter consolidated (ord j (fold (add_consolidable k) ?ss []))) \<longleftrightarrow>
          (\<exists>p \<in> set ?ss. \<exists>q \<in> set ?ss. \<exists>B. siblings p q B \<and> e = entry_of B)"
        unfolding set_map_filter ord_set by (rule consolidated_siblings) (use pl k in auto)
      then show ?thesis unfolding Bex_def iff using sib(1) by metis
    qed
    then have "set (List.map_filter consolidated (ord j (fold (add_consolidable k) ?ss []))) =
        {entry_of B | p q B. p \<in> set ps \<and> q \<in> set ps \<and> Size p = k + 1 \<and> siblings p q B}"
      by blast
    with False show ?thesis by (simp add: consolidate_round_def Let_def)
  qed
qed

section \<open>All rounds\<close>

text \<open>
  What a sequence of rounds keeps: the entries it started from, plainness, what is covered.
  An entry that a round adds has the length of that round.
\<close>

lemma round_facts:
  assumes pl: "\<forall>p \<in> set ps. plain_entry p" and k: "0 \<le> k"
  shows "set ps \<subseteq> set (consolidate_round (ord j) k ps)"
    and "\<forall>p \<in> set (consolidate_round (ord j) k ps). plain_entry p"
    and "covered (consolidate_round (ord j) k ps) = covered ps"
    and "\<forall>p \<in> set (consolidate_round (ord j) k ps). p \<in> set ps \<or> Size p = k"
proof -
  let ?new = "{entry_of B | p q B. p \<in> set ps \<and> q \<in> set ps \<and> Size p = k + 1 \<and> siblings p q B}"
  have set: "set (consolidate_round (ord j) k ps) = set ps \<union> ?new" by (rule round_set [OF assms])
  show "set ps \<subseteq> set (consolidate_round (ord j) k ps)" by (simp add: set)
  have new: "plain_entry e \<and> Size e = k \<and> covers e \<subseteq> covered ps" if e: "e \<in> ?new" for e
  proof -
    obtain p q B where pq: "p \<in> set ps" "q \<in> set ps" "Size p = k + 1" "siblings p q B"
      and eB: "e = entry_of B" using e by blast
    have "canonical B" "int (net_Ones B) = k" using siblings_parent [OF pq(4)] pl pq by auto
    moreover have "covers e = covers p \<union> covers q" using siblings_cover [OF pq(4)] pl pq eB by auto
    moreover have "Size e = int (net_Ones B)" by (simp add: eB entry_of_def)
    ultimately show ?thesis using eB pq by (auto simp: covered_def)
  qed
  show "\<forall>p \<in> set (consolidate_round (ord j) k ps). plain_entry p" using new pl set by blast
  show "\<forall>p \<in> set (consolidate_round (ord j) k ps). p \<in> set ps \<or> Size p = k" using new set by blast
  show "covered (consolidate_round (ord j) k ps) = covered ps"
    using new unfolding covered_def set by blast
qed

abbreviation rounds :: "nat list \<Rightarrow> PrefixEntry list \<Rightarrow> PrefixEntry list" where
  "rounds ks ps \<equiv> fold (\<lambda>k. consolidate_round (ord (int k)) (int k)) ks ps"

lemma rounds_facts:
  assumes "\<forall>p \<in> set ps. plain_entry p"
  shows "set ps \<subseteq> set (rounds ks ps) \<and> (\<forall>p \<in> set (rounds ks ps). plain_entry p) \<and>
    covered (rounds ks ps) = covered ps \<and>
    (\<forall>p \<in> set (rounds ks ps). p \<in> set ps \<or> Size p \<in> int ` set ks)"
  using assms
proof (induction ks arbitrary: ps)
  case (Cons k ks)
  let ?ps = "consolidate_round (ord (int k)) (int k) ps"
  note r = round_facts [OF Cons.prems, of "int k" "int k", simplified]
  from Cons.IH [OF r(2)] r show ?case by (simp, blast)
qed simp

text \<open>After the rounds, the parent of any two siblings is in the list.\<close>

lemma rounds_complete:
  assumes "\<forall>p \<in> set ps. plain_entry p" and "sorted_wrt (>) ks" and "k \<in> set ks"
    and "p \<in> set (rounds ks ps)" "q \<in> set (rounds ks ps)" "Size p = int k + 1" "siblings p q B"
  shows "entry_of B \<in> set (rounds ks ps)"
  using assms
proof (induction ks arbitrary: ps)
  case (Cons h ks)
  let ?ps = "consolidate_round (ord (int h)) (int h) ps"
  note r = round_facts [OF Cons.prems(1), of "int h" "int h", simplified]
  note rs = rounds_facts [OF r(2), of ks]
  show ?case
  proof (cases "k \<in> set ks")
    case True
    then show ?thesis using Cons.IH [OF r(2)] Cons.prems by simp
  next
    case False
    then have h: "h = k" using Cons.prems by simp
    have old: "x \<in> set ps" if "x \<in> set (rounds ks ?ps)" "Size x = int k + 1" for x
    proof -
      have "Size x \<notin> int ` set ks" using Cons.prems(2) that(2) h by auto
      then have "x \<in> set ?ps" using rs that(1) by blast
      then show ?thesis using r(4) that(2) h by auto
    qed
    have "p \<in> set ps" using old [of p] Cons.prems by simp
    moreover have "q \<in> set ps"
      using old [of q] Cons.prems(5,6,7) by (simp add: siblings_def)
    ultimately have "entry_of B \<in> set ?ps"
      using Cons.prems(6,7) h round_set [OF Cons.prems(1), of "int h" "int h"] by auto
    then show ?thesis using rs by auto
  qed
qed simp

lemma merge_rounds_eq: "merge_rounds ord bits ps = rounds (rev [2..<bits]) ps"
  by (simp add: merge_rounds_def)

section \<open>The whole function\<close>

abbreviation merged :: "nat \<Rightarrow> PrefixEntry list \<Rightarrow> PrefixEntry list" where
  "merged bits ps \<equiv> merge_rounds ord bits ps"

abbreviation kept :: "nat \<Rightarrow> PrefixEntry list \<Rightarrow> PrefixEntry list" where
  "kept bits ps \<equiv> keep_prefixes (mark_all bits (merged bits ps)) (merged bits ps)"

lemma consolidate_eq: "consolidate ord srt bits ps = Inr (srt prefix_less (kept bits ps))"
  by (simp add: consolidate_def Let_def)

lemma consolidate_InrD: "consolidate ord srt bits ps = Inr qs \<Longrightarrow> set qs = set (kept bits ps)"
  by (auto simp: consolidate_eq)

lemma merged_plain:
  assumes "\<forall>p \<in> set ps. plain_entry p"
  shows "\<forall>p \<in> set (merged bits ps). plain_entry p"
  using rounds_facts [OF assms] by (simp add: merge_rounds_eq)

lemma consolidate_covered:
  assumes pl: "\<forall>p \<in> set ps. plain_entry p"
  shows "\<exists>qs. consolidate ord srt bits ps = Inr qs \<and> covered qs = covered ps"
proof -
  have "covered (merged bits ps) = covered ps" using rounds_facts [OF pl] by (simp add: merge_rounds_eq)
  moreover have "covered (kept bits ps) = covered (merged bits ps)"
    by (rule keep_covered [OF merged_plain [OF pl]])
  ultimately show ?thesis by (simp add: consolidate_eq covered_def)
qed

lemma consolidate_disjoint:
  assumes pl: "\<forall>p \<in> set ps. plain_entry p" and qs: "consolidate ord srt bits ps = Inr qs"
    and pq: "p \<in> set qs" "q \<in> set qs" "Size p < Size q" "Size p < int bits"
  shows "covers p \<inter> covers q = {}"
proof -
  let ?ms = "merged bits ps"
  have mpl: "\<forall>p \<in> set ?ms. plain_entry p" by (rule merged_plain [OF pl])
  obtain P Q where P: "p \<in> set ?ms" "net_of p = Some P" and Q: "q \<in> set ?ms" "net_of q = Some Q"
    and um: "\<not> marked (mark_all bits ?ms) (net_String Q)"
    using pq(1,2) consolidate_InrD [OF qs] by (auto simp: keep_prefixes_iff)
  have "\<not> Contains P (net_IP Q)" using marked_plain [OF mpl Q, of bits] um P pq by auto
  with covers_nested(2) [OF P(2) _ Q(2) _ pq(3)] mpl P(1) Q(1) show ?thesis by simp
qed

lemma consolidate_no_siblings:
  assumes pl: "\<forall>p \<in> set ps. plain_entry p" and qs: "consolidate ord srt bits ps = Inr qs"
    and pq: "p \<in> set qs" "q \<in> set qs" and sz: "3 \<le> Size p" "Size p \<le> int bits"
  shows "\<not> siblings p q B"
proof
  assume sib: "siblings p q B"
  let ?ms = "merged bits ps"
  have mpl: "\<forall>p \<in> set ?ms. plain_entry p" by (rule merged_plain [OF pl])
  obtain P where P: "p \<in> set ?ms" "net_of p = Some P"
    and um: "\<not> marked (mark_all bits ?ms) (net_String P)"
    using pq(1) consolidate_InrD [OF qs] by (auto simp: keep_prefixes_iff)
  have q: "q \<in> set ?ms" using pq(2) consolidate_InrD [OF qs] by (auto simp: keep_prefixes_iff)
  have can: "canonical B" and ones: "int (net_Ones B) = Size p - 1"
    using siblings_parent [OF sib] mpl P(1) by auto
  have "entry_of B \<in> set ?ms"
    unfolding merge_rounds_eq
    by (rule rounds_complete [OF pl, of _ "net_Ones B" p q])
      (use P(1) q sib sz ones in \<open>auto simp: merge_rounds_eq sorted_wrt_rev\<close>)
  moreover have "covers p \<subseteq> covers (entry_of B)"
    using siblings_cover [OF sib] mpl P(1) q by auto
  then have "Contains B (net_IP P)"
    using covers_nested(1) [OF net_of_entry_of [OF can] plain_entry_of [OF can] P(2)] P mpl ones
    by simp
  ultimately have "marked (mark_all bits ?ms) (net_String P)"
    using marked_plain [OF mpl P, of bits] net_of_entry_of [OF can] ones sz(2)
    by (metis Size_entry_of diff_add_cancel less_add_one less_le_trans)
  with um show False by simp
qed

lemma consolidate_parses:
  assumes "consolidate ord srt bits ps = Inr qs" and "p \<in> set qs"
  shows "\<exists>N. net_of p = Some N"
  using assms(2) unfolding consolidate_InrD [OF assms(1)] keep_prefixes_iff by blast

lemma consolidate_plain:
  assumes "\<forall>p \<in> set ps. plain_entry p" and "consolidate ord srt bits ps = Inr qs"
  shows "\<forall>p \<in> set qs. plain_entry p"
  using merged_plain [OF assms(1), of bits] consolidate_InrD [OF assms(2)] by (auto simp: keep_prefixes_iff)

lemma consolidate_sorted:
  "consolidate ord srt bits ps = Inr qs \<Longrightarrow> sorted_wrt (\<lambda>x y. ip_text x \<le> ip_text y) qs"
  by (auto simp: consolidate_eq intro!: srt_sorted simp: prefix_less_def)

lemma round_id:
  assumes pl: "\<forall>p \<in> set ps. plain_entry p" and k: "0 \<le> k"
    and no: "\<And>p q B. p \<in> set ps \<Longrightarrow> q \<in> set ps \<Longrightarrow> Size p = k + 1 \<Longrightarrow> \<not> siblings p q B"
  shows "consolidate_round (ord j) k ps = ps"
proof -
  let ?ss = "filter (\<lambda>s. Size s - 1 = k) ps"
  have iff: "p \<in> set ?ss \<longleftrightarrow> p \<in> set ps \<and> Size p = k + 1" for p by auto
  have "e \<notin> set (List.map_filter consolidated (ord j (fold (add_consolidable k) ?ss [])))" for e
  proof -
    have "(\<exists>kv \<in> set (fold (add_consolidable k) ?ss []). consolidated kv = Some e) \<longleftrightarrow>
        (\<exists>p \<in> set ?ss. \<exists>q \<in> set ?ss. \<exists>B. siblings p q B \<and> e = entry_of B)"
      by (rule consolidated_siblings) (use pl k in auto)
    then show ?thesis unfolding set_map_filter ord_set using no iff by blast
  qed
  then have "List.map_filter consolidated (ord j (fold (add_consolidable k) ?ss [])) = []"
    by (metis list.set_intros(1) neq_Nil_conv)
  then show ?thesis by (simp add: consolidate_round_def Let_def)
qed

lemma consolidate_idempotent:
  assumes pl: "\<forall>p \<in> set ps. plain_entry p" and qs: "consolidate ord srt bits ps = Inr qs"
  shows "\<exists>rs. consolidate ord srt bits qs = Inr rs \<and> mset rs = mset qs"
proof -
  have qpl: "\<forall>p \<in> set qs. plain_entry p" by (rule consolidate_plain [OF pl qs])
  have step: "consolidate_round (ord (int k)) (int k) qs = qs" if "2 \<le> k" "k < bits" for k
    by (rule round_id [OF qpl]) (use consolidate_no_siblings [OF pl qs] that in auto)
  have "rounds ks qs = qs" if "\<forall>k \<in> set ks. 2 \<le> k \<and> k < bits" for ks
    using that by (induction ks) (simp_all add: step)
  then have m: "merged bits qs = qs" by (simp add: merge_rounds_eq)
  have "\<not> marked (mark_all bits qs) (net_String N)" if p: "p \<in> set qs" "net_of p = Some N" for p N
  proof
    assume "marked (mark_all bits qs) (net_String N)"
    then obtain S M where S: "S \<in> set qs" "net_of S = Some M" "Size S < int bits" "Size S < Size p"
      "Contains M (net_IP N)" using marked_plain [OF qpl p] by blast
    have "covers S \<inter> covers p = {}" by (rule consolidate_disjoint [OF pl qs S(1) p(1) S(4,3)])
    then show False using covers_nested(2) [OF S(2) _ p(2) _ S(4)] S(5) qpl S(1) p(1) by simp
  qed
  then have "keep_prefixes (mark_all bits qs) qs = qs"
    using consolidate_parses [OF qs] by (intro keep_prefixes_id) blast
  then show ?thesis by (simp add: consolidate_eq m srt_mset)
qed

lemma consolidate_nested_or_equal:
  assumes pl: "\<forall>p \<in> set ps. plain_entry p" and qs: "consolidate ord srt bits ps = Inr qs"
    and pq: "p \<in> set qs" "q \<in> set qs" "Size p \<le> int bits" "Size q \<le> int bits"
  shows "covers p \<inter> covers q = {} \<or> net_of p = net_of q"
proof -
  consider "Size p < Size q" | "Size q < Size p" | "Size p = Size q" by linarith
  then show ?thesis
  proof cases
    case 1
    with consolidate_disjoint [OF pl qs pq(1,2)] pq show ?thesis by simp
  next
    case 2
    with consolidate_disjoint [OF pl qs pq(2,1)] pq show ?thesis by (simp add: Int_commute)
  next
    case 3
    obtain P Q where "net_of p = Some P" "net_of q = Some Q" using consolidate_parses [OF qs] pq by blast
    with same_size_nets [OF this _ _ 3] consolidate_plain [OF pl qs] pq show ?thesis by auto
  qed
qed

end

end
