(* ===== verification/Consolidation_Props.thy ===== *)
theory Consolidation_Props
  imports Consolidation_Correct "HOL-Library.Code_Target_Nat"
begin

text \<open>
  The properties of \<open>ConsolidateV4\<close> and \<open>ConsolidateV6\<close>, for every order in which a map may be
  ranged over and every result \<open>sort.Slice\<close> may give (\<open>go_runtime\<close>). They hold for lists of
  entries none of which names a network of IPv4-mapped IPv6 addresses; the last property shows
  that this restriction is needed. Entries that do not parse are allowed: they cover nothing
  and are dropped.
\<close>

definition plain_prefixes :: "PrefixEntry list \<Rightarrow> bool" where
  "plain_prefixes ps \<longleftrightarrow> list_all plain_entry ps"

lemma plain_prefixesD: "plain_prefixes ps \<Longrightarrow> \<forall>p \<in> set ps. plain_entry p"
  by (simp add: plain_prefixes_def list_all_iff)

lemmas Consolidate_defs = ConsolidateV4_def ConsolidateV6_def

text \<open>Rounds that find at most one network of their length change nothing.\<close>

lemma rounds_skip:
  assumes "\<And>k. k \<in> set ks \<Longrightarrow> length (filter (\<lambda>subnet. Size subnet - 1 = int k) ps) \<le> 1"
  shows "fold (\<lambda>k ps. consolidate_round (ord (int k)) (int k) ps) ks ps = ps"
  using assms by (induction ks) (simp_all add: consolidate_round_def Let_def)

lemma merge_rounds_one:
  assumes "2 \<le> k" "k < bits"
    and "\<And>j. k < j \<Longrightarrow> j < bits \<Longrightarrow> length (filter (\<lambda>subnet. Size subnet - 1 = int j) ps) \<le> 1"
    and "\<And>j. 2 \<le> j \<Longrightarrow> j < k \<Longrightarrow>
      length (filter (\<lambda>subnet. Size subnet - 1 = int j) (consolidate_round (ord (int k)) (int k) ps)) \<le> 1"
  shows "merge_rounds ord bits ps = consolidate_round (ord (int k)) (int k) ps"
proof -
  have "[2..<bits] = [2..<k] @ k # [Suc k..<bits]"
    using assms(1,2) upt_add_eq_append [of 2 k "bits - k"] by (simp add: upt_conv_Cons)
  moreover have "fold (\<lambda>k ps. consolidate_round (ord (int k)) (int k) ps) (rev [Suc k..<bits]) ps = ps"
    by (rule rounds_skip) (use assms(3) in simp)
  moreover have "fold (\<lambda>k ps. consolidate_round (ord (int k)) (int k) ps) (rev [2..<k])
      (consolidate_round (ord (int k)) (int k) ps) = consolidate_round (ord (int k)) (int k) ps"
    by (rule rounds_skip) (use assms(4) in simp)
  ultimately show ?thesis by (simp add: merge_rounds_def)
qed

section \<open>Two inputs to evaluate on\<close>

definition halves4 :: "PrefixEntry list" where
  "halves4 = [\<lparr>Address = ''10.0.0.128'', Size = 25\<rparr>, \<lparr>Address = ''10.0.0.0'', Size = 25\<rparr>]"

definition joined4 :: "PrefixEntry list" where
  "joined4 = [\<lparr>Address = ''10.0.0.0'', Size = 24\<rparr>]"

lemma plain_halves4: "plain_prefixes halves4"
  by code_simp

lemma round_halves4: "consolidate_round (insertion_order 24) 24 halves4 = halves4 @ joined4"
  by code_simp

lemma merge_halves4: "merge_rounds insertion_order 32 halves4 = halves4 @ joined4"
  using merge_rounds_one [of 24 32 halves4 insertion_order]
  by (simp add: round_halves4) (simp add: halves4_def joined4_def)

lemma ConsolidateV4_halves4: "ConsolidateV4 insertion_order insertion_sort halves4 = Inr joined4"
proof -
  have "mark_all 32 (halves4 @ joined4) = [(''10.0.0.128/25'', halves4 ! 0), (''10.0.0.0/25'', halves4 ! 1)]"
    by code_simp
  moreover have "keep_prefixes [(''10.0.0.128/25'', halves4 ! 0), (''10.0.0.0/25'', halves4 ! 1)]
      (halves4 @ joined4) = joined4" by code_simp
  ultimately show ?thesis
    by (simp add: Consolidate_defs consolidate_def merge_halves4 insertion_sort_def joined4_def)
qed

definition apart4 :: "PrefixEntry list" where
  "apart4 = [\<lparr>Address = ''10.0.0.0'', Size = 24\<rparr>, \<lparr>Address = ''192.168.0.0'', Size = 16\<rparr>]"

lemma plain_apart4: "plain_prefixes apart4"
  by code_simp

lemma ConsolidateV4_apart4: "ConsolidateV4 insertion_order insertion_sort apart4 = Inr apart4"
proof -
  have "merge_rounds insertion_order 32 apart4 = apart4"
    unfolding merge_rounds_def by (rule rounds_skip) (simp add: apart4_def)
  moreover have "mark_all 32 apart4 = []" by code_simp
  moreover have "keep_prefixes [] apart4 = apart4" "insertion_sort prefix_less apart4 = apart4"
    by code_simp+
  ultimately show ?thesis by (simp add: Consolidate_defs consolidate_def)
qed

text \<open>Networks of IPv4-mapped addresses: the two halves of a network and the network itself\<close>

definition mapped6 :: "PrefixEntry list" where
  "mapped6 =
     [\<lparr>Address = ''::ffff:1.2.3.0'', Size = 121\<rparr>, \<lparr>Address = ''::ffff:1.2.3.128'', Size = 121\<rparr>,
      \<lparr>Address = ''::ffff:1.2.3.0'', Size = 120\<rparr>]"

lemma round_mapped6:
  "consolidate_round (insertion_order 120) 120 mapped6 =
     mapped6 @ [\<lparr>Address = ''1.2.3.0'', Size = 24\<rparr>]"
  by code_simp

lemma merge_mapped6:
  "merge_rounds insertion_order 128 mapped6 = mapped6 @ [\<lparr>Address = ''1.2.3.0'', Size = 24\<rparr>]"
  using merge_rounds_one [of 120 128 mapped6 insertion_order]
  by (simp add: round_mapped6) (simp add: mapped6_def)

lemma ConsolidateV6_mapped6: "ConsolidateV6 insertion_order insertion_sort mapped6 = Inr []"
proof -
  define j where "j = \<lparr>Address = ''1.2.3.0'', Size = 24\<rparr>"
  define N where "N = \<lparr>net_IP = IP4 0x01020300, net_Ones = 24\<rparr>"
  let ?ps = "mapped6 @ [j]"
  have n: "map (map_option net_String \<circ> net_of) ?ps =
      [Some ''1.2.3.0/25'', Some ''1.2.3.128/25'', Some ''1.2.3.0/24'', Some ''1.2.3.0/24'']"
    unfolding j_def by code_simp
  have j: "net_of j = Some N" unfolding j_def N_def by code_simp
  have c: "list_all (\<lambda>p. case net_of p of Some C \<Rightarrow> Contains N (net_IP C) | None \<Rightarrow> False) mapped6"
    unfolding N_def by code_simp
  have under: "marked (mark_all 128 ?ps) (net_String C)" if "ch \<in> set mapped6" "net_of ch = Some C" for ch C
  proof -
    have "Contains N (net_IP C)" using c that by (auto simp: list_all_iff)
    moreover have "Size j < Size ch" using that(1) by (auto simp: j_def mapped6_def)
    moreover have "Size j < int 128" by (simp add: j_def)
    moreover have "j \<in> set ?ps" "ch \<in> set ?ps" using that(1) by simp_all
    ultimately show ?thesis unfolding mark_all_marks using j that(2) by blast
  qed
  have "marked (mark_all 128 ?ps) (net_String C)" if ch: "ch \<in> set ?ps" "net_of ch = Some C" for ch C
  proof (cases "ch = j")
    case False
    with ch under show ?thesis by auto
  next
    case True
    obtain D where "net_of (mapped6 ! 2) = Some D" "net_String D = net_String C"
      using n ch(2) True by (auto simp: mapped6_def)
    with under [of "mapped6 ! 2" D] show ?thesis by (simp add: mapped6_def)
  qed
  then have "keep_prefixes (mark_all 128 ?ps) ?ps = []"
    using keep_prefixes_iff [of _ "mark_all 128 ?ps" ?ps] by (metis list.set_intros(1) neq_Nil_conv)
  then show ?thesis
    using merge_mapped6 by (simp add: Consolidate_defs consolidate_def j_def insertion_sort_def)
qed

section \<open>Properties\<close>

text \<open>
  C1. Consolidation loses and adds no address: the call returns a list without an error, and an
  address lies in one of the returned prefixes exactly when it lies in one of the given ones.
\<close>

theorem consolidation_keeps_coverage:
  assumes "go_runtime ord srt" and "plain_prefixes ps"
  shows "(\<exists>qs. ConsolidateV4 ord srt ps = Inr qs \<and> covered qs = covered ps) \<and>
         (\<exists>qs. ConsolidateV6 ord srt ps = Inr qs \<and> covered qs = covered ps)"
  unfolding Consolidate_defs
  using go_runtime.consolidate_covered [OF assms(1) plain_prefixesD [OF assms(2)]] by blast

theorem consolidation_keeps_coverage_witness:
  "covered [\<lparr>Address = ''10.0.0.0'', Size = 24\<rparr>] =
   covered [\<lparr>Address = ''10.0.0.128'', Size = 25\<rparr>, \<lparr>Address = ''10.0.0.0'', Size = 25\<rparr>]"
  using consolidation_keeps_coverage [OF reference_runtime.go_runtime_axioms plain_halves4]
  by (simp add: ConsolidateV4_halves4) (simp add: halves4_def joined4_def)

text \<open>
  C14. The returned prefixes are pairwise disjoint: two of them that share an address, neither
  longer than an address of the family, are the same network.
\<close>

theorem consolidation_disjoint:
  assumes "go_runtime ord srt" and "plain_prefixes ps"
    and "ConsolidateV4 ord srt ps = Inr qs \<and> bits = 32 \<or> ConsolidateV6 ord srt ps = Inr qs \<and> bits = 128"
    and "p \<in> set qs" "q \<in> set qs" "Size p \<le> bits" "Size q \<le> bits"
  shows "covers p \<inter> covers q = {} \<or> net_of p = net_of q"
  using assms(3-) go_runtime.consolidate_nested_or_equal [OF assms(1) plain_prefixesD [OF assms(2)]]
  unfolding Consolidate_defs by (metis of_nat_numeral)

theorem consolidation_disjoint_witness:
  "covers \<lparr>Address = ''10.0.0.0'', Size = 24\<rparr> \<inter> covers \<lparr>Address = ''192.168.0.0'', Size = 16\<rparr> = {}"
proof -
  have "net_of (apart4 ! 0) \<noteq> net_of (apart4 ! 1)" by code_simp
  with consolidation_disjoint [OF reference_runtime.go_runtime_axioms plain_apart4 disjI1,
      of apart4 32 "apart4 ! 0" "apart4 ! 1"] ConsolidateV4_apart4
  show ?thesis by (simp add: apart4_def)
qed

text \<open>
  C15. The result is fully joined: two returned prefixes of a length from three to that of an
  address are never the two halves of one network.
\<close>

theorem consolidation_fully_joined:
  assumes "go_runtime ord srt" and "plain_prefixes ps"
    and "ConsolidateV4 ord srt ps = Inr qs \<and> bits = 32 \<or> ConsolidateV6 ord srt ps = Inr qs \<and> bits = 128"
    and "p \<in> set qs" "q \<in> set qs" "3 \<le> Size p" "Size p \<le> bits"
  shows "\<not> siblings p q B"
  using assms(3-) go_runtime.consolidate_no_siblings [OF assms(1) plain_prefixesD [OF assms(2)]]
  unfolding Consolidate_defs by (metis of_nat_numeral)

theorem consolidation_fully_joined_witness:
  "\<not> siblings \<lparr>Address = ''10.0.0.0'', Size = 24\<rparr> \<lparr>Address = ''192.168.0.0'', Size = 16\<rparr>
     \<lparr>net_IP = IP4 0, net_Ones = 3\<rparr>"
  using consolidation_fully_joined [OF reference_runtime.go_runtime_axioms plain_apart4 disjI1,
      of apart4 32 "apart4 ! 0" "apart4 ! 1"] ConsolidateV4_apart4
  by (simp add: apart4_def)

text \<open>
  C17. Consolidating a consolidated list returns the same entries.
\<close>

theorem consolidation_idempotent:
  assumes "go_runtime ord srt" and "plain_prefixes ps"
  shows "(\<exists>qs rs. ConsolidateV4 ord srt ps = Inr qs \<and> ConsolidateV4 ord srt qs = Inr rs \<and> mset rs = mset qs) \<and>
         (\<exists>qs rs. ConsolidateV6 ord srt ps = Inr qs \<and> ConsolidateV6 ord srt qs = Inr rs \<and> mset rs = mset qs)"
  unfolding Consolidate_defs
  using go_runtime.consolidate_covered [OF assms(1) plain_prefixesD [OF assms(2)]]
    go_runtime.consolidate_idempotent [OF assms(1) plain_prefixesD [OF assms(2)]] by metis

theorem consolidation_idempotent_witness:
  "\<exists>rs. ConsolidateV4 insertion_order insertion_sort [\<lparr>Address = ''10.0.0.0'', Size = 24\<rparr>] = Inr rs \<and>
        mset rs = {#\<lparr>Address = ''10.0.0.0'', Size = 24\<rparr>#}"
  using consolidation_idempotent [OF reference_runtime.go_runtime_axioms plain_halves4]
  by (simp add: ConsolidateV4_halves4) (simp add: joined4_def)

text \<open>
  Without any restriction on the entries, every returned prefix parses, and the returned
  prefixes are in the order of the texts of their addresses.
\<close>

theorem consolidation_sorted:
  assumes "go_runtime ord srt"
    and "ConsolidateV4 ord srt ps = Inr qs \<or> ConsolidateV6 ord srt ps = Inr qs"
  shows "sorted_wrt (\<lambda>x y. ip_text x \<le> ip_text y) qs \<and>
         (\<forall>p \<in> set qs. ParseCIDR (cidr (Address p) (Size p)) \<noteq> None)"
  using assms(2) go_runtime.consolidate_sorted [OF assms(1)] go_runtime.consolidate_parses [OF assms(1)]
  unfolding Consolidate_defs net_of_def by (metis option.distinct(1) option.simps(8))

theorem consolidation_sorted_witness:
  "sorted_wrt (\<lambda>x y. ip_text x \<le> ip_text y)
     [\<lparr>Address = ''10.0.0.0'', Size = 24\<rparr>, \<lparr>Address = ''192.168.0.0'', Size = 16\<rparr>]"
  using consolidation_sorted [OF reference_runtime.go_runtime_axioms, of apart4 apart4]
    ConsolidateV4_apart4
  by (simp add: apart4_def)

text \<open>
  Networks of IPv4-mapped IPv6 addresses break the coverage: from the two halves of
  \<open>::ffff:1.2.3.0/120\<close> and that network itself, \<open>ConsolidateV6\<close> returns the empty list. The
  joined network is printed as \<open>1.2.3.0/24\<close>, whose key is also that of the /120, and both are
  deleted as children of the new entry.
\<close>

theorem consolidation_loses_mapped:
  "ConsolidateV6 insertion_order insertion_sort
     [\<lparr>Address = ''::ffff:1.2.3.0'', Size = 121\<rparr>, \<lparr>Address = ''::ffff:1.2.3.128'', Size = 121\<rparr>,
      \<lparr>Address = ''::ffff:1.2.3.0'', Size = 120\<rparr>] = Inr [] \<and>
   IP4 0x01020300 \<in> covered
     [\<lparr>Address = ''::ffff:1.2.3.0'', Size = 121\<rparr>, \<lparr>Address = ''::ffff:1.2.3.128'', Size = 121\<rparr>,
      \<lparr>Address = ''::ffff:1.2.3.0'', Size = 120\<rparr>]"
proof -
  have "net_of \<lparr>Address = ''::ffff:1.2.3.0'', Size = 120\<rparr> =
      Some \<lparr>net_IP = IP16 0xFFFF01020300, net_Ones = 120\<rparr>" by code_simp
  moreover have "Contains \<lparr>net_IP = IP16 0xFFFF01020300, net_Ones = 120\<rparr> (IP4 0x01020300)" by code_simp
  ultimately show ?thesis
    using ConsolidateV6_mapped6 by (simp add: mapped6_def covered_def covers_def)
qed

end
