(* ===== verification/Kube_Objects.thy ===== *)
theory Kube_Objects
  imports Api_Types
begin

text \<open>
  The resources of other API groups that the controller reads or writes, with the fields it
  uses: the core, apps and networking groups of Kubernetes, cert-manager and Argo CD; and
  \<open>kobject\<close>, the values of the interface \<open>client.Object\<close>.
\<close>

section \<open>Core and apps\<close>

record Namespace =
  ns_Meta :: ObjectMeta

record Secret =
  sec_TypeMeta :: TypeMeta
  sec_Meta :: ObjectMeta
  sec_Data :: strmap

record ServicePort =
  sp_Name :: string
  sp_Port :: int
  sp_Protocol :: string
  sp_TargetPort :: int

record CoreServiceSpec =
  css_ExternalName :: string
  css_Type :: string
  css_ClusterIP :: string
  css_Ports :: "ServicePort list"
  css_Selector :: strmap

record CoreService =
  cs_TypeMeta :: TypeMeta
  cs_Meta :: ObjectMeta
  cs_Spec :: CoreServiceSpec

record EnvVar =
  env_Name :: string
  env_Value :: string

record ContainerPort =
  cp_Name :: string
  cp_ContainerPort :: int
  cp_Protocol :: string

text \<open>\<open>v1.Probe\<close> with an \<open>HTTPGet\<close> handler\<close>

record HTTPProbe =
  hp_InitialDelaySeconds :: int
  hp_Path :: string
  hp_Port :: int

record Container =
  cn_Name :: string
  cn_Image :: string
  cn_Args :: "string list"
  cn_Env :: "EnvVar list"
  cn_Ports :: "ContainerPort list"
  cn_LivenessProbe :: "HTTPProbe option"
  cn_ReadinessProbe :: "HTTPProbe option"
  cn_Limits :: strmap
  cn_Requests :: strmap

record PodSpec =
  pods_Containers :: "Container list"
  pods_NodeSelector :: strmap

record Pod =
  pod_TypeMeta :: TypeMeta
  pod_Meta :: ObjectMeta
  pod_Spec :: PodSpec

record DeploymentSpec =
  deps_Replicas :: "int option"
  deps_Selector :: LabelSelector
  deps_TemplateMeta :: ObjectMeta
  deps_TemplateSpec :: PodSpec

record Deployment =
  dep_TypeMeta :: TypeMeta
  dep_Meta :: ObjectMeta
  dep_Spec :: DeploymentSpec

section \<open>Networking\<close>

record HTTPIngressPath =
  hip_Path :: string
  hip_PathType :: "string option"
  hip_ServiceName :: string
  hip_ServicePort :: int

record IngressRule =
  ir_Host :: string
  ir_Paths :: "HTTPIngressPath list"

record IngressTLS =
  it_Hosts :: "string list"
  it_SecretName :: string

record IngressSpec =
  is_IngressClassName :: "string option"
  is_TLS :: "IngressTLS list"
  is_Rules :: "IngressRule list"

record Ingress =
  ing_TypeMeta :: TypeMeta
  ing_Meta :: ObjectMeta
  ing_Spec :: IngressSpec

section \<open>cert-manager\<close>

record IssuerRef =
  issuer_Name :: string
  issuer_Kind :: string
  issuer_Group :: string

text \<open>A \<open>metav1.Duration\<close> is its number of nanoseconds.\<close>

record CertSpec =
  crts_IssuerRef :: IssuerRef
  crts_SecretName :: string
  crts_DNSNames :: "string list"
  crts_RenewBefore :: "int option"

record CertCondition =
  crtc_Type :: string
  crtc_Status :: string

record Certificate =
  crt_TypeMeta :: TypeMeta
  crt_Meta :: ObjectMeta
  crt_Spec :: CertSpec
  crt_Conditions :: "CertCondition list"

record CertificateRequest =
  cr_Meta :: ObjectMeta

record Order =
  ord_Meta :: ObjectMeta

text \<open>The fields of a challenge's spec that the controller does not name are in \<open>chs_Rest\<close>.\<close>

record ChallengeSpec =
  chs_DNSName :: string
  chs_Token :: string
  chs_Key :: string
  chs_Rest :: string

record Challenge =
  ch_Meta :: ObjectMeta
  ch_Spec :: ChallengeSpec
  ch_Presented :: bool
  ch_Processing :: bool

section \<open>Argo CD\<close>

record HelmSource =
  helm_ReleaseName :: string
  helm_Values :: "string option"

record AppSource =
  src_Chart :: string
  src_RepoURL :: string
  src_TargetRevision :: string
  src_Helm :: "HelmSource option"

record AppDestination =
  dst_Server :: string
  dst_Namespace :: string
  dst_Name :: string

record SyncPolicy =
  sync_Prune :: bool
  sync_SelfHeal :: bool
  sync_AllowEmpty :: bool
  sync_Options :: "string list"

record AppSpec =
  as_Project :: string
  as_Destination :: AppDestination
  as_Source :: "AppSource option"
  as_Sources :: "AppSource list"
  as_SyncPolicy :: "SyncPolicy option"

record Application =
  app_TypeMeta :: TypeMeta
  app_Meta :: ObjectMeta
  app_Spec :: AppSpec

text \<open>A generator is a cluster generator; its selector has match expressions only.\<close>

record AppSetSpec =
  ass_Generators :: "LabelSelectorRequirement list list"
  ass_TemplateName :: string
  ass_TemplateNamespace :: string
  ass_TemplateSpec :: AppSpec

record ApplicationSet =
  aset_TypeMeta :: TypeMeta
  aset_Meta :: ObjectMeta
  aset_Spec :: AppSetSpec

section \<open>Objects\<close>

text \<open>The errors of an API call that the controller tells apart\<close>

datatype apierr = NotFound | AlreadyExists | Conflict | OtherError string

text \<open>\<open>client.IgnoreNotFound\<close>\<close>

fun IgnoreNotFound :: "apierr option \<Rightarrow> apierr option" where
  "IgnoreNotFound (Some NotFound) = None"
| "IgnoreNotFound e = e"

datatype kobject =
    OProject Project
  | OAPIKey APIKey
  | OZone Zone
  | ODNSEndpoint DNSEndpoint
  | OHealthCheckProfile HealthCheckProfile
  | OLocation Location
  | OPrefixList PrefixList
  | OService Service
  | ONamespace Namespace
  | OSecret Secret
  | OCoreService CoreService
  | ODeployment Deployment
  | OIngress Ingress
  | OCertificate Certificate
  | OCertificateRequest CertificateRequest
  | OOrder Order
  | OChallenge Challenge
  | OApplicationSet ApplicationSet

datatype kind =
    KProject | KAPIKey | KZone | KDNSEndpoint | KHealthCheckProfile | KLocation | KPrefixList
  | KService | KNamespace | KSecret | KCoreService | KDeployment | KIngress | KCertificate
  | KCertificateRequest | KOrder | KChallenge | KApplicationSet

fun kind_of :: "kobject \<Rightarrow> kind" where
  "kind_of (OProject _) = KProject"
| "kind_of (OAPIKey _) = KAPIKey"
| "kind_of (OZone _) = KZone"
| "kind_of (ODNSEndpoint _) = KDNSEndpoint"
| "kind_of (OHealthCheckProfile _) = KHealthCheckProfile"
| "kind_of (OLocation _) = KLocation"
| "kind_of (OPrefixList _) = KPrefixList"
| "kind_of (OService _) = KService"
| "kind_of (ONamespace _) = KNamespace"
| "kind_of (OSecret _) = KSecret"
| "kind_of (OCoreService _) = KCoreService"
| "kind_of (ODeployment _) = KDeployment"
| "kind_of (OIngress _) = KIngress"
| "kind_of (OCertificate _) = KCertificate"
| "kind_of (OCertificateRequest _) = KCertificateRequest"
| "kind_of (OOrder _) = KOrder"
| "kind_of (OChallenge _) = KChallenge"
| "kind_of (OApplicationSet _) = KApplicationSet"

fun obj_meta :: "kobject \<Rightarrow> ObjectMeta" where
  "obj_meta (OProject x) = prj_Meta x"
| "obj_meta (OAPIKey x) = ak_Meta x"
| "obj_meta (OZone x) = zone_Meta x"
| "obj_meta (ODNSEndpoint x) = de_Meta x"
| "obj_meta (OHealthCheckProfile x) = hcp_Meta x"
| "obj_meta (OLocation x) = loc_Meta x"
| "obj_meta (OPrefixList x) = pl_Meta x"
| "obj_meta (OService x) = svc_Meta x"
| "obj_meta (ONamespace x) = ns_Meta x"
| "obj_meta (OSecret x) = sec_Meta x"
| "obj_meta (OCoreService x) = cs_Meta x"
| "obj_meta (ODeployment x) = dep_Meta x"
| "obj_meta (OIngress x) = ing_Meta x"
| "obj_meta (OCertificate x) = crt_Meta x"
| "obj_meta (OCertificateRequest x) = cr_Meta x"
| "obj_meta (OOrder x) = ord_Meta x"
| "obj_meta (OChallenge x) = ch_Meta x"
| "obj_meta (OApplicationSet x) = aset_Meta x"

fun map_meta :: "(ObjectMeta \<Rightarrow> ObjectMeta) \<Rightarrow> kobject \<Rightarrow> kobject" where
  "map_meta f (OProject x) = OProject (x\<lparr>prj_Meta := f (prj_Meta x)\<rparr>)"
| "map_meta f (OAPIKey x) = OAPIKey (x\<lparr>ak_Meta := f (ak_Meta x)\<rparr>)"
| "map_meta f (OZone x) = OZone (x\<lparr>zone_Meta := f (zone_Meta x)\<rparr>)"
| "map_meta f (ODNSEndpoint x) = ODNSEndpoint (x\<lparr>de_Meta := f (de_Meta x)\<rparr>)"
| "map_meta f (OHealthCheckProfile x) = OHealthCheckProfile (x\<lparr>hcp_Meta := f (hcp_Meta x)\<rparr>)"
| "map_meta f (OLocation x) = OLocation (x\<lparr>loc_Meta := f (loc_Meta x)\<rparr>)"
| "map_meta f (OPrefixList x) = OPrefixList (x\<lparr>pl_Meta := f (pl_Meta x)\<rparr>)"
| "map_meta f (OService x) = OService (x\<lparr>svc_Meta := f (svc_Meta x)\<rparr>)"
| "map_meta f (ONamespace x) = ONamespace (x\<lparr>ns_Meta := f (ns_Meta x)\<rparr>)"
| "map_meta f (OSecret x) = OSecret (x\<lparr>sec_Meta := f (sec_Meta x)\<rparr>)"
| "map_meta f (OCoreService x) = OCoreService (x\<lparr>cs_Meta := f (cs_Meta x)\<rparr>)"
| "map_meta f (ODeployment x) = ODeployment (x\<lparr>dep_Meta := f (dep_Meta x)\<rparr>)"
| "map_meta f (OIngress x) = OIngress (x\<lparr>ing_Meta := f (ing_Meta x)\<rparr>)"
| "map_meta f (OCertificate x) = OCertificate (x\<lparr>crt_Meta := f (crt_Meta x)\<rparr>)"
| "map_meta f (OCertificateRequest x) = OCertificateRequest (x\<lparr>cr_Meta := f (cr_Meta x)\<rparr>)"
| "map_meta f (OOrder x) = OOrder (x\<lparr>ord_Meta := f (ord_Meta x)\<rparr>)"
| "map_meta f (OChallenge x) = OChallenge (x\<lparr>ch_Meta := f (ch_Meta x)\<rparr>)"
| "map_meta f (OApplicationSet x) = OApplicationSet (x\<lparr>aset_Meta := f (aset_Meta x)\<rparr>)"

abbreviation GetNamespace :: "kobject \<Rightarrow> string" where
  "GetNamespace ob \<equiv> om_Namespace (obj_meta ob)"

abbreviation GetLabels :: "kobject \<Rightarrow> strmap" where
  "GetLabels ob \<equiv> om_Labels (obj_meta ob)"

text \<open>The address of an object in a cluster: its kind, its namespace and its name\<close>

type_synonym obj_id = "kind \<times> NamespacedName"

definition id_of :: "kobject \<Rightarrow> obj_id" where
  "id_of ob = (kind_of ob, key_of (obj_meta ob))"

lemma kind_of_map_meta [simp]: "kind_of (map_meta f ob) = kind_of ob"
  by (cases ob) simp_all

lemma obj_meta_map_meta [simp]: "obj_meta (map_meta f ob) = f (obj_meta ob)"
  by (cases ob) simp_all

lemma map_meta_map_meta [simp]: "map_meta f (map_meta g ob) = map_meta (f \<circ> g) ob"
  by (cases ob) simp_all

lemma map_meta_ident [simp]: "map_meta (\<lambda>m. m) ob = ob"
  by (cases ob) simp_all

lemma map_meta_cong_meta: "f (obj_meta ob) = obj_meta ob \<Longrightarrow> map_meta f ob = ob"
  by (cases ob) simp_all

end
