(* ===== verification/Zero_Values.thy ===== *)
theory Zero_Values
  imports Kube_Objects
begin

text \<open>
  The zero values of Go for the structs of the API (\<open>T{}\<close>). The builders and the controllers
  fill their fields, and the concrete examples of the development are made from them.
\<close>

definition zero_ObjectMeta :: ObjectMeta where
  "zero_ObjectMeta = new_ObjectMeta [] []"

definition zero_ProjectSpec :: ProjectSpec where
  "zero_ProjectSpec = \<lparr>prjs_Name = [], prjs_Description = [], prjs_Rbac = \<lparr>rbac_Groups = [], rbac_Rules = []\<rparr>\<rparr>"

definition zero_Project :: Project where
  "zero_Project = \<lparr>prj_TypeMeta = empty_TypeMeta, prj_Meta = zero_ObjectMeta, prj_Spec = zero_ProjectSpec\<rparr>"

definition zero_ZoneStatus :: ZoneStatus where
  "zero_ZoneStatus = \<lparr>zonest_Status = []\<rparr>"

definition zero_Zone :: Zone where
  "zero_Zone = \<lparr>zone_TypeMeta = empty_TypeMeta, zone_Meta = zero_ObjectMeta,
     zone_Spec = \<lparr>zones_Project = None, zones_Zone = [], zones_Email = []\<rparr>, zone_Status = zero_ZoneStatus\<rparr>"

definition zero_DNSEndpointSpec :: DNSEndpointSpec where
  "zero_DNSEndpointSpec = \<lparr>des_Project = None, des_DNSName = [], des_RoutingPolicy = [], des_RecordTTL = 0,
     des_RecordType = [], des_Targets = [], des_RouteSelector = None, des_Zone = None\<rparr>"

definition zero_DNSEndpointStatus :: DNSEndpointStatus where
  "zero_DNSEndpointStatus = \<lparr>dest_Status = []\<rparr>"

definition zero_DNSEndpoint :: DNSEndpoint where
  "zero_DNSEndpoint = \<lparr>de_TypeMeta = empty_TypeMeta, de_Meta = zero_ObjectMeta,
     de_Spec = zero_DNSEndpointSpec, de_Status = zero_DNSEndpointStatus\<rparr>"

definition zero_HealthCheckProfileStatus :: HealthCheckProfileStatus where
  "zero_HealthCheckProfileStatus = \<lparr>hcpst_Status = []\<rparr>"

definition zero_HealthCheckProfile :: HealthCheckProfile where
  "zero_HealthCheckProfile = \<lparr>hcp_TypeMeta = empty_TypeMeta, hcp_Meta = zero_ObjectMeta,
     hcp_Spec = \<lparr>hcps_Project = None, hcps_Probes = []\<rparr>, hcp_Status = zero_HealthCheckProfileStatus\<rparr>"

definition zero_LocationStatus :: LocationStatus where
  "zero_LocationStatus = \<lparr>locst_Status = [], locst_Alerts = [], locst_NodeStatus = fmempty\<rparr>"

definition zero_LocationSpec :: LocationSpec where
  "zero_LocationSpec = \<lparr>locs_Project = None, locs_FallbackLocations = [], locs_Nodes = [],
     locs_GeoLookup = \<lparr>gl_Weight = 0, gl_Attributes = fmempty\<rparr>, locs_Weight = 0,
     locs_MaintenanceMode = False, locs_NodeGroups = [], locs_Alerts = [], locs_Parent = []\<rparr>"

definition zero_Location :: Location where
  "zero_Location = \<lparr>loc_TypeMeta = empty_TypeMeta, loc_Meta = zero_ObjectMeta,
     loc_Spec = zero_LocationSpec, loc_Status = zero_LocationStatus\<rparr>"

definition zero_PrefixListStatus :: PrefixListStatus where
  "zero_PrefixListStatus = \<lparr>plst_Status = [], plst_ConsoliadtionStatus = []\<rparr>"

definition zero_PrefixList :: PrefixList where
  "zero_PrefixList = \<lparr>pl_TypeMeta = empty_TypeMeta, pl_Meta = zero_ObjectMeta,
     pl_Spec = \<lparr>pls_Project = None, pls_Source = [], pls_Prefix = \<lparr>prefix_V4 = [], prefix_V6 = []\<rparr>,
       pls_Destination = []\<rparr>, pl_Status = zero_PrefixListStatus\<rparr>"

definition zero_CertificateSpec :: CertificateSpec where
  "zero_CertificateSpec = \<lparr>cert_CertificateRef = [], cert_SecretRef = [], cert_Crt = [], cert_Key = []\<rparr>"

definition zero_ServiceStatus :: ServiceStatus where
  "zero_ServiceStatus = \<lparr>sst_Status = []\<rparr>"

definition zero_ServiceSpec :: ServiceSpec where
  "zero_ServiceSpec = \<lparr>ss_Project = None, ss_Name = [], ss_Domain = [], ss_Certificate = zero_CertificateSpec,
     ss_OriginType = [], ss_StaticOrigins = [], ss_S3OriginSpec = [], ss_SecureKeys = [],
     ss_Customer = \<lparr>cust_Name = [], cust_Id = 0\<rparr>, ss_Cache = [],
     ss_CacheKeySpec = \<lparr>ck_QueryParams = [], ck_Headers = []\<rparr>,
     ss_MirrorSpec = \<lparr>mirror_URL = [], mirror_HostHeader = []\<rparr>, ss_HostAliases = [],
     ss_Waf = \<lparr>waf_Enabled = False\<rparr>,
     ss_Cors = \<lparr>cors_AllowMethods = [], cors_AllowOrigin = [], cors_AllowCredentials = False\<rparr>,
     ss_Path = \<lparr>path_Paths = [], path_Rewrite = []\<rparr>, ss_RouteSelector = None\<rparr>"

definition zero_Service :: Service where
  "zero_Service = \<lparr>svc_TypeMeta = empty_TypeMeta, svc_Meta = zero_ObjectMeta,
     svc_Spec = zero_ServiceSpec, svc_Status = zero_ServiceStatus\<rparr>"

section \<open>Examples\<close>

definition example_project :: "string \<Rightarrow> string \<Rightarrow> Project" where
  "example_project namespace name = zero_Project\<lparr>prj_Meta := new_ObjectMeta name namespace\<rparr>"

definition example_zone :: "string \<Rightarrow> string \<Rightarrow> string \<Rightarrow> string \<Rightarrow> Zone" where
  "example_zone namespace name project domain =
     zero_Zone\<lparr>zone_Meta := new_ObjectMeta name namespace,
       zone_Spec := \<lparr>zones_Project = Some \<lparr>lor_Name = project\<rparr>, zones_Zone = domain, zones_Email = []\<rparr>\<rparr>"

definition example_endpoint :: "string \<Rightarrow> string \<Rightarrow> string \<Rightarrow> string \<Rightarrow> string \<Rightarrow> DNSEndpoint" where
  "example_endpoint namespace name project zone dnsName =
     zero_DNSEndpoint\<lparr>de_Meta := new_ObjectMeta name namespace,
       de_Spec := zero_DNSEndpointSpec\<lparr>des_Project := Some \<lparr>lor_Name = project\<rparr>, des_DNSName := dnsName,
         des_Zone := Some \<lparr>lor_Name = zone\<rparr>\<rparr>\<rparr>"

lemmas zero_defs =
  zero_ObjectMeta_def zero_ProjectSpec_def zero_Project_def zero_ZoneStatus_def zero_Zone_def
  zero_DNSEndpointSpec_def zero_DNSEndpointStatus_def zero_DNSEndpoint_def
  zero_HealthCheckProfileStatus_def zero_HealthCheckProfile_def zero_LocationStatus_def
  zero_LocationSpec_def zero_Location_def zero_PrefixListStatus_def zero_PrefixList_def
  zero_CertificateSpec_def zero_ServiceStatus_def zero_ServiceSpec_def zero_Service_def
  empty_TypeMeta_def new_ObjectMeta_def

lemmas example_defs = example_project_def example_zone_def example_endpoint_def zero_defs

end
