(* ===== verification/Tenancy.thy ===== *)
theory Tenancy
  imports Zero_Values
begin

text \<open>
  Tenancy (\<open>internal/tenancy\<close>) and the admission webhook that enforces it
  (\<open>internal/webhook/v1alpha1/tenancy_webhook.go\<close>, for projects also \<open>project_webhook.go\<close>): which namespaces and projects a resource may
  be in, that its project does not change, and that its references stay in its project. The
  reader of the API server, \<open>validation.IsDNS1123Label\<close> and the decoder are arguments.
  \<open>None\<close> is a nil error.
\<close>

section \<open>Scope\<close>

record Scope =
  Namespaced :: bool
  TargetNamespace :: string

datatype tenancy_error =
    InvalidTargetNamespace string "string list"
  | NamespaceMustBe string
  | ProjectNameMustMatch string
  | ProjectRequired
  | ProjectImmutable
  | ResolveProject apierr
  | ProjectBeingDeleted string
  | ReferenceNameRequired
  | ResolveReference string apierr
  | ReferenceOutsideProject string string
  | LocationReferencesItself

definition Scope_Validate :: "(string \<Rightarrow> string list) \<Rightarrow> Scope \<Rightarrow> tenancy_error option" where
  "Scope_Validate IsDNS1123Label s =
     (if \<not> Namespaced s then
        (let problems = IsDNS1123Label (TargetNamespace s) in
         if length problems \<noteq> 0 then Some (InvalidTargetNamespace (TargetNamespace s) problems)
         else None)
      else None)"

definition ValidateNamespace :: "Scope \<Rightarrow> string \<Rightarrow> tenancy_error option" where
  "ValidateNamespace s namespace =
     (if \<not> Namespaced s \<and> namespace \<noteq> TargetNamespace s
      then Some (NamespaceMustBe (TargetNamespace s)) else None)"

definition ValidateProject :: "Scope \<Rightarrow> string \<Rightarrow> string \<Rightarrow> tenancy_error option" where
  "ValidateProject s namespace name =
     (case ValidateNamespace s namespace of
        Some err \<Rightarrow> Some err
      | None \<Rightarrow> if Namespaced s \<and> name \<noteq> namespace then Some (ProjectNameMustMatch namespace) else None)"

text \<open>The project webhook (\<open>project_webhook.go\<close>): a create and an update are checked against the scope.\<close>

definition Project_ValidateCreate :: "Scope \<Rightarrow> Project \<Rightarrow> tenancy_error option" where
  "Project_ValidateCreate s obj = ValidateProject s (om_Namespace (prj_Meta obj)) (om_Name (prj_Meta obj))"

definition Project_ValidateUpdate :: "Scope \<Rightarrow> Project \<Rightarrow> Project \<Rightarrow> tenancy_error option" where
  "Project_ValidateUpdate s oldObj newObj = ValidateProject s (om_Namespace (prj_Meta newObj)) (om_Name (prj_Meta newObj))"

definition Project_ValidateDelete :: "Scope \<Rightarrow> Project \<Rightarrow> tenancy_error option" where
  "Project_ValidateDelete s obj = None"

section \<open>References\<close>

fun ProjectReference :: "kobject \<Rightarrow> LocalObjectReference option" where
  "ProjectReference (OAPIKey r) = aks_Project (ak_Spec r)"
| "ProjectReference (ODNSEndpoint r) = des_Project (de_Spec r)"
| "ProjectReference (OHealthCheckProfile r) = hcps_Project (hcp_Spec r)"
| "ProjectReference (OLocation r) = locs_Project (loc_Spec r)"
| "ProjectReference (OPrefixList r) = pls_Project (pl_Spec r)"
| "ProjectReference (OService r) = ss_Project (svc_Spec r)"
| "ProjectReference (OZone r) = zones_Project (zone_Spec r)"
| "ProjectReference _ = None"

definition SameProject :: "kobject \<Rightarrow> kobject \<Rightarrow> bool" where
  "SameProject first second =
     (GetNamespace first = GetNamespace second \<and>
      (case (ProjectReference first, ProjectReference second) of
         (Some r, Some r') \<Rightarrow> lor_Name r = lor_Name r'
       | _ \<Rightarrow> False))"

type_synonym reader = "kind \<Rightarrow> NamespacedName \<Rightarrow> apierr + kobject"

text \<open>The closures \<open>validateReference\<close> and \<open>validateHealthCheck\<close> of \<open>ValidateResource\<close>\<close>

definition validateReference ::
  "reader \<Rightarrow> kobject \<Rightarrow> LocalObjectReference \<Rightarrow> string \<Rightarrow> kind \<Rightarrow> tenancy_error option" where
  "validateReference get object reference name target =
     (if name = [] then Some ReferenceNameRequired
      else case get target \<lparr>nn_Namespace = GetNamespace object, nn_Name = name\<rparr> of
        Inl err \<Rightarrow> Some (ResolveReference name err)
      | Inr ob \<Rightarrow>
          if \<not> SameProject object ob then Some (ReferenceOutsideProject name (lor_Name reference))
          else None)"

definition validateHealthCheck ::
  "reader \<Rightarrow> kobject \<Rightarrow> LocalObjectReference \<Rightarrow> LocalObjectReference option \<Rightarrow> tenancy_error option" where
  "validateHealthCheck get object reference hc =
     (case hc of None \<Rightarrow> None
      | Some r \<Rightarrow> validateReference get object reference (lor_Name r) KHealthCheckProfile)"

definition validateLocation ::
  "reader \<Rightarrow> kobject \<Rightarrow> LocalObjectReference \<Rightarrow> Location \<Rightarrow> tenancy_error option" where
  "validateLocation get object reference resource =
     (let spec = loc_Spec resource;
          locations = locs_FallbackLocations spec @ (if locs_Parent spec \<noteq> [] then [locs_Parent spec] else []);
          nodes = locs_Nodes spec @ concat (map ng_Nodes (locs_NodeGroups spec)) in
      case first_error (\<lambda>name.
          if name = om_Name (loc_Meta resource) then Some LocationReferencesItself
          else validateReference get object reference name KLocation) locations of
        Some err \<Rightarrow> Some err
      | None \<Rightarrow>
         (case first_error (\<lambda>group. validateHealthCheck get object reference (ng_HealthCheck group))
                 (locs_NodeGroups spec) of
            Some err \<Rightarrow> Some err
          | None \<Rightarrow> first_error (\<lambda>node. validateHealthCheck get object reference (node_HealthCheck node)) nodes))"

text \<open>The switch at the end of \<open>ValidateResource\<close>\<close>

fun validateReferences :: "reader \<Rightarrow> kobject \<Rightarrow> LocalObjectReference \<Rightarrow> tenancy_error option" where
  "validateReferences get (ODNSEndpoint resource) reference =
     (case des_Zone (de_Spec resource) of
        None \<Rightarrow> None
      | Some z \<Rightarrow> validateReference get (ODNSEndpoint resource) reference (lor_Name z) KZone)"
| "validateReferences get (OPrefixList resource) reference =
     validateReference get (OPrefixList resource) reference (pls_Destination (pl_Spec resource)) KLocation"
| "validateReferences get (OLocation resource) reference =
     validateLocation get (OLocation resource) reference resource"
| "validateReferences get _ reference = None"

text \<open>Everything of \<open>ValidateResource\<close> that applies to a resource other than a project\<close>

definition validateMember ::
  "Scope \<Rightarrow> reader \<Rightarrow> kobject \<Rightarrow> kobject option \<Rightarrow> tenancy_error option" where
  "validateMember s get object oldObject =
     (case ValidateNamespace s (GetNamespace object) of
        Some err \<Rightarrow> Some err
      | None \<Rightarrow>
        (case ProjectReference object of
           None \<Rightarrow> Some ProjectRequired
         | Some reference \<Rightarrow>
             if lor_Name reference = [] then Some ProjectRequired
             else case ValidateProject s (GetNamespace object) (lor_Name reference) of
               Some err \<Rightarrow> Some err
             | None \<Rightarrow>
                 if (case oldObject of None \<Rightarrow> False
                     | Some old \<Rightarrow> (case ProjectReference old of
                          None \<Rightarrow> True | Some oldReference \<Rightarrow> lor_Name oldReference \<noteq> lor_Name reference))
                 then Some ProjectImmutable
                 else case get KProject \<lparr>nn_Namespace = GetNamespace object, nn_Name = lor_Name reference\<rparr> of
                   Inl err \<Rightarrow> Some (ResolveProject err)
                 | Inr project \<Rightarrow>
                     if om_DeletionTimestamp (obj_meta project) \<noteq> None
                     then Some (ProjectBeingDeleted (om_Name (obj_meta project)))
                     else validateReferences get object reference))"

definition ValidateResource ::
  "Scope \<Rightarrow> reader \<Rightarrow> kobject \<Rightarrow> kobject option \<Rightarrow> tenancy_error option" where
  "ValidateResource s get object oldObject =
     (case object of
        OProject project \<Rightarrow> ValidateProject s (om_Namespace (prj_Meta project)) (om_Name (prj_Meta project))
      | _ \<Rightarrow> validateMember s get object oldObject)"

text \<open>\<open>CacheObjects\<close>: the namespaces the cache watches per kind; \<open>None\<close> is the nil map.\<close>

definition CacheObjects :: "Scope \<Rightarrow> (kind \<times> string list) list option" where
  "CacheObjects s =
     (if Namespaced s then None
      else Some (map (\<lambda>k. (k, [TargetNamespace s]))
        [KProject, KAPIKey, KDNSEndpoint, KHealthCheckProfile, KLocation, KPrefixList, KService, KZone]))"

section \<open>The admission webhook\<close>

record AdmissionRequest =
  rq_Operation :: string
  rq_Object :: string
  rq_OldObject :: string

datatype denial = ExpectedResource | ExpectedOldResource | DeniedBy tenancy_error

datatype AdmissionResponse = Allowed | Errored nat string | Denied denial

text \<open>A decoded value that is not a \<open>client.Object\<close> is \<open>Inr None\<close>.\<close>

definition Handle ::
  "Scope \<Rightarrow> reader \<Rightarrow> (string \<Rightarrow> string + kobject option) \<Rightarrow> AdmissionRequest \<Rightarrow> AdmissionResponse" where
  "Handle s get Decode request =
     (if rq_Operation request \<noteq> ''CREATE'' \<and> rq_Operation request \<noteq> ''UPDATE'' then Allowed
      else case Decode (rq_Object request) of
        Inl err \<Rightarrow> Errored 400 err
      | Inr None \<Rightarrow> Denied ExpectedResource
      | Inr (Some object) \<Rightarrow>
          (let validate = (\<lambda>old. case ValidateResource s get object old of
                 Some err \<Rightarrow> Denied (DeniedBy err) | None \<Rightarrow> Allowed) in
           if rq_Operation request = ''UPDATE'' then
             (case Decode (rq_OldObject request) of
                Inl err \<Rightarrow> Errored 400 err
              | Inr None \<Rightarrow> Denied ExpectedOldResource
              | Inr (Some old) \<Rightarrow> validate (Some old))
           else validate None))"

section \<open>What is admitted\<close>

text \<open>The resources that a resource refers to by name, other than its project\<close>

definition health_refs :: "LocalObjectReference option list \<Rightarrow> (kind \<times> string) list" where
  "health_refs hcs = map (\<lambda>r. (KHealthCheckProfile, lor_Name r)) (List.map_filter id hcs)"

fun references :: "kobject \<Rightarrow> (kind \<times> string) list" where
  "references (ODNSEndpoint r) =
     (case des_Zone (de_Spec r) of None \<Rightarrow> [] | Some z \<Rightarrow> [(KZone, lor_Name z)])"
| "references (OPrefixList r) = [(KLocation, pls_Destination (pl_Spec r))]"
| "references (OLocation r) =
     map (Pair KLocation) (locs_FallbackLocations (loc_Spec r)) @
     (if locs_Parent (loc_Spec r) = [] then [] else [(KLocation, locs_Parent (loc_Spec r))]) @
     health_refs (map ng_HealthCheck (locs_NodeGroups (loc_Spec r))) @
     health_refs (map node_HealthCheck
       (locs_Nodes (loc_Spec r) @ concat (map ng_Nodes (locs_NodeGroups (loc_Spec r)))))"
| "references _ = []"

definition resolves :: "reader \<Rightarrow> kobject \<Rightarrow> kind \<times> string \<Rightarrow> bool" where
  "resolves get object kn \<longleftrightarrow> snd kn \<noteq> [] \<and>
     (case get (fst kn) \<lparr>nn_Namespace = GetNamespace object, nn_Name = snd kn\<rparr> of
        Inl err \<Rightarrow> False | Inr ob \<Rightarrow> SameProject object ob)"

definition in_scope :: "Scope \<Rightarrow> string \<Rightarrow> string \<Rightarrow> bool" where
  "in_scope s namespace project \<longleftrightarrow>
     (if Namespaced s then project = namespace else namespace = TargetNamespace s)"

definition keeps_project :: "kobject option \<Rightarrow> LocalObjectReference \<Rightarrow> bool" where
  "keeps_project old r \<longleftrightarrow>
     (case old of None \<Rightarrow> True | Some ob \<Rightarrow> map_option lor_Name (ProjectReference ob) = Some (lor_Name r))"

definition project_alive :: "reader \<Rightarrow> NamespacedName \<Rightarrow> bool" where
  "project_alive get key \<longleftrightarrow>
     (case get KProject key of Inl err \<Rightarrow> False | Inr p \<Rightarrow> om_DeletionTimestamp (obj_meta p) = None)"

definition self_reference :: "kobject \<Rightarrow> bool" where
  "self_reference object \<longleftrightarrow>
     kind_of object = KLocation \<and> (KLocation, om_Name (obj_meta object)) \<in> set (references object)"

definition admissible :: "Scope \<Rightarrow> reader \<Rightarrow> kobject \<Rightarrow> kobject option \<Rightarrow> bool" where
  "admissible s get object old \<longleftrightarrow>
     (if kind_of object = KProject then in_scope s (GetNamespace object) (om_Name (obj_meta object))
      else case ProjectReference object of
        None \<Rightarrow> False
      | Some r \<Rightarrow>
          lor_Name r \<noteq> [] \<and> in_scope s (GetNamespace object) (lor_Name r) \<and> keeps_project old r \<and>
          project_alive get \<lparr>nn_Namespace = GetNamespace object, nn_Name = lor_Name r\<rparr> \<and>
          list_all (resolves get object) (references object) \<and> \<not> self_reference object)"

lemma seq_None_iff: "(case x of None \<Rightarrow> y | Some e \<Rightarrow> Some e) = None \<longleftrightarrow> x = None \<and> y = None"
  by (cases x) simp_all

lemma call_None_iff:
  "(case x of Inl e \<Rightarrow> Some (f e) | Inr v \<Rightarrow> g v) = None \<longleftrightarrow>
   (case x of Inl e \<Rightarrow> False | Inr v \<Rightarrow> g v = None)"
  by (cases x) simp_all

lemma ValidateProject_iff: "ValidateProject s namespace name = None \<longleftrightarrow> in_scope s namespace name"
  by (simp add: ValidateProject_def ValidateNamespace_def in_scope_def)

text \<open>The project webhook and the tenancy webhook agree on projects.\<close>

lemma project_webhooks_agree:
  "Project_ValidateCreate s p = ValidateResource s get (OProject p) None"
  "Project_ValidateUpdate s old p = ValidateResource s get (OProject p) (Some (OProject old))"
  by (simp_all add: Project_ValidateCreate_def Project_ValidateUpdate_def ValidateResource_def)

lemma validateReference_iff:
  "validateReference get object reference name k = None \<longleftrightarrow> resolves get object (k, name)"
  by (simp add: validateReference_def resolves_def split: sum.split)

lemma validateHealthCheck_iff:
  "(\<forall>x \<in> set xs. validateHealthCheck get object reference (f x) = None) \<longleftrightarrow>
   list_all (resolves get object) (health_refs (map f xs))"
  by (induction xs)
    (auto simp: health_refs_def List.map_filter_def validateHealthCheck_def validateReference_iff
      split: option.splits)

lemma list_all_resolves_map:
  "list_all (resolves get object) (map (Pair k) xs) \<longleftrightarrow> (\<forall>n \<in> set xs. resolves get object (k, n))"
  by (auto simp: list_all_iff)

lemma set_health_refs: "(k, n) \<in> set (health_refs hcs) \<Longrightarrow> k = KHealthCheckProfile"
  by (auto simp: health_refs_def)

lemma validateLocation_iff:
  "validateLocation get (OLocation r) reference r = None \<longleftrightarrow>
   list_all (resolves get (OLocation r)) (references (OLocation r)) \<and> \<not> self_reference (OLocation r)"
proof -
  let ?ls = "locs_FallbackLocations (loc_Spec r) @
    (if locs_Parent (loc_Spec r) \<noteq> [] then [locs_Parent (loc_Spec r)] else [])"
  have "self_reference (OLocation r) \<longleftrightarrow> om_Name (loc_Meta r) \<in> set ?ls"
    by (auto simp: self_reference_def dest: set_health_refs)
  moreover have "validateLocation get (OLocation r) reference r = None \<longleftrightarrow>
      (\<forall>n \<in> set ?ls. n \<noteq> om_Name (loc_Meta r) \<and> resolves get (OLocation r) (KLocation, n)) \<and>
      list_all (resolves get (OLocation r)) (health_refs (map ng_HealthCheck (locs_NodeGroups (loc_Spec r)))) \<and>
      list_all (resolves get (OLocation r)) (health_refs (map node_HealthCheck
         (locs_Nodes (loc_Spec r) @ concat (map ng_Nodes (locs_NodeGroups (loc_Spec r))))))"
    unfolding validateLocation_def Let_def seq_None_iff first_error_None_iff validateHealthCheck_iff
    by (auto simp: validateReference_iff)
  ultimately show ?thesis
    by (auto simp: list_all_resolves_map)
qed

lemma validateReferences_iff:
  "kind_of object \<noteq> KProject \<Longrightarrow> validateReferences get object reference = None \<longleftrightarrow>
   list_all (resolves get object) (references object) \<and> \<not> self_reference object"
  by (cases object)
    (auto simp: validateReference_iff validateLocation_iff self_reference_def split: option.split)

lemma validateMember_iff:
  assumes "kind_of object \<noteq> KProject"
  shows "validateMember s get object old = None \<longleftrightarrow> admissible s get object old"
proof (cases "ProjectReference object")
  case None
  with assms show ?thesis by (simp add: validateMember_def admissible_def split: option.split)
next
  case (Some r)
  have "in_scope s (GetNamespace object) (lor_Name r) \<Longrightarrow> ValidateNamespace s (GetNamespace object) = None"
    by (simp add: in_scope_def ValidateNamespace_def split: if_splits)
  moreover have "keeps_project old r \<longleftrightarrow> \<not> (case old of None \<Rightarrow> False | Some ob \<Rightarrow>
      (case ProjectReference ob of None \<Rightarrow> True | Some r' \<Rightarrow> lor_Name r' \<noteq> lor_Name r))"
    by (simp add: keeps_project_def split: option.split)
  ultimately show ?thesis
    using Some assms
    by (auto simp: validateMember_def admissible_def seq_None_iff call_None_iff ValidateProject_iff
        validateReferences_iff project_alive_def simp del: not_None_eq split: sum.splits if_splits)
qed

lemma ValidateResource_admissible: "ValidateResource s get object old = None \<longleftrightarrow> admissible s get object old"
proof (cases "kind_of object = KProject")
  case True
  then obtain p where "object = OProject p" by (cases object) simp_all
  then show ?thesis by (simp add: ValidateResource_def admissible_def ValidateProject_iff)
next
  case False
  then have "ValidateResource s get object old = validateMember s get object old"
    by (cases object) (simp_all add: ValidateResource_def)
  with False show ?thesis by (simp add: validateMember_iff)
qed

lemma SameProject_trans: "SameProject a b \<Longrightarrow> SameProject b c \<Longrightarrow> SameProject a c"
  by (auto simp: SameProject_def split: option.splits)

text \<open>An admitted resource refers to another one that the API server returns.\<close>

inductive refers :: "Scope \<Rightarrow> reader \<Rightarrow> kobject \<Rightarrow> kobject \<Rightarrow> bool" for s get where
  "ValidateResource s get a old = None \<Longrightarrow> (k, n) \<in> set (references a) \<Longrightarrow>
   get k \<lparr>nn_Namespace = GetNamespace a, nn_Name = n\<rparr> = Inr b \<Longrightarrow> refers s get a b"

lemma refers_SameProject: "refers s get a b \<Longrightarrow> SameProject a b"
proof (induction rule: refers.induct)
  case (1 a old k n b)
  have "kind_of a \<noteq> KProject" using "1.hyps"(2) by (cases a) simp_all
  with "1.hyps"(1) have "list_all (resolves get a) (references a)"
    by (simp add: ValidateResource_admissible admissible_def split: option.splits)
  with "1.hyps" have "resolves get a (k, n)" by (auto simp: list_all_iff)
  with "1.hyps"(3) show ?case by (simp add: resolves_def)
qed

text \<open>An update of a resource that the webhook admits, against the API server of that moment\<close>

inductive revises :: "Scope \<Rightarrow> kobject \<Rightarrow> kobject \<Rightarrow> bool" for s where
  "kind_of new = kind_of old \<Longrightarrow> ValidateResource s get new (Some old) = None \<Longrightarrow> revises s old new"

lemma revises_project:
  assumes "revises s old new" and "kind_of old \<noteq> KProject"
  shows "kind_of new \<noteq> KProject \<and>
    map_option lor_Name (ProjectReference new) = map_option lor_Name (ProjectReference old)"
  using assms
  by (auto simp: ValidateResource_admissible admissible_def keeps_project_def
      elim!: revises.cases split: option.splits)

text \<open>An API server that holds the project \<open>team-a\<close> and a zone of it\<close>

definition example_reader :: reader where
  "example_reader k key =
     (if nn_Namespace key \<noteq> ''team-a'' then Inl NotFound
      else case k of
        KProject \<Rightarrow> if nn_Name key = ''team-a'' then Inr (OProject (example_project ''team-a'' ''team-a''))
                    else Inl NotFound
      | KZone \<Rightarrow> if nn_Name key = ''z'' then Inr (OZone (example_zone ''team-a'' ''z'' ''team-a'' ''a.com''))
                 else Inl NotFound
      | _ \<Rightarrow> Inl NotFound)"

section \<open>Properties\<close>

text \<open>
  C12. \<open>ValidateResource\<close> returns no error exactly for the admissible resources. A project is
  admissible when its namespace is in scope. Any other resource is admissible when it names a
  project that its namespace allows, does not change the project of the resource it updates,
  its project exists and is not being deleted, every reference it makes resolves to a resource
  of its namespace and project, and a location does not refer to itself.
\<close>

theorem ValidateResource_iff_admissible:
  "ValidateResource s get object old = None \<longleftrightarrow> admissible s get object old"
  by (rule ValidateResource_admissible)

text \<open>
  C4. References do not leave the tenant: whatever can be reached from an admitted resource by
  following references of admitted resources is in its namespace and its project.
\<close>

theorem references_stay_in_project:
  assumes "(refers s get)\<^sup>+\<^sup>+ a b"
  shows "SameProject a b"
  using assms by (induction rule: tranclp_induct) (auto intro: refers_SameProject SameProject_trans)

theorem references_stay_in_project_witness:
  "SameProject (ODNSEndpoint (example_endpoint ''team-a'' ''e'' ''team-a'' ''z'' ''www.a.com''))
     (OZone (example_zone ''team-a'' ''z'' ''team-a'' ''a.com''))"
proof -
  let ?s = "\<lparr>Namespaced = True, TargetNamespace = []\<rparr>"
  have "ValidateResource ?s example_reader
      (ODNSEndpoint (example_endpoint ''team-a'' ''e'' ''team-a'' ''z'' ''www.a.com'')) None = None"
    by code_simp
  then have "refers ?s example_reader
      (ODNSEndpoint (example_endpoint ''team-a'' ''e'' ''team-a'' ''z'' ''www.a.com''))
      (OZone (example_zone ''team-a'' ''z'' ''team-a'' ''a.com''))"
    by (rule refers.intros [where k = KZone and n = "''z''"])
      (simp_all add: example_reader_def example_defs)
  then show ?thesis by (rule references_stay_in_project [OF tranclp.r_into_trancl])
qed

text \<open>
  C18. No sequence of admitted updates moves a resource to another project.\<close>

theorem project_is_immutable:
  assumes "(revises s)\<^sup>*\<^sup>* before now" and "kind_of before \<noteq> KProject"
  shows "map_option lor_Name (ProjectReference now) = map_option lor_Name (ProjectReference before)"
proof -
  have "kind_of now \<noteq> KProject \<and>
      map_option lor_Name (ProjectReference now) = map_option lor_Name (ProjectReference before)"
    using assms by (induction rule: rtranclp_induct) (auto dest: revises_project)
  then show ?thesis by simp
qed

theorem project_is_immutable_witness:
  "map_option lor_Name (ProjectReference (OZone (example_zone ''team-a'' ''z'' ''team-a'' ''b.com''))) =
   map_option lor_Name (ProjectReference (OZone (example_zone ''team-a'' ''z'' ''team-a'' ''a.com'')))"
proof -
  have "revises \<lparr>Namespaced = True, TargetNamespace = []\<rparr>
      (OZone (example_zone ''team-a'' ''z'' ''team-a'' ''a.com''))
      (OZone (example_zone ''team-a'' ''z'' ''team-a'' ''b.com''))"
    by (rule revises.intros [of _ _ _ example_reader]) (simp, code_simp)
  then show ?thesis using project_is_immutable [OF r_into_rtranclp] by force
qed

text \<open>
  C19. The webhook lets a create or an update through only when the object decodes and is
  admissible, for an update also against the decoded old object; it never answers a request it
  cannot decode with a permission.
\<close>

theorem webhook_admits_only_admissible:
  assumes "rq_Operation request = ''CREATE'' \<or> rq_Operation request = ''UPDATE''"
  shows "Handle s get Decode request = Allowed \<longleftrightarrow>
     (\<exists>object. Decode (rq_Object request) = Inr (Some object) \<and>
        (if rq_Operation request = ''UPDATE''
         then (\<exists>old. Decode (rq_OldObject request) = Inr (Some old) \<and> admissible s get object (Some old))
         else admissible s get object None))"
  using assms unfolding Handle_def Let_def ValidateResource_admissible [symmetric]
  by (auto split: sum.split option.split)

theorem webhook_admits_only_admissible_witness:
  "Handle \<lparr>Namespaced = True, TargetNamespace = []\<rparr> example_reader
     (\<lambda>raw. if raw = ''{}'' then Inl ''no kind'' else Inr (Some (OZone (example_zone raw ''z'' ''team-a'' ''a.com''))))
     \<lparr>rq_Operation = ''UPDATE'', rq_Object = ''team-a'', rq_OldObject = ''{}''\<rparr> \<noteq> Allowed"
  using webhook_admits_only_admissible
    [of "\<lparr>rq_Operation = ''UPDATE'', rq_Object = ''team-a'', rq_OldObject = ''{}''\<rparr>"]
  by simp

text \<open>
  The manager admits nothing it does not watch: when the cache is restricted, an admitted
  resource is of one of the listed kinds and in a namespace listed for it; the cache is
  unrestricted exactly in namespaced mode.
\<close>

theorem cache_matches_scope:
  assumes "ValidateResource s get object old = None"
  shows "case CacheObjects s of
      None \<Rightarrow> Namespaced s
    | Some m \<Rightarrow> \<not> Namespaced s \<and> map_of m (kind_of object) = Some [GetNamespace object]"
proof -
  have adm: "admissible s get object old" using assms by (simp add: ValidateResource_admissible)
  then have "kind_of object \<in> {KProject, KAPIKey, KDNSEndpoint, KHealthCheckProfile, KLocation,
      KPrefixList, KService, KZone}"
    by (cases object) (simp_all add: admissible_def)
  moreover have "GetNamespace object = TargetNamespace s" if "\<not> Namespaced s"
    using adm that by (auto simp: admissible_def in_scope_def split: if_splits option.splits)
  ultimately show ?thesis by (auto simp: CacheObjects_def)
qed

end
