(* ===== verification/Startup.thy ===== *)
theory Startup
  imports Tenancy
begin

text \<open>
  The start of the program (\<open>cmd/main.go\<close>) and its feature gates
  (\<open>internal/featuregate/featuregate.go\<close>): how the flags are read, which of them are refused,
  and which controllers and webhooks a role sets up, in which order. A call of \<open>main\<close> to a
  library is a \<open>setup_step\<close>; the argument \<open>env\<close> says which of them return an error.
\<close>

section \<open>Comma-separated flags\<close>

definition Enabled :: "string \<Rightarrow> string \<Rightarrow> bool" where
  "Enabled featureGates name = list_ex (\<lambda>g. TrimSpace g = name) (Split featureGates CHR '','')"

definition parseCSVValues :: "string \<Rightarrow> string list" where
  "parseCSVValues rawValue =
     (if TrimSpace rawValue = [] then []
      else filter (\<lambda>v. v \<noteq> []) (map TrimSpace (Split rawValue CHR '','')))"

section \<open>The flags and the steps of main\<close>

definition RoleController :: string where "RoleController = ''controller''"
definition RoleCacheController :: string where "RoleCacheController = ''cache-controller''"
definition RoleRouter :: string where "RoleRouter = ''router''"
definition RoleDownstream :: string where "RoleDownstream = ''downstream''"

record flags =
  f_role :: string
  f_tenantScope :: Scope
  f_downstreamTarget :: string
  f_upstreamKubeconfig :: string
  f_downstreamWorkers :: int
  f_downstreamQPS :: rat
  f_downstreamBurst :: int
  f_featureGates :: string
  f_blockedUpstreamTLDs :: string
  f_webhookCertPath :: string
  f_metricsCertPath :: string
  f_enableWebhooks :: string

datatype controller =
    CDownstream | CService | CChallenge | CHealthCheckProfile | CLocation | CPrefixList | CZone
  | CServiceCache | CServiceRouting

datatype webhook_setup =
    WService "string list" bool | WZone | WDNSEndpoint | WPrefixList | WHealthCheckProfile
  | WProject Scope | WTenancy Scope

datatype setup_step =
    LoadUpstreamKubeconfig | CreateUpstreamCache | WatchWebhookCert | WatchMetricsCert
  | CreateManager | CreateLocalClient | CreateDownstream | RegisterHandlers
  | SetupController controller | SetupWebhook webhook_setup
  | AddMetricsWatcher | AddWebhookWatcher | AddHealthz | AddReadyz | StartManager

datatype failure =
    InvalidTenantScope | InvalidDownstreamTarget | MissingKubeconfig | BadDownstreamLimits
  | StepFailed setup_step string

text \<open>An action of \<open>main\<close>: a check of the flags that must hold, or a call\<close>

datatype action = Check bool failure | Do setup_step

section \<open>main\<close>

definition downstream_checks :: "flags \<Rightarrow> action list" where
  "downstream_checks f =
     (if f_role f = RoleDownstream then
        [Check (f_downstreamTarget f = ''router'' \<or> f_downstreamTarget f = ''cache'') InvalidDownstreamTarget,
         Check (f_upstreamKubeconfig f \<noteq> []) MissingKubeconfig,
         Do LoadUpstreamKubeconfig,
         Check (\<not> (f_downstreamWorkers f < 1 \<or> f_downstreamQPS f = 0 \<or> f_downstreamBurst f < 1))
           BadDownstreamLimits,
         Do CreateUpstreamCache]
      else [])"

definition manager_actions :: "flags \<Rightarrow> action list" where
  "manager_actions f =
     (if f_webhookCertPath f \<noteq> [] then [Do WatchWebhookCert] else []) @
     (if f_metricsCertPath f \<noteq> [] then [Do WatchMetricsCert] else []) @
     [Do CreateManager]"

definition controller_actions :: "flags \<Rightarrow> action list" where
  "controller_actions f =
     (if f_role f = RoleDownstream then
        [Do CreateLocalClient, Do CreateDownstream, Do RegisterHandlers, Do (SetupController CDownstream)]
      else []) @
     (if f_role f = RoleController \<and> Enabled (f_featureGates f) ''cachingreconciler'' then
        [Do (SetupController CService), Do (SetupController CChallenge)]
      else []) @
     (if f_role f = RoleController then
        [Do (SetupController CHealthCheckProfile), Do (SetupController CLocation),
         Do (SetupController CPrefixList), Do (SetupController CZone)]
      else []) @
     (if f_role f = RoleCacheController then [Do (SetupController CServiceCache)] else []) @
     (if f_role f = RoleRouter then [Do (SetupController CServiceRouting)] else [])"

definition webhook_actions :: "flags \<Rightarrow> action list" where
  "webhook_actions f =
     (if f_enableWebhooks f \<noteq> ''false'' then
        [Do (SetupWebhook (WService (parseCSVValues (f_blockedUpstreamTLDs f))
              (Enabled (f_featureGates f) ''cachingreconciler''))),
         Do (SetupWebhook WZone), Do (SetupWebhook WDNSEndpoint), Do (SetupWebhook WPrefixList),
         Do (SetupWebhook WHealthCheckProfile), Do (SetupWebhook (WProject (f_tenantScope f))),
         Do (SetupWebhook (WTenancy (f_tenantScope f)))]
      else [])"

definition final_actions :: "flags \<Rightarrow> action list" where
  "final_actions f =
     (if f_metricsCertPath f \<noteq> [] then [Do AddMetricsWatcher] else []) @
     (if f_webhookCertPath f \<noteq> [] then [Do AddWebhookWatcher] else []) @
     [Do AddHealthz, Do AddReadyz, Do StartManager]"

definition main_actions :: "(string \<Rightarrow> string list) \<Rightarrow> flags \<Rightarrow> action list" where
  "main_actions IsDNS1123Label f =
     Check (Scope_Validate IsDNS1123Label (f_tenantScope f) = None) InvalidTenantScope #
     downstream_checks f @ manager_actions f @ controller_actions f @ webhook_actions f @ final_actions f"

text \<open>
  \<open>SetupTenancyWebhookWithManager\<close> returns no error. Every failure ends the program with exit
  code 1; the value is the failure, or \<open>Inr\<close> of the steps when the manager has run to its end.
\<close>

definition call :: "(setup_step \<Rightarrow> string option) \<Rightarrow> setup_step \<Rightarrow> string option" where
  "call env step = (case step of SetupWebhook (WTenancy _) \<Rightarrow> None | _ \<Rightarrow> env step)"

fun run_actions :: "(setup_step \<Rightarrow> string option) \<Rightarrow> action list \<Rightarrow> failure + setup_step list" where
  "run_actions env [] = Inr []"
| "run_actions env (Check b e # as) = (if b then run_actions env as else Inl e)"
| "run_actions env (Do step # as) =
     (case call env step of
        Some err \<Rightarrow> Inl (StepFailed step err)
      | None \<Rightarrow> map_sum id (Cons step) (run_actions env as))"

definition main :: "(string \<Rightarrow> string list) \<Rightarrow> (setup_step \<Rightarrow> string option) \<Rightarrow> flags \<Rightarrow> failure + setup_step list" where
  "main IsDNS1123Label env f = run_actions env (main_actions IsDNS1123Label f)"

section \<open>Trimmed values\<close>

definition clean_value :: "string \<Rightarrow> bool" where
  "clean_value v \<longleftrightarrow> v \<noteq> [] \<and> CHR '','' \<notin> set v \<and> \<not> isSpace (hd v) \<and> \<not> isSpace (last v)"

lemma dropWhile_hd: "xs = [] \<or> \<not> P (hd xs) \<Longrightarrow> dropWhile P xs = xs"
  by (cases xs) auto

lemma TrimSpace_id: "v = [] \<or> \<not> isSpace (hd v) \<and> \<not> isSpace (last v) \<Longrightarrow> TrimSpace v = v"
  by (auto simp: TrimSpace_def TrimLeftFunc_def TrimRightFunc_def dropWhile_hd hd_rev)

lemma TrimSpace_ends:
  assumes "TrimSpace v \<noteq> []"
  shows "\<not> isSpace (hd (TrimSpace v)) \<and> \<not> isSpace (last (TrimSpace v))"
proof -
  define w where "w = dropWhile isSpace v"
  define u where "u = dropWhile isSpace (rev w)"
  have t: "TrimSpace v = rev u" by (simp add: TrimSpace_def TrimLeftFunc_def TrimRightFunc_def w_def u_def)
  then have u: "u \<noteq> []" using assms by simp
  have last: "last (TrimSpace v) = hd u" using u t by (simp add: last_rev)
  have "hd (TrimSpace v) = hd w"
  proof -
    have "rev w = takeWhile isSpace (rev w) @ u" by (simp add: u_def)
    then have "w = rev u @ rev (takeWhile isSpace (rev w))" by (metis rev_append rev_rev_ident)
    then show ?thesis using u t by (metis hd_append2 Nil_is_rev_conv)
  qed
  moreover have "w \<noteq> []" using u by (auto simp: u_def)
  ultimately show ?thesis using last u hd_dropWhile [of isSpace] by (metis u_def w_def)
qed

lemma set_TrimSpace: "set (TrimSpace v) \<subseteq> set v"
  by (auto simp: TrimSpace_def TrimLeftFunc_def TrimRightFunc_def dest!: set_dropWhileD)

lemma parseCSVValues_clean: "list_all clean_value (parseCSVValues raw)"
  using TrimSpace_ends set_TrimSpace Split_words_no_sep
  by (fastforce simp: parseCSVValues_def list_all_iff clean_value_def)

lemma TrimSpace_Nil_iff: "TrimSpace v = [] \<longleftrightarrow> (\<forall>c \<in> set v. isSpace c)"
  by (auto simp: TrimSpace_def TrimLeftFunc_def TrimRightFunc_def dropWhile_eq_Nil_conv dest: set_dropWhileD
      intro!: ballI) (metis dropWhile_eq_Nil_conv hd_dropWhile hd_in_set)

lemma set_Join_words: "vs \<noteq> [] \<Longrightarrow> (\<Union>v \<in> set vs. set v) \<subseteq> set (Join vs sep)"
  by (induction vs sep rule: Join.induct) auto

lemma parseCSVValues_Join:
  assumes "list_all clean_value vs"
  shows "parseCSVValues (Join vs CHR '','') = vs"
proof (cases "vs = []")
  case True
  then show ?thesis by (simp add: parseCSVValues_def TrimSpace_id)
next
  case False
  then obtain v where v: "v \<in> set vs" by (cases vs) auto
  then have "hd v \<in> set (Join vs CHR '','')" "\<not> isSpace (hd v)"
    using assms set_Join_words [OF False, of "CHR '',''"] by (auto simp: list_all_iff clean_value_def dest: hd_in_set)
  then have "TrimSpace (Join vs CHR '','') \<noteq> []" by (auto simp: TrimSpace_Nil_iff)
  moreover have "Split (Join vs CHR '','') CHR '','' = vs"
    using False assms by (intro Split_Join) (auto simp: list_all_iff clean_value_def)
  moreover have "map TrimSpace vs = vs" "filter (\<lambda>v. v \<noteq> []) vs = vs"
    using assms by (auto simp: list_all_iff clean_value_def filter_id_conv intro!: map_idI TrimSpace_id)
  ultimately show ?thesis by (simp add: parseCSVValues_def)
qed

section \<open>Runs of main\<close>

lemma run_actions_Inr:
  "run_actions env as = Inr us \<Longrightarrow>
    us = List.map_filter (\<lambda>a. case a of Do step \<Rightarrow> Some step | Check _ _ \<Rightarrow> None) as \<and>
    (\<forall>b e. Check b e \<in> set as \<longrightarrow> b)"
proof (induction env as arbitrary: us rule: run_actions.induct)
  case (3 env step as)
  then show ?case
    by (cases "run_actions env as") (auto simp: List.map_filter_def split: option.splits)
qed (auto simp: List.map_filter_def split: if_splits)

text \<open>The controllers each role is meant to run\<close>

definition role_controllers :: "string \<Rightarrow> bool \<Rightarrow> controller set" where
  "role_controllers role caching =
     (if role = ''controller'' then
        {CHealthCheckProfile, CLocation, CPrefixList, CZone} \<union> (if caching then {CService, CChallenge} else {})
      else if role = ''cache-controller'' then {CServiceCache}
      else if role = ''router'' then {CServiceRouting}
      else if role = ''downstream'' then {CDownstream}
      else {})"

lemmas role_defs = RoleController_def RoleCacheController_def RoleRouter_def RoleDownstream_def

lemmas action_defs = main_actions_def downstream_checks_def manager_actions_def controller_actions_def
  webhook_actions_def final_actions_def

definition steps_of :: "action list \<Rightarrow> setup_step list" where
  "steps_of as = List.map_filter (\<lambda>a. case a of Do step \<Rightarrow> Some step | Check _ _ \<Rightarrow> None) as"

lemma steps_of_simps [simp]:
  "steps_of [] = []" "steps_of (Check b e # as) = steps_of as" "steps_of (Do step # as) = step # steps_of as"
  "steps_of (as @ bs) = steps_of as @ steps_of bs"
  by (simp_all add: steps_of_def List.map_filter_def)

lemma steps_of_if [simp]: "steps_of (if b then as else bs) = (if b then steps_of as else steps_of bs)"
  by simp

lemma main_steps:
  assumes "main IsDNS1123Label env f = Inr steps"
  shows "steps = steps_of (main_actions IsDNS1123Label f)"
    and "\<And>b e. Check b e \<in> set (main_actions IsDNS1123Label f) \<Longrightarrow> b"
  using run_actions_Inr [OF assms [unfolded main_def]] by (auto simp: steps_of_def)

text \<open>The checks that a program has passed when it starts its manager\<close>

lemma main_checked:
  assumes "main IsDNS1123Label env f = Inr steps"
  shows "Scope_Validate IsDNS1123Label (f_tenantScope f) = None"
    and "f_role f = ''downstream'' \<Longrightarrow> f_downstreamTarget f = ''router'' \<or> f_downstreamTarget f = ''cache''"
    and "f_role f = ''downstream'' \<Longrightarrow> f_upstreamKubeconfig f \<noteq> []"
    and "f_role f = ''downstream'' \<Longrightarrow> 1 \<le> f_downstreamWorkers f \<and> 1 \<le> f_downstreamBurst f \<and> f_downstreamQPS f \<noteq> 0"
proof -
  note ok = main_steps(2) [OF assms]
  show "Scope_Validate IsDNS1123Label (f_tenantScope f) = None"
    by (rule ok [of _ InvalidTenantScope]) (simp add: main_actions_def)
  assume d: "f_role f = ''downstream''"
  show "f_downstreamTarget f = ''router'' \<or> f_downstreamTarget f = ''cache''"
    by (rule ok [of _ InvalidDownstreamTarget]) (simp add: action_defs role_defs d)
  show "f_upstreamKubeconfig f \<noteq> []"
    by (rule ok [of _ MissingKubeconfig]) (simp add: action_defs role_defs d)
  have "\<not> (f_downstreamWorkers f < 1 \<or> f_downstreamQPS f = 0 \<or> f_downstreamBurst f < 1)"
    by (rule ok [of _ BadDownstreamLimits]) (simp add: action_defs role_defs d)
  then show "1 \<le> f_downstreamWorkers f \<and> 1 \<le> f_downstreamBurst f \<and> f_downstreamQPS f \<noteq> 0" by simp
qed

section \<open>Properties\<close>

text \<open>
  C20. A program that starts its manager has validated its flags and runs the controllers of its
  role and no others: the tenant scope is valid; a downstream instance has a known target, a
  kubeconfig, at least one worker, a burst of at least one and a QPS that is not zero; the
  controllers set up are those of the role, the Service and Challenge controllers only behind
  the feature gate; starting the manager is the last step.
\<close>

theorem main_starts_role:
  assumes "main IsDNS1123Label env f = Inr steps"
  shows "Scope_Validate IsDNS1123Label (f_tenantScope f) = None \<and>
    (f_role f = ''downstream'' \<longrightarrow>
       f_downstreamTarget f \<in> {''router'', ''cache''} \<and> f_upstreamKubeconfig f \<noteq> [] \<and>
       1 \<le> f_downstreamWorkers f \<and> 1 \<le> f_downstreamBurst f \<and> f_downstreamQPS f \<noteq> 0) \<and>
    {c. SetupController c \<in> set steps} =
      role_controllers (f_role f) (Enabled (f_featureGates f) ''cachingreconciler'') \<and>
    last steps = StartManager"
  using main_checked [OF assms] main_steps(1) [OF assms]
  by (auto simp: action_defs role_controllers_def role_defs)

definition example_flags :: "string \<Rightarrow> flags" where
  "example_flags role = \<lparr>f_role = role, f_tenantScope = \<lparr>Namespaced = True, TargetNamespace = []\<rparr>,
     f_downstreamTarget = ''router'', f_upstreamKubeconfig = ''/up'', f_downstreamWorkers = 16,
     f_downstreamQPS = 100, f_downstreamBurst = 200, f_featureGates = [],
     f_blockedUpstreamTLDs = ''local,internal,private'', f_webhookCertPath = [], f_metricsCertPath = [],
     f_enableWebhooks = []\<rparr>"

theorem main_starts_role_witness:
  "\<exists>steps. main (\<lambda>s. []) (\<lambda>step. None) (example_flags ''downstream'') = Inr steps \<and>
     {c. SetupController c \<in> set steps} = {CDownstream}"
proof -
  have "\<exists>steps. main (\<lambda>s. []) (\<lambda>step. None) (example_flags ''downstream'') = Inr steps"
    by (simp add: main_def action_defs role_defs example_flags_def Scope_Validate_def call_def)
  then obtain steps where "main (\<lambda>s. []) (\<lambda>step. None) (example_flags ''downstream'') = Inr steps" ..
  with main_starts_role [OF this] show ?thesis by (simp add: role_controllers_def example_flags_def)
qed

text \<open>
  C21. Unless \<open>ENABLE_WEBHOOKS\<close> is \<open>false\<close>, the tenancy webhook with the scope of the flags is set
  up in every role before the manager starts; with \<open>false\<close> no webhook is.
\<close>

theorem main_guards_tenancy:
  assumes "main IsDNS1123Label env f = Inr steps"
  shows "if f_enableWebhooks f = ''false'' then (\<forall>w. SetupWebhook w \<notin> set steps)
         else (\<exists>us vs. steps = us @ SetupWebhook (WTenancy (f_tenantScope f)) # vs \<and> StartManager \<in> set vs)"
proof (cases "f_enableWebhooks f = ''false''")
  case True
  then show ?thesis by (simp add: main_steps(1) [OF assms] action_defs)
next
  case False
  define us where "us = butlast (steps_of (webhook_actions f))"
  have "steps_of (webhook_actions f) = us @ [SetupWebhook (WTenancy (f_tenantScope f))]"
    using False by (simp add: us_def webhook_actions_def)
  then have "steps = (steps_of (downstream_checks f @ manager_actions f @ controller_actions f) @ us) @
      SetupWebhook (WTenancy (f_tenantScope f)) # steps_of (final_actions f)"
    by (simp add: main_steps(1) [OF assms] main_actions_def)
  moreover have "StartManager \<in> set (steps_of (final_actions f))" by (simp add: final_actions_def)
  ultimately show ?thesis using False by metis
qed

theorem main_guards_tenancy_witness:
  "\<exists>steps us vs. main (\<lambda>s. []) (\<lambda>step. None) (example_flags ''router'') = Inr steps \<and>
     steps = us @ SetupWebhook (WTenancy \<lparr>Namespaced = True, TargetNamespace = []\<rparr>) # vs"
proof -
  have "\<exists>steps. main (\<lambda>s. []) (\<lambda>step. None) (example_flags ''router'') = Inr steps"
    by (simp add: main_def action_defs role_defs example_flags_def Scope_Validate_def call_def)
  then obtain steps where "main (\<lambda>s. []) (\<lambda>step. None) (example_flags ''router'') = Inr steps" ..
  with main_guards_tenancy [OF this] show ?thesis by (auto simp: example_flags_def)
qed

text \<open>
  \<open>parseCSVValues\<close> reads back what is joined with commas, for values that are not empty and
  have no comma and no space at their ends, and it returns only such values.
\<close>

theorem parseCSVValues_roundtrip:
  "(list_all clean_value vs \<longrightarrow> parseCSVValues (Join vs CHR '','') = vs) \<and>
   list_all clean_value (parseCSVValues raw)"
  by (simp add: parseCSVValues_Join parseCSVValues_clean)

text \<open>
  A feature gate with a non-empty name is enabled exactly when the name is one of the
  comma-separated values of the flag, surrounding space not counted.
\<close>

theorem Enabled_iff_listed:
  assumes "name \<noteq> []"
  shows "Enabled featureGates name \<longleftrightarrow> name \<in> set (parseCSVValues featureGates)"
proof (cases "TrimSpace featureGates = []")
  case True
  then have "TrimSpace w = []" if "w \<in> set (Split featureGates CHR '','')" for w
    using that set_Join_words [of "Split featureGates CHR '',''" "CHR '',''"]
    by (auto simp: TrimSpace_Nil_iff Join_Split)
  with True assms show ?thesis by (auto simp: Enabled_def parseCSVValues_def list_ex_iff)
next
  case False
  with assms show ?thesis by (auto simp: Enabled_def parseCSVValues_def list_ex_iff)
qed

end
