(* ===== verification/Kube_Client.thy ===== *)
theory Kube_Client
  imports Zero_Values "HOL-Library.State_Monad"
begin

text \<open>
  The client of the Kubernetes API (\<open>client.Client\<close> of controller-runtime). Its operations are a
  record of functions in the state monad over a world of any type \<open>'w\<close>, which every reconciler
  takes as an argument. What the API server documents is the locale \<open>api_server\<close>: \<open>st\<close> gives the
  objects that the server holds in a world. Reads are up to date. An error leaves the store as it
  is, except that \<open>OtherError\<close> (a timeout, for one) may come after the write took effect. The
  server keeps what a write submits up to the metadata it manages itself, up to the defaults it fills in, and up to the
  status, which only a write to the status subresource changes.
\<close>

section \<open>Status and the fields of the server\<close>

datatype obj_status =
    SZone ZoneStatus | SDNSEndpoint DNSEndpointStatus | SHealthCheckProfile HealthCheckProfileStatus
  | SLocation LocationStatus | SPrefixList PrefixListStatus | SService ServiceStatus
  | SCertificate "CertCondition list" | SChallenge bool bool | SNone

fun status_of :: "kobject \<Rightarrow> obj_status" where
  "status_of (OZone x) = SZone (zone_Status x)"
| "status_of (ODNSEndpoint x) = SDNSEndpoint (de_Status x)"
| "status_of (OHealthCheckProfile x) = SHealthCheckProfile (hcp_Status x)"
| "status_of (OLocation x) = SLocation (loc_Status x)"
| "status_of (OPrefixList x) = SPrefixList (pl_Status x)"
| "status_of (OService x) = SService (svc_Status x)"
| "status_of (OCertificate x) = SCertificate (crt_Conditions x)"
| "status_of (OChallenge x) = SChallenge (ch_Presented x) (ch_Processing x)"
| "status_of _ = SNone"

fun with_status :: "obj_status \<Rightarrow> kobject \<Rightarrow> kobject" where
  "with_status s (OZone x) = (case s of SZone t \<Rightarrow> OZone (x\<lparr>zone_Status := t\<rparr>) | _ \<Rightarrow> OZone x)"
| "with_status s (ODNSEndpoint x) =
     (case s of SDNSEndpoint t \<Rightarrow> ODNSEndpoint (x\<lparr>de_Status := t\<rparr>) | _ \<Rightarrow> ODNSEndpoint x)"
| "with_status s (OHealthCheckProfile x) =
     (case s of SHealthCheckProfile t \<Rightarrow> OHealthCheckProfile (x\<lparr>hcp_Status := t\<rparr>) | _ \<Rightarrow> OHealthCheckProfile x)"
| "with_status s (OLocation x) = (case s of SLocation t \<Rightarrow> OLocation (x\<lparr>loc_Status := t\<rparr>) | _ \<Rightarrow> OLocation x)"
| "with_status s (OPrefixList x) =
     (case s of SPrefixList t \<Rightarrow> OPrefixList (x\<lparr>pl_Status := t\<rparr>) | _ \<Rightarrow> OPrefixList x)"
| "with_status s (OService x) = (case s of SService t \<Rightarrow> OService (x\<lparr>svc_Status := t\<rparr>) | _ \<Rightarrow> OService x)"
| "with_status s (OCertificate x) =
     (case s of SCertificate t \<Rightarrow> OCertificate (x\<lparr>crt_Conditions := t\<rparr>) | _ \<Rightarrow> OCertificate x)"
| "with_status s (OChallenge x) =
     (case s of SChallenge p q \<Rightarrow> OChallenge (x\<lparr>ch_Presented := p, ch_Processing := q\<rparr>) | _ \<Rightarrow> OChallenge x)"
| "with_status s ob = ob"

fun zero_status :: "kind \<Rightarrow> obj_status" where
  "zero_status KZone = SZone zero_ZoneStatus"
| "zero_status KDNSEndpoint = SDNSEndpoint zero_DNSEndpointStatus"
| "zero_status KHealthCheckProfile = SHealthCheckProfile zero_HealthCheckProfileStatus"
| "zero_status KLocation = SLocation zero_LocationStatus"
| "zero_status KPrefixList = SPrefixList zero_PrefixListStatus"
| "zero_status KService = SService zero_ServiceStatus"
| "zero_status KCertificate = SCertificate []"
| "zero_status KChallenge = SChallenge False False"
| "zero_status _ = SNone"

definition server_meta :: "ObjectMeta \<Rightarrow> ObjectMeta" where
  "server_meta m = m\<lparr>om_UID := [], om_ResourceVersion := [], om_Generation := 0,
     om_CreationTimestamp := None, om_DeletionTimestamp := None, om_DeletionGracePeriodSeconds := None,
     om_ManagedFields := []\<rparr>"

text \<open>
  What the server fills in when an object is admitted: the defaults of Deployments and Services, of which nothing is kept here but the
  metadata, the class of an Ingress, the name label of a Namespace, and the default path of an HTTP probe, which is the one
  default that the definitions of the controller's own kinds have.
\<close>

definition default_path :: "HealthCheckProbeSpec \<Rightarrow> HealthCheckProbeSpec" where
  "default_path p = p\<lparr>probe_HTTP :=
     map_option (\<lambda>h. h\<lparr>http_Path := if http_Path h = [] then ''/'' else http_Path h\<rparr>) (probe_HTTP p)\<rparr>"

fun filled :: "kobject \<Rightarrow> kobject" where
  "filled (ONamespace x) = ONamespace (x\<lparr>ns_Meta := (ns_Meta x)\<lparr>om_Labels := fmdrop ''kubernetes.io/metadata.name'' (om_Labels (ns_Meta x))\<rparr>\<rparr>)"
| "filled (OCoreService x) = OCoreService (x\<lparr>cs_Spec := \<lparr>css_ExternalName = [], css_Type = [], css_ClusterIP = [], css_Ports = [],
     css_Selector = fmempty\<rparr>\<rparr>)"
| "filled (ODeployment x) = ODeployment (x\<lparr>dep_Spec := \<lparr>deps_Replicas = None, deps_Selector = \<lparr>ls_MatchLabels = fmempty, ls_MatchExpressions = []\<rparr>,
     deps_TemplateMeta = zero_ObjectMeta, deps_TemplateSpec = \<lparr>pods_Containers = [], pods_NodeSelector = fmempty\<rparr>\<rparr>\<rparr>)"
| "filled (OIngress x) = OIngress (x\<lparr>ing_Spec := (ing_Spec x)\<lparr>is_IngressClassName := None\<rparr>\<rparr>)"
| "filled (OHealthCheckProfile x) = OHealthCheckProfile (x\<lparr>hcp_Spec := (hcp_Spec x)\<lparr>hcps_Probes :=
     map default_path (hcps_Probes (hcp_Spec x))\<rparr>\<rparr>)"
| "filled ob = ob"

text \<open>What a client decides of an object: everything but its status, the server's metadata and what the server fills in\<close>

definition core :: "kobject \<Rightarrow> kobject" where
  "core ob = filled (map_meta server_meta (with_status (zero_status (kind_of ob)) ob))"

lemma kind_of_filled [simp]: "kind_of (filled ob) = kind_of ob"
  by (cases ob) simp_all

lemma obj_meta_filled: "kind_of ob \<noteq> KNamespace \<Longrightarrow> obj_meta (filled ob) = obj_meta ob"
  by (cases ob) simp_all

lemma key_of_filled [simp]: "key_of (obj_meta (filled ob)) = key_of (obj_meta ob)"
  by (cases ob) (simp_all add: key_of_def)

lemma kind_of_with_status [simp]: "kind_of (with_status s ob) = kind_of ob"
  by (cases ob; cases s) simp_all

lemma obj_meta_with_status [simp]: "obj_meta (with_status s ob) = obj_meta ob"
  by (cases ob; cases s) simp_all

lemma with_status_of [simp]: "with_status (status_of ob) ob = ob"
  by (cases ob) simp_all

lemma status_of_map_meta [simp]: "status_of (map_meta f ob) = status_of ob"
  by (cases ob) simp_all

lemma key_of_server_meta [simp]: "key_of (server_meta m) = key_of m"
  by (simp add: key_of_def server_meta_def)

lemma id_of_core [simp]: "id_of (core ob) = id_of ob"
  by (simp add: id_of_def core_def)

lemma core_id: "core a = core b \<Longrightarrow> id_of a = id_of b"
  by (metis id_of_core)

lemma core_with_status [simp]: "core (with_status s ob) = core ob"
  by (cases ob; cases s) (simp_all add: core_def)

lemma core_map_meta: "(\<And>m. server_meta (f m) = server_meta m) \<Longrightarrow> core (map_meta f ob) = core ob"
  by (cases ob) (simp_all add: core_def)

lemma core_meta:
  assumes "core a = core b"
  shows "om_Annotations (obj_meta a) = om_Annotations (obj_meta b)" "om_OwnerReferences (obj_meta a) = om_OwnerReferences (obj_meta b)"
    "om_Finalizers (obj_meta a) = om_Finalizers (obj_meta b)" "om_Name (obj_meta a) = om_Name (obj_meta b)"
    "om_Namespace (obj_meta a) = om_Namespace (obj_meta b)"
proof -
  have "om_Annotations (obj_meta (core ob)) = om_Annotations (obj_meta ob) \<and> om_OwnerReferences (obj_meta (core ob)) = om_OwnerReferences (obj_meta ob) \<and>
      om_Finalizers (obj_meta (core ob)) = om_Finalizers (obj_meta ob) \<and> om_Name (obj_meta (core ob)) = om_Name (obj_meta ob) \<and>
      om_Namespace (obj_meta (core ob)) = om_Namespace (obj_meta ob)" for ob
    by (cases ob) (simp_all add: core_def server_meta_def)
  with assms show "om_Annotations (obj_meta a) = om_Annotations (obj_meta b)" "om_OwnerReferences (obj_meta a) = om_OwnerReferences (obj_meta b)"
    "om_Finalizers (obj_meta a) = om_Finalizers (obj_meta b)" "om_Name (obj_meta a) = om_Name (obj_meta b)"
    "om_Namespace (obj_meta a) = om_Namespace (obj_meta b)" by metis+
qed

section \<open>The client\<close>

record 'w client =
  c_get :: "kind \<Rightarrow> NamespacedName \<Rightarrow> ('w, apierr + kobject) state"
  c_list :: "kind \<Rightarrow> string \<Rightarrow> strmap \<Rightarrow> ('w, apierr + kobject list) state"
  c_create :: "kobject \<Rightarrow> ('w, apierr + kobject) state"
  c_update :: "kobject \<Rightarrow> ('w, apierr + kobject) state"
  c_status :: "kobject \<Rightarrow> ('w, apierr + kobject) state"
  c_delete :: "kobject \<Rightarrow> ('w, apierr + unit) state"

type_synonym store = "obj_id \<Rightarrow> kobject option"

definition creates :: "store \<Rightarrow> kobject \<Rightarrow> store \<Rightarrow> kobject \<Rightarrow> bool" where
  "creates s ob s' ob' \<longleftrightarrow> s (id_of ob) = None \<and> core ob' = core ob \<and>
     om_DeletionTimestamp (obj_meta ob') = None \<and> s' = s(id_of ob \<mapsto> ob')"

definition same_identity :: "kobject \<Rightarrow> kobject \<Rightarrow> bool" where
  "same_identity old new \<longleftrightarrow> om_UID (obj_meta new) = om_UID (obj_meta old) \<and>
     om_DeletionTimestamp (obj_meta new) = om_DeletionTimestamp (obj_meta old)"

text \<open>An update that takes the last finalizer off an object being deleted removes the object.\<close>

definition updates :: "store \<Rightarrow> kobject \<Rightarrow> store \<Rightarrow> kobject \<Rightarrow> bool" where
  "updates s ob s' ob' \<longleftrightarrow> (\<exists>old. s (id_of ob) = Some old \<and> core ob' = core ob \<and>
     status_of ob' = status_of old \<and> same_identity old ob' \<and>
     s' = (if om_DeletionTimestamp (obj_meta old) \<noteq> None \<and> om_Finalizers (obj_meta ob) = []
           then s(id_of ob := None) else s(id_of ob \<mapsto> ob')))"

definition status_updates :: "store \<Rightarrow> kobject \<Rightarrow> store \<Rightarrow> kobject \<Rightarrow> bool" where
  "status_updates s ob s' ob' \<longleftrightarrow> (\<exists>old. s (id_of ob) = Some old \<and> core ob' = core old \<and>
     status_of ob' = status_of ob \<and> same_identity old ob' \<and> s' = s(id_of ob \<mapsto> ob'))"

text \<open>An object with finalizers is marked as being deleted; one without is removed.\<close>

definition deletes :: "store \<Rightarrow> kobject \<Rightarrow> store \<Rightarrow> bool" where
  "deletes s ob s' \<longleftrightarrow> (\<exists>old. s (id_of ob) = Some old \<and>
     (if om_Finalizers (obj_meta old) = [] then s' = s(id_of ob := None)
      else \<exists>old'. core old' = core old \<and> status_of old' = status_of old \<and>
        om_UID (obj_meta old') = om_UID (obj_meta old) \<and>
        om_DeletionTimestamp (obj_meta old') \<noteq> None \<and> s' = s(id_of ob \<mapsto> old')))"

definition selects :: "string \<Rightarrow> strmap \<Rightarrow> kobject \<Rightarrow> bool" where
  "selects namespace labels ob \<longleftrightarrow> (namespace = [] \<or> GetNamespace ob = namespace) \<and>
     list_all (\<lambda>k. fmlookup (GetLabels ob) k = fmlookup labels k) (sorted_list_of_fset (fmdom labels))"

text \<open>A write that succeeds has its effect; one that fails has none, or its effect.\<close>

fun write_law :: "(store \<Rightarrow> store \<Rightarrow> 'a \<Rightarrow> bool) \<Rightarrow> store \<Rightarrow> store \<Rightarrow> apierr + 'a \<Rightarrow> bool" where
  "write_law eff s s' (Inr x) \<longleftrightarrow> eff s s' x"
| "write_law eff s s' (Inl (OtherError m)) \<longleftrightarrow> s' = s \<or> (\<exists>x. eff s s' x)"
| "write_law eff s s' (Inl e) \<longleftrightarrow> s' = s"

lemma write_law_cases: "write_law eff s s' r \<Longrightarrow> s' = s \<or> (\<exists>x. eff s s' x)"
  by (cases "(eff, s, s', r)" rule: write_law.cases) auto

locale api_server =
  fixes c :: "'w client" and st :: "'w \<Rightarrow> store"
  assumes stored_id: "st w i = Some ob \<Longrightarrow> id_of ob = i"
    and get_law: "run_state (c_get c k key) w = (r, w') \<Longrightarrow> st w' = st w \<and>
      (case r of Inr ob \<Rightarrow> st w (k, key) = Some ob | Inl e \<Rightarrow> e = NotFound \<longrightarrow> st w (k, key) = None)"
    and list_law: "run_state (c_list c k ns labels) w = (rl, w') \<Longrightarrow> st w' = st w \<and>
      (case rl of Inr obs \<Rightarrow> set obs = {ob. st w (id_of ob) = Some ob \<and> kind_of ob = k \<and> selects ns labels ob}
       | Inl e \<Rightarrow> True)"
    and create_law: "run_state (c_create c ob) w = (r, w') \<Longrightarrow>
      write_law (\<lambda>s s' ob'. creates s ob s' ob') (st w) (st w') r \<and>
      (r = Inl AlreadyExists \<longrightarrow> st w (id_of ob) \<noteq> None)"
    and update_law: "run_state (c_update c ob) w = (r, w') \<Longrightarrow>
      write_law (\<lambda>s s' ob'. updates s ob s' ob') (st w) (st w') r"
    and status_law: "run_state (c_status c ob) w = (r, w') \<Longrightarrow>
      write_law (\<lambda>s s' ob'. status_updates s ob s' ob') (st w) (st w') r"
    and delete_law: "run_state (c_delete c ob) w = (rd, w') \<Longrightarrow>
      write_law (\<lambda>s s' u. deletes s ob s') (st w) (st w') rd \<and>
      (rd = Inl NotFound \<longrightarrow> st w (id_of ob) = None)"

section \<open>A reference server\<close>

text \<open>A list of objects; every call that is allowed succeeds.\<close>

definition ref_st :: "kobject list \<Rightarrow> store" where
  "ref_st w = map_of (map (\<lambda>ob. (id_of ob, ob)) w)"

definition ref_put :: "kobject \<Rightarrow> kobject list \<Rightarrow> kobject list" where
  "ref_put ob w = ob # filter (\<lambda>x. id_of x \<noteq> id_of ob) w"

definition ref_drop :: "kobject \<Rightarrow> kobject list \<Rightarrow> kobject list" where
  "ref_drop ob w = filter (\<lambda>x. id_of x \<noteq> id_of ob) w"

definition ref_get :: "kind \<Rightarrow> NamespacedName \<Rightarrow> (kobject list, apierr + kobject) state" where
  "ref_get k key = State (\<lambda>w. (case ref_st w (k, key) of None \<Rightarrow> Inl NotFound | Some ob \<Rightarrow> Inr ob, w))"

definition ref_list :: "kind \<Rightarrow> string \<Rightarrow> strmap \<Rightarrow> (kobject list, apierr + kobject list) state" where
  "ref_list k ns labels = State (\<lambda>w.
     (Inr (filter (\<lambda>ob. ref_st w (id_of ob) = Some ob \<and> kind_of ob = k \<and> selects ns labels ob) w), w))"

definition ref_create :: "kobject \<Rightarrow> (kobject list, apierr + kobject) state" where
  "ref_create ob = State (\<lambda>w.
     if ref_st w (id_of ob) = None then
       let ob' = map_meta (\<lambda>m. m\<lparr>om_DeletionTimestamp := None\<rparr>) (with_status (zero_status (kind_of ob)) ob)
       in (Inr ob', ref_put ob' w)
     else (Inl AlreadyExists, w))"

definition ref_update :: "kobject \<Rightarrow> (kobject list, apierr + kobject) state" where
  "ref_update ob = State (\<lambda>w. case ref_st w (id_of ob) of
       None \<Rightarrow> (Inl NotFound, w)
     | Some old \<Rightarrow>
         let ob' = map_meta (\<lambda>m. m\<lparr>om_UID := om_UID (obj_meta old),
                 om_DeletionTimestamp := om_DeletionTimestamp (obj_meta old)\<rparr>) (with_status (status_of old) ob)
         in (Inr ob', if om_DeletionTimestamp (obj_meta old) \<noteq> None \<and> om_Finalizers (obj_meta ob) = []
                      then ref_drop ob w else ref_put ob' w))"

definition ref_status :: "kobject \<Rightarrow> (kobject list, apierr + kobject) state" where
  "ref_status ob = State (\<lambda>w. case ref_st w (id_of ob) of
       None \<Rightarrow> (Inl NotFound, w)
     | Some old \<Rightarrow> let ob' = with_status (status_of ob) old in (Inr ob', ref_put ob' w))"

definition ref_delete :: "kobject \<Rightarrow> (kobject list, apierr + unit) state" where
  "ref_delete ob = State (\<lambda>w. case ref_st w (id_of ob) of
       None \<Rightarrow> (Inl NotFound, w)
     | Some old \<Rightarrow> (Inr (), if om_Finalizers (obj_meta old) = [] then ref_drop ob w
                     else ref_put (map_meta (\<lambda>m. m\<lparr>om_DeletionTimestamp := Some 0\<rparr>) old) w))"

definition ref_client :: "kobject list client" where
  "ref_client = \<lparr>c_get = ref_get, c_list = ref_list, c_create = ref_create, c_update = ref_update,
     c_status = ref_status, c_delete = ref_delete\<rparr>"

lemma ref_st_put [simp]: "ref_st (ref_put ob w) = (ref_st w)(id_of ob \<mapsto> ob)"
proof -
  have "map_of (map (\<lambda>ob. (id_of ob, ob)) (filter (\<lambda>x. id_of x \<noteq> i) w)) j =
      (if j = i then None else map_of (map (\<lambda>ob. (id_of ob, ob)) w) j)" for i j
    by (induction w) auto
  then show ?thesis by (auto simp: ref_st_def ref_put_def fun_eq_iff)
qed

lemma ref_st_drop [simp]: "ref_st (ref_drop ob w) = (ref_st w)(id_of ob := None)"
proof -
  have "map_of (map (\<lambda>ob. (id_of ob, ob)) (filter (\<lambda>x. id_of x \<noteq> i) w)) j =
      (if j = i then None else map_of (map (\<lambda>ob. (id_of ob, ob)) w) j)" for i j
    by (induction w) auto
  then show ?thesis by (auto simp: ref_st_def ref_drop_def fun_eq_iff)
qed

lemma ref_st_id: "ref_st w i = Some ob \<Longrightarrow> id_of ob = i \<and> ob \<in> set w"
  by (auto simp: ref_st_def dest!: map_of_SomeD)

lemma status_with_status: "kind_of a = kind_of b \<Longrightarrow> status_of (with_status (status_of a) b) = status_of a"
  by (cases a; cases b) simp_all

lemma id_of_map_meta: "(\<And>m. key_of (f m) = key_of m) \<Longrightarrow> id_of (map_meta f ob) = id_of ob"
  by (simp add: id_of_def)

lemma id_of_with_status [simp]: "id_of (with_status s ob) = id_of ob"
  by (simp add: id_of_def)

lemma id_of_kind: "id_of a = id_of b \<Longrightarrow> kind_of a = kind_of b"
  by (simp add: id_of_def)

lemma same_identity_update:
  "same_identity old (map_meta (\<lambda>m. m\<lparr>om_UID := om_UID (obj_meta old),
     om_DeletionTimestamp := om_DeletionTimestamp (obj_meta old)\<rparr>) ob)"
  by (simp add: same_identity_def)

lemma ref_update_effect:
  assumes "ref_st w (id_of ob) = Some old"
  defines "ob' \<equiv> map_meta (\<lambda>m. m\<lparr>om_UID := om_UID (obj_meta old),
     om_DeletionTimestamp := om_DeletionTimestamp (obj_meta old)\<rparr>) (with_status (status_of old) ob)"
  shows "updates (ref_st w) ob (if om_DeletionTimestamp (obj_meta old) \<noteq> None \<and> om_Finalizers (obj_meta ob) = []
      then (ref_st w)(id_of ob := None) else (ref_st w)(id_of ob \<mapsto> ob')) ob'"
proof -
  have "core ob' = core ob" unfolding ob'_def by (subst core_map_meta) (simp_all add: server_meta_def)
  moreover have "kind_of old = kind_of ob" using ref_st_id [OF assms(1)] id_of_kind by blast
  then have "status_of ob' = status_of old" by (simp add: ob'_def status_with_status)
  moreover have "same_identity old ob'" unfolding ob'_def by (rule same_identity_update)
  ultimately show ?thesis unfolding updates_def using assms(1) by auto
qed

interpretation reference_server: api_server ref_client ref_st
proof
  fix w i ob
  assume "ref_st w i = Some ob"
  then show "id_of ob = i" using ref_st_id by blast
next
  fix k key w r w'
  assume "run_state (c_get ref_client k key) w = (r, w')"
  then show "ref_st w' = ref_st w \<and>
      (case r of Inr ob \<Rightarrow> ref_st w (k, key) = Some ob | Inl e \<Rightarrow> e = NotFound \<longrightarrow> ref_st w (k, key) = None)"
    by (auto simp: ref_client_def ref_get_def split: option.splits)
next
  fix k ns labels w rl w'
  assume "run_state (c_list ref_client k ns labels) w = (rl, w')"
  then show "ref_st w' = ref_st w \<and>
      (case rl of Inr obs \<Rightarrow> set obs = {ob. ref_st w (id_of ob) = Some ob \<and> kind_of ob = k \<and> selects ns labels ob}
       | Inl e \<Rightarrow> True)"
    by (auto simp: ref_client_def ref_list_def dest: ref_st_id)
next
  fix ob w r w'
  assume "run_state (c_create ref_client ob) w = (r, w')"
  moreover have "core (map_meta (\<lambda>m. m\<lparr>om_DeletionTimestamp := None\<rparr>) (with_status (zero_status (kind_of ob)) ob)) = core ob"
    by (subst core_map_meta) (simp_all add: server_meta_def)
  moreover have "id_of (map_meta (\<lambda>m. m\<lparr>om_DeletionTimestamp := None\<rparr>) (with_status (zero_status (kind_of ob)) ob)) = id_of ob"
    by (subst id_of_map_meta) (simp_all add: key_of_def)
  ultimately show "write_law (\<lambda>s s' ob'. creates s ob s' ob') (ref_st w) (ref_st w') r \<and>
      (r = Inl AlreadyExists \<longrightarrow> ref_st w (id_of ob) \<noteq> None)"
    by (auto simp: ref_client_def ref_create_def creates_def Let_def split: if_splits)
next
  fix ob w r w'
  assume "run_state (c_update ref_client ob) w = (r, w')"
  moreover have "id_of (map_meta (\<lambda>m. m\<lparr>om_UID := u, om_DeletionTimestamp := t\<rparr>) (with_status s ob)) = id_of ob" for u t s
    by (subst id_of_map_meta) (simp_all add: key_of_def)
  ultimately show "write_law (\<lambda>s s' ob'. updates s ob s' ob') (ref_st w) (ref_st w') r"
    using ref_update_effect [of w ob]
    by (auto simp: ref_client_def ref_update_def Let_def split: option.splits if_splits)
next
  fix ob w r w'
  assume run: "run_state (c_status ref_client ob) w = (r, w')"
  show "write_law (\<lambda>s s' ob'. status_updates s ob s' ob') (ref_st w) (ref_st w') r"
  proof (cases "ref_st w (id_of ob)")
    case None
    with run show ?thesis by (auto simp: ref_client_def ref_status_def)
  next
    case (Some old)
    have id: "id_of old = id_of ob" using ref_st_id [OF Some] by simp
    have "status_of (with_status (status_of ob) old) = status_of ob"
      by (rule status_with_status) (use id_of_kind [OF id] in simp)
    with run Some id show ?thesis
      by (auto simp: ref_client_def ref_status_def status_updates_def same_identity_def Let_def)
  qed
next
  fix ob w rd w'
  assume run: "run_state (c_delete ref_client ob) w = (rd, w')"
  show "write_law (\<lambda>s s' u. deletes s ob s') (ref_st w) (ref_st w') rd \<and>
      (rd = Inl NotFound \<longrightarrow> ref_st w (id_of ob) = None)"
  proof (cases "ref_st w (id_of ob)")
    case None
    with run show ?thesis by (auto simp: ref_client_def ref_delete_def)
  next
    case (Some old)
    define old' where "old' = map_meta (\<lambda>m. m\<lparr>om_DeletionTimestamp := Some 0\<rparr>) old"
    have "core old' = core old" unfolding old'_def by (subst core_map_meta) (simp_all add: server_meta_def)
    moreover have "id_of old' = id_of ob"
      using ref_st_id [OF Some] core_id [OF calculation] by simp
    moreover have "status_of old' = status_of old" "om_UID (obj_meta old') = om_UID (obj_meta old)"
      "om_DeletionTimestamp (obj_meta old') = Some 0" by (simp_all add: old'_def)
    moreover have "rd = Inr ()" "w' = (if om_Finalizers (obj_meta old) = [] then ref_drop ob w else ref_put old' w)"
      using run Some by (auto simp: ref_client_def ref_delete_def old'_def)
    ultimately show ?thesis using Some by (auto simp: deletes_def intro!: exI [of _ old'])
  qed
qed

section \<open>Typed calls\<close>

text \<open>
  The reconcilers pass a pointer to a struct of one kind. A \<open>resource\<close> says which kind that is;
  an answer of another kind is a decoding error.
\<close>

record 'a resource =
  r_kind :: kind
  r_in :: "'a \<Rightarrow> kobject"
  r_out :: "kobject \<Rightarrow> 'a option"

locale resource_kind =
  fixes r :: "'a resource"
  assumes out_iff: "r_out r ob = Some x \<longleftrightarrow> ob = r_in r x"
    and kind_in: "kind_of (r_in r x) = r_kind r"
    and kind_out: "kind_of ob = r_kind r \<Longrightarrow> r_out r ob \<noteq> None"
begin

lemma in_inject [simp]: "r_in r x = r_in r y \<longleftrightarrow> x = y"
  by (metis out_iff option.inject)

end

definition zoneR :: "Zone resource" where
  "zoneR = \<lparr>r_kind = KZone, r_in = OZone, r_out = (\<lambda>ob. case ob of OZone x \<Rightarrow> Some x | _ \<Rightarrow> None)\<rparr>"

definition dnsEndpointR :: "DNSEndpoint resource" where
  "dnsEndpointR = \<lparr>r_kind = KDNSEndpoint, r_in = ODNSEndpoint,
     r_out = (\<lambda>ob. case ob of ODNSEndpoint x \<Rightarrow> Some x | _ \<Rightarrow> None)\<rparr>"

definition healthCheckProfileR :: "HealthCheckProfile resource" where
  "healthCheckProfileR = \<lparr>r_kind = KHealthCheckProfile, r_in = OHealthCheckProfile,
     r_out = (\<lambda>ob. case ob of OHealthCheckProfile x \<Rightarrow> Some x | _ \<Rightarrow> None)\<rparr>"

definition locationR :: "Location resource" where
  "locationR = \<lparr>r_kind = KLocation, r_in = OLocation,
     r_out = (\<lambda>ob. case ob of OLocation x \<Rightarrow> Some x | _ \<Rightarrow> None)\<rparr>"

definition prefixListR :: "PrefixList resource" where
  "prefixListR = \<lparr>r_kind = KPrefixList, r_in = OPrefixList,
     r_out = (\<lambda>ob. case ob of OPrefixList x \<Rightarrow> Some x | _ \<Rightarrow> None)\<rparr>"

definition serviceR :: "Service resource" where
  "serviceR = \<lparr>r_kind = KService, r_in = OService,
     r_out = (\<lambda>ob. case ob of OService x \<Rightarrow> Some x | _ \<Rightarrow> None)\<rparr>"

definition namespaceR :: "Namespace resource" where
  "namespaceR = \<lparr>r_kind = KNamespace, r_in = ONamespace,
     r_out = (\<lambda>ob. case ob of ONamespace x \<Rightarrow> Some x | _ \<Rightarrow> None)\<rparr>"

definition secretR :: "Secret resource" where
  "secretR = \<lparr>r_kind = KSecret, r_in = OSecret,
     r_out = (\<lambda>ob. case ob of OSecret x \<Rightarrow> Some x | _ \<Rightarrow> None)\<rparr>"

definition coreServiceR :: "CoreService resource" where
  "coreServiceR = \<lparr>r_kind = KCoreService, r_in = OCoreService,
     r_out = (\<lambda>ob. case ob of OCoreService x \<Rightarrow> Some x | _ \<Rightarrow> None)\<rparr>"

definition deploymentR :: "Deployment resource" where
  "deploymentR = \<lparr>r_kind = KDeployment, r_in = ODeployment,
     r_out = (\<lambda>ob. case ob of ODeployment x \<Rightarrow> Some x | _ \<Rightarrow> None)\<rparr>"

definition ingressR :: "Ingress resource" where
  "ingressR = \<lparr>r_kind = KIngress, r_in = OIngress,
     r_out = (\<lambda>ob. case ob of OIngress x \<Rightarrow> Some x | _ \<Rightarrow> None)\<rparr>"

definition certificateR :: "Certificate resource" where
  "certificateR = \<lparr>r_kind = KCertificate, r_in = OCertificate,
     r_out = (\<lambda>ob. case ob of OCertificate x \<Rightarrow> Some x | _ \<Rightarrow> None)\<rparr>"

definition certificateRequestR :: "CertificateRequest resource" where
  "certificateRequestR = \<lparr>r_kind = KCertificateRequest, r_in = OCertificateRequest,
     r_out = (\<lambda>ob. case ob of OCertificateRequest x \<Rightarrow> Some x | _ \<Rightarrow> None)\<rparr>"

definition orderR :: "Order resource" where
  "orderR = \<lparr>r_kind = KOrder, r_in = OOrder,
     r_out = (\<lambda>ob. case ob of OOrder x \<Rightarrow> Some x | _ \<Rightarrow> None)\<rparr>"

definition challengeR :: "Challenge resource" where
  "challengeR = \<lparr>r_kind = KChallenge, r_in = OChallenge,
     r_out = (\<lambda>ob. case ob of OChallenge x \<Rightarrow> Some x | _ \<Rightarrow> None)\<rparr>"

definition applicationSetR :: "ApplicationSet resource" where
  "applicationSetR = \<lparr>r_kind = KApplicationSet, r_in = OApplicationSet,
     r_out = (\<lambda>ob. case ob of OApplicationSet x \<Rightarrow> Some x | _ \<Rightarrow> None)\<rparr>"

lemmas resource_defs = zoneR_def dnsEndpointR_def healthCheckProfileR_def locationR_def prefixListR_def
  serviceR_def namespaceR_def secretR_def coreServiceR_def deploymentR_def ingressR_def certificateR_def
  certificateRequestR_def orderR_def challengeR_def applicationSetR_def

interpretation zoneR: resource_kind zoneR
  by unfold_locales (auto simp: resource_defs split: kobject.splits elim: kind_of.elims)

interpretation dnsEndpointR: resource_kind dnsEndpointR
  by unfold_locales (auto simp: resource_defs split: kobject.splits elim: kind_of.elims)

interpretation healthCheckProfileR: resource_kind healthCheckProfileR
  by unfold_locales (auto simp: resource_defs split: kobject.splits elim: kind_of.elims)

interpretation locationR: resource_kind locationR
  by unfold_locales (auto simp: resource_defs split: kobject.splits elim: kind_of.elims)

interpretation prefixListR: resource_kind prefixListR
  by unfold_locales (auto simp: resource_defs split: kobject.splits elim: kind_of.elims)

interpretation serviceR: resource_kind serviceR
  by unfold_locales (auto simp: resource_defs split: kobject.splits elim: kind_of.elims)

interpretation namespaceR: resource_kind namespaceR
  by unfold_locales (auto simp: resource_defs split: kobject.splits elim: kind_of.elims)

interpretation secretR: resource_kind secretR
  by unfold_locales (auto simp: resource_defs split: kobject.splits elim: kind_of.elims)

interpretation coreServiceR: resource_kind coreServiceR
  by unfold_locales (auto simp: resource_defs split: kobject.splits elim: kind_of.elims)

interpretation deploymentR: resource_kind deploymentR
  by unfold_locales (auto simp: resource_defs split: kobject.splits elim: kind_of.elims)

interpretation ingressR: resource_kind ingressR
  by unfold_locales (auto simp: resource_defs split: kobject.splits elim: kind_of.elims)

interpretation certificateR: resource_kind certificateR
  by unfold_locales (auto simp: resource_defs split: kobject.splits elim: kind_of.elims)

interpretation certificateRequestR: resource_kind certificateRequestR
  by unfold_locales (auto simp: resource_defs split: kobject.splits elim: kind_of.elims)

interpretation orderR: resource_kind orderR
  by unfold_locales (auto simp: resource_defs split: kobject.splits elim: kind_of.elims)

interpretation challengeR: resource_kind challengeR
  by unfold_locales (auto simp: resource_defs split: kobject.splits elim: kind_of.elims)

interpretation applicationSetR: resource_kind applicationSetR
  by unfold_locales (auto simp: resource_defs split: kobject.splits elim: kind_of.elims)

lemma resource_simps [simp]:
  "r_kind zoneR = KZone" "r_in zoneR = OZone"
  "r_kind dnsEndpointR = KDNSEndpoint" "r_in dnsEndpointR = ODNSEndpoint"
  "r_kind healthCheckProfileR = KHealthCheckProfile" "r_in healthCheckProfileR = OHealthCheckProfile"
  "r_kind locationR = KLocation" "r_in locationR = OLocation"
  "r_kind prefixListR = KPrefixList" "r_in prefixListR = OPrefixList"
  "r_kind serviceR = KService" "r_in serviceR = OService"
  "r_kind namespaceR = KNamespace" "r_in namespaceR = ONamespace"
  "r_kind secretR = KSecret" "r_in secretR = OSecret"
  "r_kind coreServiceR = KCoreService" "r_in coreServiceR = OCoreService"
  "r_kind deploymentR = KDeployment" "r_in deploymentR = ODeployment"
  "r_kind ingressR = KIngress" "r_in ingressR = OIngress"
  "r_kind certificateR = KCertificate" "r_in certificateR = OCertificate"
  "r_kind certificateRequestR = KCertificateRequest" "r_in certificateRequestR = OCertificateRequest"
  "r_kind orderR = KOrder" "r_in orderR = OOrder"
  "r_kind challengeR = KChallenge" "r_in challengeR = OChallenge"
  "r_kind applicationSetR = KApplicationSet" "r_in applicationSetR = OApplicationSet"
  by (simp_all add: resource_defs)

definition decode :: "'a resource \<Rightarrow> apierr + kobject \<Rightarrow> apierr + 'a" where
  "decode r x = (case x of Inl e \<Rightarrow> Inl e
     | Inr ob \<Rightarrow> (case r_out r ob of Some y \<Rightarrow> Inr y | None \<Rightarrow> Inl (OtherError ''decode'')))"

definition Get :: "'w client \<Rightarrow> 'a resource \<Rightarrow> NamespacedName \<Rightarrow> ('w, apierr + 'a) state" where
  "Get c r key = State_Monad.bind (c_get c (r_kind r) key) (\<lambda>x. State_Monad.return (decode r x))"

definition List :: "'w client \<Rightarrow> 'a resource \<Rightarrow> string \<Rightarrow> strmap \<Rightarrow> ('w, apierr + 'a list) state" where
  "List c r ns labels = State_Monad.bind (c_list c (r_kind r) ns labels)
     (\<lambda>x. State_Monad.return (map_sum id (List.map_filter (r_out r)) x))"

definition Create :: "'w client \<Rightarrow> 'a resource \<Rightarrow> 'a \<Rightarrow> ('w, apierr + 'a) state" where
  "Create c r x = State_Monad.bind (c_create c (r_in r x)) (\<lambda>y. State_Monad.return (decode r y))"

definition Update :: "'w client \<Rightarrow> 'a resource \<Rightarrow> 'a \<Rightarrow> ('w, apierr + 'a) state" where
  "Update c r x = State_Monad.bind (c_update c (r_in r x)) (\<lambda>y. State_Monad.return (decode r y))"

definition StatusUpdate :: "'w client \<Rightarrow> 'a resource \<Rightarrow> 'a \<Rightarrow> ('w, apierr + 'a) state" where
  "StatusUpdate c r x = State_Monad.bind (c_status c (r_in r x)) (\<lambda>y. State_Monad.return (decode r y))"

definition Delete :: "'w client \<Rightarrow> 'a resource \<Rightarrow> 'a \<Rightarrow> ('w, apierr + unit) state" where
  "Delete c r x = c_delete c (r_in r x)"

lemmas typed_defs = Get_def List_def Create_def Update_def StatusUpdate_def Delete_def

lemma run_state_bind: "run_state (State_Monad.bind m f) w = (case run_state m w of (x, w') \<Rightarrow> run_state (f x) w')"
  by (simp add: State_Monad.bind_def split: prod.split)

lemma run_state_return [simp]: "run_state (State_Monad.return x) w = (x, w)"
  by (simp add: State_Monad.return_def)

text \<open>The laws of the typed calls\<close>

locale typed_client = api_server c st + resource_kind r
  for c :: "'w client" and st :: "'w \<Rightarrow> store" and r :: "'a resource"
begin

lemma Get_law:
  assumes "run_state (Get c r key) w = (x, w')"
  shows "st w' = st w" and "\<And>y. x = Inr y \<Longrightarrow> st w (r_kind r, key) = Some (r_in r y)"
    and "x = Inl NotFound \<Longrightarrow> st w (r_kind r, key) = None"
proof -
  obtain z where z: "run_state (c_get c (r_kind r) key) w = (z, w')" "x = decode r z"
    using assms by (auto simp: Get_def run_state_bind split: prod.splits)
  note g = get_law [OF z(1)]
  show "st w' = st w" using g by blast
  show "st w (r_kind r, key) = Some (r_in r y)" if "x = Inr y" for y
    using g z(2) that by (auto simp: decode_def out_iff split: sum.splits option.splits)
  show "st w (r_kind r, key) = None" if "x = Inl NotFound"
    using g z(2) that by (auto simp: decode_def split: sum.splits option.splits)
qed

lemma List_law:
  assumes "run_state (List c r ns labels) w = (x, w')"
  shows "st w' = st w"
    and "\<And>ys. x = Inr ys \<Longrightarrow>
      set ys = {y. st w (id_of (r_in r y)) = Some (r_in r y) \<and> selects ns labels (r_in r y)}"
proof -
  obtain z where z: "run_state (c_list c (r_kind r) ns labels) w = (z, w')"
    "x = map_sum id (List.map_filter (r_out r)) z"
    using assms by (auto simp: List_def run_state_bind split: prod.splits)
  note l = list_law [OF z(1)]
  show "st w' = st w" using l by blast
  show "set ys = {y. st w (id_of (r_in r y)) = Some (r_in r y) \<and> selects ns labels (r_in r y)}"
    if xs: "x = Inr ys" for ys
  proof -
    obtain obs where obs: "z = Inr obs" "ys = List.map_filter (r_out r) obs"
      using z(2) xs by (cases z) auto
    then have "set obs = {ob. st w (id_of ob) = Some ob \<and> kind_of ob = r_kind r \<and> selects ns labels ob}"
      using l by simp
    then have "y \<in> set ys \<longleftrightarrow> st w (id_of (r_in r y)) = Some (r_in r y) \<and> selects ns labels (r_in r y)" for y
      unfolding obs(2) set_map_filter out_iff by (auto simp: kind_in)
    then show ?thesis by blast
  qed
qed

lemma write_decode:
  assumes "write_law eff s s' z" and "x = decode r z"
  shows "s' = s \<or> (\<exists>ob. eff s s' ob)" and "\<And>y. x = Inr y \<Longrightarrow> eff s s' (r_in r y)"
  using write_law_cases [OF assms(1)] assms
  by (auto simp: decode_def out_iff split: sum.splits option.splits)

lemma Create_law:
  assumes "run_state (Create c r y) w = (x, w')"
  shows "st w' = st w \<or> (\<exists>ob. creates (st w) (r_in r y) (st w') ob)"
    and "\<And>z. x = Inr z \<Longrightarrow> creates (st w) (r_in r y) (st w') (r_in r z)"
proof -
  obtain z where z: "run_state (c_create c (r_in r y)) w = (z, w')" "x = decode r z"
    using assms by (auto simp: Create_def run_state_bind split: prod.splits)
  have l: "write_law (\<lambda>s s' ob'. creates s (r_in r y) s' ob') (st w) (st w') z"
    using create_law [OF z(1)] by blast
  show "st w' = st w \<or> (\<exists>ob. creates (st w) (r_in r y) (st w') ob)" by (rule write_decode(1) [OF l z(2)])
  show "\<And>z. x = Inr z \<Longrightarrow> creates (st w) (r_in r y) (st w') (r_in r z)" by (rule write_decode(2) [OF l z(2)])
qed

lemma Update_law:
  assumes "run_state (Update c r y) w = (x, w')"
  shows "st w' = st w \<or> (\<exists>ob. updates (st w) (r_in r y) (st w') ob)"
    and "\<And>z. x = Inr z \<Longrightarrow> updates (st w) (r_in r y) (st w') (r_in r z)"
proof -
  obtain z where z: "run_state (c_update c (r_in r y)) w = (z, w')" "x = decode r z"
    using assms by (auto simp: Update_def run_state_bind split: prod.splits)
  note l = update_law [OF z(1)]
  show "st w' = st w \<or> (\<exists>ob. updates (st w) (r_in r y) (st w') ob)" by (rule write_decode(1) [OF l z(2)])
  show "\<And>z. x = Inr z \<Longrightarrow> updates (st w) (r_in r y) (st w') (r_in r z)" by (rule write_decode(2) [OF l z(2)])
qed

lemma StatusUpdate_law:
  assumes "run_state (StatusUpdate c r y) w = (x, w')"
  shows "st w' = st w \<or> (\<exists>ob. status_updates (st w) (r_in r y) (st w') ob)"
    and "\<And>z. x = Inr z \<Longrightarrow> status_updates (st w) (r_in r y) (st w') (r_in r z)"
proof -
  obtain z where z: "run_state (c_status c (r_in r y)) w = (z, w')" "x = decode r z"
    using assms by (auto simp: StatusUpdate_def run_state_bind split: prod.splits)
  note l = status_law [OF z(1)]
  show "st w' = st w \<or> (\<exists>ob. status_updates (st w) (r_in r y) (st w') ob)" by (rule write_decode(1) [OF l z(2)])
  show "\<And>z. x = Inr z \<Longrightarrow> status_updates (st w) (r_in r y) (st w') (r_in r z)"
    by (rule write_decode(2) [OF l z(2)])
qed

lemma Delete_law:
  assumes "run_state (Delete c r y) w = (x, w')"
  shows "st w' = st w \<or> deletes (st w) (r_in r y) (st w')"
    and "x = Inr () \<Longrightarrow> deletes (st w) (r_in r y) (st w')"
    and "x = Inl NotFound \<Longrightarrow> st w (id_of (r_in r y)) = None \<and> st w' = st w"
proof -
  note l = delete_law [OF assms [unfolded Delete_def]]
  show "st w' = st w \<or> deletes (st w) (r_in r y) (st w')"
    using write_law_cases [of _ "st w" "st w'" x] l by blast
  show "x = Inr () \<Longrightarrow> deletes (st w) (r_in r y) (st w')" using l by auto
  show "x = Inl NotFound \<Longrightarrow> st w (id_of (r_in r y)) = None \<and> st w' = st w" using l by auto
qed

end

interpretation reference_zones: typed_client ref_client ref_st zoneR ..
interpretation reference_endpoints: typed_client ref_client ref_st dnsEndpointR ..
interpretation reference_profiles: typed_client ref_client ref_st healthCheckProfileR ..
interpretation reference_locations: typed_client ref_client ref_st locationR ..
interpretation reference_prefixlists: typed_client ref_client ref_st prefixListR ..
interpretation reference_services: typed_client ref_client ref_st serviceR ..

section \<open>Reconcilers\<close>

text \<open>\<open>ctrl.Result\<close>; \<open>RequeueAfter\<close> in nanoseconds\<close>

record Result =
  Requeue :: bool
  RequeueAfter :: int

abbreviation done_result :: Result where
  "done_result \<equiv> \<lparr>Requeue = False, RequeueAfter = 0\<rparr>"

text \<open>The error of a write, as the source returns it\<close>

definition write_error :: "apierr + 'a \<Rightarrow> apierr option" where
  "write_error x = (case x of Inl e \<Rightarrow> Some e | Inr _ \<Rightarrow> None)"

end
