(* ===== verification/Kube_Programs.thy ===== *)
theory Kube_Programs
  imports Kube_Client
begin

text \<open>
  Reasoning about programs over the API client. \<open>wp m Q w\<close> says that \<open>m\<close>, run in the world \<open>w\<close>,
  ends in a result and a world that satisfy \<open>Q\<close>. The rules of the collection \<open>wp\<close> take a
  reconciler apart along its structure; those of the typed calls bring in the laws of the API server.
\<close>

named_theorems wp \<open>rules that take a program over the API client apart\<close>

definition wp :: "('w, 'a) state \<Rightarrow> ('a \<Rightarrow> 'w \<Rightarrow> bool) \<Rightarrow> 'w \<Rightarrow> bool" where
  "wp m Q w = (case run_state m w of (x, w') \<Rightarrow> Q x w')"

lemma wp_run: "wp m Q w \<Longrightarrow> run_state m w = (x, w') \<Longrightarrow> Q x w'"
  by (simp add: wp_def)

lemma wpI: "(\<And>x w'. run_state m w = (x, w') \<Longrightarrow> Q x w') \<Longrightarrow> wp m Q w"
  by (simp add: wp_def split: prod.split)

lemma wp_mono: "wp m Q w \<Longrightarrow> (\<And>x w'. Q x w' \<Longrightarrow> R x w') \<Longrightarrow> wp m R w"
  by (simp add: wp_def split: prod.splits)

lemma wp_conj: "wp m Q w \<Longrightarrow> wp m R w \<Longrightarrow> wp m (\<lambda>x w'. Q x w' \<and> R x w') w"
  by (simp add: wp_def split: prod.splits)

lemma wp_return [wp]: "Q x w \<Longrightarrow> wp (State_Monad.return x) Q w"
  by (simp add: wp_def)

lemma wp_bind [wp]: "wp m (\<lambda>x. wp (f x) Q) w \<Longrightarrow> wp (State_Monad.bind m f) Q w"
  by (simp add: wp_def run_state_bind split: prod.splits)

lemma wp_if [wp]: "(b \<Longrightarrow> wp m Q w) \<Longrightarrow> (\<not> b \<Longrightarrow> wp n Q w) \<Longrightarrow> wp (if b then m else n) Q w"
  by simp

lemma wp_sum [wp]:
  "(\<And>a. x = Inl a \<Longrightarrow> wp (f a) Q w) \<Longrightarrow> (\<And>b. x = Inr b \<Longrightarrow> wp (g b) Q w) \<Longrightarrow>
   wp (case x of Inl a \<Rightarrow> f a | Inr b \<Rightarrow> g b) Q w"
  by (simp split: sum.split)

lemma wp_option [wp]:
  "(x = None \<Longrightarrow> wp m Q w) \<Longrightarrow> (\<And>a. x = Some a \<Longrightarrow> wp (f a) Q w) \<Longrightarrow>
   wp (case x of None \<Rightarrow> m | Some a \<Rightarrow> f a) Q w"
  by (simp split: option.split)

lemma wp_prod [wp]: "(\<And>a b. x = (a, b) \<Longrightarrow> wp (f a b) Q w) \<Longrightarrow> wp (case x of (a, b) \<Rightarrow> f a b) Q w"
  by (simp split: prod.split)

lemma wp_Let [wp]: "(\<And>y. y = x \<Longrightarrow> wp (f y) Q w) \<Longrightarrow> wp (let y = x in f y) Q w"
  by simp

context typed_client
begin

lemma Get_wp [wp]:
  assumes "\<And>x w'. \<lbrakk>st w' = st w; \<And>y. x = Inr y \<Longrightarrow> st w (r_kind r, key) = Some (r_in r y);
    x = Inl NotFound \<Longrightarrow> st w (r_kind r, key) = None\<rbrakk> \<Longrightarrow> Q x w'"
  shows "wp (Get c r key) Q w"
  by (rule wpI, rule assms) (fact Get_law)+

lemma List_wp [wp]:
  assumes "\<And>x w'. \<lbrakk>st w' = st w; \<And>ys. x = Inr ys \<Longrightarrow>
    set ys = {y. st w (id_of (r_in r y)) = Some (r_in r y) \<and> selects ns labels (r_in r y)}\<rbrakk> \<Longrightarrow> Q x w'"
  shows "wp (List c r ns labels) Q w"
  by (rule wpI, rule assms) (fact List_law)+

lemma Create_wp [wp]:
  assumes "\<And>x w'. \<lbrakk>st w' = st w \<or> (\<exists>ob. creates (st w) (r_in r y) (st w') ob);
    \<And>z. x = Inr z \<Longrightarrow> creates (st w) (r_in r y) (st w') (r_in r z)\<rbrakk> \<Longrightarrow> Q x w'"
  shows "wp (Create c r y) Q w"
  by (rule wpI, rule assms) (fact Create_law)+

lemma Update_wp [wp]:
  assumes "\<And>x w'. \<lbrakk>st w' = st w \<or> (\<exists>ob. updates (st w) (r_in r y) (st w') ob);
    \<And>z. x = Inr z \<Longrightarrow> updates (st w) (r_in r y) (st w') (r_in r z)\<rbrakk> \<Longrightarrow> Q x w'"
  shows "wp (Update c r y) Q w"
  by (rule wpI, rule assms) (fact Update_law)+

lemma StatusUpdate_wp [wp]:
  assumes "\<And>x w'. \<lbrakk>st w' = st w \<or> (\<exists>ob. status_updates (st w) (r_in r y) (st w') ob);
    \<And>z. x = Inr z \<Longrightarrow> status_updates (st w) (r_in r y) (st w') (r_in r z)\<rbrakk> \<Longrightarrow> Q x w'"
  shows "wp (StatusUpdate c r y) Q w"
  by (rule wpI, rule assms) (fact StatusUpdate_law)+

lemma Delete_wp [wp]:
  assumes "\<And>x w'. \<lbrakk>st w' = st w \<or> deletes (st w) (r_in r y) (st w');
    x = Inr () \<Longrightarrow> deletes (st w) (r_in r y) (st w');
    x = Inl NotFound \<Longrightarrow> st w (id_of (r_in r y)) = None \<and> st w' = st w\<rbrakk> \<Longrightarrow> Q x w'"
  shows "wp (Delete c r y) Q w"
  by (rule wpI, rule assms) (fact Delete_law)+

end

text \<open>The laws for every kind that the controllers read or write\<close>

sublocale api_server \<subseteq> zones: typed_client c st zoneR ..
sublocale api_server \<subseteq> endpoints: typed_client c st dnsEndpointR ..
sublocale api_server \<subseteq> services: typed_client c st serviceR ..
sublocale api_server \<subseteq> namespaces: typed_client c st namespaceR ..
sublocale api_server \<subseteq> secrets: typed_client c st secretR ..
sublocale api_server \<subseteq> coreservices: typed_client c st coreServiceR ..
sublocale api_server \<subseteq> deployments: typed_client c st deploymentR ..
sublocale api_server \<subseteq> ingresses: typed_client c st ingressR ..
sublocale api_server \<subseteq> certificates: typed_client c st certificateR ..
sublocale api_server \<subseteq> requests: typed_client c st certificateRequestR ..
sublocale api_server \<subseteq> orders: typed_client c st orderR ..
sublocale api_server \<subseteq> challenges: typed_client c st challengeR ..
sublocale api_server \<subseteq> appsets: typed_client c st applicationSetR ..

text \<open>The calls on an object of any kind\<close>

context api_server
begin

lemma c_get_wp [wp]:
  assumes "\<And>x w'. \<lbrakk>st w' = st w; \<And>ob. x = Inr ob \<Longrightarrow> st w (k, key) = Some ob \<and> id_of ob = (k, key);
    x = Inl NotFound \<Longrightarrow> st w (k, key) = None\<rbrakk> \<Longrightarrow> Q x w'"
  shows "wp (c_get c k key) Q w"
proof (rule wpI)
  fix x w' assume "run_state (c_get c k key) w = (x, w')"
  from get_law [OF this] stored_id show "Q x w'" by (intro assms) (auto split: sum.splits)
qed

lemma c_create_wp [wp]:
  assumes "\<And>x w'. \<lbrakk>st w' = st w \<or> (\<exists>ob'. creates (st w) ob (st w') ob');
    \<And>z. x = Inr z \<Longrightarrow> creates (st w) ob (st w') z\<rbrakk> \<Longrightarrow> Q x w'"
  shows "wp (c_create c ob) Q w"
proof (rule wpI)
  fix x w' assume "run_state (c_create c ob) w = (x, w')"
  note law = conjunct1 [OF create_law [OF this]]
  show "Q x w'" by (rule assms) (use write_law_cases [OF law] law in simp_all)
qed

lemma c_update_wp [wp]:
  assumes "\<And>x w'. \<lbrakk>st w' = st w \<or> (\<exists>ob'. updates (st w) ob (st w') ob');
    \<And>z. x = Inr z \<Longrightarrow> updates (st w) ob (st w') z\<rbrakk> \<Longrightarrow> Q x w'"
  shows "wp (c_update c ob) Q w"
proof (rule wpI)
  fix x w' assume "run_state (c_update c ob) w = (x, w')"
  note law = update_law [OF this]
  show "Q x w'" by (rule assms) (use write_law_cases [OF law] law in simp_all)
qed

lemma c_delete_wp [wp]:
  assumes "\<And>x w'. \<lbrakk>st w' = st w \<or> deletes (st w) ob (st w'); x = Inr () \<Longrightarrow> deletes (st w) ob (st w');
    x = Inl NotFound \<Longrightarrow> st w (id_of ob) = None \<and> st w' = st w\<rbrakk> \<Longrightarrow> Q x w'"
  shows "wp (c_delete c ob) Q w"
proof (rule wpI)
  fix x w' assume "run_state (c_delete c ob) w = (x, w')"
  note law = delete_law [OF this]
  show "Q x w'" by (rule assms) (use write_law_cases [OF conjunct1 [OF law]] law in auto)
qed

end

section \<open>One object\<close>

text \<open>A write changes the object it is given and no other.\<close>

definition only_at :: "obj_id set \<Rightarrow> store \<Rightarrow> store \<Rightarrow> bool" where
  "only_at I s s' \<longleftrightarrow> (\<forall>i. i \<notin> I \<longrightarrow> s' i = s i)"

lemma only_at_refl [simp]: "only_at I s s"
  by (simp add: only_at_def)

lemma only_at_trans: "only_at I s s' \<Longrightarrow> only_at I s' s'' \<Longrightarrow> only_at I s s''"
  by (simp add: only_at_def)

lemma only_at_mono: "only_at I s s' \<Longrightarrow> I \<subseteq> J \<Longrightarrow> only_at J s s'"
  by (auto simp: only_at_def)

lemma writes_only_at:
  "creates s ob s' ob' \<Longrightarrow> only_at {id_of ob} s s'"
  "updates s ob s' ob' \<Longrightarrow> only_at {id_of ob} s s'"
  "status_updates s ob s' ob' \<Longrightarrow> only_at {id_of ob} s s'"
  "deletes s ob s' \<Longrightarrow> only_at {id_of ob} s s'"
  by (auto simp: creates_def updates_def status_updates_def deletes_def only_at_def split: if_splits)

section \<open>Loops\<close>

text \<open>A loop over a slice whose body returns the first error\<close>

fun each :: "('a \<Rightarrow> ('w, 'e option) state) \<Rightarrow> 'a list \<Rightarrow> ('w, 'e option) state" where
  "each f [] = State_Monad.return None"
| "each f (x # xs) = do {
     e \<leftarrow> f x;
     case e of Some err \<Rightarrow> State_Monad.return (Some err) | None \<Rightarrow> each f xs
   }"

text \<open>
  Bodies that own disjoint sets of objects: what a body establishes about its own objects is still
  true at the end of the loop.
\<close>

context api_server
begin

lemma each_wp:
  assumes step: "\<And>x w. x \<in> set xs \<Longrightarrow> P x (st w) \<Longrightarrow>
      wp (f x) (\<lambda>e w'. only_at (I x) (st w) (st w') \<and> (e = None \<longrightarrow> R x (st w'))) w"
    and local: "\<And>x J s s'. x \<in> set xs \<Longrightarrow> only_at J s s' \<Longrightarrow> J \<inter> I x = {} \<Longrightarrow> (P x s \<longrightarrow> P x s') \<and> (R x s \<longrightarrow> R x s')"
    and disjoint: "distinct xs" "\<And>x y. x \<in> set xs \<Longrightarrow> y \<in> set xs \<Longrightarrow> x \<noteq> y \<Longrightarrow> I x \<inter> I y = {}"
    and pre: "\<And>x. x \<in> set xs \<Longrightarrow> P x (st w)"
  shows "wp (each f xs) (\<lambda>e w'. only_at (\<Union>x \<in> set xs. I x) (st w) (st w') \<and>
    (e = None \<longrightarrow> (\<forall>x \<in> set xs. R x (st w')))) w"
  using assms
proof (induction xs arbitrary: w)
  case Nil
  show ?case by (simp add: wp_def)
next
  case (Cons x xs)
  have rest: "wp (each f xs) (\<lambda>e w'. only_at (\<Union>y \<in> set (x # xs). I y) (st w) (st w') \<and>
      (e = None \<longrightarrow> (\<forall>y \<in> set (x # xs). R y (st w')))) w1"
    if x: "only_at (I x) (st w) (st w1)" "R x (st w1)" for w1
  proof -
    have pre: "P y (st w1)" if "y \<in> set xs" for y
    proof -
      have "I x \<inter> I y = {}" using Cons.prems(3,4) that by fastforce
      with Cons.prems(2) [of y, OF _ x(1)] Cons.prems(5) that show ?thesis by simp
    qed
    have apart: "(\<Union>y \<in> set xs. I y) \<inter> I x = {}" using Cons.prems(3,4) by fastforce
    have "wp (each f xs) (\<lambda>e w'. only_at (\<Union>y \<in> set xs. I y) (st w1) (st w') \<and>
        (e = None \<longrightarrow> (\<forall>y \<in> set xs. R y (st w')))) w1"
      by (rule Cons.IH) (use Cons.prems(1-4) pre in auto)
    then show ?thesis
    proof (rule wp_mono, goal_cases)
      case (1 e w2)
      then have "only_at (\<Union>y \<in> set (x # xs). I y) (st w1) (st w2)" by (auto elim: only_at_mono)
      moreover have "only_at (\<Union>y \<in> set (x # xs). I y) (st w) (st w1)" using x(1) by (auto elim: only_at_mono)
      ultimately show ?case using 1 Cons.prems(2) [of x _ "st w1" "st w2", OF _ _ apart] x(2) only_at_trans by auto
    qed
  qed
  have "only_at (I x) (st w) (st w1) \<Longrightarrow> only_at (\<Union>y \<in> set (x # xs). I y) (st w) (st w1)" for w1
    by (erule only_at_mono) auto
  then show ?case
    unfolding each.simps
    by (intro wp_bind wp_mono [OF Cons.prems(1) [OF _ Cons.prems(5)]]) (auto intro!: wp_option wp_return rest [simplified])
qed

end

end
