(* ===== verification/Downstream.thy ===== *)
theory Downstream
  imports Kube_Programs
begin

text \<open>
  The downstream mirror (\<open>internal/controller/downstream_controller.go\<close>): it copies the resources
  of an upstream cluster into the local one and deletes the copies whose source is gone. An object
  of the interface \<open>client.Object\<close> is a \<open>kobject\<close>. The upstream cache is an argument, as are the
  pages of the local API server; \<open>reflect.DeepEqual\<close> is equality. The set of namespaces that are
  known to exist (\<open>sync.Map\<close>) is passed along as a list, and a handler that adds a key to the work
  queue returns the key.
\<close>

section \<open>The model\<close>

definition DownstreamTargetRouter :: string where "DownstreamTargetRouter = ''router''"
definition DownstreamTargetCache :: string where "DownstreamTargetCache = ''cache''"
definition DownstreamManagedLabel :: string where "DownstreamManagedLabel = ''downstream.edgecdnx.com/source-id''"
definition DownstreamWorkers :: int where "DownstreamWorkers = 16"

record downstreamQueueKey =
  qk_Kind :: string
  qk_Key :: NamespacedName

text \<open>A \<open>downstreamResourceKind\<close> is its name and the kind its constructors make.\<close>

type_synonym downstreamResourceKind = "string \<times> kind"

record DownstreamReconciler =
  dr_TargetNamespace :: string
  dr_Target :: string
  dr_SourceID :: string
  dr_Workers :: int
  dr_kinds :: "downstreamResourceKind list"

datatype downstream_error =
    InvalidTarget string | NoCacheOrClient | NoSourceID | UnknownKind string
  | GetUpstream apierr | EmptyNamespace | NotManaged | LocalError apierr | StatusOfOtherType
  | EnsureNamespace downstream_error | UpsertMirror downstream_error | ListMirrors string apierr

definition downstreamResourceKinds :: "string \<Rightarrow> downstream_error + downstreamResourceKind list" where
  "downstreamResourceKinds target =
     (if target = DownstreamTargetRouter then
        Inr [(''Location'', KLocation), (''HealthCheckProfile'', KHealthCheckProfile), (''Zone'', KZone),
             (''PrefixList'', KPrefixList), (''DNSEndpoint'', KDNSEndpoint)]
      else if target = DownstreamTargetCache then Inr [(''Service'', KService)]
      else Inl (InvalidTarget target))"

text \<open>\<open>configured\<close>: neither the upstream cache nor the local client is nil\<close>

definition NewDownstreamReconciler ::
  "bool \<Rightarrow> string \<Rightarrow> string \<Rightarrow> int \<Rightarrow> downstream_error + DownstreamReconciler" where
  "NewDownstreamReconciler configured target sourceID workers =
     (case downstreamResourceKinds target of
        Inl err \<Rightarrow> Inl err
      | Inr kinds \<Rightarrow>
          if \<not> configured then Inl NoCacheOrClient
          else if sourceID = [] then Inl NoSourceID
          else Inr \<lparr>dr_TargetNamespace = [], dr_Target = target, dr_SourceID = sourceID,
                 dr_Workers = (if workers < 1 then DownstreamWorkers else workers), dr_kinds = kinds\<rparr>)"

definition clearRemoteMetadata :: "kobject \<Rightarrow> kobject" where
  "clearRemoteMetadata = map_meta (\<lambda>m. m\<lparr>om_UID := [], om_ResourceVersion := [], om_Generation := 0,
     om_CreationTimestamp := None, om_DeletionTimestamp := None, om_DeletionGracePeriodSeconds := None,
     om_ManagedFields := [], om_OwnerReferences := [], om_Finalizers := []\<rparr>)"

fun setEmptyStatus :: "kobject \<Rightarrow> kobject" where
  "setEmptyStatus (OLocation x) = OLocation (x\<lparr>loc_Status := zero_LocationStatus\<rparr>)"
| "setEmptyStatus (OHealthCheckProfile x) = OHealthCheckProfile (x\<lparr>hcp_Status := zero_HealthCheckProfileStatus\<rparr>)"
| "setEmptyStatus (OZone x) = OZone (x\<lparr>zone_Status := zero_ZoneStatus\<rparr>)"
| "setEmptyStatus (OPrefixList x) = OPrefixList (x\<lparr>pl_Status := zero_PrefixListStatus\<rparr>)"
| "setEmptyStatus (ODNSEndpoint x) = ODNSEndpoint (x\<lparr>de_Status := zero_DNSEndpointStatus\<rparr>)"
| "setEmptyStatus (OService x) = OService (x\<lparr>svc_Status := zero_ServiceStatus\<rparr>)"
| "setEmptyStatus ob = ob"

text \<open>\<open>None\<close> is the panic of a type assertion on an object of another type.\<close>

fun copyLocalStatus :: "kobject \<Rightarrow> kobject \<Rightarrow> kobject option" where
  "copyLocalStatus (OLocation x) current =
     (case current of OLocation y \<Rightarrow> Some (OLocation (x\<lparr>loc_Status := loc_Status y\<rparr>)) | _ \<Rightarrow> None)"
| "copyLocalStatus (OHealthCheckProfile x) current =
     (case current of OHealthCheckProfile y \<Rightarrow> Some (OHealthCheckProfile (x\<lparr>hcp_Status := hcp_Status y\<rparr>)) | _ \<Rightarrow> None)"
| "copyLocalStatus (OZone x) current =
     (case current of OZone y \<Rightarrow> Some (OZone (x\<lparr>zone_Status := zone_Status y\<rparr>)) | _ \<Rightarrow> None)"
| "copyLocalStatus (OPrefixList x) current =
     (case current of OPrefixList y \<Rightarrow> Some (OPrefixList (x\<lparr>pl_Status := pl_Status y\<rparr>)) | _ \<Rightarrow> None)"
| "copyLocalStatus (ODNSEndpoint x) current =
     (case current of ODNSEndpoint y \<Rightarrow> Some (ODNSEndpoint (x\<lparr>de_Status := de_Status y\<rparr>)) | _ \<Rightarrow> None)"
| "copyLocalStatus (OService x) current =
     (case current of OService y \<Rightarrow> Some (OService (x\<lparr>svc_Status := svc_Status y\<rparr>)) | _ \<Rightarrow> None)"
| "copyLocalStatus ob current = Some ob"

definition downstreamSourceEqual :: "kobject \<Rightarrow> kobject \<Rightarrow> bool" where
  "downstreamSourceEqual oldObject newObject \<longleftrightarrow>
     setEmptyStatus (clearRemoteMetadata oldObject) = setEmptyStatus (clearRemoteMetadata newObject)"

text \<open>What an informer hands to a handler: an object, a tombstone of one (by value or by pointer), or something else\<close>

datatype cache_object = CObject kobject | CTombstone cache_object | CTombstonePtr cache_object | COther

definition enqueueObject :: "DownstreamReconciler \<Rightarrow> string \<Rightarrow> cache_object \<Rightarrow> downstreamQueueKey option" where
  "enqueueObject r kind object =
     (let object1 = (case object of CTombstone x \<Rightarrow> x | _ \<Rightarrow> object);
          object2 = (case object1 of CTombstonePtr x \<Rightarrow> x | _ \<Rightarrow> object1)
      in case object2 of
           CObject resource \<Rightarrow>
             if dr_TargetNamespace r \<noteq> [] \<and> GetNamespace resource \<noteq> dr_TargetNamespace r then None
             else Some \<lparr>qk_Kind = kind, qk_Key = key_of (obj_meta resource)\<rparr>
         | _ \<Rightarrow> None)"

text \<open>The event handlers of \<open>RegisterHandlers\<close>: \<open>AddFunc\<close> and \<open>DeleteFunc\<close> call \<open>enqueueObject\<close>.\<close>

definition UpdateFunc ::
  "DownstreamReconciler \<Rightarrow> string \<Rightarrow> cache_object \<Rightarrow> cache_object \<Rightarrow> downstreamQueueKey option" where
  "UpdateFunc r kindName oldObject newObject =
     (case (oldObject, newObject) of
        (CObject oldResource, CObject newResource) \<Rightarrow>
          if downstreamSourceEqual oldResource newResource then None else enqueueObject r kindName newObject
      | _ \<Rightarrow> enqueueObject r kindName newObject)"

text \<open>\<open>TransformStripManagedFields\<close> clears the managed fields of anything with metadata and returns no error.\<close>

definition DownstreamCacheTransform :: "cache_object \<Rightarrow> cache_object" where
  "DownstreamCacheTransform object =
     (case object of
        CObject resource \<Rightarrow> CObject (setEmptyStatus (map_meta (\<lambda>m. m\<lparr>om_ManagedFields := []\<rparr>) resource))
      | _ \<Rightarrow> object)"

text \<open>The known namespaces are returned with the error.\<close>

definition ensureNamespace ::
  "'w client \<Rightarrow> string list \<Rightarrow> string \<Rightarrow> ('w, downstream_error option \<times> string list) state" where
  "ensureNamespace c namespaces namespace =
     (if namespace = [] then State_Monad.return (Some EmptyNamespace, namespaces)
      else if namespace \<in> set namespaces then State_Monad.return (None, namespaces)
      else do {
        got \<leftarrow> Get c namespaceR \<lparr>nn_Namespace = [], nn_Name = namespace\<rparr>;
        case got of
          Inr localNamespace \<Rightarrow> State_Monad.return (None, namespace # namespaces)
        | Inl err \<Rightarrow>
            if err \<noteq> NotFound then State_Monad.return (Some (LocalError err), namespaces)
            else do {
              created \<leftarrow> Create c namespaceR \<lparr>ns_Meta = new_ObjectMeta namespace []\<rparr>;
              case write_error created of
                None \<Rightarrow> State_Monad.return (None, namespace # namespaces)
              | Some err \<Rightarrow>
                  if err \<noteq> AlreadyExists then State_Monad.return (Some (LocalError err), namespaces)
                  else State_Monad.return (None, namespace # namespaces)
            }
      })"

definition local_error :: "apierr + 'a \<Rightarrow> downstream_error option" where
  "local_error x = map_option LocalError (write_error x)"

text \<open>The copy that \<open>upsert\<close> wants, before it looks at the local one\<close>

definition desired_mirror :: "string \<Rightarrow> kobject \<Rightarrow> kobject" where
  "desired_mirror sourceID source =
     map_meta (\<lambda>m. m\<lparr>om_Labels := fmupd DownstreamManagedLabel sourceID (om_Labels m)\<rparr>)
       (setEmptyStatus (clearRemoteMetadata source))"

text \<open>What it takes over from the local one\<close>

definition adopt_metadata :: "kobject \<Rightarrow> kobject \<Rightarrow> kobject" where
  "adopt_metadata current = map_meta (\<lambda>m. m\<lparr>
     om_ResourceVersion := om_ResourceVersion (obj_meta current), om_UID := om_UID (obj_meta current),
     om_Generation := om_Generation (obj_meta current),
     om_CreationTimestamp := om_CreationTimestamp (obj_meta current),
     om_OwnerReferences := om_OwnerReferences (obj_meta current), om_Finalizers := om_Finalizers (obj_meta current)\<rparr>)"

definition managed :: "string \<Rightarrow> kobject \<Rightarrow> bool" where
  "managed sourceID ob \<longleftrightarrow>
     (case fmlookup (GetLabels ob) DownstreamManagedLabel of None \<Rightarrow> [] | Some v \<Rightarrow> v) = sourceID"

definition upsert :: "'w client \<Rightarrow> DownstreamReconciler \<Rightarrow> kind \<Rightarrow> kobject \<Rightarrow> ('w, downstream_error option) state" where
  "upsert c r k source = do {
     let desired = desired_mirror (dr_SourceID r) source;
     got \<leftarrow> c_get c k (key_of (obj_meta source));
     case got of
       Inl err \<Rightarrow>
         if err \<noteq> NotFound then State_Monad.return (Some (LocalError err))
         else do { created \<leftarrow> c_create c desired; State_Monad.return (local_error created) }
     | Inr current \<Rightarrow>
         if \<not> managed (dr_SourceID r) current then State_Monad.return (Some NotManaged)
         else if om_DeletionTimestamp (obj_meta current) \<noteq> None then State_Monad.return None
         else case copyLocalStatus (adopt_metadata current desired) current of
             None \<Rightarrow> State_Monad.return (Some StatusOfOtherType)
           | Some desired \<Rightarrow>
               if current = desired then State_Monad.return None
               else do { updated \<leftarrow> c_update c desired; State_Monad.return (local_error updated) }
   }"

definition deleteMirror ::
  "'w client \<Rightarrow> DownstreamReconciler \<Rightarrow> kind \<Rightarrow> NamespacedName \<Rightarrow> ('w, downstream_error option) state" where
  "deleteMirror c r k key = do {
     got \<leftarrow> c_get c k key;
     case got of
       Inl err \<Rightarrow> State_Monad.return (map_option LocalError (IgnoreNotFound (Some err)))
     | Inr current \<Rightarrow>
         if \<not> managed (dr_SourceID r) current then State_Monad.return None
         else do {
           d \<leftarrow> c_delete c current;
           case write_error d of
             Some err \<Rightarrow> State_Monad.return (if err \<noteq> NotFound then Some (LocalError err) else None)
           | None \<Rightarrow> State_Monad.return None
         }
   }"

text \<open>\<open>up\<close> is \<open>UpstreamReader.Get\<close>.\<close>

definition reconcileKey ::
  "'w client \<Rightarrow> (kind \<Rightarrow> NamespacedName \<Rightarrow> apierr + kobject) \<Rightarrow> DownstreamReconciler \<Rightarrow> string list \<Rightarrow>
   downstreamQueueKey \<Rightarrow> ('w, downstream_error option \<times> string list) state" where
  "reconcileKey c up r namespaces key =
     (if dr_TargetNamespace r \<noteq> [] \<and> nn_Namespace (qk_Key key) \<noteq> dr_TargetNamespace r
      then State_Monad.return (None, namespaces)
      else case map_of (dr_kinds r) (qk_Kind key) of
        None \<Rightarrow> State_Monad.return (Some (UnknownKind (qk_Kind key)), namespaces)
      | Some k \<Rightarrow>
          (case up k (qk_Key key) of
             Inl err \<Rightarrow>
               if err \<noteq> NotFound then State_Monad.return (Some (GetUpstream err), namespaces)
               else do { e \<leftarrow> deleteMirror c r k (qk_Key key); State_Monad.return (e, namespaces) }
           | Inr source \<Rightarrow> do {
               (e, namespaces') \<leftarrow> ensureNamespace c namespaces (GetNamespace source);
               case e of
                 Some err \<Rightarrow> State_Monad.return (Some (EnsureNamespace err), namespaces')
               | None \<Rightarrow> do {
                   e' \<leftarrow> upsert c r k source;
                   State_Monad.return (map_option UpsertMirror e', namespaces')
                 }
             }))"

text \<open>
  The pages of one kind, from a continue token on: \<open>page\<close> is the local list call with the limit and
  the token, and gives the items and the next token. The result is the error, if any, with the keys
  added so far. A server whose tokens never end keeps the loop running: then there is no result.
\<close>

partial_function (option) list_mirrors ::
  "DownstreamReconciler \<Rightarrow> string \<Rightarrow> (string \<Rightarrow> apierr + kobject list \<times> string) \<Rightarrow> string \<Rightarrow>
   downstreamQueueKey list \<Rightarrow> (downstream_error option \<times> downstreamQueueKey list) option" where
  "list_mirrors r name page token keys =
     (case page token of
        Inl err \<Rightarrow> Some (Some (ListMirrors name err), keys)
      | Inr (items, next) \<Rightarrow>
          let keys' = keys @ List.map_filter (\<lambda>x. enqueueObject r name (CObject x)) items
          in if next = [] then Some (None, keys') else list_mirrors r name page next keys')"

declare list_mirrors.simps [code]

text \<open>
  The keys that \<open>enqueueExistingMirrors\<close> adds for the kinds in the order the map gives them. \<open>page\<close>
  is the local list call, with the namespace, the labels, and the continue token.
\<close>

fun existing_mirrors ::
  "(kind \<Rightarrow> string \<Rightarrow> strmap \<Rightarrow> string \<Rightarrow> apierr + kobject list \<times> string) \<Rightarrow> DownstreamReconciler \<Rightarrow>
   downstreamResourceKind list \<Rightarrow> downstreamQueueKey list \<Rightarrow>
   (downstream_error option \<times> downstreamQueueKey list) option" where
  "existing_mirrors page r [] keys = Some (None, keys)"
| "existing_mirrors page r ((name, k) # kinds) keys =
     (case list_mirrors r name
          (page k (dr_TargetNamespace r) (fmupd DownstreamManagedLabel (dr_SourceID r) fmempty)) [] keys of
        None \<Rightarrow> None
      | Some (Some err, keys') \<Rightarrow> Some (Some err, keys')
      | Some (None, keys') \<Rightarrow> existing_mirrors page r kinds keys')"

definition enqueueExistingMirrors ::
  "(kind \<Rightarrow> string \<Rightarrow> strmap \<Rightarrow> string \<Rightarrow> apierr + kobject list \<times> string) \<Rightarrow> DownstreamReconciler \<Rightarrow>
   (downstream_error option \<times> downstreamQueueKey list) option" where
  "enqueueExistingMirrors page r = existing_mirrors page r (dr_kinds r) []"

section \<open>The copy\<close>

text \<open>
  What a mirror has from its source: everything but the status, the server's metadata, the owner
  references and the finalizers.
\<close>

definition payload :: "kobject \<Rightarrow> kobject" where
  "payload ob = map_meta (\<lambda>m. (server_meta m)\<lparr>om_OwnerReferences := [], om_Finalizers := []\<rparr>) (with_status (zero_status (kind_of ob)) ob)"

definition label_source :: "string \<Rightarrow> kobject \<Rightarrow> kobject" where
  "label_source sourceID = map_meta (\<lambda>m. m\<lparr>om_Labels := fmupd DownstreamManagedLabel sourceID (om_Labels m)\<rparr>)"

definition mirrored_kinds :: "kind set" where
  "mirrored_kinds = {KLocation, KHealthCheckProfile, KZone, KPrefixList, KDNSEndpoint, KService}"

definition mirrored :: "kobject \<Rightarrow> bool" where
  "mirrored ob \<longleftrightarrow> kind_of ob \<in> mirrored_kinds"

lemma mirrored_cases:
  assumes "mirrored ob"
  obtains (l) x where "ob = OLocation x" | (h) x where "ob = OHealthCheckProfile x" | (z) x where "ob = OZone x"
  | (p) x where "ob = OPrefixList x" | (d) x where "ob = ODNSEndpoint x" | (s) x where "ob = OService x"
  using assms by (cases ob) (simp_all add: mirrored_def mirrored_kinds_def)

lemma empty_is_payload: "mirrored ob \<Longrightarrow> setEmptyStatus (clearRemoteMetadata ob) = payload ob"
  by (erule mirrored_cases) (simp_all add: clearRemoteMetadata_def payload_def server_meta_def)

text \<open>What a mirror that the server has stored has from its source: the same with the defaults filled in\<close>

definition content :: "kobject \<Rightarrow> kobject" where
  "content ob = filled (payload ob)"

lemma content_desired: "mirrored ob \<Longrightarrow> content (desired_mirror sid ob) = label_source sid (content ob)"
  by (erule mirrored_cases)
    (simp_all add: desired_mirror_def clearRemoteMetadata_def content_def payload_def server_meta_def label_source_def)

lemma content_core: "core a = core b \<Longrightarrow> content a = content b"
proof -
  have "content ob = map_meta (\<lambda>m. m\<lparr>om_OwnerReferences := [], om_Finalizers := []\<rparr>) (core ob)" for ob
    by (cases ob) (simp_all add: content_def payload_def core_def server_meta_def)
  then show "core a = core b \<Longrightarrow> content a = content b" by simp
qed

lemma id_of_desired [simp]: "id_of (desired_mirror sid ob) = id_of ob"
  by (cases ob) (simp_all add: id_of_def desired_mirror_def clearRemoteMetadata_def key_of_def)

lemma copyLocalStatus_same:
  assumes "kind_of d = kind_of current"
  shows "\<exists>d'. copyLocalStatus d current = Some d' \<and> core d' = core d \<and> obj_meta d' = obj_meta d"
  using assms by (cases d; cases current) (simp_all add: core_def)

lemma adopt_metadata_keeps:
  "kind_of (adopt_metadata current d) = kind_of d" "id_of (adopt_metadata current d) = id_of d"
  "content (adopt_metadata current d) = content d"
  by (simp_all add: adopt_metadata_def id_of_def key_of_def) (cases d; simp add: content_def payload_def server_meta_def)

lemma desired_mirror_meta:
  "kind_of (desired_mirror sid ob) = kind_of ob" "om_ManagedFields (obj_meta (desired_mirror sid ob)) = []"
  by (cases ob; simp add: desired_mirror_def clearRemoteMetadata_def)+

lemma copyLocalStatus_desired:
  assumes "kind_of current = kind_of source"
  shows "\<exists>d. copyLocalStatus (adopt_metadata current (desired_mirror sid source)) current = Some d \<and>
    id_of d = id_of source \<and> content d = content (desired_mirror sid source) \<and>
    om_ManagedFields (obj_meta d) = [] \<and> om_Finalizers (obj_meta d) = om_Finalizers (obj_meta current)"
proof -
  let ?a = "adopt_metadata current (desired_mirror sid source)"
  have "kind_of ?a = kind_of current" using assms by (simp add: adopt_metadata_keeps desired_mirror_meta)
  from copyLocalStatus_same [OF this] obtain d where d: "copyLocalStatus ?a current = Some d" "core d = core ?a" "obj_meta d = obj_meta ?a"
    by blast
  have "id_of d = id_of source" using core_id [OF d(2)] by (simp add: adopt_metadata_keeps)
  moreover have "content d = content (desired_mirror sid source)" using content_core [OF d(2)] by (simp add: adopt_metadata_keeps)
  moreover have "om_ManagedFields (obj_meta d) = []" "om_Finalizers (obj_meta d) = om_Finalizers (obj_meta current)"
    using desired_mirror_meta(2) by (simp_all add: d(3) adopt_metadata_def)
  ultimately show ?thesis using d(1) by blast
qed

lemma managed_desired [simp]: "managed sid (desired_mirror sid ob)"
  by (cases ob) (simp_all add: managed_def desired_mirror_def clearRemoteMetadata_def)

lemma managed_content [simp]: "managed sid (content ob) \<longleftrightarrow> managed sid ob"
  by (cases ob) (simp_all add: managed_def content_def payload_def server_meta_def DownstreamManagedLabel_def)

lemma managed_label [simp]: "managed sid (label_source sid ob)"
  by (simp add: managed_def label_source_def)

section \<open>What a call does\<close>

lemma only_at_other: "only_at {j} s s' \<Longrightarrow> i \<noteq> j \<Longrightarrow> s' i = s i"
  unfolding only_at_def by blast

text \<open>Object \<open>i\<close> may be added; nothing else changes.\<close>

definition adds_only :: "obj_id \<Rightarrow> store \<Rightarrow> store \<Rightarrow> bool" where
  "adds_only i s s' \<longleftrightarrow> only_at {i} s s' \<and> (s i \<noteq> None \<longrightarrow> s' i = s i)"

lemma adds_only_refl [simp]: "adds_only i s s"
  by (simp add: adds_only_def)

lemma creates_adds_only: "creates s ob s' ob' \<Longrightarrow> adds_only (id_of ob) s s'"
  by (simp add: adds_only_def creates_def only_at_def)

abbreviation namespace_id :: "string \<Rightarrow> obj_id" where
  "namespace_id ns \<equiv> (KNamespace, \<lparr>nn_Namespace = [], nn_Name = ns\<rparr>)"

text \<open>
  What \<open>upsert\<close> does to the local object when it returns no error: an object that is being deleted stays as it is, otherwise the object
  is a copy of the source afterwards.
\<close>

definition upserted :: "string \<Rightarrow> kobject \<Rightarrow> kobject option \<Rightarrow> kobject option \<Rightarrow> bool" where
  "upserted sid source old new \<longleftrightarrow>
     (case old of None \<Rightarrow> True | Some ob \<Rightarrow> managed sid ob) \<and>
     (if \<exists>ob. old = Some ob \<and> om_DeletionTimestamp (obj_meta ob) \<noteq> None then new = old
      else \<exists>ob. new = Some ob \<and> om_DeletionTimestamp (obj_meta ob) = None \<and> content ob = label_source sid (content source))"

text \<open>
  What \<open>deleteMirror\<close> does: a mirror is removed, or marked as being deleted when it has finalizers; any other object stays.
\<close>

definition unmirrored :: "string \<Rightarrow> kobject option \<Rightarrow> kobject option \<Rightarrow> bool" where
  "unmirrored sid old new \<longleftrightarrow> (case old of
     None \<Rightarrow> new = None
   | Some ob \<Rightarrow> if \<not> managed sid ob then new = old
       else if om_Finalizers (obj_meta ob) = [] then new = None
       else \<exists>ob'. new = Some ob' \<and> core ob' = core ob \<and> om_DeletionTimestamp (obj_meta ob') \<noteq> None)"

text \<open>The local object is a copy of the source, or it is a mirror that is being deleted.\<close>

definition mirrors :: "string \<Rightarrow> kobject \<Rightarrow> kobject option \<Rightarrow> bool" where
  "mirrors sid source x \<longleftrightarrow> (\<exists>ob. x = Some ob \<and> managed sid ob \<and>
     (content ob = label_source sid (content source) \<or> om_DeletionTimestamp (obj_meta ob) \<noteq> None))"

text \<open>There is no mirror, or it is being deleted.\<close>

definition no_mirror :: "string \<Rightarrow> kobject option \<Rightarrow> bool" where
  "no_mirror sid x \<longleftrightarrow> (\<forall>ob. x = Some ob \<longrightarrow> \<not> managed sid ob \<or> om_DeletionTimestamp (obj_meta ob) \<noteq> None)"

text \<open>An object that is not labelled with the source is not touched.\<close>

definition own_only :: "string \<Rightarrow> obj_id \<Rightarrow> store \<Rightarrow> store \<Rightarrow> bool" where
  "own_only sid i s s' \<longleftrightarrow> only_at {i} s s' \<and> (\<forall>ob. s i = Some ob \<and> \<not> managed sid ob \<longrightarrow> s' i = s i)"

lemma upserted_mirrors: "upserted sid source old new \<Longrightarrow> mirrors sid source new"
  unfolding upserted_def mirrors_def by (auto split: option.splits if_splits) (metis managed_content managed_label)+

lemma unmirrored_no_mirror: "unmirrored sid old new \<Longrightarrow> no_mirror sid new"
  unfolding unmirrored_def no_mirror_def by (auto split: option.splits if_splits)

lemma own_only_refl [simp]: "own_only sid i s s"
  by (simp add: own_only_def)

lemma own_only_fresh: "s i = None \<Longrightarrow> own_only sid i s s' \<longleftrightarrow> only_at {i} s s'"
  by (simp add: own_only_def)

lemma own_only_managed: "s i = Some ob \<Longrightarrow> managed sid ob \<Longrightarrow> own_only sid i s s' \<longleftrightarrow> only_at {i} s s'"
  by (simp add: own_only_def)

definition mirror_kinds :: "DownstreamReconciler \<Rightarrow> bool" where
  "mirror_kinds r \<longleftrightarrow> (\<forall>(name, k) \<in> set (dr_kinds r). k \<in> mirrored_kinds)"

definition watched :: "DownstreamReconciler \<Rightarrow> downstreamQueueKey \<Rightarrow> bool" where
  "watched r q \<longleftrightarrow> dr_TargetNamespace r = [] \<or> nn_Namespace (qk_Key q) = dr_TargetNamespace r"

text \<open>
  What a call for a key may change: the namespace of the key may be added, and the object of the
  key changes only if there is none or it is labelled with the source.
\<close>

definition mirror_frame :: "DownstreamReconciler \<Rightarrow> downstreamQueueKey \<Rightarrow> store \<Rightarrow> store \<Rightarrow> bool" where
  "mirror_frame r q s s' \<longleftrightarrow> (\<forall>i. s' i = s i \<or> watched r q \<and>
     (i = namespace_id (nn_Namespace (qk_Key q)) \<and> s i = None \<or>
      (\<exists>k. map_of (dr_kinds r) (qk_Kind q) = Some k \<and> i = (k, qk_Key q) \<and>
         (case s i of None \<Rightarrow> True | Some ob \<Rightarrow> managed (dr_SourceID r) ob))))"

text \<open>What a call without error does to the object of its key\<close>

definition mirror_result ::
  "(kind \<Rightarrow> NamespacedName \<Rightarrow> apierr + kobject) \<Rightarrow> DownstreamReconciler \<Rightarrow> downstreamQueueKey \<Rightarrow> store \<Rightarrow> store \<Rightarrow> bool" where
  "mirror_result up r q s s' \<longleftrightarrow> (\<exists>k. map_of (dr_kinds r) (qk_Kind q) = Some k \<and>
     (case up k (qk_Key q) of
        Inr source \<Rightarrow> upserted (dr_SourceID r) source (s (k, qk_Key q)) (s' (k, qk_Key q))
      | Inl err \<Rightarrow> err = NotFound \<and> unmirrored (dr_SourceID r) (s (k, qk_Key q)) (s' (k, qk_Key q))))"

text \<open>
  The state that it leaves, seen without the one before: the local object mirrors the source, or there is no mirror when the source is
  gone; a mirror that is being deleted is in order in both cases.
\<close>

definition mirror_done ::
  "(kind \<Rightarrow> NamespacedName \<Rightarrow> apierr + kobject) \<Rightarrow> DownstreamReconciler \<Rightarrow> downstreamQueueKey \<Rightarrow> store \<Rightarrow> bool" where
  "mirror_done up r q s \<longleftrightarrow> (\<exists>k. map_of (dr_kinds r) (qk_Kind q) = Some k \<and>
     (case up k (qk_Key q) of
        Inr source \<Rightarrow> mirrors (dr_SourceID r) source (s (k, qk_Key q))
      | Inl err \<Rightarrow> err = NotFound \<and> no_mirror (dr_SourceID r) (s (k, qk_Key q))))"

lemma mirror_result_done: "mirror_result up r q s s' \<Longrightarrow> mirror_done up r q s'"
  unfolding mirror_result_def mirror_done_def using upserted_mirrors unmirrored_no_mirror
  by (elim exE conjE) (rule exI, auto split: sum.splits)

lemma mirror_frame_refl [simp]: "mirror_frame r q s s"
  by (simp add: mirror_frame_def)

lemma mirror_frameI:
  assumes "map_of (dr_kinds r) (qk_Kind q) = Some k" "watched r q" "k \<in> mirrored_kinds"
    and "adds_only (namespace_id (nn_Namespace (qk_Key q))) s s'" "own_only (dr_SourceID r) (k, qk_Key q) s' s''"
  shows "mirror_frame r q s s''"
proof -
  let ?n = "namespace_id (nn_Namespace (qk_Key q))"
  have ne: "(k, qk_Key q) \<noteq> ?n" using assms(3) by (auto simp: mirrored_kinds_def)
  have "s'' i = s i \<or> i = ?n \<and> s i = None \<or> i = (k, qk_Key q) \<and> (case s i of None \<Rightarrow> True | Some ob \<Rightarrow> managed (dr_SourceID r) ob)" for i
  proof (cases "i = (k, qk_Key q)")
    case True
    then have "s' i = s i" using assms(4) ne only_at_other unfolding adds_only_def by blast
    with True assms(5) show ?thesis by (cases "s i") (auto simp: own_only_def)
  next
    case False
    then have "s'' i = s' i" using assms(5) only_at_other unfolding own_only_def by blast
    moreover have "s i = None \<or> s' i = s i" if "i = ?n" using assms(4) that unfolding adds_only_def by blast
    moreover have "s' i = s i" if "i \<noteq> ?n"
      by (rule only_at_other [OF _ that]) (use assms(4) in \<open>simp add: adds_only_def\<close>)
    ultimately show ?thesis by auto
  qed
  with assms(1,2) show ?thesis unfolding mirror_frame_def by blast
qed

context api_server
begin

lemma ensureNamespace_wp:
  "wp (ensureNamespace c namespaces ns) (\<lambda>_ w'. adds_only (namespace_id ns) (st w) (st w')) w"
proof -
  have "adds_only (namespace_id ns) (st w) (st w')"
    if "creates (st w) (ONamespace \<lparr>ns_Meta = new_ObjectMeta ns []\<rparr>) (st w') ob" for w' ob
    using creates_adds_only [OF that] by (simp add: id_of_def key_of_def new_ObjectMeta_def)
  then show ?thesis unfolding ensureNamespace_def by (intro wp) auto
qed

lemma upsert_wp:
  assumes "mirrored source" and "id_of source = (k, key)"
  shows "wp (upsert c r k source) (\<lambda>e w'. own_only (dr_SourceID r) (k, key) (st w) (st w') \<and>
    (e = None \<longrightarrow> upserted (dr_SourceID r) source (st w (k, key)) (st w' (k, key)))) w"
proof -
  let ?d = "desired_mirror (dr_SourceID r) source"
  have key: "key_of (obj_meta source) = key" "kind_of source = k" using assms(2) by (simp_all add: id_of_def)
  have new: "own_only (dr_SourceID r) (k, key) (st w) (st w') \<and> upserted (dr_SourceID r) source (st w (k, key)) (st w' (k, key))"
    if "creates (st w) ?d (st w') ob" for w' ob
  proof -
    have "content ob = label_source (dr_SourceID r) (content source)" "st w' (k, key) = Some ob" "st w (k, key) = None"
      "om_DeletionTimestamp (obj_meta ob) = None"
      using that content_core [of ob ?d] content_desired [OF assms(1)] assms(2) by (auto simp: creates_def)
    then show ?thesis
      using writes_only_at(1) [OF that(1)] assms(2) by (auto simp: upserted_def own_only_fresh)
  qed
  have old: "own_only (dr_SourceID r) (k, key) (st w) (st w') \<and> upserted (dr_SourceID r) source (st w (k, key)) (st w' (k, key))"
    if "updates (st w) d (st w') ob" and d: "copyLocalStatus (adopt_metadata current ?d) current = Some d"
      and cur: "st w (k, key) = Some current" "id_of current = (k, key)" "managed (dr_SourceID r) current"
      "om_DeletionTimestamp (obj_meta current) = None" for w' ob d current
  proof -
    have "kind_of current = kind_of source" using cur(2) key by (simp add: id_of_def)
    from copyLocalStatus_desired [OF this, of "dr_SourceID r"] d
    have d': "id_of d = (k, key)" "content d = content ?d" using assms(2) by auto
    from that(1) cur d' have "core ob = core d" "st w' (k, key) = Some ob" "om_DeletionTimestamp (obj_meta ob) = None"
      by (auto simp: updates_def same_identity_def)
    moreover from this(1) have "content ob = label_source (dr_SourceID r) (content source)"
      using content_core d'(2) content_desired [OF assms(1)] by metis
    ultimately show ?thesis
      using writes_only_at(2) [OF that(1)] d'(1) cur by (auto simp: upserted_def own_only_managed [of _ _ current])
  qed
  have same: "content current = label_source (dr_SourceID r) (content source)"
    if "copyLocalStatus (adopt_metadata current ?d) current = Some current" "id_of current = (k, key)" for current
  proof -
    have "kind_of current = kind_of source" using that(2) key by (simp add: id_of_def)
    from copyLocalStatus_desired [OF this, of "dr_SourceID r"] that content_desired [OF assms(1)]
    show ?thesis by auto
  qed
  show ?thesis
    unfolding upsert_def key Let_def
  proof (intro wp, goal_cases)
    case (2 x w1 err y w2)
    then show ?case using new [of w2] by (auto simp: local_error_def write_error_def split: sum.split)
  next
    case (7 x w1 current d y w2)
    then have "copyLocalStatus (adopt_metadata current ?d) current = Some d" "st w (k, key) = Some current"
      "id_of current = (k, key)" "managed (dr_SourceID r) current" "om_DeletionTimestamp (obj_meta current) = None"
      by simp_all
    from old [of d w2, OF _ this] 7 show ?case
      by (auto simp: local_error_def write_error_def split: sum.split)
  qed (auto simp: upserted_def intro: same)
qed

lemma deleteMirror_wp:
  "wp (deleteMirror c r k key) (\<lambda>e w'. own_only (dr_SourceID r) (k, key) (st w) (st w') \<and>
     (e = None \<longrightarrow> unmirrored (dr_SourceID r) (st w (k, key)) (st w' (k, key)))) w"
proof -
  have del: "own_only (dr_SourceID r) (k, key) (st w) (st w') \<and> unmirrored (dr_SourceID r) (st w (k, key)) (st w' (k, key))"
    if "deletes (st w) ob (st w')" "st w (k, key) = Some ob" "id_of ob = (k, key)" "managed (dr_SourceID r) ob" for w' ob
    using that writes_only_at(4) [OF that(1)] own_only_managed [of "st w" "(k, key)" ob]
    by (auto simp: deletes_def unmirrored_def split: if_splits)
  show ?thesis
    unfolding deleteMirror_def
  proof (intro wp, goal_cases)
    case (1 x w1 err)
    then show ?case by (cases err) (auto simp: unmirrored_def)
  next
    case (3 x w1 current y w2)
    then show ?case using del [of current w2] by (cases y) (auto simp: write_error_def)
  next
    case (4 x w1 current y w2 err)
    then show ?case using del [of current w2] by (cases y) (auto simp: write_error_def)
  qed (auto simp: unmirrored_def)
qed

text \<open>
  The upstream reader answers with the object it is asked for, and no kind of the mirror is the
  namespace kind. \<open>watched\<close>: the key is in the target namespace, if there is one.
\<close>

lemma reconcileKey_wp:
  assumes "\<And>k key ob. up k key = Inr ob \<Longrightarrow> id_of ob = (k, key)" and kinds: "mirror_kinds r"
  shows "wp (reconcileKey c up r namespaces q) (\<lambda>(e, _) w'.
    mirror_frame r q (st w) (st w') \<and> (e = None \<and> watched r q \<longrightarrow> mirror_result up r q (st w) (st w'))) w"
  unfolding reconcileKey_def
proof (intro wp_if wp_option wp_sum wp_bind wp_return, goal_cases)
  case (4 k err)
  have k: "k \<in> mirrored_kinds" using kinds map_of_SomeD [OF 4(2)] by (auto simp: mirror_kinds_def)
  have w: "watched r q" using 4(1) by (auto simp: watched_def)
  show ?case
    by (rule wp_mono [OF deleteMirror_wp], rule wp_return)
      (use 4 mirror_frameI [OF 4(2) w k adds_only_refl] in \<open>auto simp: mirror_result_def\<close>)
next
  case (5 k source)
  have id: "id_of source = (k, qk_Key q)" using assms(1) 5 by simp
  then have ns: "GetNamespace source = nn_Namespace (qk_Key q)" by (metis Pair_inject id_of_def key_of_def NamespacedName.select_convs(1))
  have k: "k \<in> mirrored_kinds" using kinds map_of_SomeD [OF 5(2)] by (auto simp: mirror_kinds_def)
  then have m: "mirrored source" using id by (simp add: mirrored_def id_of_def)
  have w: "watched r q" using 5(1) by (auto simp: watched_def)
  have frame: "mirror_frame r q (st w) (st w'')" if "adds_only (namespace_id (nn_Namespace (qk_Key q))) (st w) (st w')"
    "own_only (dr_SourceID r) (k, qk_Key q) (st w') (st w'')" for w' w''
    by (rule mirror_frameI [OF 5(2) w k that])
  show ?case
    unfolding ns
  proof (rule wp_mono [OF ensureNamespace_wp], intro wp, goal_cases)
    case (1 x w1 a b)
    note added = 1(1)
    have "(k, qk_Key q) \<noteq> namespace_id (nn_Namespace (qk_Key q))" using k by (auto simp: mirrored_kinds_def)
    then have same: "st w1 (k, qk_Key q) = st w (k, qk_Key q)" using added only_at_other unfolding adds_only_def by blast
    show ?case
      by (rule wp_mono [OF upsert_wp [OF m id]], intro wp) (use added frame same 5 in \<open>auto simp: mirror_result_def\<close>)
  next
    case (2 x w1 a b err)
    then show ?case using frame by simp
  qed
qed (auto simp: watched_def)

end

section \<open>The pages of the mirrors\<close>

text \<open>The pages of a list call that ends: the items of the chain of pages that starts with a token\<close>

inductive pages :: "(string \<Rightarrow> apierr + kobject list \<times> string) \<Rightarrow> string \<Rightarrow> kobject list \<Rightarrow> bool" for page where
  last_page: "page token = Inr (items, []) \<Longrightarrow> pages page token items"
| next_page: "page token = Inr (items, next) \<Longrightarrow> next \<noteq> [] \<Longrightarrow> pages page next rest \<Longrightarrow> pages page token (items @ rest)"

lemma map_filter_append [simp]: "List.map_filter f (xs @ ys) = List.map_filter f xs @ List.map_filter f ys"
  by (simp add: List.map_filter_def)

lemma list_mirrors_pages:
  "pages page token items \<Longrightarrow>
   list_mirrors r name page token keys = Some (None, keys @ List.map_filter (\<lambda>x. enqueueObject r name (CObject x)) items)"
  by (induction arbitrary: keys rule: pages.induct) (simp_all add: list_mirrors.simps [of r name page] Let_def)

abbreviation source_label :: "DownstreamReconciler \<Rightarrow> strmap" where
  "source_label r \<equiv> fmupd DownstreamManagedLabel (dr_SourceID r) fmempty"

lemma existing_mirrors_pages:
  assumes "\<forall>(name, k) \<in> set kinds. pages (page k (dr_TargetNamespace r) (source_label r)) [] (items k)"
  shows "existing_mirrors page r kinds keys = Some (None, keys @ concat (map (\<lambda>(name, k).
    List.map_filter (\<lambda>x. enqueueObject r name (CObject x)) (items k)) kinds))"
  using assms
proof (induction page r kinds keys rule: existing_mirrors.induct)
  case (2 page r name k kinds keys)
  have "pages (page k (dr_TargetNamespace r) (source_label r)) [] (items k)" using 2(2) by simp
  from list_mirrors_pages [OF this] 2 show ?case by simp
qed simp

lemma enqueueObject_plain:
  "enqueueObject r name (CObject x) =
     (if dr_TargetNamespace r \<noteq> [] \<and> GetNamespace x \<noteq> dr_TargetNamespace r then None
      else Some \<lparr>qk_Kind = name, qk_Key = key_of (obj_meta x)\<rparr>)"
  by (simp add: enqueueObject_def)

lemma selects_source:
  assumes "sid \<noteq> []"
  shows "selects ns (fmupd DownstreamManagedLabel sid fmempty) ob \<longleftrightarrow>
    (ns = [] \<or> GetNamespace ob = ns) \<and> managed sid ob"
  using assms by (auto simp: selects_def managed_def list_all_iff split: option.split)

text \<open>Examples: a router that mirrors one location\<close>

definition mirror_source :: kobject where
  "mirror_source = OLocation (zero_Location\<lparr>loc_Meta := (new_ObjectMeta ''l'' ''team-a'')\<lparr>om_UID := ''u''\<rparr>\<rparr>)"

definition mirror_upstream :: "kind \<Rightarrow> NamespacedName \<Rightarrow> apierr + kobject" where
  "mirror_upstream k key = (if (k, key) = id_of mirror_source then Inr mirror_source else Inl NotFound)"

definition router_mirror :: DownstreamReconciler where
  "router_mirror = \<lparr>dr_TargetNamespace = [], dr_Target = ''router'', dr_SourceID = ''eu'', dr_Workers = 16,
     dr_kinds = [(''Location'', KLocation), (''HealthCheckProfile'', KHealthCheckProfile), (''Zone'', KZone),
       (''PrefixList'', KPrefixList), (''DNSEndpoint'', KDNSEndpoint)]\<rparr>"

definition mirror_key :: downstreamQueueKey where
  "mirror_key = \<lparr>qk_Kind = ''Location'', qk_Key = \<lparr>nn_Namespace = ''team-a'', nn_Name = ''l''\<rparr>\<rparr>"

definition mirror_world :: "kobject list" where
  "mirror_world = [desired_mirror ''eu'' mirror_source, ONamespace \<lparr>ns_Meta = new_ObjectMeta ''team-a'' []\<rparr>]"

lemma router_mirror_new:
  "NewDownstreamReconciler True ''router'' ''eu'' 0 = Inr (router_mirror\<lparr>dr_TargetNamespace := []\<rparr>)"
  "router_mirror = router_mirror\<lparr>dr_TargetNamespace := []\<rparr>"
  by (simp_all add: NewDownstreamReconciler_def downstreamResourceKinds_def DownstreamTargetRouter_def
      DownstreamWorkers_def router_mirror_def)

lemma mirror_run:
  "run_state (reconcileKey ref_client mirror_upstream router_mirror [] mirror_key) [] = ((None, [''team-a'']), mirror_world)"
  by code_simp

lemma mirror_upstream_id: "mirror_upstream k key = Inr ob \<Longrightarrow> id_of ob = (k, key)"
  by (simp add: mirror_upstream_def split: if_splits)

section \<open>Properties\<close>

text \<open>
  C5. The mirror touches only what is its own. Whatever the upstream cache and the API server answer,
  a call for a key changes at most the local object of that key, and that only if it did not exist or
  carries the label of this source, and adds at most the namespace of the key; for a key outside
  the target namespace or of an unknown kind it changes nothing.
\<close>

theorem downstream_touches_own_only:
  assumes "api_server c st" and "NewDownstreamReconciler True target sourceID workers = Inr r0"
    and "r = r0\<lparr>dr_TargetNamespace := ns\<rparr>"
    and "\<And>k key ob. up k key = Inr ob \<Longrightarrow> id_of ob = (k, key)"
    and "run_state (reconcileKey c up r namespaces q) w = ((err, namespaces'), w')"
  shows "mirror_frame r q (st w) (st w')"
proof -
  have "mirror_kinds r" using assms(2,3)
    by (auto simp: NewDownstreamReconciler_def downstreamResourceKinds_def mirror_kinds_def mirrored_kinds_def
        split: if_splits)
  from wp_run [OF api_server.reconcileKey_wp [OF assms(1,4) this] assms(5)] show ?thesis by simp
qed

theorem downstream_touches_own_only_witness:
  "mirror_frame router_mirror mirror_key (ref_st []) (ref_st mirror_world)"
  using downstream_touches_own_only [OF reference_server.api_server_axioms router_mirror_new(1) _ mirror_upstream_id mirror_run]
    router_mirror_new(2) by simp

text \<open>
  C29. A call without error does its work on the local object of its key. When the upstream cluster has the object, there was no local
  object or one with the label of the source; if that one is being deleted it is left as it is, so that there may be no copy when its deletion ends, and otherwise
  the local object is afterwards a copy (spec, labels and annotations, with the label of the source added and the defaults of the
  API filled in) that is not being deleted. When the upstream object is gone, a local object with the label of the source is removed, or marked as
  being deleted if it has finalizers; any other local object stays as it was.
\<close>

theorem downstream_mirrors:
  assumes "api_server c st" and "NewDownstreamReconciler True target sourceID workers = Inr r0"
    and "r = r0\<lparr>dr_TargetNamespace := ns\<rparr>"
    and "\<And>k key ob. up k key = Inr ob \<Longrightarrow> id_of ob = (k, key)"
    and "run_state (reconcileKey c up r namespaces q) w = ((None, namespaces'), w')"
    and "ns = [] \<or> nn_Namespace (qk_Key q) = ns"
  shows "\<exists>k. map_of (dr_kinds r) (qk_Kind q) = Some k \<and>
    (case up k (qk_Key q) of
       Inr source \<Rightarrow> upserted sourceID source (st w (k, qk_Key q)) (st w' (k, qk_Key q))
     | Inl err \<Rightarrow> err = NotFound \<and> unmirrored sourceID (st w (k, qk_Key q)) (st w' (k, qk_Key q)))"
proof -
  have r: "mirror_kinds r" "dr_SourceID r = sourceID" using assms(2,3)
    by (auto simp: NewDownstreamReconciler_def downstreamResourceKinds_def mirror_kinds_def mirrored_kinds_def
        split: if_splits)
  have "mirror_result up r q (st w) (st w')"
    using wp_run [OF api_server.reconcileKey_wp [OF assms(1,4) r(1)] assms(5)] assms(3,6) by (simp add: watched_def)
  then show ?thesis unfolding mirror_result_def r(2) .
qed

theorem downstream_mirrors_witness:
  "\<exists>ob. ref_st mirror_world (id_of mirror_source) = Some ob \<and> content ob = label_source ''eu'' (content mirror_source)"
proof -
  have facts: "map_of (dr_kinds router_mirror) (qk_Kind mirror_key) = Some KLocation"
    "mirror_upstream KLocation (qk_Key mirror_key) = Inr mirror_source" "id_of mirror_source = (KLocation, qk_Key mirror_key)"
    by code_simp+
  from downstream_mirrors [OF reference_server.api_server_axioms router_mirror_new(1) _ mirror_upstream_id mirror_run]
  have "upserted ''eu'' mirror_source (ref_st [] (KLocation, qk_Key mirror_key)) (ref_st mirror_world (KLocation, qk_Key mirror_key))"
    using router_mirror_new(2) facts by simp
  then show ?thesis unfolding facts(3) by (auto simp: upserted_def ref_st_def)
qed

text \<open>
  No update is lost: for mirrored kinds in the watched namespace the handler drops an update event
  exactly when nothing but the status, the server's metadata, the owners and the finalizers changed,
  and then the copy that \<open>upsert\<close> wants is the same.
\<close>

theorem update_event_dropped_iff:
  assumes "mirrored old" "mirrored new" and "dr_TargetNamespace r = [] \<or> GetNamespace new = dr_TargetNamespace r"
  shows "(UpdateFunc r name (CObject old) (CObject new) = None \<longleftrightarrow> payload old = payload new) \<and>
    (payload old = payload new \<longrightarrow> desired_mirror sid old = desired_mirror sid new)"
  using assms
  by (auto simp: UpdateFunc_def enqueueObject_plain downstreamSourceEqual_def desired_mirror_def empty_is_payload)

text \<open>
  C30. Existing mirrors are found again at the start: when the pages of the local lists end, the loop
  over the continue tokens returns, and it enqueues exactly the keys of the local objects of the mirrored kinds
  that carry the label of the source (in the target namespace, if there is one).
\<close>

theorem existing_mirrors_enqueued:
  assumes "NewDownstreamReconciler True target sourceID workers = Inr r0" and "r = r0\<lparr>dr_TargetNamespace := ns\<rparr>"
    and "\<forall>(name, k) \<in> set (dr_kinds r). pages (page k ns (source_label r)) [] (items k) \<and>
      set (items k) = {ob. s (id_of ob) = Some ob \<and> kind_of ob = k \<and> selects ns (source_label r) ob}"
  shows "\<exists>keys. enqueueExistingMirrors page r = Some (None, keys) \<and>
    set keys = {\<lparr>qk_Kind = name, qk_Key = key_of (obj_meta ob)\<rparr> | name k ob. (name, k) \<in> set (dr_kinds r) \<and>
      s (id_of ob) = Some ob \<and> kind_of ob = k \<and> managed sourceID ob \<and> (ns = [] \<or> GetNamespace ob = ns)}"
proof -
  let ?ks = "concat (map (\<lambda>(name, k). List.map_filter (\<lambda>x. enqueueObject r name (CObject x)) (items k)) (dr_kinds r))"
  have r: "dr_TargetNamespace r = ns" "dr_SourceID r = sourceID" "sourceID \<noteq> []"
    using assms(1,2) by (auto simp: NewDownstreamReconciler_def split: sum.splits if_splits)
  have "enqueueExistingMirrors page r = Some (None, ?ks)"
    unfolding enqueueExistingMirrors_def
    by (subst existing_mirrors_pages [where items = items]) (use assms(3) r in auto)
  moreover have "q \<in> set ?ks \<longleftrightarrow> (\<exists>name k ob. q = \<lparr>qk_Kind = name, qk_Key = key_of (obj_meta ob)\<rparr> \<and> (name, k) \<in> set (dr_kinds r) \<and>
      s (id_of ob) = Some ob \<and> kind_of ob = k \<and> managed sourceID ob \<and> (ns = [] \<or> GetNamespace ob = ns))" for q
  proof -
    have "set (items k) = {ob. s (id_of ob) = Some ob \<and> kind_of ob = k \<and> (ns = [] \<or> GetNamespace ob = ns) \<and> managed sourceID ob}"
      if "(name, k) \<in> set (dr_kinds r)" for name k
      using assms(3) that selects_source [OF r(3)] unfolding r by fastforce
    then show ?thesis
      by (fastforce simp: set_map_filter enqueueObject_plain r)
  qed
  ultimately show ?thesis by blast
qed

definition mirror_pages :: "kind \<Rightarrow> string \<Rightarrow> strmap \<Rightarrow> string \<Rightarrow> apierr + kobject list \<times> string" where
  "mirror_pages k ns labels token =
     (if k \<noteq> KLocation then Inr ([], [])
      else if token = [] then Inr ([], ''1'') else Inr ([desired_mirror ''eu'' mirror_source], []))"

lemma mirror_pages_end:
  "pages (mirror_pages k ns labels) [] (if k = KLocation then [desired_mirror ''eu'' mirror_source] else [])"
proof (cases "k = KLocation")
  case True
  have "pages (mirror_pages k ns labels) ''1'' [desired_mirror ''eu'' mirror_source]"
    by (rule last_page) (simp add: mirror_pages_def True)
  from next_page [OF _ _ this, of "[]" "[]"] True show ?thesis by (simp add: mirror_pages_def)
qed (simp add: last_page mirror_pages_def)

theorem existing_mirrors_enqueued_witness:
  "\<exists>keys. enqueueExistingMirrors mirror_pages router_mirror = Some (None, keys) \<and> mirror_key \<in> set keys"
proof -
  let ?d = "desired_mirror ''eu'' mirror_source"
  let ?items = "\<lambda>k. if k = KLocation then [?d] else []"
  let ?s = "Map.empty(id_of ?d \<mapsto> ?d)"
  have d: "kind_of ?d = KLocation" "managed ''eu'' ?d" "dr_TargetNamespace router_mirror = []"
    "dr_SourceID router_mirror = ''eu''" "key_of (obj_meta ?d) = qk_Key mirror_key" by code_simp+
  have "set (?items k) = {ob. ?s (id_of ob) = Some ob \<and> kind_of ob = k \<and> selects [] (source_label router_mirror) ob}" for k
    using d by (auto simp: selects_source d(4) split: if_splits)
  then have "\<forall>(name, k) \<in> set (dr_kinds router_mirror). pages (mirror_pages k [] (source_label router_mirror)) [] (?items k) \<and>
      set (?items k) = {ob. ?s (id_of ob) = Some ob \<and> kind_of ob = k \<and> selects [] (source_label router_mirror) ob}"
    using mirror_pages_end by fastforce
  from existing_mirrors_enqueued [where ns = "[]" and page = mirror_pages and items = ?items and s = ?s,
      OF router_mirror_new(1) _ this] router_mirror_new(2) obtain keys where
    keys: "enqueueExistingMirrors mirror_pages router_mirror = Some (None, keys)"
    "set keys = {\<lparr>qk_Kind = name, qk_Key = key_of (obj_meta ob)\<rparr> | name k ob. (name, k) \<in> set (dr_kinds router_mirror) \<and>
      ?s (id_of ob) = Some ob \<and> kind_of ob = k \<and> managed ''eu'' ob \<and> ([] = [] \<or> GetNamespace ob = [])}" by auto
  have "mirror_key = \<lparr>qk_Kind = ''Location'', qk_Key = key_of (obj_meta ?d)\<rparr>" "(''Location'', KLocation) \<in> set (dr_kinds router_mirror)"
    unfolding d(5) by (simp_all add: mirror_key_def router_mirror_def)
  then have "mirror_key \<in> set keys" unfolding keys(2) using d by fastforce
  with keys(1) show ?thesis by blast
qed

text \<open>
  The comparison before an update never saves one on a server that records field managers: if the
  local mirror has managed fields, \<open>upsert\<close> updates it, also when nothing differs.
\<close>

theorem upsert_always_updates:
  assumes "run_state (c_get c k (key_of (obj_meta source))) w = (Inr current, w1)"
    and "kind_of current = kind_of source" "managed (dr_SourceID r) current"
    and "om_DeletionTimestamp (obj_meta current) = None" and "om_ManagedFields (obj_meta current) \<noteq> []"
  shows "\<exists>d x w2. run_state (c_update c d) w1 = (x, w2) \<and> run_state (upsert c r k source) w = (local_error x, w2)"
proof -
  from copyLocalStatus_desired [OF assms(2), of "dr_SourceID r"] obtain d where
    d: "copyLocalStatus (adopt_metadata current (desired_mirror (dr_SourceID r) source)) current = Some d"
    "om_ManagedFields (obj_meta d) = []" by auto
  then have "current \<noteq> d" using assms(5) by auto
  moreover obtain x w2 where "run_state (c_update c d) w1 = (x, w2)" by fastforce
  ultimately show ?thesis
    using assms(1,3,4) d(1) by (auto simp: upsert_def run_state_bind Let_def)
qed

end
