(* ===== verification/Work_Queue.thy ===== *)
theory Work_Queue
  imports Main
begin

text \<open>
  The rate-limiting work queue of client-go (\<open>workqueue.TypedRateLimitingInterface\<close>) that the
  downstream reconciler uses, as a record of its operations, and what its documentation promises as
  a locale. A key that is added while a worker has it is handed out again after \<open>Done\<close>, a key that is
  added twice is handed out once, and a key that is added with a delay is not lost. \<open>q_Get\<close> is
  \<open>None\<close> where the call blocks; \<open>q_Elapse\<close> lists what the queue may become as time passes.
\<close>

datatype 'k queue_item = Item 'k | ShuttingDown

record ('k, 'q) workqueue =
  q_Add :: "'k \<Rightarrow> 'q \<Rightarrow> 'q"
  q_Get :: "'q \<Rightarrow> ('k queue_item \<times> 'q) option"
  q_Done :: "'k \<Rightarrow> 'q \<Rightarrow> 'q"
  q_AddRateLimited :: "'k \<Rightarrow> 'q \<Rightarrow> 'q"
  q_Forget :: "'k \<Rightarrow> 'q \<Rightarrow> 'q"
  q_ShutDown :: "'q \<Rightarrow> 'q"
  q_Elapse :: "'q \<Rightarrow> 'q list"

text \<open>
  \<open>waiting q\<close>: the keys that will be handed out, now, after \<open>Done\<close> or after a delay; \<open>processing q\<close>: the
  keys that are handed out; \<open>closed q\<close>: the queue is shut down; \<open>ok\<close>: the states it can be in.
\<close>

locale work_queue =
  fixes Q :: "('k, 'q) workqueue" and ok :: "'q \<Rightarrow> bool" and waiting processing :: "'q \<Rightarrow> 'k set"
    and closed :: "'q \<Rightarrow> bool"
  assumes Add_law: "ok q \<Longrightarrow> ok (q_Add Q k q) \<and> processing (q_Add Q k q) = processing q \<and>
      closed (q_Add Q k q) = closed q \<and> (\<not> closed q \<longrightarrow> waiting (q_Add Q k q) = insert k (waiting q))"
    and AddRateLimited_law: "ok q \<Longrightarrow> ok (q_AddRateLimited Q k q) \<and> processing (q_AddRateLimited Q k q) = processing q \<and>
      closed (q_AddRateLimited Q k q) = closed q \<and>
      (\<not> closed q \<longrightarrow> waiting (q_AddRateLimited Q k q) = insert k (waiting q))"
    and Get_item: "ok q \<Longrightarrow> q_Get Q q = Some (Item k, q') \<Longrightarrow> ok q' \<and> k \<in> waiting q \<and> k \<notin> processing q \<and>
      processing q' = insert k (processing q) \<and> waiting q - {k} \<subseteq> waiting q' \<and> waiting q' \<subseteq> waiting q \<and> closed q' = closed q"
    and Get_shutdown: "ok q \<Longrightarrow> q_Get Q q = Some (ShuttingDown, q') \<Longrightarrow> q' = q \<and> closed q"
    and Done_law: "ok q \<Longrightarrow> ok (q_Done Q k q) \<and> waiting (q_Done Q k q) = waiting q \<and>
      processing (q_Done Q k q) = processing q - {k} \<and> closed (q_Done Q k q) = closed q"
    and Forget_law: "ok q \<Longrightarrow> ok (q_Forget Q k q) \<and> waiting (q_Forget Q k q) = waiting q \<and>
      processing (q_Forget Q k q) = processing q \<and> closed (q_Forget Q k q) = closed q"
    and ShutDown_law: "ok q \<Longrightarrow> ok (q_ShutDown Q q) \<and> processing (q_ShutDown Q q) = processing q \<and> closed (q_ShutDown Q q)"
    and Elapse_law: "ok q \<Longrightarrow> q' \<in> set (q_Elapse Q q) \<Longrightarrow> ok q' \<and> processing q' = processing q \<and> closed q' = closed q \<and>
      (\<not> closed q \<longrightarrow> waiting q' = waiting q)"
begin

lemma Add_all:
  assumes "ok q"
  shows "ok (fold (q_Add Q) ks q) \<and> processing (fold (q_Add Q) ks q) = processing q \<and>
    closed (fold (q_Add Q) ks q) = closed q \<and> (\<not> closed q \<longrightarrow> waiting (fold (q_Add Q) ks q) = set ks \<union> waiting q)"
  using assms by (induction ks arbitrary: q) (auto simp: Add_law)

end

section \<open>A reference queue\<close>

text \<open>The keys to hand out in order, the dirty keys, the keys in process and the delayed keys\<close>

record 'k ref_queue =
  rq_queue :: "'k list"
  rq_dirty :: "'k list"
  rq_processing :: "'k list"
  rq_delayed :: "'k list"
  rq_closed :: bool

definition ref_Add :: "'k \<Rightarrow> 'k ref_queue \<Rightarrow> 'k ref_queue" where
  "ref_Add k q =
     (if rq_closed q \<or> k \<in> set (rq_dirty q) then q
      else q\<lparr>rq_dirty := k # rq_dirty q,
        rq_queue := (if k \<in> set (rq_processing q) then rq_queue q else rq_queue q @ [k])\<rparr>)"

definition ref_Get :: "'k ref_queue \<Rightarrow> ('k queue_item \<times> 'k ref_queue) option" where
  "ref_Get q = (case rq_queue q of
     [] \<Rightarrow> if rq_closed q then Some (ShuttingDown, q) else None
   | k # ks \<Rightarrow> Some (Item k, q\<lparr>rq_queue := ks, rq_dirty := removeAll k (rq_dirty q), rq_processing := k # rq_processing q\<rparr>))"

definition ref_Done :: "'k \<Rightarrow> 'k ref_queue \<Rightarrow> 'k ref_queue" where
  "ref_Done k q = q\<lparr>rq_processing := removeAll k (rq_processing q),
     rq_queue := (if k \<in> set (rq_dirty q) \<and> k \<notin> set (rq_queue q) then rq_queue q @ [k] else rq_queue q)\<rparr>"

definition ref_AddRateLimited :: "'k \<Rightarrow> 'k ref_queue \<Rightarrow> 'k ref_queue" where
  "ref_AddRateLimited k q = (if rq_closed q then q else q\<lparr>rq_delayed := rq_delayed q @ [k]\<rparr>)"

definition ref_Elapse :: "'k ref_queue \<Rightarrow> 'k ref_queue list" where
  "ref_Elapse q = map (\<lambda>k. (ref_Add k q)\<lparr>rq_delayed := removeAll k (rq_delayed q)\<rparr>) (rq_delayed q)"

definition ref_workqueue :: "('k, 'k ref_queue) workqueue" where
  "ref_workqueue = \<lparr>q_Add = ref_Add, q_Get = ref_Get, q_Done = ref_Done, q_AddRateLimited = ref_AddRateLimited,
     q_Forget = (\<lambda>k q. q), q_ShutDown = (\<lambda>q. q\<lparr>rq_closed := True\<rparr>), q_Elapse = ref_Elapse\<rparr>"

definition empty_queue :: "'k ref_queue" where
  "empty_queue = \<lparr>rq_queue = [], rq_dirty = [], rq_processing = [], rq_delayed = [], rq_closed = False\<rparr>"

definition ref_ok :: "'k ref_queue \<Rightarrow> bool" where
  "ref_ok q \<longleftrightarrow> distinct (rq_queue q) \<and> set (rq_queue q) = set (rq_dirty q) - set (rq_processing q)"

definition ref_waiting :: "'k ref_queue \<Rightarrow> 'k set" where
  "ref_waiting q = set (rq_dirty q) \<union> set (rq_delayed q)"

definition ref_processing :: "'k ref_queue \<Rightarrow> 'k set" where
  "ref_processing q = set (rq_processing q)"

interpretation ref_workqueue: work_queue ref_workqueue ref_ok ref_waiting ref_processing rq_closed
proof
  fix q q' :: "'k ref_queue" and k
  assume ok: "ref_ok q"
  note defs = ref_workqueue_def ref_ok_def ref_waiting_def ref_processing_def
  show "ref_ok (q_Add ref_workqueue k q) \<and> ref_processing (q_Add ref_workqueue k q) = ref_processing q \<and>
      rq_closed (q_Add ref_workqueue k q) = rq_closed q \<and>
      (\<not> rq_closed q \<longrightarrow> ref_waiting (q_Add ref_workqueue k q) = insert k (ref_waiting q))"
    using ok by (auto simp: defs ref_Add_def)
  show "ref_ok (q_AddRateLimited ref_workqueue k q) \<and> ref_processing (q_AddRateLimited ref_workqueue k q) = ref_processing q \<and>
      rq_closed (q_AddRateLimited ref_workqueue k q) = rq_closed q \<and>
      (\<not> rq_closed q \<longrightarrow> ref_waiting (q_AddRateLimited ref_workqueue k q) = insert k (ref_waiting q))"
    using ok by (auto simp: defs ref_AddRateLimited_def)
  show "ref_ok (q_Done ref_workqueue k q) \<and> ref_waiting (q_Done ref_workqueue k q) = ref_waiting q \<and>
      ref_processing (q_Done ref_workqueue k q) = ref_processing q - {k} \<and> rq_closed (q_Done ref_workqueue k q) = rq_closed q"
    using ok by (auto simp: defs ref_Done_def)
  show "ref_ok (q_Forget ref_workqueue k q) \<and> ref_waiting (q_Forget ref_workqueue k q) = ref_waiting q \<and>
      ref_processing (q_Forget ref_workqueue k q) = ref_processing q \<and> rq_closed (q_Forget ref_workqueue k q) = rq_closed q"
    using ok by (simp add: defs)
  show "ref_ok (q_ShutDown ref_workqueue q) \<and> ref_processing (q_ShutDown ref_workqueue q) = ref_processing q \<and>
      rq_closed (q_ShutDown ref_workqueue q)"
    using ok by (simp add: defs)
  show "ref_ok q' \<and> k \<in> ref_waiting q \<and> k \<notin> ref_processing q \<and>
      ref_processing q' = insert k (ref_processing q) \<and> ref_waiting q - {k} \<subseteq> ref_waiting q' \<and>
      ref_waiting q' \<subseteq> ref_waiting q \<and> rq_closed q' = rq_closed q"
    if get: "q_Get ref_workqueue q = Some (Item k, q')"
  proof -
    from get obtain ks where q: "rq_queue q = k # ks" and q': "q' = q\<lparr>rq_queue := ks, rq_dirty := removeAll k (rq_dirty q),
        rq_processing := k # rq_processing q\<rparr>"
      by (auto simp: ref_workqueue_def ref_Get_def split: list.splits if_splits)
    have ks: "k \<notin> set ks" "distinct ks" "insert k (set ks) = set (rq_dirty q) - set (rq_processing q)"
      using ok q by (simp_all add: ref_ok_def)
    then have "set ks = set (rq_dirty q) - {k} - insert k (set (rq_processing q))" "k \<in> set (rq_dirty q)" "k \<notin> set (rq_processing q)"
      by blast+
    then show ?thesis using ks(2) by (auto simp: q' ref_ok_def ref_waiting_def ref_processing_def)
  qed
  show "q_Get ref_workqueue q = Some (ShuttingDown, q') \<Longrightarrow> q' = q \<and> rq_closed q"
    by (auto simp: defs ref_Get_def split: list.splits if_splits)
  have delayed: "ref_ok (x\<lparr>rq_delayed := ks\<rparr>) = ref_ok x" "ref_processing (x\<lparr>rq_delayed := ks\<rparr>) = ref_processing x"
    for x :: "'k ref_queue" and ks by (simp_all add: defs)
  have add: "ref_ok (ref_Add j q)" "ref_processing (ref_Add j q) = ref_processing q" "rq_closed (ref_Add j q) = rq_closed q"
    "\<not> rq_closed q \<Longrightarrow> set (rq_dirty (ref_Add j q)) = insert j (set (rq_dirty q))" for j
    using ok by (auto simp: defs ref_Add_def)
  show "q' \<in> set (q_Elapse ref_workqueue q) \<Longrightarrow> ref_ok q' \<and> ref_processing q' = ref_processing q \<and>
      rq_closed q' = rq_closed q \<and> (\<not> rq_closed q \<longrightarrow> ref_waiting q' = ref_waiting q)"
    by (auto simp: ref_workqueue_def ref_Elapse_def delayed add ref_waiting_def)
qed

lemma empty_queue_laws [simp]:
  "ref_ok empty_queue" "ref_waiting empty_queue = {}" "ref_processing empty_queue = {}" "\<not> rq_closed empty_queue"
  by (simp_all add: ref_ok_def ref_waiting_def ref_processing_def empty_queue_def)

end
