(* ===== verification/Downstream_Workers.thy ===== *)
theory Downstream_Workers
  imports Downstream Work_Queue
begin

text \<open>
  The running downstream reconciler (\<open>Start\<close>, \<open>runWorker\<close> and the event handlers of
  \<open>RegisterHandlers\<close> in \<open>internal/controller/downstream_controller.go\<close>) as a step relation: the informers
  of the upstream cache, the handlers, the workers and the passing of time take turns. A worker reads the
  upstream cache in one step and does the local part of a key in another, so that the cache may
  change in between; the local calls for one key are one step, which is where the workers do not meet,
  for no two of them have the same key. Other clients may delete local objects at any time, of which the reconciler is not told, but nobody
  else creates or changes mirrors of this source.
\<close>

section \<open>Events\<close>

text \<open>What an informer tells a handler; a deletion that was missed comes as a tombstone.\<close>

datatype informer_event = Added kobject | Modified kobject kobject | Removed kobject bool

text \<open>The handlers that \<open>RegisterHandlers\<close> installs for a kind: the key that is added to the queue, if any\<close>

fun handler :: "DownstreamReconciler \<Rightarrow> string \<Rightarrow> informer_event \<Rightarrow> downstreamQueueKey option" where
  "handler r kindName (Added object) = enqueueObject r kindName (CObject object)"
| "handler r kindName (Modified oldObject newObject) = UpdateFunc r kindName (CObject oldObject) (CObject newObject)"
| "handler r kindName (Removed object tombstone) =
     enqueueObject r kindName (if tombstone then CTombstone (CObject object) else CObject object)"

section \<open>The state\<close>

text \<open>Where a worker is in the loop of \<open>runWorker\<close>\<close>

datatype worker =
    Idle
  | Got downstreamQueueKey
  | Loaded downstreamQueueKey "apierr + kobject"
  | Finished downstreamQueueKey "downstream_error option"
  | Released downstreamQueueKey "downstream_error option"
  | Stopped

datatype start_error =
    StoppedBeforeSync string | NotSynced | EnqueueExisting downstream_error | CacheStopped string | StoppedUnexpectedly

text \<open>Where \<open>Start\<close> is: waiting for the caches, waiting for the context, waiting for the workers, or returned\<close>

datatype phase = Syncing | Running | Stopping | Returned "start_error option"

type_synonym upstream = "kind \<Rightarrow> NamespacedName \<Rightarrow> kobject option"

text \<open>
  \<open>ms_lost\<close> is history that no step reads: the local objects whose deletion by someone else has ended and whose key has not been
  reconciled since.
\<close>

record ('q, 'w) mirror_system =
  ms_phase :: phase
  ms_queue :: 'q
  ms_workers :: "worker list"
  ms_events :: "(string \<times> informer_event) list"
  ms_up :: upstream
  ms_namespaces :: "string list"
  ms_world :: 'w
  ms_lost :: "obj_id set"

definition cached :: "upstream \<Rightarrow> kind \<Rightarrow> NamespacedName \<Rightarrow> apierr + kobject" where
  "cached up k key = (case up k key of None \<Rightarrow> Inl NotFound | Some ob \<Rightarrow> Inr ob)"

text \<open>The upstream reader of a call of \<open>reconcileKey\<close> for a key whose object was read as \<open>x\<close>\<close>

definition snapshot ::
  "DownstreamReconciler \<Rightarrow> downstreamQueueKey \<Rightarrow> apierr + kobject \<Rightarrow> kind \<Rightarrow> NamespacedName \<Rightarrow> apierr + kobject" where
  "snapshot r q x k key =
     (if map_of (dr_kinds r) (qk_Kind q) = Some k \<and> key = qk_Key q then x else Inl NotFound)"

section \<open>The steps\<close>

definition cache_event :: "kobject option \<Rightarrow> kobject option \<Rightarrow> bool \<Rightarrow> informer_event option" where
  "cache_event old new tombstone = (case (old, new) of
     (None, None) \<Rightarrow> None
   | (None, Some ob) \<Rightarrow> Some (Added ob)
   | (Some ob, Some ob') \<Rightarrow> Some (Modified ob ob')
   | (Some ob, None) \<Rightarrow> Some (Removed ob tombstone))"

text \<open>\<open>runWorker\<close>, one call at a time\<close>

inductive worker_step ::
  "('w client) \<Rightarrow> (downstreamQueueKey, 'q) workqueue \<Rightarrow> DownstreamReconciler \<Rightarrow> upstream \<Rightarrow>
   worker \<times> 'q \<times> string list \<times> 'w \<Rightarrow> worker \<times> 'q \<times> string list \<times> 'w \<Rightarrow> bool"
  for c Q r up where
  get: "q_Get Q q = Some (Item key, q') \<Longrightarrow> worker_step c Q r up (Idle, q, nss, w) (Got key, q', nss, w)"
| shutdown: "q_Get Q q = Some (ShuttingDown, q') \<Longrightarrow> worker_step c Q r up (Idle, q, nss, w) (Stopped, q', nss, w)"
| load: "(\<And>k. map_of (dr_kinds r) (qk_Kind key) = Some k \<Longrightarrow> x = cached up k (qk_Key key) \<or> (\<exists>e. x = Inl e \<and> e \<noteq> NotFound)) \<Longrightarrow>
    worker_step c Q r up (Got key, q, nss, w) (Loaded key x, q, nss, w)"
| reconcile: "run_state (reconcileKey c (snapshot r key x) r nss key) w = ((err, nss'), w') \<Longrightarrow>
    worker_step c Q r up (Loaded key x, q, nss, w) (Finished key err, q, nss', w')"
| release: "worker_step c Q r up (Finished key err, q, nss, w) (Released key err, q_Done Q key q, nss, w)"
| retry: "worker_step c Q r up (Released key (Some err), q, nss, w) (Idle, q_AddRateLimited Q key q, nss, w)"
| forget: "worker_step c Q r up (Released key None, q, nss, w) (Idle, q_Forget Q key q, nss, w)"

text \<open>The deletion of a local object by someone else: it is marked, or it ends. And the object that a step of a worker reconciles\<close>

definition local_deletion :: "store \<Rightarrow> obj_id \<Rightarrow> store \<Rightarrow> bool" where
  "local_deletion s i s' \<longleftrightarrow> (\<exists>ob. s i = Some ob \<and> (s' = s(i := None) \<or>
     (\<exists>ob'. core ob' = core ob \<and> om_DeletionTimestamp (obj_meta ob') \<noteq> None \<and> s' = s(i \<mapsto> ob'))))"

fun reconciled :: "DownstreamReconciler \<Rightarrow> worker \<Rightarrow> obj_id set" where
  "reconciled r (Loaded key x) = (case map_of (dr_kinds r) (qk_Kind key) of Some k \<Rightarrow> {(k, qk_Key key)} | None \<Rightarrow> {})"
| "reconciled r _ = {}"

text \<open>
  The whole: \<open>page\<close> is the list call of the local client, as in \<open>enqueueExistingMirrors\<close>.
  \<open>ctx_done\<close> and the \<open>cache_stops\<close> rules are the two cases of the \<open>select\<close> of \<open>Start\<close>. When the cache stops, \<open>Start\<close> returns
  and leaves the workers to the end of the program.
\<close>

inductive system_step ::
  "('w client) \<Rightarrow> ('w \<Rightarrow> store) \<Rightarrow> (downstreamQueueKey, 'q) workqueue \<Rightarrow> DownstreamReconciler \<Rightarrow>
   ('w \<Rightarrow> kind \<Rightarrow> string \<Rightarrow> strmap \<Rightarrow> string \<Rightarrow> apierr + kobject list \<times> string) \<Rightarrow>
   ('q, 'w) mirror_system \<Rightarrow> ('q, 'w) mirror_system \<Rightarrow> bool" for c st Q r page where
  cache_changes: "(name, k) \<in> set (dr_kinds r) \<Longrightarrow> (\<forall>ob. new = Some ob \<longrightarrow> id_of ob = (k, key)) \<Longrightarrow>
    cache_event (ms_up s k key) new tombstone = Some ev \<Longrightarrow>
    system_step c st Q r page s (s\<lparr>ms_up := (ms_up s)(k := (ms_up s k)(key := new)), ms_events := ms_events s @ [(name, ev)]\<rparr>)"
| deliver: "ms_events s = evs @ (name, ev) # evs' \<Longrightarrow>
    system_step c st Q r page s (s\<lparr>ms_events := evs @ evs',
      ms_queue := (case handler r name ev of None \<Rightarrow> ms_queue s | Some key \<Rightarrow> q_Add Q key (ms_queue s))\<rparr>)"
| elapse: "q' \<in> set (q_Elapse Q (ms_queue s)) \<Longrightarrow> system_step c st Q r page s (s\<lparr>ms_queue := q'\<rparr>)"
| not_synced: "ms_phase s = Syncing \<Longrightarrow>
    e \<in> {None, Some NotSynced} \<union> range (Some \<circ> StoppedBeforeSync) \<Longrightarrow>
    system_step c st Q r page s (s\<lparr>ms_phase := Returned e\<rparr>)"
| list_fails: "ms_phase s = Syncing \<Longrightarrow> enqueueExistingMirrors (page (ms_world s)) r = Some (Some err, keys) \<Longrightarrow>
    system_step c st Q r page s (s\<lparr>ms_phase := Returned (Some (EnqueueExisting err)), ms_queue := fold (q_Add Q) keys (ms_queue s)\<rparr>)"
| synced: "ms_phase s = Syncing \<Longrightarrow> enqueueExistingMirrors (page (ms_world s)) r = Some (None, keys) \<Longrightarrow>
    system_step c st Q r page s (s\<lparr>ms_phase := Running, ms_queue := fold (q_Add Q) keys (ms_queue s),
      ms_workers := replicate (nat (dr_Workers r)) Idle\<rparr>)"
| work: "i < length (ms_workers s) \<Longrightarrow>
    worker_step c Q r (ms_up s) (ms_workers s ! i, ms_queue s, ms_namespaces s, ms_world s) (wk, q', nss', w') \<Longrightarrow>
    system_step c st Q r page s (s\<lparr>ms_workers := (ms_workers s)[i := wk], ms_queue := q', ms_namespaces := nss', ms_world := w',
      ms_lost := ms_lost s - reconciled r (ms_workers s ! i)\<rparr>)"
| deleted: "local_deletion (st (ms_world s)) i (st w') \<Longrightarrow>
    system_step c st Q r page s (s\<lparr>ms_world := w', ms_lost := if st w' i = None then insert i (ms_lost s) else ms_lost s\<rparr>)"
| ctx_done: "ms_phase s = Running \<Longrightarrow>
    system_step c st Q r page s (s\<lparr>ms_phase := Stopping, ms_queue := q_ShutDown Q (ms_queue s)\<rparr>)"
| cache_stops: "ms_phase s = Running \<Longrightarrow> e \<in> {StoppedUnexpectedly} \<union> range CacheStopped \<Longrightarrow>
    system_step c st Q r page s (s\<lparr>ms_phase := Returned (Some e)\<rparr>)"
| workers_done: "ms_phase s = Stopping \<Longrightarrow> list_all (\<lambda>wk. wk = Stopped) (ms_workers s) \<Longrightarrow>
    system_step c st Q r page s (s\<lparr>ms_phase := Returned None\<rparr>)"

text \<open>The state in which \<open>Start\<close> is called: the caches are empty and no handler has run.\<close>

definition initial_system :: "'q \<Rightarrow> 'w \<Rightarrow> ('q, 'w) mirror_system" where
  "initial_system q w = \<lparr>ms_phase = Syncing, ms_queue = q, ms_workers = [], ms_events = [],
     ms_up = (\<lambda>k key. None), ms_namespaces = [], ms_world = w, ms_lost = {}\<rparr>"

inductive reachable ::
  "('w client) \<Rightarrow> ('w \<Rightarrow> store) \<Rightarrow> (downstreamQueueKey, 'q) workqueue \<Rightarrow> DownstreamReconciler \<Rightarrow>
   ('w \<Rightarrow> kind \<Rightarrow> string \<Rightarrow> strmap \<Rightarrow> string \<Rightarrow> apierr + kobject list \<times> string) \<Rightarrow> 'q \<Rightarrow> 'w \<Rightarrow>
   ('q, 'w) mirror_system \<Rightarrow> bool" for c st Q r page q w where
  start: "reachable c st Q r page q w (initial_system q w)"
| step: "reachable c st Q r page q w s \<Longrightarrow> system_step c st Q r page s s' \<Longrightarrow> reachable c st Q r page q w s'"

section \<open>One worker per key\<close>

text \<open>The key that a worker has from the queue\<close>

fun held :: "worker \<Rightarrow> downstreamQueueKey option" where
  "held (Got key) = Some key"
| "held (Loaded key _) = Some key"
| "held (Finished key _) = Some key"
| "held _ = None"

definition holders :: "worker list \<Rightarrow> nat \<Rightarrow> downstreamQueueKey option" where
  "holders wks i = (if i < length wks then held (wks ! i) else None)"

definition exclusive :: "worker list \<Rightarrow> downstreamQueueKey set \<Rightarrow> bool" where
  "exclusive wks P \<longleftrightarrow> ran (holders wks) = P \<and>
     (\<forall>i j key. holders wks i = Some key \<and> holders wks j = Some key \<longrightarrow> i = j)"

lemma holders_update: "i < length wks \<Longrightarrow> holders (wks[i := wk]) = (holders wks)(i := held wk)"
  by (auto simp: holders_def nth_list_update)

lemma holders_idle [simp]: "holders [] = Map.empty" "holders (replicate n Idle) = Map.empty"
  by (auto simp: holders_def)

lemma exclusive_idle: "exclusive [] P \<longleftrightarrow> P = {}" "exclusive (replicate n Idle) P \<longleftrightarrow> P = {}"
  by (auto simp: exclusive_def)

lemma exclusive_take:
  assumes "exclusive wks P" "i < length wks" "held (wks ! i) = None" "held wk = Some key" "key \<notin> P"
  shows "exclusive (wks[i := wk]) (insert key P)"
proof -
  have "holders wks i = None" using assms(2,3) by (simp add: holders_def)
  moreover have "holders wks j \<noteq> Some key" for j using assms(1,5) by (auto simp: exclusive_def ran_def)
  ultimately show ?thesis using assms(1) by (auto simp: exclusive_def holders_update assms(2,4) split: if_splits)
qed

lemma exclusive_keep: "exclusive wks P \<Longrightarrow> i < length wks \<Longrightarrow> held wk = held (wks ! i) \<Longrightarrow> exclusive (wks[i := wk]) P"
  by (simp add: exclusive_def holders_update fun_upd_idem holders_def [of wks i])

lemma exclusive_drop:
  assumes "exclusive wks P" "i < length wks" "held (wks ! i) = Some key" "held wk = None"
  shows "exclusive (wks[i := wk]) (P - {key})"
proof -
  have "holders wks i = Some key" using assms(2,3) by (simp add: holders_def)
  then have "ran ((holders wks)(i := None)) = ran (holders wks) - {key}"
    using assms(1) unfolding exclusive_def ran_def by auto (metis option.inject)+
  then show ?thesis using assms(1) by (auto simp: exclusive_def holders_update assms(2,4))
qed

section \<open>The reconciler and its list call\<close>

text \<open>What \<open>NewDownstreamReconciler\<close> makes\<close>

definition proper :: "DownstreamReconciler \<Rightarrow> bool" where
  "proper r \<longleftrightarrow> mirror_kinds r \<and> distinct (map fst (dr_kinds r)) \<and> distinct (map snd (dr_kinds r)) \<and>
     dr_SourceID r \<noteq> [] \<and> 1 \<le> dr_Workers r"

lemma New_proper:
  "NewDownstreamReconciler True target sourceID workers = Inr r \<Longrightarrow> proper (r\<lparr>dr_TargetNamespace := ns\<rparr>)"
  by (auto simp: NewDownstreamReconciler_def downstreamResourceKinds_def proper_def mirror_kinds_def mirrored_kinds_def
      DownstreamWorkers_def split: if_splits)

text \<open>A chain of pages that ends lists the mirrors.\<close>

definition lists_mirrors ::
  "(kind \<Rightarrow> string \<Rightarrow> strmap \<Rightarrow> string \<Rightarrow> apierr + kobject list \<times> string) \<Rightarrow> DownstreamReconciler \<Rightarrow> store \<Rightarrow> bool" where
  "lists_mirrors page r s \<longleftrightarrow> (\<forall>(name, k) \<in> set (dr_kinds r). \<forall>items.
     pages (page k (dr_TargetNamespace r) (source_label r)) [] items \<longrightarrow>
     set items = {ob. s (id_of ob) = Some ob \<and> kind_of ob = k \<and> selects (dr_TargetNamespace r) (source_label r) ob})"

lemma list_mirrors_ends:
  assumes "list_mirrors r name page token keys = Some (None, keys')"
  shows "\<exists>items. pages page token items \<and> keys' = keys @ List.map_filter (\<lambda>x. enqueueObject r name (CObject x)) items"
proof -
  let ?P = "\<lambda>r name page token keys y. fst y = None \<longrightarrow> (\<exists>items. pages page token items \<and>
    snd y = keys @ List.map_filter (\<lambda>x. enqueueObject r name (CObject x)) items)"
  have "?P r name page token keys y" if "list_mirrors r name page token keys = Some y" for r name page token keys y
  proof (rule list_mirrors.raw_induct [where P = ?P, OF _ that], goal_cases)
    case (1 f r name page token keys y)
    show ?case
    proof (cases "page token")
      case (Inr a)
      obtain items rest where page: "page token = Inr (items, rest)" using Inr by (cases a) simp
      show ?thesis
      proof (cases "rest = []")
        case True
        then show ?thesis using 1(2) page by (auto simp: Let_def intro: last_page)
      next
        case False
        then have "f r name page rest (keys @ List.map_filter (\<lambda>x. enqueueObject r name (CObject x)) items) = Some y"
          using 1(2) page by (simp add: Let_def)
        from 1(1) [OF this] next_page [of page token items rest, OF page False] show ?thesis by fastforce
      qed
    qed (use 1 in auto)
  qed
  from this [OF assms] show ?thesis by simp
qed

lemma existing_mirrors_complete:
  assumes "existing_mirrors page r kinds keys = Some (None, keys')" "set kinds \<subseteq> set (dr_kinds r)" "lists_mirrors page r s"
    and "dr_SourceID r \<noteq> []"
  shows "set keys \<subseteq> set keys' \<and> (\<forall>(name, k) \<in> set kinds. \<forall>ob. s (id_of ob) = Some ob \<and> kind_of ob = k \<and>
    managed (dr_SourceID r) ob \<and> (dr_TargetNamespace r = [] \<or> GetNamespace ob = dr_TargetNamespace r) \<longrightarrow>
    \<lparr>qk_Kind = name, qk_Key = key_of (obj_meta ob)\<rparr> \<in> set keys')"
  using assms
proof (induction page r kinds keys rule: existing_mirrors.induct)
  case (2 page r name k kinds keys)
  from 2(2) obtain keys1 where
    one: "list_mirrors r name (page k (dr_TargetNamespace r) (source_label r)) [] keys = Some (None, keys1)"
    and rest: "existing_mirrors page r kinds keys1 = Some (None, keys')" by (auto split: option.splits)
  from list_mirrors_ends [OF one] obtain items where items: "pages (page k (dr_TargetNamespace r) (source_label r)) [] items"
    "keys1 = keys @ List.map_filter (\<lambda>x. enqueueObject r name (CObject x)) items" by blast
  have "set items = {ob. s (id_of ob) = Some ob \<and> kind_of ob = k \<and> selects (dr_TargetNamespace r) (source_label r) ob}"
    using 2(3,4) items(1) unfolding lists_mirrors_def by fastforce
  then have now: "\<lparr>qk_Kind = name, qk_Key = key_of (obj_meta ob)\<rparr> \<in> set keys1"
    if "s (id_of ob) = Some ob" "kind_of ob = k" "managed (dr_SourceID r) ob"
      "dr_TargetNamespace r = [] \<or> GetNamespace ob = dr_TargetNamespace r" for ob
    using that unfolding items(2) by (force simp: set_map_filter enqueueObject_plain selects_source [OF 2(5)])
  have "set keys1 \<subseteq> set keys'" and later: "\<forall>(name, k) \<in> set kinds. \<forall>ob. s (id_of ob) = Some ob \<and> kind_of ob = k \<and>
    managed (dr_SourceID r) ob \<and> (dr_TargetNamespace r = [] \<or> GetNamespace ob = dr_TargetNamespace r) \<longrightarrow>
    \<lparr>qk_Kind = name, qk_Key = key_of (obj_meta ob)\<rparr> \<in> set keys'"
    using 2(1) [OF one refl refl rest] 2(3-5) by auto
  then show ?case using now items(2) by auto
qed simp

section \<open>No change is lost\<close>

definition known :: "DownstreamReconciler \<Rightarrow> downstreamQueueKey \<Rightarrow> kind \<Rightarrow> bool" where
  "known r q k \<longleftrightarrow> map_of (dr_kinds r) (qk_Kind q) = Some k \<and> watched r q"

text \<open>The key waits in the queue, or an event is on its way that will put it there.\<close>

definition due :: "('q \<Rightarrow> downstreamQueueKey set) \<Rightarrow> DownstreamReconciler \<Rightarrow> ('q, 'w) mirror_system \<Rightarrow> downstreamQueueKey \<Rightarrow> bool" where
  "due waiting r s q \<longleftrightarrow> q \<in> waiting (ms_queue s) \<or> (\<exists>(name, ev) \<in> set (ms_events s). handler r name ev = Some q)"

text \<open>The key that a worker will reconcile or has to put back\<close>

fun owes :: "worker \<Rightarrow> downstreamQueueKey option" where
  "owes (Got key) = Some key"
| "owes (Loaded key _) = Some key"
| "owes (Finished key (Some _)) = Some key"
| "owes (Released key (Some _)) = Some key"
| "owes _ = None"

text \<open>Two answers of the upstream reader that ask for the same mirror\<close>

definition same_source :: "apierr + kobject \<Rightarrow> apierr + kobject \<Rightarrow> bool" where
  "same_source x y \<longleftrightarrow> (case (x, y) of (Inr a, Inr b) \<Rightarrow> payload a = payload b
     | (Inl e, Inl e') \<Rightarrow> e = NotFound \<and> e' = NotFound | _ \<Rightarrow> False)"

text \<open>The key is in order, or its local object was deleted by someone else.\<close>

definition lost :: "DownstreamReconciler \<Rightarrow> downstreamQueueKey \<Rightarrow> obj_id set \<Rightarrow> store \<Rightarrow> bool" where
  "lost r q L s \<longleftrightarrow> (\<exists>k. map_of (dr_kinds r) (qk_Kind q) = Some k \<and> (k, qk_Key q) \<in> L \<and> s (k, qk_Key q) = None)"

definition settled :: "('w \<Rightarrow> store) \<Rightarrow> DownstreamReconciler \<Rightarrow> ('q, 'w) mirror_system \<Rightarrow> downstreamQueueKey \<Rightarrow> bool" where
  "settled st r s q \<longleftrightarrow> mirror_done (cached (ms_up s)) r q (st (ms_world s)) \<or> lost r q (ms_lost s) (st (ms_world s))"

text \<open>What a worker has read is what the cache has, unless the key is due again or the read failed.\<close>

definition fresh :: "('q \<Rightarrow> downstreamQueueKey set) \<Rightarrow> DownstreamReconciler \<Rightarrow> ('q, 'w) mirror_system \<Rightarrow> worker \<Rightarrow> bool" where
  "fresh waiting r s wk \<longleftrightarrow> (\<forall>q x k. wk = Loaded q x \<and> map_of (dr_kinds r) (qk_Kind q) = Some k \<longrightarrow>
     (\<forall>ob. x = Inr ob \<longrightarrow> id_of ob = (k, qk_Key q)) \<and>
     (watched r q \<longrightarrow> (\<exists>e. x = Inl e \<and> e \<noteq> NotFound) \<or> same_source x (cached (ms_up s) k (qk_Key q)) \<or> due waiting r s q))"

definition covered ::
  "('q \<Rightarrow> downstreamQueueKey set) \<Rightarrow> ('w \<Rightarrow> store) \<Rightarrow> DownstreamReconciler \<Rightarrow> ('q, 'w) mirror_system \<Rightarrow> bool" where
  "covered waiting st r s \<longleftrightarrow> (\<forall>q k. known r q k \<longrightarrow>
     settled st r s q \<or> due waiting r s q \<or> (\<exists>wk \<in> set (ms_workers s). owes wk = Some q) \<or>
     ms_phase s = Syncing \<and> (\<exists>ob. st (ms_world s) (k, qk_Key q) = Some ob \<and> managed (dr_SourceID r) ob))"

definition cached_ids :: "upstream \<Rightarrow> bool" where
  "cached_ids up \<longleftrightarrow> (\<forall>k key ob. up k key = Some ob \<longrightarrow> id_of ob = (k, key))"

lemma mirror_done_same:
  assumes "known r q k" "same_source (up k (qk_Key q)) (up' k (qk_Key q))" "mirror_done up r q s"
  shows "mirror_done up' r q s"
proof (cases "up k (qk_Key q)")
  case (Inr a)
  then obtain b where b: "up' k (qk_Key q) = Inr b" "payload a = payload b"
    using assms(2) by (cases "up' k (qk_Key q)") (simp_all add: same_source_def)
  have "mirrors (dr_SourceID r) a (s (k, qk_Key q))" using Inr assms(1,3) by (simp add: mirror_done_def known_def)
  then have "mirrors (dr_SourceID r) b (s (k, qk_Key q))" unfolding mirrors_def content_def b(2) .
  then show ?thesis using b(1) assms(1) by (simp add: mirror_done_def known_def)
next
  case (Inl e)
  then have "up' k (qk_Key q) = Inl e" using assms(2) by (cases "up' k (qk_Key q)") (simp_all add: same_source_def)
  then show ?thesis using Inl assms(1,3) by (simp add: mirror_done_def known_def)
qed

lemma known_name:
  assumes "proper r" "known r q k" "(name, k) \<in> set (dr_kinds r)"
  shows "qk_Kind q = name"
proof -
  have "(qk_Kind q, k) \<in> set (dr_kinds r)" using assms(2) by (auto simp: known_def dest: map_of_SomeD)
  with assms(1,3) show ?thesis unfolding proper_def distinct_map inj_on_def by fastforce
qed

lemma known_mirrored: "proper r \<Longrightarrow> known r q k \<Longrightarrow> kind_of ob = k \<Longrightarrow> mirrored ob"
  by (auto simp: proper_def known_def mirror_kinds_def mirrored_def dest!: map_of_SomeD)

lemma known_enqueued:
  assumes "known r q k" "id_of ob = (k, qk_Key q)"
  shows "enqueueObject r (qk_Kind q) (CObject ob) = Some q"
    and "enqueueObject r (qk_Kind q) (CTombstone (CObject ob)) = Some q"
proof -
  have "key_of (obj_meta ob) = qk_Key q" using assms(2) by (simp add: id_of_def)
  then have "GetNamespace ob = nn_Namespace (qk_Key q)" by (metis key_of_def NamespacedName.select_convs(1))
  with assms(1) \<open>key_of (obj_meta ob) = qk_Key q\<close> show "enqueueObject r (qk_Kind q) (CObject ob) = Some q"
    by (simp add: enqueueObject_plain known_def watched_def)
  then show "enqueueObject r (qk_Kind q) (CTombstone (CObject ob)) = Some q" by (simp add: enqueueObject_def)
qed

lemma same_source_refl: "same_source (cached up k key) (cached up k key)"
  by (simp add: same_source_def cached_def split: option.split)

text \<open>A change of the cache is an event for the key, or asks for the same mirror as before.\<close>

lemma change_effect:
  assumes "proper r" "known r q k'" "(name, k) \<in> set (dr_kinds r)" "cached_ids up"
    and "\<forall>ob. new = Some ob \<longrightarrow> id_of ob = (k, key)" "cache_event (up k key) new tombstone = Some ev"
  shows "handler r name ev = Some q \<or> same_source (cached up k' (qk_Key q)) (cached (up(k := (up k)(key := new))) k' (qk_Key q))"
proof (cases "k' = k \<and> qk_Key q = key")
  case False
  then have "cached (up(k := (up k)(key := new))) k' (qk_Key q) = cached up k' (qk_Key q)" by (auto simp: cached_def)
  then show ?thesis using same_source_refl by simp
next
  case True
  then have q: "known r q k" "qk_Key q = key" using assms(2) by simp_all
  note name = known_name [OF assms(1) q(1) assms(3)]
  have ids: "id_of ob = (k, qk_Key q)" if "up k key = Some ob \<or> new = Some ob" for ob
    using that assms(4,5) q(2) by (auto simp: cached_ids_def)
  then have "mirrored ob" if "up k key = Some ob \<or> new = Some ob" for ob
    using that known_mirrored [OF assms(1) q(1)] by (simp add: id_of_def)
  then show ?thesis
    using assms(6) known_enqueued [OF q(1) ids] name True
    by (auto simp: cache_event_def cached_def same_source_def UpdateFunc_def downstreamSourceEqual_def empty_is_payload
        split: option.splits if_splits)
qed

text \<open>A call for another key leaves the mirror of this one alone.\<close>

lemma frame_settled:
  assumes "proper r" "known r q k" "q \<noteq> key" "mirror_frame r key s s'"
  shows "mirror_done up r q s' \<longleftrightarrow> mirror_done up r q s" "lost r q L s \<longleftrightarrow> lost r q L s'" "(k, qk_Key q) \<notin> reconciled r (Loaded key x)"
proof -
  have "(qk_Kind q, k) \<in> set (dr_kinds r)" using assms(2) by (auto simp: known_def dest: map_of_SomeD)
  then have k: "k \<noteq> KNamespace" using assms(1) by (auto simp: proper_def mirror_kinds_def mirrored_kinds_def)
  have "s' (k, qk_Key q) = s (k, qk_Key q)"
  proof (rule ccontr)
    assume "s' (k, qk_Key q) \<noteq> s (k, qk_Key q)"
    then have "map_of (dr_kinds r) (qk_Kind key) = Some k" "watched r key" "qk_Key q = qk_Key key"
      using assms(4) k unfolding mirror_frame_def by fastforce+
    then have "qk_Kind q = qk_Kind key"
      using known_name [OF assms(1,2)] by (auto dest: map_of_SomeD)
    with \<open>qk_Key q = qk_Key key\<close> assms(3) show False by simp
  qed
  then show "mirror_done up r q s' \<longleftrightarrow> mirror_done up r q s" "lost r q L s \<longleftrightarrow> lost r q L s'"
    using assms(2) by (auto simp: mirror_done_def lost_def known_def split: sum.split)
  show "(k, qk_Key q) \<notin> reconciled r (Loaded key x)"
  proof
    assume "(k, qk_Key q) \<in> reconciled r (Loaded key x)"
    then have "map_of (dr_kinds r) (qk_Kind key) = Some k" "qk_Key q = qk_Key key" by (auto split: option.splits)
    moreover from this(1) have "qk_Kind q = qk_Kind key" using known_name [OF assms(1,2)] by (auto dest: map_of_SomeD)
    ultimately show False using assms(3) by simp
  qed
qed

lemma local_deletion_at:
  assumes "local_deletion s i s'" "s j = Some ob"
  shows "s' j = None \<and> j = i \<or> s' j = Some ob \<or>
    (\<exists>ob'. s' j = Some ob' \<and> core ob' = core ob \<and> om_DeletionTimestamp (obj_meta ob') \<noteq> None)"
  using assms by (cases "j = i") (auto simp: local_deletion_def)

lemma local_deletion_none: "local_deletion s i s' \<Longrightarrow> s j = None \<Longrightarrow> s' j = None"
  by (auto simp: local_deletion_def)

lemma managed_core: "core a = core b \<Longrightarrow> managed sid a = managed sid b"
  by (metis content_core managed_content)

lemma local_deletion_mirror:
  assumes "local_deletion s i s'" "s j = Some ob" "managed sid ob"
  shows "s' j = None \<and> j = i \<or> s' j = Some ob \<or>
    (\<exists>ob'. s' j = Some ob' \<and> managed sid ob' \<and> om_DeletionTimestamp (obj_meta ob') \<noteq> None)"
  using local_deletion_at [OF assms(1,2)] managed_core [of _ ob sid] assms(3) by blast

lemma local_deletion_mirrors:
  assumes "local_deletion s i s'" "mirrors sid source (s j)"
  shows "mirrors sid source (s' j) \<or> s' j = None \<and> j = i"
proof -
  from assms(2) obtain ob where ob: "s j = Some ob" "managed sid ob" by (auto simp: mirrors_def)
  from local_deletion_mirror [OF assms(1) ob] assms(2) ob show ?thesis by (auto simp: mirrors_def)
qed

lemma local_deletion_no_mirror:
  assumes "local_deletion s i s'" "no_mirror sid (s j)"
  shows "no_mirror sid (s' j)"
proof (cases "s j")
  case None
  then show ?thesis using local_deletion_none [OF assms(1)] by (simp add: no_mirror_def)
next
  case (Some ob)
  from local_deletion_at [OF assms(1) Some] assms(2) Some show ?thesis by (auto simp: no_mirror_def)
qed

lemma same_source_trans: "same_source x y \<Longrightarrow> same_source y z \<Longrightarrow> same_source x z"
  by (auto simp: same_source_def split: sum.splits)

lemma due_mono:
  assumes "due waiting r s q" "q \<in> waiting (ms_queue s) \<Longrightarrow> q \<in> waiting (ms_queue s')" "set (ms_events s) \<subseteq> set (ms_events s')"
  shows "due waiting r s' q"
  using assms unfolding due_def by blast

lemma fresh_mono:
  assumes fresh: "fresh waiting r s wk"
    and up: "\<And>q k. known r q k \<Longrightarrow> due waiting r s' q \<or> same_source (cached (ms_up s) k (qk_Key q)) (cached (ms_up s') k (qk_Key q))"
    and due: "\<And>q x. wk = Loaded q x \<Longrightarrow> due waiting r s q \<Longrightarrow> due waiting r s' q"
  shows "fresh waiting r s' wk"
  unfolding fresh_def
proof (intro allI impI)
  fix q x k assume wk: "wk = Loaded q x \<and> map_of (dr_kinds r) (qk_Kind q) = Some k"
  note old = fresh [unfolded fresh_def, rule_format, OF wk]
  show "(\<forall>ob. x = Inr ob \<longrightarrow> id_of ob = (k, qk_Key q)) \<and> (watched r q \<longrightarrow> (\<exists>e. x = Inl e \<and> e \<noteq> NotFound) \<or>
    same_source x (cached (ms_up s') k (qk_Key q)) \<or> due waiting r s' q)"
  proof (intro conjI impI)
    show "\<forall>ob. x = Inr ob \<longrightarrow> id_of ob = (k, qk_Key q)" using old by blast
    assume w: "watched r q"
    then have "known r q k" using wk by (simp add: known_def)
    from up [OF this] old w wk due [of q x] same_source_trans
    show "(\<exists>e. x = Inl e \<and> e \<noteq> NotFound) \<or> same_source x (cached (ms_up s') k (qk_Key q)) \<or> due waiting r s' q" by blast
  qed
qed

section \<open>The invariants\<close>

text \<open>The workers and the queue in the phases of \<open>Start\<close>: an error from before the workers were started leaves none behind\<close>

fun running_error :: "start_error option \<Rightarrow> bool" where
  "running_error (Some StoppedUnexpectedly) = True"
| "running_error (Some (CacheStopped _)) = True"
| "running_error _ = False"

fun at_phase :: "DownstreamReconciler \<Rightarrow> worker list \<Rightarrow> bool \<Rightarrow> phase \<Rightarrow> bool" where
  "at_phase r wks shut Syncing \<longleftrightarrow> wks = [] \<and> \<not> shut"
| "at_phase r wks shut Running \<longleftrightarrow> length wks = nat (dr_Workers r) \<and> \<not> shut"
| "at_phase r wks shut Stopping \<longleftrightarrow> length wks = nat (dr_Workers r) \<and> shut"
| "at_phase r wks shut (Returned e) \<longleftrightarrow>
     running_error e \<or> (if e = None then list_all (\<lambda>wk. wk = Stopped) wks else wks = [])"

definition orderly ::
  "('q \<Rightarrow> bool) \<Rightarrow> ('q \<Rightarrow> downstreamQueueKey set) \<Rightarrow> ('q \<Rightarrow> bool) \<Rightarrow> DownstreamReconciler \<Rightarrow> ('q, 'w) mirror_system \<Rightarrow> bool" where
  "orderly ok processing closed r s \<longleftrightarrow> ok (ms_queue s) \<and> exclusive (ms_workers s) (processing (ms_queue s)) \<and>
     (Stopped \<in> set (ms_workers s) \<longrightarrow> closed (ms_queue s)) \<and>
     at_phase r (ms_workers s) (closed (ms_queue s)) (ms_phase s)"

definition tracking ::
  "('q \<Rightarrow> downstreamQueueKey set) \<Rightarrow> ('w \<Rightarrow> store) \<Rightarrow> DownstreamReconciler \<Rightarrow> ('q, 'w) mirror_system \<Rightarrow> bool" where
  "tracking waiting st r s \<longleftrightarrow> cached_ids (ms_up s) \<and> (\<forall>wk \<in> set (ms_workers s). fresh waiting r s wk) \<and> covered waiting st r s"

locale mirror_setup = api_server c st + work_queue Q ok waiting processing closed
  for c :: "'w client" and st :: "'w \<Rightarrow> store" and Q :: "(downstreamQueueKey, 'q) workqueue" and ok waiting processing closed +
  fixes r :: DownstreamReconciler
    and page :: "'w \<Rightarrow> kind \<Rightarrow> string \<Rightarrow> strmap \<Rightarrow> string \<Rightarrow> apierr + kobject list \<times> string"
  assumes proper: "proper r" and lists: "lists_mirrors (page w) r (st w)"
begin

lemma worker_step_queue:
  assumes "worker_step c Q r up (wks ! i, q, nss, w) (wk, q', nss', w')"
    and "i < length wks" "ok q" "exclusive wks (processing q)"
  shows "ok q' \<and> exclusive (wks[i := wk]) (processing q') \<and> closed q' = closed q \<and> (wk = Stopped \<longrightarrow> closed q) \<and> wks ! i \<noteq> Stopped"
  using assms(1)
proof (cases rule: worker_step.cases)
  case (get key)
  then show ?thesis using Get_item [OF assms(3) get(5)] assms(2,4) by (auto intro: exclusive_take)
next
  case shutdown
  then show ?thesis using Get_shutdown [OF assms(3) shutdown(5)] assms(2-4) by (auto intro: exclusive_keep)
next
  case (load key x)
  then show ?thesis using assms(2-4) by (auto intro: exclusive_keep)
next
  case (reconcile key x err)
  then show ?thesis using assms(2-4) by (auto intro: exclusive_keep)
next
  case (release key err)
  then show ?thesis using assms(2-4) by (auto simp: Done_law intro: exclusive_drop)
next
  case (retry key err)
  then show ?thesis using assms(2-4) by (auto simp: AddRateLimited_law intro: exclusive_keep)
next
  case (forget key)
  then show ?thesis using assms(2-4) by (auto simp: Forget_law intro: exclusive_keep)
qed

lemma at_phase_work:
  assumes "at_phase r wks shut p" "\<not> list_all (\<lambda>wk. wk = Stopped) wks"
  shows "at_phase r (wks[i := wk]) shut p"
  using assms by (cases p) (auto split: if_splits)

lemma orderly_step:
  assumes "system_step c st Q r page s s'" and ord: "orderly ok processing closed r s"
  shows "orderly ok processing closed r s'"
  using assms(1)
proof (cases rule: system_step.cases)
  case (work i wk q' nss' w')
  have "ok (ms_queue s)" "exclusive (ms_workers s) (processing (ms_queue s))" using ord by (simp_all add: orderly_def)
  note wk = worker_step_queue [OF work(3,2) this]
  have "\<not> list_all (\<lambda>wk. wk = Stopped) (ms_workers s)" using wk work(2) by (simp only: list_all_length) blast
  with at_phase_work [of "ms_workers s" "closed q'" "ms_phase s" i wk] wk ord
  have "at_phase r ((ms_workers s)[i := wk]) (closed q') (ms_phase s)" by (simp add: orderly_def)
  moreover have "Stopped \<in> set ((ms_workers s)[i := wk]) \<longrightarrow> closed q'"
    using set_update_subset_insert [of "ms_workers s" i wk] wk ord unfolding orderly_def by blast
  ultimately show ?thesis using wk by (simp add: orderly_def work(1))
next
  case (deliver evs name ev evs')
  then show ?thesis using ord by (simp add: orderly_def Add_law split: option.split)
next
  case (synced keys)
  then show ?thesis using ord by (auto simp: orderly_def Add_all exclusive_idle)
next
  case (list_fails err keys)
  then show ?thesis using ord by (auto simp: orderly_def Add_all)
next
  case (ctx_done)
  then show ?thesis using ord by (simp add: orderly_def ShutDown_law)
next
  case (elapse q')
  then show ?thesis using ord Elapse_law [of "ms_queue s" q'] by (simp add: orderly_def)
next
  case (cache_stops e)
  then show ?thesis using ord by (auto simp: orderly_def)
qed (use ord in \<open>auto simp: orderly_def\<close>)

lemma tracking_quiet:
  assumes "tracking waiting st r s" "\<And>q. due waiting r s q \<Longrightarrow> due waiting r s' q"
    and "ms_up s' = ms_up s" "ms_workers s' = ms_workers s" "ms_world s' = ms_world s" "ms_phase s' = ms_phase s"
    and "ms_lost s' = ms_lost s"
  shows "tracking waiting st r s'"
proof -
  have "fresh waiting r s wk \<Longrightarrow> fresh waiting r s' wk" for wk by (erule fresh_mono) (use assms same_source_refl in auto)
  moreover have "covered waiting st r s \<Longrightarrow> covered waiting st r s'"
    using assms(2) unfolding covered_def settled_def assms(3-7) by blast
  ultimately show ?thesis using assms(1) unfolding tracking_def assms(3,4) by blast
qed

lemma tracking_change:
  assumes "tracking waiting st r s" "(name, k) \<in> set (dr_kinds r)" "\<forall>ob. new = Some ob \<longrightarrow> id_of ob = (k, key)"
    and "cache_event (ms_up s k key) new tombstone = Some ev"
  shows "tracking waiting st r (s\<lparr>ms_up := (ms_up s)(k := (ms_up s k)(key := new)), ms_events := ms_events s @ [(name, ev)]\<rparr>)"
    (is "tracking _ _ _ ?s")
proof -
  have ids: "cached_ids (ms_up s)" using assms(1) by (simp add: tracking_def)
  have effect: "due waiting r ?s q \<or> same_source (cached (ms_up s) k' (qk_Key q)) (cached (ms_up ?s) k' (qk_Key q))"
    if "known r q k'" for q k'
    using change_effect [OF proper that assms(2) ids assms(3,4)] by (auto simp: due_def)
  have due: "due waiting r s q \<Longrightarrow> due waiting r ?s q" for q by (erule due_mono) auto
  have "fresh waiting r ?s wk" if "fresh waiting r s wk" for wk by (rule fresh_mono [OF that effect due])
  moreover have "settled st r s q \<Longrightarrow> settled st r ?s q \<or> due waiting r ?s q" if "known r q k'" for q k'
    using effect [OF that] mirror_done_same [OF that] by (auto simp: settled_def)
  then have "covered waiting st r s \<Longrightarrow> covered waiting st r ?s"
    unfolding covered_def using due by simp blast
  moreover have "cached_ids (ms_up ?s)" using ids assms(3) by (auto simp: cached_ids_def)
  ultimately show ?thesis using assms(1) by (auto simp: tracking_def)
qed

lemma tracking_synced:
  assumes "tracking waiting st r s" "orderly ok processing closed r s" "ms_phase s = Syncing"
    and "enqueueExistingMirrors (page (ms_world s)) r = Some (None, keys)"
  shows "tracking waiting st r (s\<lparr>ms_phase := Running, ms_queue := fold (q_Add Q) keys (ms_queue s),
      ms_workers := replicate n Idle\<rparr>)" (is "tracking _ _ _ ?s")
proof -
  have q: "ok (ms_queue s)" "\<not> closed (ms_queue s)" "ms_workers s = []" using assms(2,3) by (simp_all add: orderly_def)
  have due: "due waiting r s q \<Longrightarrow> due waiting r ?s q" for q
    by (erule due_mono) (use q in \<open>simp_all add: Add_all\<close>)
  have found: "due waiting r ?s q" if "known r q k" "st (ms_world s) (k, qk_Key q) = Some ob" "managed (dr_SourceID r) ob" for q k ob
  proof -
    note id = stored_id [OF that(2)]
    have kind: "(qk_Kind q, k) \<in> set (dr_kinds r)" using that(1) by (auto simp: known_def dest: map_of_SomeD)
    have key: "key_of (obj_meta ob) = qk_Key q" "kind_of ob = k" using id by (simp_all add: id_of_def)
    have "GetNamespace ob = nn_Namespace (qk_Key q)" using key(1) by (metis key_of_def NamespacedName.select_convs(1))
    then have "\<lparr>qk_Kind = qk_Kind q, qk_Key = key_of (obj_meta ob)\<rparr> \<in> set keys"
      using existing_mirrors_complete [OF assms(4) [unfolded enqueueExistingMirrors_def] subset_refl lists] proper kind key(2) that id
      unfolding proper_def known_def watched_def by fastforce
    then have "q \<in> set keys" unfolding key(1) by (cases q) simp
    then show ?thesis using q by (simp add: due_def Add_all)
  qed
  have "covered waiting st r ?s"
    using assms(1) due found q(3) unfolding covered_def tracking_def settled_def by fastforce
  then show ?thesis using assms(1) by (auto simp: tracking_def fresh_def)
qed

text \<open>A deletion by someone else leaves each key as it was, or it is recorded.\<close>

lemma tracking_deleted:
  assumes "tracking waiting st r s" "local_deletion (st (ms_world s)) i (st w')"
  shows "tracking waiting st r (s\<lparr>ms_world := w', ms_lost := if st w' i = None then insert i (ms_lost s) else ms_lost s\<rparr>)"
    (is "tracking _ _ _ ?s")
proof -
  have due: "due waiting r ?s q = due waiting r s q" for q by (simp add: due_def)
  have fresh: "fresh waiting r ?s wk = fresh waiting r s wk" for wk unfolding fresh_def due by simp
  have keep: "settled st r ?s q" if "known r q k" "settled st r s q" for q k
    using that(2) unfolding settled_def
  proof
    assume ok: "mirror_done (cached (ms_up s)) r q (st (ms_world s))"
    show "mirror_done (cached (ms_up ?s)) r q (st (ms_world ?s)) \<or> lost r q (ms_lost ?s) (st (ms_world ?s))"
    proof (cases "cached (ms_up s) k (qk_Key q)")
      case (Inl e)
      then show ?thesis using ok that(1) local_deletion_no_mirror [OF assms(2)] by (simp add: mirror_done_def known_def)
    next
      case (Inr source)
      then have "mirrors (dr_SourceID r) source (st (ms_world s) (k, qk_Key q))"
        using ok that(1) by (simp add: mirror_done_def known_def)
      from local_deletion_mirrors [OF assms(2) this] Inr that(1) show ?thesis
        by (auto simp: mirror_done_def lost_def known_def)
    qed
  next
    assume "lost r q (ms_lost s) (st (ms_world s))"
    then show "mirror_done (cached (ms_up ?s)) r q (st (ms_world ?s)) \<or> lost r q (ms_lost ?s) (st (ms_world ?s))"
      using local_deletion_none [OF assms(2)] by (auto simp: lost_def)
  qed
  have gone: "settled st r ?s q \<or> (\<exists>ob. st w' (k, qk_Key q) = Some ob \<and> managed (dr_SourceID r) ob)"
    if "known r q k" "st (ms_world s) (k, qk_Key q) = Some ob" "managed (dr_SourceID r) ob" for q k ob
    using that local_deletion_mirror [OF assms(2) that(2,3)] by (auto simp: settled_def lost_def known_def)
  have same: "ms_workers ?s = ms_workers s" "ms_phase ?s = ms_phase s" "ms_world ?s = w'" by simp_all
  have "covered waiting st r s \<Longrightarrow> covered waiting st r ?s"
    unfolding covered_def due same using keep gone by blast
  then show ?thesis using assms(1) fresh by (simp add: tracking_def)
qed

text \<open>A step of worker \<open>i\<close>, seen from the keys\<close>

lemma tracking_work:
  assumes "tracking waiting st r s" "i < length (ms_workers s)" "ms_phase s \<noteq> Syncing"
    and s': "ms_workers s' = (ms_workers s)[i := wk]" "ms_up s' = ms_up s" "ms_events s' = ms_events s"
    and settled: "\<And>q k. known r q k \<Longrightarrow> settled st r s q \<Longrightarrow> settled st r s' q \<or> due waiting r s' q \<or> owes wk = Some q"
    and due: "\<And>q k. known r q k \<Longrightarrow> due waiting r s q \<Longrightarrow> due waiting r s' q \<or> owes wk = Some q"
    and owed: "\<And>q k. known r q k \<Longrightarrow> owes (ms_workers s ! i) = Some q \<Longrightarrow> settled st r s' q \<or> due waiting r s' q \<or> owes wk = Some q"
    and others: "\<And>j q x. j < length (ms_workers s) \<Longrightarrow> j \<noteq> i \<Longrightarrow> ms_workers s ! j = Loaded q x \<Longrightarrow>
      due waiting r s q \<Longrightarrow> due waiting r s' q"
    and fresh: "fresh waiting r s' wk"
  shows "tracking waiting st r s'"
proof -
  have mine: "wk \<in> set (ms_workers s')" using s'(1) assms(2) by (simp add: set_update_memI)
  have keep: "ms_workers s ! j \<in> set (ms_workers s')" if "j < length (ms_workers s)" "j \<noteq> i" for j
    using that s'(1) by (metis length_list_update nth_list_update_neq nth_mem)
  have "covered waiting st r s'"
    unfolding covered_def
  proof (intro allI impI)
    fix q k assume q: "known r q k"
    consider "settled st r s q" | "due waiting r s q" | j where "j < length (ms_workers s)" "owes (ms_workers s ! j) = Some q"
      using assms(1,3) q unfolding tracking_def covered_def by (metis in_set_conv_nth)
    then have "settled st r s' q \<or> due waiting r s' q \<or> (\<exists>wk \<in> set (ms_workers s'). owes wk = Some q)"
    proof cases
      case (3 j)
      then show ?thesis using owed [OF q] mine keep [of j] by (cases "j = i") auto
    qed (use settled [OF q] due [OF q] mine in auto)
    then show "settled st r s' q \<or> due waiting r s' q \<or> (\<exists>wk \<in> set (ms_workers s'). owes wk = Some q) \<or>
      ms_phase s' = Syncing \<and> (\<exists>ob. st (ms_world s') (k, qk_Key q) = Some ob \<and> managed (dr_SourceID r) ob)" by blast
  qed
  moreover have "fresh waiting r s' wk'" if in_s': "wk' \<in> set (ms_workers s')" for wk'
  proof -
    from in_s' obtain j where j: "j < length (ms_workers s)" "wk' = (ms_workers s)[i := wk] ! j"
      unfolding s'(1) by (auto simp: in_set_conv_nth)
    show ?thesis
    proof (cases "j = i")
      case False
      have "fresh waiting r s (ms_workers s ! j)" using assms(1) j(1) by (simp add: tracking_def)
      then have "fresh waiting r s' (ms_workers s ! j)"
        by (rule fresh_mono) (use same_source_refl s'(2) others j(1) False in auto)
      with j False show ?thesis by simp
    qed (use fresh j in simp)
  qed
  ultimately show ?thesis using assms(1) s'(2) by (simp add: tracking_def)
qed

lemma reconcile_snapshot:
  assumes "run_state (reconcileKey c (snapshot r key x) r nss key) w = ((err, nss'), w')" "fresh waiting r s (Loaded key x)"
  shows "mirror_frame r key (st w) (st w')"
    and "err = None \<Longrightarrow> known r key k \<Longrightarrow>
      settled st r (s\<lparr>ms_workers := wks, ms_namespaces := nss', ms_world := w', ms_lost := L\<rparr>) key \<or> due waiting r s key"
proof -
  have ids: "snapshot r key x k n = Inr ob \<Longrightarrow> id_of ob = (k, n)" for k n ob
    using assms(2) by (auto simp: snapshot_def fresh_def split: if_splits)
  note run = wp_run [OF reconcileKey_wp [OF ids] assms(1)]
  have kinds: "mirror_kinds r" using proper by (simp add: proper_def)
  show "mirror_frame r key (st w) (st w')" using run kinds by simp
  assume "err = None" and k: "known r key k"
  then have copied: "mirror_done (snapshot r key x) r key (st w')" using run kinds mirror_result_done by (auto simp: known_def)
  have x: "snapshot r key x k (qk_Key key) = x" using k by (simp add: snapshot_def known_def)
  have "x \<noteq> Inl e" if "e \<noteq> NotFound" for e
    using copied k that x by (auto simp: mirror_done_def known_def)
  moreover have "mirror_done (cached (ms_up s)) r key (st w')" if "same_source x (cached (ms_up s) k (qk_Key key))"
    by (rule mirror_done_same [OF k _ copied]) (simp add: x that)
  moreover have "(\<exists>e. x = Inl e \<and> e \<noteq> NotFound) \<or> same_source x (cached (ms_up s) k (qk_Key key)) \<or> due waiting r s key"
    using assms(2) k unfolding fresh_def known_def by blast
  ultimately show "settled st r (s\<lparr>ms_workers := wks, ms_namespaces := nss', ms_world := w', ms_lost := L\<rparr>) key \<or> due waiting r s key"
    by (auto simp: settled_def)
qed

lemma work_tracked:
  assumes tr: "tracking waiting st r s" and ord: "orderly ok processing closed r s" and ph: "ms_phase s = Running"
    and i: "i < length (ms_workers s)"
    and step: "worker_step c Q r (ms_up s) (ms_workers s ! i, ms_queue s, ms_namespaces s, ms_world s) (wk, q', nss', w')"
  shows "tracking waiting st r (s\<lparr>ms_workers := (ms_workers s)[i := wk], ms_queue := q', ms_namespaces := nss', ms_world := w',
      ms_lost := ms_lost s - reconciled r (ms_workers s ! i)\<rparr>)"
    (is "tracking _ _ _ ?s")
proof -
  have q: "ok (ms_queue s)" "\<not> closed (ms_queue s)" "exclusive (ms_workers s) (processing (ms_queue s))"
    using ord ph by (simp_all add: orderly_def)
  have ns: "ms_phase s \<noteq> Syncing" using ph by simp
  note work = tracking_work [OF tr i ns, of ?s wk, simplified]
  have same: "settled st r ?s k = settled st r s k" if "w' = ms_world s" "reconciled r (ms_workers s ! i) = {}" for k
    using that by (simp add: settled_def)
  have due: "due waiting r ?s k" if "waiting (ms_queue s) \<subseteq> waiting q'" "due waiting r s k" for k
    by (rule due_mono [OF that(2)]) (use that(1) in auto)
  from step show ?thesis
  proof (cases rule: worker_step.cases)
    case (get key)
    note law = Get_item [OF q(1) get(5)]
    have other: "due waiting r ?s k" if "due waiting r s k" "k \<noteq> key" for k
      by (rule due_mono [OF that(1)]) (use that(2) law in auto)
    have "k \<noteq> key" if "j < length (ms_workers s)" "ms_workers s ! j = Loaded k x" for j k x
    proof -
      have "holders (ms_workers s) j = Some k" using that by (simp add: holders_def)
      then show ?thesis using law q(3) by (auto simp: exclusive_def ran_def)
    qed
    then show ?thesis
      by (intro work) (use get other in \<open>auto simp: fresh_def settled_def\<close>)
  next
    case (shutdown)
    then show ?thesis using Get_shutdown [OF q(1) shutdown(5)] q(2) by simp
  next
    case (load key x)
    have "fresh waiting r ?s (Loaded key x)"
      unfolding fresh_def
    proof (intro allI impI, elim conjE)
      fix k y n assume eq: "Loaded key x = Loaded k y" and n: "map_of (dr_kinds r) (qk_Kind k) = Some n"
      then have "y = cached (ms_up s) n (qk_Key k) \<or> (\<exists>e. y = Inl e \<and> e \<noteq> NotFound)" using load(6) by simp
      moreover have "cached_ids (ms_up s)" using tr by (simp add: tracking_def)
      ultimately show "(\<forall>ob. y = Inr ob \<longrightarrow> id_of ob = (n, qk_Key k)) \<and> (watched r k \<longrightarrow> (\<exists>e. y = Inl e \<and> e \<noteq> NotFound) \<or>
          same_source y (cached (ms_up ?s) n (qk_Key k)) \<or> due waiting r ?s k)"
        by (auto simp: cached_ids_def cached_def same_source_def split: option.splits)
    qed
    then show ?thesis by (intro work) (use load due in \<open>auto simp: settled_def\<close>)
  next
    case (reconcile key x err)
    have fresh: "fresh waiting r s (Loaded key x)" using tr i reconcile(1) nth_mem [OF i] by (simp add: tracking_def)
    note snap = reconcile_snapshot [OF reconcile(4) fresh]
    have mine: "settled st r ?s key \<or> due waiting r ?s key \<or> owes wk = Some key" if "known r key k" for k
    proof (cases err)
      case None
      then show ?thesis using snap(2) [OF None that] due [of key] reconcile(3) by (auto simp: settled_def)
    qed (simp add: reconcile(2))
    moreover have "settled st r ?s k" if "known r k n" "k \<noteq> key" "settled st r s k" for k n
    proof -
      note frame = frame_settled [OF proper that(1,2) snap(1)]
      have "lost r k (ms_lost s - reconciled r (Loaded key x)) (st w') = lost r k (ms_lost s) (st w')"
        using that(1) frame(3) by (auto simp: lost_def known_def)
      then show ?thesis using that(3) frame(1,2) reconcile(1) by (simp add: settled_def)
    qed
    ultimately show ?thesis
      by (intro work) (use reconcile due in \<open>auto simp: fresh_def\<close>)
  next
    case (release key err)
    show ?thesis by (intro work) (use release due Done_law [OF q(1)] in \<open>cases err; auto simp: fresh_def settled_def\<close>)+
  next
    case (retry key err)
    have "waiting q' = insert key (waiting (ms_queue s))" using retry AddRateLimited_law [OF q(1)] q(2) by simp
    then show ?thesis by (intro work) (use retry due in \<open>auto simp: fresh_def settled_def due_def\<close>)
  next
    case (forget key)
    show ?thesis by (intro work) (use forget due Forget_law [OF q(1)] in \<open>auto simp: fresh_def settled_def\<close>)
  qed
qed

lemma tracking_step:
  assumes step: "system_step c st Q r page s s'" and ord: "orderly ok processing closed r s"
    and tr: "tracking waiting st r s" and ph: "ms_phase s' = Syncing \<or> ms_phase s' = Running"
  shows "tracking waiting st r s' \<and> (ms_phase s = Syncing \<or> ms_phase s = Running)"
  using step
proof (cases rule: system_step.cases)
  case (cache_changes name k new key tombstone ev)
  then show ?thesis using tracking_change [OF tr cache_changes(2-4)] ph by simp
next
  case (deliver evs name ev evs')
  have p: "ms_phase s = Syncing \<or> ms_phase s = Running" using ph deliver(1) by simp
  then have q: "ok (ms_queue s)" "\<not> closed (ms_queue s)" using ord by (auto simp: orderly_def)
  have "due waiting r s' q" if "due waiting r s q" for q
    using that deliver Add_law [OF q(1)] q(2) by (auto simp: due_def split: option.splits)
  with tracking_quiet [OF tr, of s'] deliver(1) p show ?thesis by simp
next
  case (elapse q')
  have p: "ms_phase s = Syncing \<or> ms_phase s = Running" using ph elapse(1) by simp
  then have "waiting q' = waiting (ms_queue s)" using ord Elapse_law [OF _ elapse(2)] by (auto simp: orderly_def)
  with tracking_quiet [OF tr, of s'] elapse(1) p show ?thesis by (simp add: due_def)
next
  case (synced keys)
  then show ?thesis using tracking_synced [OF tr ord synced(2,3)] by simp
next
  case (deleted i w')
  then show ?thesis using tracking_deleted [OF tr deleted(2)] ph by simp
next
  case (work i wk q' nss' w')
  have "ms_phase s = Running" using ph work(1,2) ord by (auto simp: orderly_def)
  then show ?thesis using work_tracked [OF tr ord _ work(2,3)] work(1) by simp
qed (use ph in simp_all)

lemma reachable_orderly:
  assumes "reachable c st Q r page q0 w0 s" "ok q0" "processing q0 = {}" "\<not> closed q0"
  shows "orderly ok processing closed r s"
  using assms
proof (induction rule: reachable.induct)
  case start
  then show ?case by (simp add: initial_system_def orderly_def exclusive_idle)
qed (simp add: orderly_step)

lemma initial_tracking: "tracking waiting st r (initial_system q0 w0)"
proof -
  have "settled st r (initial_system q0 w0) q \<or> (\<exists>ob. st w0 (k, qk_Key q) = Some ob \<and> managed (dr_SourceID r) ob)"
    if "known r q k" for q k
    using that by (auto simp: settled_def mirror_done_def known_def initial_system_def cached_def no_mirror_def)
  then show ?thesis by (auto simp: tracking_def covered_def initial_system_def cached_ids_def)
qed

lemma reachable_tracking:
  assumes "reachable c st Q r page q0 w0 s" "ok q0" "processing q0 = {}" "\<not> closed q0"
    and "ms_phase s = Syncing \<or> ms_phase s = Running"
  shows "tracking waiting st r s"
  using assms
proof (induction rule: reachable.induct)
  case start
  show ?case by (rule initial_tracking)
next
  case (step s s')
  note ord = reachable_orderly [OF step(1) step(4-6)]
  have "ms_phase s = Syncing \<or> ms_phase s = Running" using step(2,7) by (cases rule: system_step.cases) auto
  with step tracking_step [OF step(2) ord] show ?case by blast
qed

end

section \<open>An example run\<close>

definition ref_pages :: "kobject list \<Rightarrow> kind \<Rightarrow> string \<Rightarrow> strmap \<Rightarrow> string \<Rightarrow> apierr + kobject list \<times> string" where
  "ref_pages w k ns labels token =
     Inr (filter (\<lambda>ob. ref_st w (id_of ob) = Some ob \<and> kind_of ob = k \<and> selects ns labels ob) w, [])"

interpretation reference_mirror: mirror_setup ref_client ref_st ref_workqueue ref_ok ref_waiting ref_processing rq_closed
  router_mirror ref_pages
proof
  show "proper router_mirror" using New_proper [OF router_mirror_new(1), of "[]"] router_mirror_new(2) by simp
  have stored: "ob \<in> set w" if "ref_st w (id_of ob) = Some ob" for w ob
    using map_of_SomeD [OF that [unfolded ref_st_def]] by auto
  have "items = filter (\<lambda>ob. ref_st w (id_of ob) = Some ob \<and> kind_of ob = k \<and> selects ns labels ob) w"
    if "pages (ref_pages w k ns labels) [] items" for w k ns labels items
    using that by (cases rule: pages.cases) (simp_all add: ref_pages_def)
  then show "lists_mirrors (ref_pages w) router_mirror (ref_st w)" for w
    using stored unfolding lists_mirrors_def by fastforce
qed

definition example_up :: upstream where
  "example_up = (\<lambda>k key. None)(KLocation := (\<lambda>key. None)(qk_Key mirror_key := Some mirror_source))"

definition at_work ::
  "worker \<Rightarrow> downstreamQueueKey ref_queue \<Rightarrow> string list \<Rightarrow> kobject list \<Rightarrow> (downstreamQueueKey ref_queue, kobject list) mirror_system" where
  "at_work wk q nss w = \<lparr>ms_phase = Running, ms_queue = q, ms_workers = wk # replicate 15 Idle, ms_events = [],
     ms_up = example_up, ms_namespaces = nss, ms_world = w, ms_lost = {}\<rparr>"

abbreviation example_reachable :: "kobject list \<Rightarrow> (downstreamQueueKey ref_queue, kobject list) mirror_system \<Rightarrow> bool" where
  "example_reachable \<equiv> reachable ref_client ref_st ref_workqueue router_mirror ref_pages empty_queue"

lemma at_work_step:
  assumes "example_reachable w0 (at_work wk q nss w)"
    and "worker_step ref_client ref_workqueue router_mirror example_up (wk, q, nss, w) (wk', q', nss', w')"
  shows "example_reachable w0 (at_work wk' q' nss' w')"
  using reachable.step [OF assms(1) system_step.work [of 0]] assms(2) by (simp add: at_work_def)

text \<open>The source appears, the caches are synced, and the first worker takes its key and loads it.\<close>

lemma example_started:
  assumes "enqueueExistingMirrors (ref_pages w) router_mirror = Some (None, keys)" "set keys \<subseteq> {mirror_key}" "distinct keys"
  shows "example_reachable w (at_work Idle (ref_Add mirror_key empty_queue) [] w)"
proof -
  let ?s1 = "(initial_system empty_queue w)\<lparr>ms_up := example_up, ms_events := [(''Location'', Added mirror_source)]\<rparr>"
  let ?s2 = "?s1\<lparr>ms_phase := Running, ms_queue := fold ref_Add keys empty_queue, ms_workers := replicate 16 Idle\<rparr>"
  have facts: "(''Location'', KLocation) \<in> set (dr_kinds router_mirror)" "id_of mirror_source = (KLocation, qk_Key mirror_key)"
    "handler router_mirror ''Location'' (Added mirror_source) = Some mirror_key" "dr_Workers router_mirror = 16" by code_simp+
  have "system_step ref_client ref_st ref_workqueue router_mirror ref_pages (initial_system empty_queue w) ?s1"
    using system_step.cache_changes [of "''Location''" KLocation router_mirror "Some mirror_source" "qk_Key mirror_key"
        "initial_system empty_queue w" False "Added mirror_source" ref_client ref_st ref_workqueue ref_pages] facts(1,2)
    by (simp add: initial_system_def cache_event_def example_up_def)
  moreover have "system_step ref_client ref_st ref_workqueue router_mirror ref_pages ?s1 ?s2"
    using system_step.synced [of ?s1 ref_pages router_mirror keys ref_client ref_st ref_workqueue] assms(1) facts(4)
    by (simp add: initial_system_def ref_workqueue_def)
  moreover have "system_step ref_client ref_st ref_workqueue router_mirror ref_pages ?s2
      (?s2\<lparr>ms_events := [], ms_queue := ref_Add mirror_key (fold ref_Add keys empty_queue)\<rparr>)"
    using system_step.deliver [of ?s2 "[]" "''Location''" "Added mirror_source" "[]" ref_client ref_st ref_workqueue router_mirror ref_pages] facts(3)
    by (simp add: initial_system_def ref_workqueue_def)
  ultimately have "example_reachable w (?s2\<lparr>ms_events := [], ms_queue := ref_Add mirror_key (fold ref_Add keys empty_queue)\<rparr>)"
    by (meson reachable.start reachable.step)
  moreover have "keys = [] \<or> keys = [mirror_key]" using assms(2,3) by (cases keys rule: list.exhaust; cases "tl keys") auto
  then have "ref_Add mirror_key (fold ref_Add keys empty_queue) = ref_Add mirror_key empty_queue" by (auto simp: ref_Add_def)
  ultimately show ?thesis by (simp add: at_work_def initial_system_def numeral_eq_Suc)
qed

text \<open>The queue while the first worker has the key, and afterwards\<close>

definition busy_queue :: "downstreamQueueKey ref_queue" where
  "busy_queue = empty_queue\<lparr>rq_processing := [mirror_key]\<rparr>"

lemma example_loaded:
  assumes "enqueueExistingMirrors (ref_pages w) router_mirror = Some (None, keys)" "set keys \<subseteq> {mirror_key}" "distinct keys"
  shows "example_reachable w (at_work (Loaded mirror_key (Inr mirror_source)) busy_queue [] w)"
proof -
  have "ref_Get (ref_Add mirror_key empty_queue) = Some (Item mirror_key, busy_queue)" by code_simp
  then have "example_reachable w (at_work (Got mirror_key) busy_queue [] w)"
    by (intro at_work_step [OF example_started [OF assms]] worker_step.get) (simp add: ref_workqueue_def)
  then show ?thesis
    by (rule at_work_step) (auto intro!: worker_step.load simp: cached_def example_up_def router_mirror_def mirror_key_def)
qed

lemma example_finished:
  assumes "example_reachable w0 (at_work (Loaded mirror_key (Inr mirror_source)) busy_queue [] w0)"
    and "run_state (reconcileKey ref_client (snapshot router_mirror mirror_key (Inr mirror_source)) router_mirror [] mirror_key) w0 = ((None, nss), w)"
  shows "example_reachable w0 (at_work Idle empty_queue nss w)"
proof -
  from at_work_step [OF assms(1) worker_step.reconcile [OF assms(2)]]
  have "example_reachable w0 (at_work (Released mirror_key None) (q_Done ref_workqueue mirror_key busy_queue) nss w)"
    by (rule at_work_step) (rule worker_step.release)
  moreover have "q_Done ref_workqueue mirror_key busy_queue = empty_queue" by code_simp
  ultimately show ?thesis using at_work_step worker_step.forget [of ref_client ref_workqueue] by (simp add: ref_workqueue_def)
qed

lemma example_loaded_empty: "example_reachable [] (at_work (Loaded mirror_key (Inr mirror_source)) busy_queue [] [])"
  by (rule example_loaded [of _ "[]"]) code_simp+

lemma example_at_rest: "example_reachable [] (at_work Idle empty_queue [''team-a''] mirror_world)"
  by (rule example_finished [OF example_loaded_empty]) code_simp

section \<open>Properties\<close>

text \<open>
  C31. Two workers never work on the same key: in every state that the running reconciler can reach, whatever the caches,
  the handlers, the API server and the clock do, the keys that workers have taken from the queue and not
  given back are different.
\<close>

theorem workers_never_share_key:
  assumes "mirror_setup c st Q ok waiting processing closed r page"
    and "ok q0" "processing q0 = {}" "\<not> closed q0" and "reachable c st Q r page q0 w0 s"
    and "i < length (ms_workers s)" "j < length (ms_workers s)" "i \<noteq> j" "held (ms_workers s ! i) = Some key"
  shows "held (ms_workers s ! j) \<noteq> Some key"
proof -
  have "exclusive (ms_workers s) (processing (ms_queue s))"
    using mirror_setup.reachable_orderly [OF assms(1,5,2-4)] by (simp add: orderly_def)
  with assms(6-9) show ?thesis by (auto simp: exclusive_def holders_def)
qed

theorem workers_never_share_key_witness: "held (ms_workers (at_work (Loaded mirror_key (Inr mirror_source)) busy_queue [] []) ! 1) \<noteq> Some mirror_key"
  by (rule workers_never_share_key [OF reference_mirror.mirror_setup_axioms _ _ _ example_loaded_empty, of 0]) (simp_all add: at_work_def)

text \<open>
  C3. No change is lost: whenever the reconciler runs, all handlers have been called, the queue has nothing left and
  the workers are idle, every watched key is in order. When the upstream cache has the object, the local object is
  labelled with the source, and it has the content of the upstream object unless it is being deleted; there is no local
  object only if someone else deleted it since the key was last reconciled. When the upstream object is gone, there is no
  local object labelled with the source, apart from one that is being deleted. Changes between the read of the cache and the write
  of the mirror are covered, and so are mirrors that were there at the start.
\<close>

theorem mirror_is_complete_at_rest:
  assumes "mirror_setup c st Q ok waiting processing closed r page"
    and "ok q0" "processing q0 = {}" "\<not> closed q0" and "reachable c st Q r page q0 w0 s"
    and "ms_phase s = Running" "ms_events s = []" "waiting (ms_queue s) = {}" "list_all (\<lambda>wk. wk = Idle) (ms_workers s)"
    and "map_of (dr_kinds r) (qk_Kind key) = Some k" "watched r key"
  shows "case ms_up s k (qk_Key key) of
      Some source \<Rightarrow> (case st (ms_world s) (k, qk_Key key) of
          Some ob \<Rightarrow> managed (dr_SourceID r) ob \<and>
            (content ob = label_source (dr_SourceID r) (content source) \<or> om_DeletionTimestamp (obj_meta ob) \<noteq> None)
        | None \<Rightarrow> (k, qk_Key key) \<in> ms_lost s)
    | None \<Rightarrow> (case st (ms_world s) (k, qk_Key key) of
          Some ob \<Rightarrow> \<not> managed (dr_SourceID r) ob \<or> om_DeletionTimestamp (obj_meta ob) \<noteq> None
        | None \<Rightarrow> True)"
proof -
  have "covered waiting st r s"
    using mirror_setup.reachable_tracking [OF assms(1,5,2-4)] assms(6) by (simp add: tracking_def)
  then have "settled st r s key \<or> due waiting r s key \<or> (\<exists>wk \<in> set (ms_workers s). owes wk = Some key)"
    using assms(6,10,11) unfolding covered_def known_def by auto
  moreover have "\<not> due waiting r s key" using assms(7,8) by (simp add: due_def)
  moreover have "owes wk \<noteq> Some key" if "wk \<in> set (ms_workers s)" for wk using assms(9) that by (auto simp: list_all_iff)
  ultimately have "settled st r s key" by blast
  then show ?thesis using assms(10)
    by (auto simp: settled_def mirror_done_def lost_def cached_def mirrors_def no_mirror_def split: option.splits)
qed

theorem mirror_is_complete_at_rest_witness:
  "\<exists>ob. ref_st mirror_world (KLocation, qk_Key mirror_key) = Some ob \<and> content ob = label_source ''eu'' (content mirror_source)"
proof -
  have facts: "dr_SourceID router_mirror = ''eu''" "example_up KLocation (qk_Key mirror_key) = Some mirror_source"
    "map_option (\<lambda>ob. om_DeletionTimestamp (obj_meta ob)) (ref_st mirror_world (KLocation, qk_Key mirror_key)) = Some None" by code_simp+
  show ?thesis
    using mirror_is_complete_at_rest [OF reference_mirror.mirror_setup_axioms _ _ _ example_at_rest, of mirror_key KLocation] facts
    by (auto simp: at_work_def watched_def router_mirror_def mirror_key_def list_all_iff split: option.splits)
qed



text \<open>
  What the result of \<open>Start\<close> says: when it returns without an error, every worker has ended and the queue is shut down,
  or the workers were never started because the cache stopped before it was synced; an error from before
  the workers were started (the caches did not sync, or existing mirrors could not be listed) leaves no worker behind.
\<close>

theorem start_returns_cleanly:
  assumes "mirror_setup c st Q ok waiting processing closed r page"
    and "ok q0" "processing q0 = {}" "\<not> closed q0" and "reachable c st Q r page q0 w0 s" "ms_phase s = Returned e"
  shows "case e of
      None \<Rightarrow> set (ms_workers s) \<subseteq> {Stopped} \<and> (closed (ms_queue s) \<or> ms_workers s = [])
    | Some (CacheStopped m) \<Rightarrow> True
    | Some StoppedUnexpectedly \<Rightarrow> True
    | Some err \<Rightarrow> ms_workers s = []"
proof -
  have "orderly ok processing closed r s" by (rule mirror_setup.reachable_orderly [OF assms(1,5,2-4)])
  then have phase: "at_phase r (ms_workers s) (closed (ms_queue s)) (Returned e)" and
    stopped: "Stopped \<in> set (ms_workers s) \<longrightarrow> closed (ms_queue s)"
    using assms(6) by (simp_all add: orderly_def)
  show ?thesis
  proof (cases e)
    case None
    then have "set (ms_workers s) \<subseteq> {Stopped}" using phase by (auto simp: list_all_iff)
    moreover from this have "closed (ms_queue s) \<or> ms_workers s = []" using stopped by (cases "ms_workers s") auto
    ultimately show ?thesis using None by simp
  qed (use phase in \<open>auto split: start_error.splits\<close>)
qed

theorem start_returns_cleanly_witness:
  "ms_workers ((initial_system empty_queue [])\<lparr>ms_phase := Returned (Some NotSynced)\<rparr> :: (downstreamQueueKey ref_queue, kobject list) mirror_system) = []"
proof -
  let ?s = "(initial_system empty_queue [])\<lparr>ms_phase := Returned (Some NotSynced)\<rparr>"
  have "example_reachable [] ?s"
    by (rule reachable.step [OF reachable.start system_step.not_synced]) (simp_all add: initial_system_def)
  from start_returns_cleanly [OF reference_mirror.mirror_setup_axioms _ _ _ this] show ?thesis by (simp add: initial_system_def)
qed

end
