(* ===== verification/Encoding.thy ===== *)
theory Encoding
  imports Net_Roundtrip Zero_Values "HOL-Library.Code_Target_Nat"
begin

text \<open>
  The encodings of Go's standard library that the builders and controllers use: \<open>%x\<close> of a byte
  string and \<open>base64.StdEncoding\<close>. The hashes \<open>md5.Sum\<close> and \<open>sha256.Sum256\<close>, \<open>json.Marshal\<close> and
  \<open>controllerutil.SetControllerReference\<close> are the fields of a record \<open>golib\<close> that the definitions
  take as an argument. A byte is a \<open>char\<close>.
\<close>

section \<open>Hexadecimal\<close>

definition hex_byte :: "char \<Rightarrow> string" where
  "hex_byte c = [hex_char (of_char c div 16), hex_char (of_char c mod 16)]"

definition hex_bytes :: "string \<Rightarrow> string" where
  "hex_bytes s = concat (map hex_byte s)"

lemma length_hex_bytes [simp]: "length (hex_bytes s) = 2 * length s"
  by (induction s) (simp_all add: hex_bytes_def hex_byte_def)

lemma of_char_less [simp]: "of_char c < (256::nat)"
  by simp

lemma hex_char_inject: "m < 16 \<Longrightarrow> n < 16 \<Longrightarrow> hex_char m = hex_char n \<longleftrightarrow> m = n"
  by (metis hex_digit_hex_char)

lemma hex_byte_inject: "hex_byte c = hex_byte d \<longleftrightarrow> c = d"
proof
  assume "hex_byte c = hex_byte d"
  then have "of_char c div 16 = (of_char d div 16 :: nat)" "of_char c mod 16 = (of_char d mod 16 :: nat)"
    using hex_char_inject [of "of_char c div 16" "of_char d div 16"]
    by (auto simp: hex_byte_def hex_char_inject less_mult_imp_div_less)
  then have "of_char c = (of_char d :: nat)" by (metis div_mult_mod_eq)
  then show "c = d" by simp
qed simp

lemma hex_bytes_Cons: "hex_bytes (c # s) = hex_byte c @ hex_bytes s"
  by (simp add: hex_bytes_def)

lemma length_hex_byte [simp]: "length (hex_byte c) = 2"
  by (simp add: hex_byte_def)

lemma hex_bytes_inject [simp]: "hex_bytes s = hex_bytes t \<longleftrightarrow> s = t"
proof (induction s arbitrary: t)
  case Nil
  have "length (hex_bytes t) = 0 \<longleftrightarrow> t = []" by simp
  then show ?case by (auto simp: hex_bytes_def)
next
  case (Cons c s)
  show ?case
  proof (cases t)
    case Nil
    then show ?thesis by (simp add: hex_bytes_Cons hex_byte_def) (simp add: hex_bytes_def)
  next
    case (Cons d t')
    then show ?thesis by (simp add: hex_bytes_Cons append_eq_append_conv hex_byte_inject Cons.IH)
  qed
qed

section \<open>Base64\<close>

definition enc6 :: "nat \<Rightarrow> char" where
  "enc6 n = char_of (if n < 26 then 65 + n else if n < 52 then 71 + n else if n < 62 then n - 4
     else if n = 62 then 43 else 47)"

definition dec6 :: "char \<Rightarrow> nat option" where
  "dec6 c = (let n = of_char c in
     if 65 \<le> n \<and> n \<le> 90 then Some (n - 65) else if 97 \<le> n \<and> n \<le> 122 then Some (n - 71)
     else if 48 \<le> n \<and> n \<le> 57 then Some (n + 4) else if n = 43 then Some 62 else if n = 47 then Some 63 else None)"

fun base64_encode :: "string \<Rightarrow> string" where
  "base64_encode [] = []"
| "base64_encode [a] = (let x = of_char a in [enc6 (x div 4), enc6 (x mod 4 * 16), CHR ''='', CHR ''=''])"
| "base64_encode [a, b] = (let x = of_char a; y = of_char b in
     [enc6 (x div 4), enc6 (x mod 4 * 16 + y div 16), enc6 (y mod 16 * 4), CHR ''=''])"
| "base64_encode (a # b # c # s) = (let x = of_char a; y = of_char b; z = of_char c in
     [enc6 (x div 4), enc6 (x mod 4 * 16 + y div 16), enc6 (y mod 16 * 4 + z div 64), enc6 (z mod 64)]
       @ base64_encode s)"

text \<open>The bytes of one group of four characters\<close>

definition byte1 :: "nat \<Rightarrow> nat \<Rightarrow> char" where "byte1 p q = char_of (p * 4 + q div 16)"
definition byte2 :: "nat \<Rightarrow> nat \<Rightarrow> char" where "byte2 q r = char_of (q mod 16 * 16 + r div 4)"
definition byte3 :: "nat \<Rightarrow> nat \<Rightarrow> char" where "byte3 r t = char_of (r mod 4 * 64 + t)"

fun decode_groups :: "string \<Rightarrow> string option" where
  "decode_groups [] = Some []"
| "decode_groups (a # b # c # d # s) =
     (case (dec6 a, dec6 b) of
        (Some p, Some q) \<Rightarrow>
          if d = CHR ''='' then
            if s \<noteq> [] then None
            else if c = CHR ''='' then Some [byte1 p q]
            else (case dec6 c of None \<Rightarrow> None | Some r \<Rightarrow> Some [byte1 p q, byte2 q r])
          else (case (dec6 c, dec6 d, decode_groups s) of
              (Some r, Some t, Some rest) \<Rightarrow> Some (byte1 p q # byte2 q r # byte3 r t # rest)
            | _ \<Rightarrow> None)
      | _ \<Rightarrow> None)"
| "decode_groups _ = None"

text \<open>Line breaks in the input are skipped.\<close>

definition base64_decode :: "string \<Rightarrow> string option" where
  "base64_decode s = decode_groups (filter (\<lambda>c. c \<noteq> CHR 0x0A \<and> c \<noteq> CHR 0x0D) s)"

lemma of_char_enc6:
  "n < 64 \<Longrightarrow> of_char (enc6 n) = (if n < 26 then 65 + n else if n < 52 then 71 + n else if n < 62 then n - 4
     else if n = 62 then 43 else 47)"
  by (simp add: enc6_def)

lemma enc6:
  assumes "n < 64"
  shows "dec6 (enc6 n) = Some n" "enc6 n \<noteq> CHR ''=''" "enc6 n \<noteq> CHR 0x0A" "enc6 n \<noteq> CHR 0x0D"
proof -
  show "dec6 (enc6 n) = Some n" using assms by (auto simp: dec6_def of_char_enc6 Let_def)
  have "of_char (enc6 n) \<noteq> (61::nat)" "of_char (enc6 n) \<noteq> (10::nat)" "of_char (enc6 n) \<noteq> (13::nat)"
    using assms by (auto simp: of_char_enc6)
  then show "enc6 n \<noteq> CHR ''=''" "enc6 n \<noteq> CHR 0x0A" "enc6 n \<noteq> CHR 0x0D" by auto
qed

abbreviation byte_val :: "char \<Rightarrow> nat" where
  "byte_val \<equiv> of_char"

lemma byte_parts: "byte_val a div 4 < 64" "byte_val a div 16 < 16" "byte_val a div 64 < 4"
  using of_char_less [of a] by (simp_all add: less_mult_imp_div_less)

lemma group_bounds:
  "byte_val a div 4 < 64" "byte_val a mod 4 * 16 < 64" "byte_val a mod 4 * 16 + byte_val b div 16 < 64"
  "byte_val b mod 16 * 4 < 64" "byte_val b mod 16 * 4 + byte_val c div 64 < 64" "byte_val c mod 64 < 64"
proof -
  have m: "byte_val a mod 4 < 4" "byte_val b mod 16 < 16" by simp_all
  show "byte_val a div 4 < 64" by (rule byte_parts)
  show "byte_val a mod 4 * 16 < 64" "byte_val b mod 16 * 4 < 64" "byte_val c mod 64 < 64" by simp_all
  show "byte_val a mod 4 * 16 + byte_val b div 16 < 64" using m byte_parts(2) [of b] by linarith
  show "byte_val b mod 16 * 4 + byte_val c div 64 < 64" using m byte_parts(3) [of c] by linarith
qed

lemma join_parts:
  fixes u v k :: nat
  assumes "v < k"
  shows "(u * k + v) div k = u" "(u * k + v) mod k = v"
  using assms by simp_all

lemma group_bytes:
  "byte1 (byte_val a div 4) (byte_val a mod 4 * 16) = a"
  "byte1 (byte_val a div 4) (byte_val a mod 4 * 16 + byte_val b div 16) = a"
  "byte2 (byte_val a mod 4 * 16 + byte_val b div 16) (byte_val b mod 16 * 4) = b"
  "byte2 (byte_val a mod 4 * 16 + byte_val b div 16) (byte_val b mod 16 * 4 + byte_val c div 64) = b"
  "byte3 (byte_val b mod 16 * 4 + byte_val c div 64) (byte_val c mod 64) = c"
  unfolding byte1_def byte2_def byte3_def join_parts [OF byte_parts(2)] join_parts [OF byte_parts(3)] by simp_all

lemma base64_encode_plain: "c \<in> set (base64_encode s) \<Longrightarrow> c \<noteq> CHR 0x0A \<and> c \<noteq> CHR 0x0D"
proof (induction s rule: base64_encode.induct)
  case (2 a)
  then show ?case using group_bounds(1) [of a] group_bounds(2) [of a] enc6(3,4) by (auto simp: Let_def)
next
  case (3 a b)
  then show ?case using group_bounds(1) [of a] group_bounds(3) [of a b] group_bounds(4) [of b] enc6(3,4) by (auto simp: Let_def)
next
  case (4 a b c s)
  then show ?case using group_bounds(1) [of a] group_bounds(3) [of a b] group_bounds(5) [of b c] group_bounds(6) [of c] enc6(3,4) by (auto simp: Let_def)
qed simp

lemma decode_groups_encode: "decode_groups (base64_encode s) = Some s"
proof (induction s rule: base64_encode.induct)
  case (2 a)
  show ?case using enc6(1) [OF group_bounds(1)] enc6(1) [OF group_bounds(2)] by (simp add: Let_def group_bytes)
next
  case (3 a b)
  show ?case
    using enc6(1) [OF group_bounds(1)] enc6(1) [OF group_bounds(3)] enc6(1,2) [OF group_bounds(4)]
    by (simp add: Let_def group_bytes)
next
  case (4 a b c s)
  then show ?case
    using enc6(1) [OF group_bounds(1)] enc6(1) [OF group_bounds(3)] enc6(1) [OF group_bounds(5)]
      enc6(1,2) [OF group_bounds(6)]
    by (simp add: Let_def group_bytes)
qed simp

lemma base64_roundtrip [simp]: "base64_decode (base64_encode s) = Some s"
proof -
  have "filter (\<lambda>c. c \<noteq> CHR 0x0A \<and> c \<noteq> CHR 0x0D) (base64_encode s) = base64_encode s"
    using base64_encode_plain by (simp add: filter_id_conv)
  then show ?thesis by (simp add: base64_decode_def decode_groups_encode)
qed

lemma base64_encode_Nil_iff: "base64_encode s = [] \<longleftrightarrow> s = []"
  by (cases s rule: base64_encode.cases) (simp_all add: Let_def)

section \<open>The library as an argument\<close>

text \<open>The values that Helm charts are given are resources of these types.\<close>

datatype helm_resource = HService Service | HPod Pod | HCoreService CoreService | HIngress Ingress

record golib =
  g_md5 :: "string \<Rightarrow> string"
  g_sha256 :: "string \<Rightarrow> string"
  g_json :: "kobject \<Rightarrow> string option"
  g_json_app :: "Application \<Rightarrow> string option"
  g_json_values :: "helm_resource list \<Rightarrow> string option"
  g_json_challenge :: "ChallengeSpec \<Rightarrow> string option"
  g_SetControllerReference :: "kobject \<Rightarrow> kobject \<Rightarrow> string + kobject"

text \<open>
  What the code relies on: a hash has its length, and a controller reference that is set makes the
  owner the controller of the object and changes nothing but its owner references.
\<close>

locale go_library =
  fixes g :: golib
  assumes md5_length: "length (g_md5 g s) = 16"
    and sha256_length: "length (g_sha256 g s) = 32"
    and reference_set: "g_SetControllerReference g owner ob = Inr ob' \<Longrightarrow>
      IsControlledBy (obj_meta ob') (obj_meta owner) \<and>
      ob' = map_meta (\<lambda>m. m\<lparr>om_OwnerReferences := om_OwnerReferences (obj_meta ob')\<rparr>) ob"

text \<open>The errors of the controllers that are not errors of the API server\<close>

datatype ctl_error =
    ApiError apierr | MarshalError | UnknownBuilder string | ReferenceError string
  | NoZone string | OtherProject | Base64Error | NoOwner string | IndexPanic

text \<open>\<open>HashValues\<close> and the hash of every \<open>Build\<close>\<close>

definition HashValues :: "(string \<Rightarrow> string) \<Rightarrow> ('a \<Rightarrow> string option) \<Rightarrow> 'a \<Rightarrow> ctl_error + string" where
  "HashValues digest json values =
     (case json values of None \<Rightarrow> Inl MarshalError | Some valuesBytes \<Rightarrow> Inr (hex_bytes (digest valuesBytes)))"

definition ValuesHashAnnotation :: string where
  "ValuesHashAnnotation = ''edgedcnx.com/values-hash''"

definition hash_annotation :: "string \<Rightarrow> strmap" where
  "hash_annotation hash = fmupd ValuesHashAnnotation hash fmempty"

text \<open>A reference library: the hashes pad or cut, JSON is the name, the reference is appended.\<close>

definition reference_go :: golib where
  "reference_go = \<lparr>g_md5 = (\<lambda>s. take 16 (s @ replicate 16 CHR 0x00)),
     g_sha256 = (\<lambda>s. take 32 (s @ replicate 32 CHR 0x00)),
     g_json = (\<lambda>ob. Some (om_Name (obj_meta ob))), g_json_app = (\<lambda>a. Some (om_Name (app_Meta a))),
     g_json_values = (\<lambda>vs. Some ''values''), g_json_challenge = (\<lambda>ch. Some (chs_Token ch)),
     g_SetControllerReference = (\<lambda>owner ob.
       case GetControllerOf (obj_meta ob) of
         None \<Rightarrow> Inr (map_meta (\<lambda>m. m\<lparr>om_OwnerReferences := om_OwnerReferences m @
             [\<lparr>or_APIVersion = [], or_Kind = [], or_Name = om_Name (obj_meta owner),
               or_UID = om_UID (obj_meta owner), or_Controller = Some True\<rparr>]\<rparr>) ob)
       | Some ref \<Rightarrow> if or_UID ref = om_UID (obj_meta owner) then Inr ob else Inl ''already owned'')\<rparr>"

lemma find_append: "List.find P (xs @ ys) = (case List.find P xs of None \<Rightarrow> List.find P ys | Some x \<Rightarrow> Some x)"
  by (induction xs) simp_all

interpretation reference_go: go_library reference_go
proof
  show "length (g_md5 reference_go s) = 16" "length (g_sha256 reference_go s) = 32" for s
    by (simp_all add: reference_go_def)
next
  fix owner ob ob'
  assume "g_SetControllerReference reference_go owner ob = Inr ob'"
  then show "IsControlledBy (obj_meta ob') (obj_meta owner) \<and>
      ob' = map_meta (\<lambda>m. m\<lparr>om_OwnerReferences := om_OwnerReferences (obj_meta ob')\<rparr>) ob"
    by (cases ob) (auto simp: reference_go_def IsControlledBy_def GetControllerOf_def find_append split: option.splits if_splits)
qed

end
