(* ===== verification/Builders.thy ===== *)
theory Builders
  imports Encoding
begin

text \<open>
  The builders of \<open>internal/builder\<close>: they fill in a resource and stamp it with a hash of itself.
  A builder struct holds one resource, so a builder is that resource and a method returns it
  changed. A method that would dereference a nil pointer returns \<open>IndexPanic\<close>. The ingress builder
  has its own theory.
\<close>

section \<open>Types\<close>

record ThrowerOptions =
  to_ThrowerChartName :: string
  to_ThrowerChartVersion :: string
  to_ThrowerChartRepository :: string
  to_TargetNamespace :: string
  to_ApplicationSetProject :: string

record ChartParams =
  chp_ChartRepository :: string
  chp_ChartName :: string
  chp_ChartVersion :: string
  chp_ReleaseName :: string

definition ServiceBuilderType :: string where "ServiceBuilderType = ''Service''"

section \<open>DNS endpoints\<close>

definition DNSRoutingPolicyGeolocation :: string where "DNSRoutingPolicyGeolocation = ''Geolocation''"
definition DefaultDNSRecordTTL :: int where "DefaultDNSRecordTTL = 10"

definition NewDefaultDNSEndpointBuilder :: "string \<Rightarrow> string \<Rightarrow> DNSEndpoint" where
  "NewDefaultDNSEndpointBuilder name namespace = zero_DNSEndpoint\<lparr>
     de_TypeMeta := \<lparr>tm_APIVersion = ''infrastructure.edgecdnx.com/v1alpha1'', tm_Kind = ''DNSEndpoint''\<rparr>,
     de_Meta := new_ObjectMeta name namespace,
     de_Spec := zero_DNSEndpointSpec\<lparr>des_RoutingPolicy := DNSRoutingPolicyGeolocation,
       des_RecordTTL := DefaultDNSRecordTTL, des_Targets := []\<rparr>\<rparr>"

definition WithDNSName :: "string \<Rightarrow> DNSEndpoint \<Rightarrow> DNSEndpoint" where
  "WithDNSName dnsName b = b\<lparr>de_Spec := (de_Spec b)\<lparr>des_DNSName := dnsName\<rparr>\<rparr>"

definition WithRecordType :: "string \<Rightarrow> DNSEndpoint \<Rightarrow> DNSEndpoint" where
  "WithRecordType recordType b = b\<lparr>de_Spec := (de_Spec b)\<lparr>des_RecordType := recordType\<rparr>\<rparr>"

definition WithRouteSelector :: "LabelSelector option \<Rightarrow> DNSEndpoint \<Rightarrow> DNSEndpoint" where
  "WithRouteSelector routeSelector b = (case routeSelector of
     None \<Rightarrow> b\<lparr>de_Spec := (de_Spec b)\<lparr>des_RouteSelector := None\<rparr>\<rparr>
   | Some s \<Rightarrow> b\<lparr>de_Spec := (de_Spec b)\<lparr>des_RouteSelector := Some s\<rparr>\<rparr>)"

definition DNSEndpoint_WithService :: "Service \<Rightarrow> string \<Rightarrow> string \<Rightarrow> DNSEndpoint \<Rightarrow> DNSEndpoint" where
  "DNSEndpoint_WithService service dnsName recordType b =
     WithRouteSelector (ss_RouteSelector (svc_Spec service)) (WithRecordType recordType (WithDNSName dnsName
       (b\<lparr>de_Spec := (de_Spec b)\<lparr>des_Project := ss_Project (svc_Spec service)\<rparr>\<rparr>)))"

definition DNSEndpoint_Build :: "golib \<Rightarrow> DNSEndpoint \<Rightarrow> ctl_error + DNSEndpoint \<times> string" where
  "DNSEndpoint_Build g b = (case g_json g (ODNSEndpoint b) of
     None \<Rightarrow> Inl MarshalError
   | Some marshalled \<Rightarrow>
       let hash = hex_bytes (g_md5 g marshalled)
       in Inr (b\<lparr>de_Meta := (de_Meta b)\<lparr>om_Annotations := hash_annotation hash\<rparr>\<rparr>, hash))"

definition DNSEndpointBuilderFactory :: "string \<Rightarrow> string \<Rightarrow> string \<Rightarrow> ctl_error + DNSEndpoint" where
  "DNSEndpointBuilderFactory builderType name namespace =
     (if builderType = ServiceBuilderType then Inr (NewDefaultDNSEndpointBuilder name namespace)
      else Inl (UnknownBuilder builderType))"

section \<open>Certificates\<close>

definition NewDefaultCertBuilder :: "string \<Rightarrow> string \<Rightarrow> string \<Rightarrow> Certificate" where
  "NewDefaultCertBuilder name namespace serviceName =
     \<lparr>crt_TypeMeta = \<lparr>tm_APIVersion = ''cert-manager.io/v1'', tm_Kind = ''Certificate''\<rparr>,
      crt_Meta = new_ObjectMeta name namespace,
      crt_Spec = \<lparr>crts_IssuerRef = \<lparr>issuer_Name = [], issuer_Kind = [], issuer_Group = []\<rparr>,
        crts_SecretName = serviceName @ ''-tls'', crts_DNSNames = [serviceName],
        crts_RenewBefore = Some 864000000000000\<rparr>,
      crt_Conditions = []\<rparr>"

definition WithSecretName :: "string \<Rightarrow> Certificate \<Rightarrow> Certificate" where
  "WithSecretName secretName b = b\<lparr>crt_Spec := (crt_Spec b)\<lparr>crts_SecretName := secretName\<rparr>\<rparr>"

definition WithDNSNames :: "string list \<Rightarrow> Certificate \<Rightarrow> Certificate" where
  "WithDNSNames dnsNames b = b\<lparr>crt_Spec := (crt_Spec b)\<lparr>crts_DNSNames := dnsNames\<rparr>\<rparr>"

definition WithIssuerRef :: "IssuerRef \<Rightarrow> Certificate \<Rightarrow> Certificate" where
  "WithIssuerRef issuerRef b = b\<lparr>crt_Spec := (crt_Spec b)\<lparr>crts_IssuerRef := issuerRef\<rparr>\<rparr>"

definition WithRenewBefore :: "int \<Rightarrow> Certificate \<Rightarrow> Certificate" where
  "WithRenewBefore duration b = b\<lparr>crt_Spec := (crt_Spec b)\<lparr>crts_RenewBefore := Some duration\<rparr>\<rparr>"

definition Cert_Build :: "golib \<Rightarrow> Certificate \<Rightarrow> ctl_error + Certificate \<times> string" where
  "Cert_Build g b = (case g_json g (OCertificate b) of
     None \<Rightarrow> Inl MarshalError
   | Some marshalled \<Rightarrow>
       let hash = hex_bytes (g_md5 g marshalled)
       in Inr (b\<lparr>crt_Meta := (crt_Meta b)\<lparr>om_Annotations := hash_annotation hash\<rparr>\<rparr>, hash))"

definition CertBuilderFactory ::
  "string \<Rightarrow> string \<Rightarrow> string \<Rightarrow> string \<Rightarrow> IssuerRef \<Rightarrow> ctl_error + Certificate" where
  "CertBuilderFactory builderType name namespace serviceName issuerRef =
     (if builderType = ServiceBuilderType
      then Inr (WithIssuerRef issuerRef (NewDefaultCertBuilder name namespace serviceName))
      else Inl (UnknownBuilder builderType))"

section \<open>Secrets\<close>

definition NewSecretBuilder :: "string \<Rightarrow> string \<Rightarrow> Secret" where
  "NewSecretBuilder name namespace = \<lparr>sec_TypeMeta = \<lparr>tm_APIVersion = ''v1'', tm_Kind = ''Secret''\<rparr>,
     sec_Meta = new_ObjectMeta name namespace, sec_Data = fmempty\<rparr>"

definition Secret_WithAnnotations :: "strmap \<Rightarrow> Secret \<Rightarrow> Secret" where
  "Secret_WithAnnotations annotations b = b\<lparr>sec_Meta := (sec_Meta b)\<lparr>om_Annotations := annotations\<rparr>\<rparr>"

definition Secret_WithLabels :: "strmap \<Rightarrow> Secret \<Rightarrow> Secret" where
  "Secret_WithLabels labels b = b\<lparr>sec_Meta := (sec_Meta b)\<lparr>om_Labels := labels\<rparr>\<rparr>"

definition WithData :: "strmap \<Rightarrow> Secret \<Rightarrow> Secret" where
  "WithData data b = b\<lparr>sec_Data := data\<rparr>"

definition WithDataEntry :: "string \<Rightarrow> string \<Rightarrow> Secret \<Rightarrow> Secret" where
  "WithDataEntry key value b = b\<lparr>sec_Data := fmupd key value (sec_Data b)\<rparr>"

definition Secret_Build :: "golib \<Rightarrow> Secret \<Rightarrow> ctl_error + Secret \<times> string" where
  "Secret_Build g b = (case g_json g (OSecret b) of
     None \<Rightarrow> Inl MarshalError
   | Some marshalled \<Rightarrow>
       let hash = hex_bytes (g_sha256 g marshalled)
       in Inr (Secret_WithAnnotations (hash_annotation hash) b, hash))"

section \<open>Services of the core group\<close>

definition zero_CoreServiceSpec :: CoreServiceSpec where
  "zero_CoreServiceSpec = \<lparr>css_ExternalName = [], css_Type = [], css_ClusterIP = [], css_Ports = [], css_Selector = fmempty\<rparr>"

definition NewDefaultCoreV1ServiceBuilder :: "string \<Rightarrow> string \<Rightarrow> CoreService" where
  "NewDefaultCoreV1ServiceBuilder name namespace = \<lparr>cs_TypeMeta = \<lparr>tm_APIVersion = ''v1'', tm_Kind = ''Service''\<rparr>,
     cs_Meta = new_ObjectMeta name namespace, cs_Spec = zero_CoreServiceSpec\<rparr>"

definition CoreService_WithAnnotations :: "strmap \<Rightarrow> CoreService \<Rightarrow> CoreService" where
  "CoreService_WithAnnotations annotations b = b\<lparr>cs_Meta := (cs_Meta b)\<lparr>om_Annotations := annotations\<rparr>\<rparr>"

definition WithUpstream :: "string \<Rightarrow> CoreService \<Rightarrow> CoreService" where
  "WithUpstream upstream b = b\<lparr>cs_Spec := zero_CoreServiceSpec\<lparr>css_ExternalName := upstream, css_Type := ''ExternalName''\<rparr>\<rparr>"

definition s3_labels :: "string \<Rightarrow> strmap" where
  "s3_labels domain = fmupd ''domain'' domain (fmupd ''app'' ''s3gateway'' fmempty)"

definition WithS3Gateway :: "string \<Rightarrow> CoreService \<Rightarrow> CoreService" where
  "WithS3Gateway domain b = b\<lparr>cs_Spec := zero_CoreServiceSpec\<lparr>css_ClusterIP := ''None'',
     css_Ports := [\<lparr>sp_Name = ''http'', sp_Port = 80, sp_Protocol = ''TCP'', sp_TargetPort = 80\<rparr>],
     css_Selector := s3_labels domain\<rparr>\<rparr>"

definition CoreService_Build :: "golib \<Rightarrow> CoreService \<Rightarrow> ctl_error + CoreService \<times> string" where
  "CoreService_Build g b = (case g_json g (OCoreService b) of
     None \<Rightarrow> Inl MarshalError
   | Some marshalled \<Rightarrow>
       let hash = hex_bytes (g_sha256 g marshalled)
       in Inr (CoreService_WithAnnotations (hash_annotation hash) b, hash))"

definition CoreV1ServiceBuilderFactory :: "string \<Rightarrow> string \<Rightarrow> string \<Rightarrow> ctl_error + CoreService" where
  "CoreV1ServiceBuilderFactory builderType name namespace =
     (if builderType = ''default'' then Inr (NewDefaultCoreV1ServiceBuilder name namespace)
      else Inl (UnknownBuilder builderType))"

section \<open>Applications\<close>

definition ResourceTypeLabel :: string where "ResourceTypeLabel = ''edgecdnx.com/resource-type''"
definition MonitoringTLSSecretValue :: string where "MonitoringTLSSecretValue = ''monitoring-tls''"
definition AnalyticsTLSSecretValue :: string where "AnalyticsTLSSecretValue = ''analytics-tls''"
definition HealthCheckerTLSSecretValue :: string where "HealthCheckerTLSSecretValue = ''healthchecker-tls''"

definition automated_sync :: SyncPolicy where
  "automated_sync = \<lparr>sync_Prune = True, sync_SelfHeal = True, sync_AllowEmpty = True,
     sync_Options = [''CreateNamespace=true'']\<rparr>"

definition zero_AppSource :: AppSource where
  "zero_AppSource = \<lparr>src_Chart = [], src_RepoURL = [], src_TargetRevision = [], src_Helm = None\<rparr>"

definition NewThrowableAppBuilder :: "string \<Rightarrow> Application" where
  "NewThrowableAppBuilder name = \<lparr>app_TypeMeta = empty_TypeMeta, app_Meta = zero_ObjectMeta,
     app_Spec = \<lparr>as_Project = ''default'', as_Destination = \<lparr>dst_Server = [], dst_Namespace = [], dst_Name = []\<rparr>,
       as_Source = Some zero_AppSource, as_Sources = [], as_SyncPolicy = Some automated_sync\<rparr>\<rparr>"

definition App_WithHelmChartParams :: "ChartParams \<Rightarrow> Application \<Rightarrow> ctl_error + Application" where
  "App_WithHelmChartParams params b = (case as_Source (app_Spec b) of
     None \<Rightarrow> Inl IndexPanic
   | Some s \<Rightarrow> Inr (b\<lparr>app_Spec := (app_Spec b)\<lparr>as_Source := Some (s\<lparr>src_Chart := chp_ChartName params,
       src_RepoURL := chp_ChartRepository params, src_TargetRevision := chp_ChartVersion params,
       src_Helm := Some \<lparr>helm_ReleaseName = chp_ReleaseName params, helm_Values = None\<rparr>\<rparr>)\<rparr>\<rparr>))"

text \<open>The error of \<open>json.Marshal\<close> is dropped: then the values are nil bytes.\<close>

definition marshalled_values :: "golib \<Rightarrow> helm_resource list \<Rightarrow> string" where
  "marshalled_values g values = (case g_json_values g values of None \<Rightarrow> [] | Some v \<Rightarrow> v)"

definition App_WithHelmValues :: "golib \<Rightarrow> helm_resource list \<Rightarrow> Application \<Rightarrow> ctl_error + Application" where
  "App_WithHelmValues g values b = (case as_Source (app_Spec b) of
     None \<Rightarrow> Inl IndexPanic
   | Some s \<Rightarrow> (case src_Helm s of
       None \<Rightarrow> Inl IndexPanic
     | Some h \<Rightarrow> Inr (b\<lparr>app_Spec := (app_Spec b)\<lparr>as_Source := Some (s\<lparr>src_Helm :=
         Some (h\<lparr>helm_Values := Some (marshalled_values g values)\<rparr>)\<rparr>)\<rparr>\<rparr>)))"

definition App_WithProject :: "string \<Rightarrow> Application \<Rightarrow> Application" where
  "App_WithProject project b = b\<lparr>app_Spec := (app_Spec b)\<lparr>as_Project := project\<rparr>\<rparr>"

definition WithAppMeta :: "string \<Rightarrow> string \<Rightarrow> Application \<Rightarrow> Application" where
  "WithAppMeta name namespace b = b\<lparr>app_Meta := (app_Meta b)\<lparr>om_Name := name, om_Namespace := namespace,
     om_Finalizers := [''resources-finalizer.argocd.argoproj.io'']\<rparr>\<rparr>"

definition WithDestination :: "string \<Rightarrow> string \<Rightarrow> Application \<Rightarrow> Application" where
  "WithDestination destination namespace b = b\<lparr>app_Spec := (app_Spec b)\<lparr>as_Destination :=
     (as_Destination (app_Spec b))\<lparr>dst_Server := destination, dst_Namespace := namespace\<rparr>\<rparr>\<rparr>"

definition App_Build :: "golib \<Rightarrow> Application \<Rightarrow> ctl_error + Application \<times> string" where
  "App_Build g b = (case g_json_app g b of
     None \<Rightarrow> Inl MarshalError
   | Some marshalled \<Rightarrow>
       let hash = hex_bytes (g_md5 g marshalled)
       in Inr (b\<lparr>app_Meta := (app_Meta b)\<lparr>om_Annotations := hash_annotation hash\<rparr>\<rparr>, hash))"

definition chart_params :: "ThrowerOptions \<Rightarrow> string \<Rightarrow> ChartParams" where
  "chart_params o1 release = \<lparr>chp_ChartRepository = to_ThrowerChartRepository o1,
     chp_ChartName = to_ThrowerChartName o1, chp_ChartVersion = to_ThrowerChartVersion o1, chp_ReleaseName = release\<rparr>"

definition throwable_app :: "string \<Rightarrow> string \<Rightarrow> string \<Rightarrow> ThrowerOptions \<Rightarrow> ctl_error + Application" where
  "throwable_app name namespace destination throwerOptions =
     (case App_WithHelmChartParams (chart_params throwerOptions name)
         (App_WithProject (to_ApplicationSetProject throwerOptions) (NewThrowableAppBuilder name)) of
        Inl e \<Rightarrow> Inl e
      | Inr b \<Rightarrow> Inr (WithAppMeta name namespace (WithDestination destination (to_TargetNamespace throwerOptions) b)))"

definition AppBuilderFactory ::
  "string \<Rightarrow> string \<Rightarrow> string \<Rightarrow> string \<Rightarrow> ThrowerOptions \<Rightarrow> ctl_error + Application" where
  "AppBuilderFactory builderType name namespace destination throwerOptions =
     (if builderType = MonitoringTLSSecretValue then throwable_app name namespace destination throwerOptions
      else if builderType = AnalyticsTLSSecretValue then throwable_app name namespace destination throwerOptions
      else if builderType = HealthCheckerTLSSecretValue then throwable_app name namespace destination throwerOptions
      else Inl (UnknownBuilder builderType))"

section \<open>Application sets\<close>

definition NewThrowableAppsetBuilder :: "string \<Rightarrow> ApplicationSet" where
  "NewThrowableAppsetBuilder name =
     \<lparr>aset_TypeMeta = \<lparr>tm_APIVersion = ''argoproj.io/v1alpha1'', tm_Kind = ''ApplicationSet''\<rparr>,
      aset_Meta = new_ObjectMeta name [],
      aset_Spec = \<lparr>ass_Generators = [], ass_TemplateName = [], ass_TemplateNamespace = [],
        ass_TemplateSpec = \<lparr>as_Project = ''default'', as_Destination = \<lparr>dst_Server = [], dst_Namespace = [], dst_Name = []\<rparr>,
          as_Source = None, as_Sources = [], as_SyncPolicy = Some automated_sync\<rparr>\<rparr>\<rparr>"

definition map_template :: "(AppSpec \<Rightarrow> AppSpec) \<Rightarrow> ApplicationSet \<Rightarrow> ApplicationSet" where
  "map_template f b = b\<lparr>aset_Spec := (aset_Spec b)\<lparr>ass_TemplateSpec := f (ass_TemplateSpec (aset_Spec b))\<rparr>\<rparr>"

definition Appset_WithHelmChartParams :: "ChartParams \<Rightarrow> ApplicationSet \<Rightarrow> ctl_error + ApplicationSet" where
  "Appset_WithHelmChartParams params b = (case as_Sources (ass_TemplateSpec (aset_Spec b)) of
     [] \<Rightarrow> Inr (map_template (\<lambda>t. t\<lparr>as_Sources := [\<lparr>src_Chart = chp_ChartName params,
       src_RepoURL = chp_ChartRepository params, src_TargetRevision = chp_ChartVersion params,
       src_Helm = Some \<lparr>helm_ReleaseName = chp_ReleaseName params, helm_Values = None\<rparr>\<rparr>]\<rparr>) b)
   | s # ss \<Rightarrow> (case src_Helm s of
       None \<Rightarrow> Inl IndexPanic
     | Some h \<Rightarrow> Inr (map_template (\<lambda>t. t\<lparr>as_Sources := s\<lparr>src_Chart := chp_ChartName params,
         src_RepoURL := chp_ChartRepository params, src_TargetRevision := chp_ChartVersion params,
         src_Helm := Some (h\<lparr>helm_ReleaseName := chp_ReleaseName params\<rparr>)\<rparr> # ss\<rparr>) b)))"

definition Appset_WithHelmValues :: "golib \<Rightarrow> helm_resource list \<Rightarrow> ApplicationSet \<Rightarrow> ctl_error + ApplicationSet" where
  "Appset_WithHelmValues g values b = (case as_Sources (ass_TemplateSpec (aset_Spec b)) of
     [] \<Rightarrow> Inr (map_template (\<lambda>t. t\<lparr>as_Sources := [zero_AppSource\<lparr>src_Helm :=
       Some \<lparr>helm_ReleaseName = [], helm_Values = Some (marshalled_values g values)\<rparr>\<rparr>]\<rparr>) b)
   | s # ss \<Rightarrow> (case src_Helm s of
       None \<Rightarrow> Inl IndexPanic
     | Some h \<Rightarrow> Inr (map_template (\<lambda>t. t\<lparr>as_Sources := s\<lparr>src_Helm :=
         Some (h\<lparr>helm_Values := Some (marshalled_values g values)\<rparr>)\<rparr> # ss\<rparr>) b)))"

definition WithTargetAppMeta :: "string \<Rightarrow> string \<Rightarrow> string \<Rightarrow> ApplicationSet \<Rightarrow> ApplicationSet" where
  "WithTargetAppMeta templatedName namespace targetNamespace b =
     map_template (\<lambda>t. t\<lparr>as_Destination := (as_Destination t)\<lparr>dst_Namespace := targetNamespace,
         dst_Server := ''{{ server }}''\<rparr>\<rparr>)
       (b\<lparr>aset_Spec := (aset_Spec b)\<lparr>ass_TemplateName := templatedName, ass_TemplateNamespace := namespace\<rparr>\<rparr>)"

definition Appset_WithProject :: "string \<Rightarrow> ApplicationSet \<Rightarrow> ApplicationSet" where
  "Appset_WithProject project = map_template (\<lambda>t. t\<lparr>as_Project := project\<rparr>)"

definition WithLabelMatchers :: "LabelSelectorRequirement list list \<Rightarrow> ApplicationSet \<Rightarrow> ApplicationSet" where
  "WithLabelMatchers labelMatch b = b\<lparr>aset_Spec := (aset_Spec b)\<lparr>ass_Generators := labelMatch\<rparr>\<rparr>"

definition WithAppsetMeta :: "string \<Rightarrow> string \<Rightarrow> ApplicationSet \<Rightarrow> ApplicationSet" where
  "WithAppsetMeta name namespace b = b\<lparr>aset_Meta := (aset_Meta b)\<lparr>om_Name := name, om_Namespace := namespace\<rparr>\<rparr>"

definition Appset_Build :: "golib \<Rightarrow> ApplicationSet \<Rightarrow> ctl_error + ApplicationSet \<times> string" where
  "Appset_Build g b = (case g_json g (OApplicationSet b) of
     None \<Rightarrow> Inl MarshalError
   | Some marshalled \<Rightarrow>
       let hash = hex_bytes (g_md5 g marshalled)
       in Inr (b\<lparr>aset_Meta := (aset_Meta b)\<lparr>om_Annotations := hash_annotation hash\<rparr>\<rparr>, hash))"

definition routing_clusters :: "LabelSelectorRequirement list" where
  "routing_clusters = [\<lparr>lsr_Key = ''edgecdnx.com/routing'', lsr_Operator = ''In'', lsr_Values = [''true'', ''yes'']\<rparr>]"

definition caching_clusters :: "LabelSelectorRequirement list" where
  "caching_clusters = [\<lparr>lsr_Key = ''edgecdnx.com/caching'', lsr_Operator = ''In'', lsr_Values = [''true'', ''yes'']\<rparr>]"

text \<open>The block that every case of the factory has, with its release prefix and its label matchers\<close>

definition throwable_appset ::
  "string \<Rightarrow> LabelSelectorRequirement list list \<Rightarrow> string \<Rightarrow> string \<Rightarrow> ThrowerOptions \<Rightarrow> ctl_error + ApplicationSet" where
  "throwable_appset prefix matchers name namespace throwerOption =
     (case Appset_WithHelmChartParams (chart_params throwerOption (prefix @ ''-{{ name }}''))
         (NewThrowableAppsetBuilder name) of
        Inl e \<Rightarrow> Inl e
      | Inr b \<Rightarrow> Inr (WithLabelMatchers matchers (WithAppsetMeta name namespace
          (Appset_WithProject (to_ApplicationSetProject throwerOption)
            (WithTargetAppMeta (prefix @ ''-'' @ name @ ''-at-{{ name }}'') namespace
              (to_TargetNamespace throwerOption) b)))))"

definition AppsetBuilderFactory ::
  "string \<Rightarrow> string \<Rightarrow> string \<Rightarrow> ThrowerOptions \<Rightarrow> ctl_error + ApplicationSet" where
  "AppsetBuilderFactory builderType name namespace throwerOption =
     (if builderType = ''Location'' then throwable_appset ''location'' [routing_clusters] name namespace throwerOption
      else if builderType = ''Zone'' then throwable_appset ''zone'' [routing_clusters] name namespace throwerOption
      else if builderType = ''Challenge'' then throwable_appset ''challenge'' [caching_clusters] name namespace throwerOption
      else if builderType = ''PrefixList'' then throwable_appset ''prefixlist'' [routing_clusters] name namespace throwerOption
      else if builderType = ServiceBuilderType
      then throwable_appset ''service'' [routing_clusters, caching_clusters] name namespace throwerOption
      else if builderType = ''HealthCheckProfile''
      then throwable_appset ''healthcheckprofile'' [routing_clusters] name namespace throwerOption
      else if builderType = ''DNSEndpoint'' then throwable_appset ''dnsendpoint'' [routing_clusters] name namespace throwerOption
      else Inl (UnknownBuilder builderType))"

section \<open>Deployments\<close>

definition zero_Container :: Container where
  "zero_Container = \<lparr>cn_Name = [], cn_Image = [], cn_Args = [], cn_Env = [], cn_Ports = [], cn_LivenessProbe = None,
     cn_ReadinessProbe = None, cn_Limits = fmempty, cn_Requests = fmempty\<rparr>"

definition app_label :: "string \<Rightarrow> strmap" where
  "app_label name = fmupd ''app'' name fmempty"

definition NewDeploymentBuilder :: "string \<Rightarrow> string \<Rightarrow> Deployment" where
  "NewDeploymentBuilder name namespace =
     \<lparr>dep_TypeMeta = \<lparr>tm_APIVersion = ''apps/v1'', tm_Kind = ''Deployment''\<rparr>,
      dep_Meta = new_ObjectMeta name namespace,
      dep_Spec = \<lparr>deps_Replicas = None, deps_Selector = \<lparr>ls_MatchLabels = app_label name, ls_MatchExpressions = []\<rparr>,
        deps_TemplateMeta = zero_ObjectMeta\<lparr>om_Labels := app_label name\<rparr>,
        deps_TemplateSpec = \<lparr>pods_Containers = [zero_Container\<lparr>cn_Name := name\<rparr>], pods_NodeSelector = fmempty\<rparr>\<rparr>\<rparr>"

definition map_pod :: "(PodSpec \<Rightarrow> PodSpec) \<Rightarrow> Deployment \<Rightarrow> Deployment" where
  "map_pod f b = b\<lparr>dep_Spec := (dep_Spec b)\<lparr>deps_TemplateSpec := f (deps_TemplateSpec (dep_Spec b))\<rparr>\<rparr>"

text \<open>The first container, if there is one; or, after an empty one is added where there is none\<close>

definition on_container :: "(Container \<Rightarrow> Container) \<Rightarrow> Deployment \<Rightarrow> Deployment" where
  "on_container f = map_pod (\<lambda>p. case pods_Containers p of [] \<Rightarrow> p | c # cs \<Rightarrow> p\<lparr>pods_Containers := f c # cs\<rparr>)"

definition some_container :: "(Container \<Rightarrow> Container) \<Rightarrow> Deployment \<Rightarrow> Deployment" where
  "some_container f = map_pod (\<lambda>p. case pods_Containers p of
     [] \<Rightarrow> p\<lparr>pods_Containers := [f zero_Container]\<rparr> | c # cs \<Rightarrow> p\<lparr>pods_Containers := f c # cs\<rparr>)"

definition Deployment_WithAnnotations :: "strmap \<Rightarrow> Deployment \<Rightarrow> Deployment" where
  "Deployment_WithAnnotations annotations b = b\<lparr>dep_Meta := (dep_Meta b)\<lparr>om_Annotations := annotations\<rparr>\<rparr>"

definition Deployment_WithLabels :: "strmap \<Rightarrow> Deployment \<Rightarrow> Deployment" where
  "Deployment_WithLabels labels b = b\<lparr>dep_Meta := (dep_Meta b)\<lparr>om_Labels := labels\<rparr>\<rparr>"

definition WithTemplateLabels :: "strmap \<Rightarrow> Deployment \<Rightarrow> Deployment" where
  "WithTemplateLabels labels b = b\<lparr>dep_Spec := (dep_Spec b)\<lparr>deps_TemplateMeta :=
     (deps_TemplateMeta (dep_Spec b))\<lparr>om_Labels := om_Labels (deps_TemplateMeta (dep_Spec b)) ++\<^sub>f labels\<rparr>\<rparr>\<rparr>"

definition WithSelectorLabels :: "strmap \<Rightarrow> Deployment \<Rightarrow> Deployment" where
  "WithSelectorLabels labels b = b\<lparr>dep_Spec := (dep_Spec b)\<lparr>deps_Selector :=
     (deps_Selector (dep_Spec b))\<lparr>ls_MatchLabels := labels\<rparr>\<rparr>\<rparr>"

definition WithReplicas :: "int \<Rightarrow> Deployment \<Rightarrow> Deployment" where
  "WithReplicas replicas b = b\<lparr>dep_Spec := (dep_Spec b)\<lparr>deps_Replicas := Some replicas\<rparr>\<rparr>"

definition WithContainerImage :: "string \<Rightarrow> Deployment \<Rightarrow> Deployment" where
  "WithContainerImage containerImage = some_container (\<lambda>c. c\<lparr>cn_Image := containerImage\<rparr>)"

text \<open>\<open>envVars\<close> lists the entries of the map in the order of its iteration.\<close>

definition WithEnvVars :: "(string \<times> string) list \<Rightarrow> Deployment \<Rightarrow> Deployment" where
  "WithEnvVars envVars = some_container (\<lambda>c. c\<lparr>cn_Env := cn_Env c @
     map (\<lambda>(key, value). \<lparr>env_Name = key, env_Value = value\<rparr>) envVars\<rparr>)"

definition WithLivenessProbe :: "HTTPProbe \<Rightarrow> Deployment \<Rightarrow> Deployment" where
  "WithLivenessProbe probe = on_container (\<lambda>c. c\<lparr>cn_LivenessProbe := Some probe\<rparr>)"

definition WithReadinessProbe :: "HTTPProbe \<Rightarrow> Deployment \<Rightarrow> Deployment" where
  "WithReadinessProbe probe = on_container (\<lambda>c. c\<lparr>cn_ReadinessProbe := Some probe\<rparr>)"

definition WithPorts :: "ContainerPort list \<Rightarrow> Deployment \<Rightarrow> Deployment" where
  "WithPorts ports = on_container (\<lambda>c. c\<lparr>cn_Ports := ports\<rparr>)"

definition WithContainerName :: "string \<Rightarrow> Deployment \<Rightarrow> Deployment" where
  "WithContainerName containerName = on_container (\<lambda>c. c\<lparr>cn_Name := containerName\<rparr>)"

definition withS3GatewayCredentials :: "S3OriginSpec \<Rightarrow> Deployment \<Rightarrow> Deployment" where
  "withS3GatewayCredentials originSpec = on_container (\<lambda>c. c\<lparr>cn_Env := [
     \<lparr>env_Name = ''AWS_ACCESS_KEY_ID'', env_Value = s3_S3AccessKeyId originSpec\<rparr>,
     \<lparr>env_Name = ''AWS_SECRET_ACCESS_KEY'', env_Value = s3_S3SecretKey originSpec\<rparr>,
     \<lparr>env_Name = ''S3_BUCKET_NAME'', env_Value = s3_S3BucketName originSpec\<rparr>,
     \<lparr>env_Name = ''S3_REGION'', env_Value = s3_S3Region originSpec\<rparr>,
     \<lparr>env_Name = ''S3_SERVER'', env_Value = s3_S3Server originSpec\<rparr>,
     \<lparr>env_Name = ''S3_SERVER_PROTO'', env_Value = ToLower (s3_S3ServerProto originSpec)\<rparr>,
     \<lparr>env_Name = ''S3_SERVER_PORT'', env_Value = Sprint (s3_S3ServerPort originSpec)\<rparr>,
     \<lparr>env_Name = ''S3_STYLE'', env_Value = s3_S3Style originSpec\<rparr>,
     \<lparr>env_Name = ''AWS_SIGS_VERSION'', env_Value = Sprint (s3_AwsSigsVersion originSpec)\<rparr>,
     \<lparr>env_Name = ''ALLOW_DIRECTORY_LIST'', env_Value = ''false''\<rparr>]\<rparr>)"

definition withS3GatewayDomainName :: "string \<Rightarrow> Deployment \<Rightarrow> Deployment" where
  "withS3GatewayDomainName domain b = WithSelectorLabels (s3_labels domain) (WithTemplateLabels (s3_labels domain) b)"

definition Deployment_WithService :: "Service \<Rightarrow> Deployment \<Rightarrow> Deployment" where
  "Deployment_WithService service b =
     (if ss_OriginType (svc_Spec service) = OriginTypeS3 then
        case ss_S3OriginSpec (svc_Spec service) of
          [] \<Rightarrow> b
        | originSpec # _ \<Rightarrow> WithContainerName ''s3gateway'' (withS3GatewayDomainName (ss_Domain (svc_Spec service))
            (withS3GatewayCredentials originSpec b))
      else b)"

definition Deployment_Build :: "golib \<Rightarrow> Deployment \<Rightarrow> ctl_error + Deployment \<times> string" where
  "Deployment_Build g b = (case g_json g (ODeployment b) of
     None \<Rightarrow> Inl MarshalError
   | Some marshalled \<Rightarrow>
       let hash = hex_bytes (g_sha256 g marshalled)
       in Inr (Deployment_WithAnnotations (hash_annotation hash) b, hash))"

definition health_probe :: HTTPProbe where
  "health_probe = \<lparr>hp_InitialDelaySeconds = 3, hp_Path = ''/health'', hp_Port = 80\<rparr>"

definition DeploymentBuilderFactory :: "string \<Rightarrow> string \<Rightarrow> string \<Rightarrow> ctl_error + Deployment" where
  "DeploymentBuilderFactory builderType name namespace =
     (if builderType = ''default'' then Inr (NewDeploymentBuilder name namespace)
      else if builderType = ''s3-gateway'' then
        Inr (WithPorts [\<lparr>cp_Name = ''http'', cp_ContainerPort = 80, cp_Protocol = ''TCP''\<rparr>]
          (WithReadinessProbe health_probe (WithLivenessProbe health_probe
            (WithContainerImage ''fr6nco/nginx-s3-gateway:latest'' (WithReplicas 1 (NewDeploymentBuilder name namespace))))))
      else Inl (UnknownBuilder builderType))"

end
