(* ===== verification/Startup_Config.thy ===== *)
theory Startup_Config
  imports Startup Downstream_Workers Builders
begin

text \<open>
  What \<open>cmd/main.go\<close> configures: the flags with their defaults, the TLS and metrics options of the
  servers, the limits of the clients, the options of the manager and the arguments of the controllers.
  A TLS option is a function on the configuration, as in the code. The conversion \<open>float32\<close>, the
  hash and the host of the upstream configuration are arguments.
\<close>

section \<open>Flags\<close>

record options = flags +
  o_metricsAddr :: string
  o_probeAddr :: string
  o_enableLeaderElection :: bool
  o_leaderElectionLockId :: string
  o_secureMetrics :: bool
  o_webhookCertName :: string
  o_webhookCertKey :: string
  o_metricsCertName :: string
  o_metricsCertKey :: string
  o_enableHTTP2 :: bool
  o_throwerChartRepository :: string
  o_throwerChartName :: string
  o_throwerChartVersion :: string
  o_infrastructureTargetNamespace :: string
  o_infrastructureApplicationSetProject :: string
  o_clusterIssuerName :: string
  o_secureUrlsEndpoint :: string

text \<open>The defaults; the environment variable \<open>ENABLE_WEBHOOKS\<close> is not set.\<close>

definition default_options :: options where
  "default_options = \<lparr>f_role = ''controller'', f_tenantScope = \<lparr>Namespaced = True, TargetNamespace = ''edgecdnx''\<rparr>,
     f_downstreamTarget = [], f_upstreamKubeconfig = [], f_downstreamWorkers = DownstreamWorkers, f_downstreamQPS = 100,
     f_downstreamBurst = 200, f_featureGates = [], f_blockedUpstreamTLDs = ''local,internal,private'',
     f_webhookCertPath = [], f_metricsCertPath = [], f_enableWebhooks = [],
     o_metricsAddr = ''0'', o_probeAddr = '':8081'', o_enableLeaderElection = False,
     o_leaderElectionLockId = ''9cbc19dd.edgecdnx.com'', o_secureMetrics = True, o_webhookCertName = ''tls.crt'',
     o_webhookCertKey = ''tls.key'', o_metricsCertName = ''tls.crt'', o_metricsCertKey = ''tls.key'', o_enableHTTP2 = False,
     o_throwerChartRepository = ''https://edgecdn-x.github.io/helm-charts'', o_throwerChartName = ''resource-thrower'',
     o_throwerChartVersion = ''0.1.0'', o_infrastructureTargetNamespace = ''edgecdnx'',
     o_infrastructureApplicationSetProject = ''default'', o_clusterIssuerName = ''edgecdnx'',
     o_secureUrlsEndpoint = ''http://secure-urls.edgecdnx-cache.svc.cluster.local''\<rparr>"

section \<open>Servers\<close>

text \<open>A certificate watcher: the directory and the names of its two files\<close>

record cert_watcher =
  cw_path :: string
  cw_cert :: string
  cw_key :: string

record tls_config =
  tls_NextProtos :: "string list"
  tls_GetCertificate :: "cert_watcher option"

definition disableHTTP2 :: "tls_config \<Rightarrow> tls_config" where
  "disableHTTP2 c = c\<lparr>tls_NextProtos := [''http/1.1'']\<rparr>"

definition tlsOpts :: "options \<Rightarrow> (tls_config \<Rightarrow> tls_config) list" where
  "tlsOpts f = (if \<not> o_enableHTTP2 f then [disableHTTP2] else [])"

definition webhookCertWatcher :: "options \<Rightarrow> cert_watcher option" where
  "webhookCertWatcher f = (if length (f_webhookCertPath f) > 0
     then Some \<lparr>cw_path = f_webhookCertPath f, cw_cert = o_webhookCertName f, cw_key = o_webhookCertKey f\<rparr> else None)"

definition metricsCertWatcher :: "options \<Rightarrow> cert_watcher option" where
  "metricsCertWatcher f = (if length (f_metricsCertPath f) > 0
     then Some \<lparr>cw_path = f_metricsCertPath f, cw_cert = o_metricsCertName f, cw_key = o_metricsCertKey f\<rparr> else None)"

definition with_watcher :: "cert_watcher option \<Rightarrow> (tls_config \<Rightarrow> tls_config) list \<Rightarrow> (tls_config \<Rightarrow> tls_config) list" where
  "with_watcher w opts = (case w of None \<Rightarrow> opts | Some x \<Rightarrow> opts @ [\<lambda>c. c\<lparr>tls_GetCertificate := Some x\<rparr>])"

definition webhookTLSOpts :: "options \<Rightarrow> (tls_config \<Rightarrow> tls_config) list" where
  "webhookTLSOpts f = with_watcher (webhookCertWatcher f) (tlsOpts f)"

text \<open>\<open>FilterProvider\<close>: requests are authenticated and authorised.\<close>

record metrics_options =
  mt_BindAddress :: string
  mt_SecureServing :: bool
  mt_TLSOpts :: "(tls_config \<Rightarrow> tls_config) list"
  mt_FilterProvider :: bool

definition metricsServerOptions :: "options \<Rightarrow> metrics_options" where
  "metricsServerOptions f = \<lparr>mt_BindAddress = o_metricsAddr f, mt_SecureServing = o_secureMetrics f,
     mt_TLSOpts = with_watcher (metricsCertWatcher f) (tlsOpts f), mt_FilterProvider = o_secureMetrics f\<rparr>"

text \<open>A server applies its options to its configuration in their order.\<close>

definition apply_tls :: "(tls_config \<Rightarrow> tls_config) list \<Rightarrow> tls_config \<Rightarrow> tls_config" where
  "apply_tls opts c = fold (\<lambda>f. f) opts c"

section \<open>Clients, manager and controllers\<close>

record rest_config =
  rc_QPS :: rat
  rc_Burst :: int
  rc_RateLimiter :: bool

text \<open>The limits that the downstream role sets on the upstream and on the local configuration\<close>

definition limit_client :: "(rat \<Rightarrow> rat) \<Rightarrow> options \<Rightarrow> rest_config \<Rightarrow> rest_config" where
  "limit_client float32 f c =
     (let c' = c\<lparr>rc_QPS := float32 (f_downstreamQPS f), rc_Burst := f_downstreamBurst f\<rparr>
      in if f_downstreamQPS f < 0 then c'\<lparr>rc_RateLimiter := False\<rparr> else c')"

definition localConfig :: "(rat \<Rightarrow> rat) \<Rightarrow> options \<Rightarrow> rest_config \<Rightarrow> rest_config" where
  "localConfig float32 f c = (if f_role f = RoleDownstream then limit_client float32 f c else c)"

record manager_options =
  mo_Cache :: "(kind \<times> string list) list option"
  mo_Metrics :: metrics_options
  mo_WebhookTLS :: "(tls_config \<Rightarrow> tls_config) list"
  mo_HealthProbeBindAddress :: string
  mo_LeaderElection :: bool
  mo_LeaderElectionID :: string

definition managerOptions :: "options \<Rightarrow> manager_options" where
  "managerOptions f = \<lparr>mo_Cache = CacheObjects (f_tenantScope f), mo_Metrics = metricsServerOptions f,
     mo_WebhookTLS = webhookTLSOpts f, mo_HealthProbeBindAddress = o_probeAddr f,
     mo_LeaderElection = o_enableLeaderElection f, mo_LeaderElectionID = o_leaderElectionLockId f\<rparr>"

definition downstreamSourceID :: "golib \<Rightarrow> string \<Rightarrow> string" where
  "downstreamSourceID g host = hex_bytes (take 16 (g_sha256 g host))"

definition create_downstream :: "golib \<Rightarrow> string \<Rightarrow> options \<Rightarrow> downstream_error + DownstreamReconciler" where
  "create_downstream g host f =
     (case NewDownstreamReconciler True (f_downstreamTarget f) (downstreamSourceID g host) (f_downstreamWorkers f) of
        Inl err \<Rightarrow> Inl err
      | Inr downstream \<Rightarrow>
          Inr (if \<not> Namespaced (f_tenantScope f)
               then downstream\<lparr>dr_TargetNamespace := TargetNamespace (f_tenantScope f)\<rparr> else downstream))"

text \<open>The thrower options of the service and the challenge reconciler\<close>

definition thrower_options :: "options \<Rightarrow> ThrowerOptions" where
  "thrower_options f = \<lparr>to_ThrowerChartName = o_throwerChartName f, to_ThrowerChartVersion = o_throwerChartVersion f,
     to_ThrowerChartRepository = o_throwerChartRepository f, to_TargetNamespace = o_infrastructureTargetNamespace f,
     to_ApplicationSetProject = o_infrastructureApplicationSetProject f\<rparr>"

section \<open>Properties\<close>

text \<open>
  C23. A downstream instance that gets past its checks has a usable reconciler, made as the flags ask: creating it does not fail; its target is the one of the
  flags, \<open>router\<close> or \<open>cache\<close>, and its kinds are those of the target; its source is named by the first 32 hexadecimal digits of the
  SHA-256 hash of the host of the upstream cluster; it has the number of workers of the flags; and it watches the shared namespace of the tenants
  if they share one, and all namespaces otherwise, for a shared namespace has a name. All this is what the running reconciler needs.
\<close>

theorem downstream_is_created:
  assumes "go_library g" and "main IsDNS1123Label env (flags.truncate f) = Inr steps" "f_role f = RoleDownstream"
    and "IsDNS1123Label [] \<noteq> []"
  shows "\<exists>d. create_downstream g host f = Inr d \<and> proper d \<and> dr_Target d = f_downstreamTarget f \<and>
    f_downstreamTarget f \<in> {''router'', ''cache''} \<and>
    snd ` set (dr_kinds d) = (if f_downstreamTarget f = ''cache'' then {KService}
      else {KLocation, KHealthCheckProfile, KZone, KPrefixList, KDNSEndpoint}) \<and>
    dr_SourceID d = hex_bytes (take 16 (g_sha256 g host)) \<and> length (dr_SourceID d) = 32 \<and>
    dr_Workers d = f_downstreamWorkers f \<and> 1 \<le> dr_Workers d \<and>
    dr_TargetNamespace d = (if Namespaced (f_tenantScope f) then [] else TargetNamespace (f_tenantScope f)) \<and>
    (dr_TargetNamespace d = [] \<longleftrightarrow> Namespaced (f_tenantScope f))"
proof -
  have len: "length (downstreamSourceID g host) = 32"
    by (simp add: downstreamSourceID_def go_library.sha256_length [OF assms(1)])
  then have id: "downstreamSourceID g host \<noteq> []" by auto
  have role: "f_role (flags.truncate f) = ''downstream''" using assms(3) by (simp add: flags.truncate_def RoleDownstream_def)
  note checked = main_checked(1) [OF assms(2)] main_checked(2,4) [OF assms(2) role]
  have scope: "Namespaced (f_tenantScope f) \<or> TargetNamespace (f_tenantScope f) \<noteq> []"
    using checked(1) assms(4) by (auto simp: flags.truncate_def Scope_Validate_def Let_def split: if_splits)
  have target: "f_downstreamTarget f \<in> {''router'', ''cache''}" and workers: "1 \<le> f_downstreamWorkers f"
    using checked(2,3) by (auto simp: flags.truncate_def DownstreamTargetRouter_def DownstreamTargetCache_def)
  obtain d where d: "NewDownstreamReconciler True (f_downstreamTarget f) (downstreamSourceID g host) (f_downstreamWorkers f) = Inr d"
    "dr_Workers d = f_downstreamWorkers f" "dr_SourceID d = downstreamSourceID g host" "dr_TargetNamespace d = []"
    "dr_Target d = f_downstreamTarget f" "snd ` set (dr_kinds d) = (if f_downstreamTarget f = ''cache'' then {KService}
      else {KLocation, KHealthCheckProfile, KZone, KPrefixList, KDNSEndpoint})"
    using target workers id by (auto simp: NewDownstreamReconciler_def downstreamResourceKinds_def
        DownstreamTargetRouter_def DownstreamTargetCache_def)
  then have same: "d\<lparr>dr_TargetNamespace := []\<rparr> = d" by (cases d) simp
  have "proper (d\<lparr>dr_TargetNamespace := ns\<rparr>)" for ns using New_proper [OF d(1)] .
  with same have "proper d" "proper (d\<lparr>dr_TargetNamespace := TargetNamespace (f_tenantScope f)\<rparr>)" by metis+
  with d len scope target workers show ?thesis by (auto simp: create_downstream_def downstreamSourceID_def)
qed

definition downstream_options :: options where
  "downstream_options = default_options\<lparr>f_role := ''downstream'', f_downstreamTarget := ''cache'', f_upstreamKubeconfig := ''/up''\<rparr>"

theorem downstream_is_created_witness:
  "\<exists>d. create_downstream reference_go ''https://up'' downstream_options = Inr d \<and> proper d \<and> dr_Workers d = 16"
proof -
  let ?dns = "\<lambda>s. if s = [] then [''empty''] else []"
  have "\<exists>steps. main ?dns (\<lambda>step. None) (flags.truncate downstream_options) = Inr steps"
    by (simp add: main_def action_defs role_defs downstream_options_def default_options_def flags.truncate_def
        Scope_Validate_def call_def DownstreamWorkers_def)
  then obtain steps where "main ?dns (\<lambda>step. None) (flags.truncate downstream_options) = Inr steps" ..
  from downstream_is_created [OF reference_go.go_library_axioms this, of "''https://up''"] show ?thesis
    by (auto simp: downstream_options_def default_options_def RoleDownstream_def DownstreamWorkers_def)
qed

end
