(* ===== verification/Dns_Library.thy ===== *)
theory Dns_Library
  imports Zero_Values Net_IP
begin

text \<open>
  The functions of \<open>github.com/miekg/dns\<close> that the controller calls, as a record of functions
  that every definition using them takes as an argument, and what the library documents of them
  as locales. A resource record is parsed by \<open>NewRR\<close>: an error, no record (the text is a
  comment), or a record with the target name that its type carries.
\<close>

datatype rr = CNAME string | MX string | NS string | OtherRR

record dnslib =
  IsSubDomain :: "string \<Rightarrow> string \<Rightarrow> bool"
  Fqdn :: "string \<Rightarrow> string"
  IsDomainName :: "string \<Rightarrow> bool"
  StringToType :: "string \<Rightarrow> nat"
  NewRR :: "string \<Rightarrow> string + rr option"

text \<open>
  \<open>IsSubDomain parent child\<close>: the labels of the parent are the last labels of the child. So it
  is reflexive and transitive, and two parents of one name are comparable. \<open>Fqdn\<close> adds the final
  dot to a name that has none.
\<close>

locale dns_names =
  fixes dl :: dnslib
  assumes sub_refl: "IsSubDomain dl a a"
    and sub_trans: "IsSubDomain dl a b \<Longrightarrow> IsSubDomain dl b c \<Longrightarrow> IsSubDomain dl a c"
    and sub_linear: "IsSubDomain dl a c \<Longrightarrow> IsSubDomain dl b c \<Longrightarrow> IsSubDomain dl a b \<or> IsSubDomain dl b a"
    and Fqdn_add: "s = [] \<or> last s \<noteq> CHR ''.'' \<Longrightarrow> Fqdn dl s = s @ ''.''"
    and Fqdn_keep: "s \<noteq> [] \<Longrightarrow> last s = CHR ''.'' \<Longrightarrow> (CHR 0x5C) \<notin> set s \<Longrightarrow> Fqdn dl s = s"
begin

lemma sub_disjoint:
  assumes "\<not> IsSubDomain dl a b" "\<not> IsSubDomain dl b a"
  shows "\<not> (IsSubDomain dl a c \<and> IsSubDomain dl b c)"
  using assms sub_linear by blast

end

text \<open>
  A record of the form \<open>owner ttl IN TYPE target\<close>. When the owner is a name that needs no escapes, the time to live fits 31 bits
  and the type is one whose target is a name, what the target is parsed to depends on the type and the target only. With blanks, semicolons, line breaks
  or escapes in the owner this is not so, for then a part of the owner may be read as the rest of the record.
\<close>

definition plain_char :: "char \<Rightarrow> bool" where
  "plain_char c \<longleftrightarrow> (let n = of_char c :: nat in
     97 \<le> n \<and> n \<le> 122 \<or> 65 \<le> n \<and> n \<le> 90 \<or> 48 \<le> n \<and> n \<le> 57 \<or> c = CHR ''-'' \<or> c = CHR ''_'' \<or> c = CHR ''.'' \<or> c = CHR ''*'')"

definition plain_name :: "string \<Rightarrow> bool" where
  "plain_name s \<longleftrightarrow> s \<noteq> [] \<and> list_all plain_char s"

definition rr_text :: "string \<Rightarrow> int \<Rightarrow> string \<Rightarrow> string \<Rightarrow> string" where
  "rr_text owner ttl recordType target =
     owner @ '' '' @ Sprint ttl @ '' IN '' @ recordType @ '' '' @ target"

locale dns_records = dns_names +
  assumes NewRR_target:
    "plain_name owner \<Longrightarrow> 0 \<le> ttl \<Longrightarrow> ttl < 2 ^ 31 \<Longrightarrow> ty \<in> {''MX'', ''NS''} \<Longrightarrow>
     NewRR dl (rr_text owner ttl ty target) = Inr (Some r) \<Longrightarrow>
     NewRR dl (rr_text ''target.invalid.'' 0 ty target) = Inr (Some r)"

section \<open>A reference instance\<close>

text \<open>Names as lists of labels, compared without case\<close>

definition name_labels :: "string \<Rightarrow> string list" where
  "name_labels s = filter (\<lambda>l. l \<noteq> []) (Split (ToLower s) CHR ''.'')"

definition suffix_of :: "'a list \<Rightarrow> 'a list \<Rightarrow> bool" where
  "suffix_of xs ys \<longleftrightarrow> drop (length ys - length xs) ys = xs"

lemma suffix_of_iff: "suffix_of xs ys \<longleftrightarrow> (\<exists>us. ys = us @ xs)"
proof
  assume "suffix_of xs ys"
  then show "\<exists>us. ys = us @ xs" unfolding suffix_of_def by (metis append_take_drop_id)
qed (auto simp: suffix_of_def)

lemma suffix_of_linear: "suffix_of a c \<Longrightarrow> suffix_of b c \<Longrightarrow> suffix_of a b \<or> suffix_of b a"
  by (auto simp: suffix_of_iff append_eq_append_conv2)

text \<open>The last space-separated field of a record's text is its target, the one before its type.\<close>

definition reference_NewRR :: "string \<Rightarrow> string + rr option" where
  "reference_NewRR text =
     (case rev (Split text CHR '' '') of
        target # ty # _ \<Rightarrow>
          if target = [] then Inl ''no target''
          else Inr (Some (if ty = ''CNAME'' then CNAME target
            else if ty = ''NS'' then NS target else if ty = ''MX'' then MX target else OtherRR))
      | _ \<Rightarrow> Inl ''no record'')"

definition reference_dns :: dnslib where
  "reference_dns =
     \<lparr>IsSubDomain = (\<lambda>p c. suffix_of (name_labels p) (name_labels c)),
      Fqdn = (\<lambda>s. if s \<noteq> [] \<and> last s = CHR ''.'' then s else s @ ''.''),
      IsDomainName = (\<lambda>s. length s \<le> 254),
      StringToType = (\<lambda>s. if s \<in> set [''A'', ''AAAA'', ''CNAME'', ''TXT'', ''MX'', ''SRV'', ''NS''] then 1 else 0),
      NewRR = reference_NewRR\<rparr>"

lemma Split_snoc_field:
  "Split (s @ sep # t) sep = Split s sep @ Split t sep"
proof (induction s sep rule: Split.induct)
  case (2 c s sep)
  then show ?case by (cases "Split s sep") auto
qed simp

lemma reference_NewRR_fields:
  "reference_NewRR (rr_text owner ttl ty target) = reference_NewRR (rr_text owner' ttl' ty target)"
proof -
  have "rr_text owner ttl ty target = (owner @ '' '' @ Sprint ttl @ '' IN'') @ CHR '' '' # ty @ CHR '' '' # target"
    "rr_text owner' ttl' ty target = (owner' @ '' '' @ Sprint ttl' @ '' IN'') @ CHR '' '' # ty @ CHR '' '' # target"
    by (simp_all add: rr_text_def)
  then have "\<exists>us us'. Split (rr_text owner ttl ty target) CHR '' '' = us @ Split ty CHR '' '' @ Split target CHR '' '' \<and>
      Split (rr_text owner' ttl' ty target) CHR '' '' = us' @ Split ty CHR '' '' @ Split target CHR '' ''"
    using Split_snoc_field by (metis append.assoc)
  then obtain us us' where s: "rev (Split (rr_text owner ttl ty target) CHR '' '') =
      rev (Split ty CHR '' '' @ Split target CHR '' '') @ rev us"
    "rev (Split (rr_text owner' ttl' ty target) CHR '' '') =
      rev (Split ty CHR '' '' @ Split target CHR '' '') @ rev us'" by auto
  obtain a b r where abr: "rev (Split ty CHR '' '' @ Split target CHR '' '') = a # b # r"
    by (cases "rev (Split target CHR '' '')"; cases "rev (Split ty CHR '' '')"; cases "tl (rev (Split target CHR '' ''))")
      auto
  show ?thesis unfolding reference_NewRR_def s abr by simp
qed

interpretation reference_dns: dns_records reference_dns
proof
  fix owner ty target r and ttl :: int
  assume "NewRR reference_dns (rr_text owner ttl ty target) = Inr (Some r)"
  then show "NewRR reference_dns (rr_text ''target.invalid.'' 0 ty target) = Inr (Some r)"
    using reference_NewRR_fields [of "''target.invalid.''" 0 ty target owner ttl] by (simp add: reference_dns_def)
next
  fix a b c
  assume "IsSubDomain reference_dns a c" "IsSubDomain reference_dns b c"
  then show "IsSubDomain reference_dns a b \<or> IsSubDomain reference_dns b a"
    by (simp add: reference_dns_def suffix_of_linear)
qed (auto simp: reference_dns_def suffix_of_iff)

end
