(* ===== verification/Webhooks.thy ===== *)
theory Webhooks
  imports Dns_Library "HOL-Library.Code_Target_Nat"
begin

text \<open>
  The validating webhooks of \<open>internal/webhook/v1alpha1\<close> for health check profiles, zones and
  services. A validator returns the warnings and an error; \<open>None\<close> is a nil error. The list call
  of the client is an argument: its error, or the items it returns.
\<close>

section \<open>HealthCheckProfile\<close>

datatype health_error = IntervalTooShort string | BadTimeout string

abbreviation second :: int where "second \<equiv> 1000000000"

definition validateHealthCheckProfileProbeDurations :: "HealthCheckProfile \<Rightarrow> health_error option" where
  "validateHealthCheckProfileProbeDurations profile =
     first_error (\<lambda>probe.
       if probe_Interval probe < 5 * second then Some (IntervalTooShort (probe_Name probe))
       else if probe_Timeout probe \<le> 0 \<or> probe_Interval probe \<le> probe_Timeout probe
       then Some (BadTimeout (probe_Name probe))
       else None) (hcps_Probes (hcp_Spec profile))"

section \<open>Zone\<close>

datatype zone_error =
    ListZones apierr | ZoneOverlaps string "string list"
  | ListServices apierr | ZoneInUse string "string list"

definition dotted :: "string \<Rightarrow> string" where
  "dotted s = s @ ''.''"

definition zone_overlap :: "dnslib \<Rightarrow> Zone \<Rightarrow> Zone \<Rightarrow> bool" where
  "zone_overlap dl zone existing =
     (IsSubDomain dl (dotted (zones_Zone (zone_Spec zone))) (dotted (zones_Zone (zone_Spec existing))) \<or>
      IsSubDomain dl (dotted (zones_Zone (zone_Spec existing))) (dotted (zones_Zone (zone_Spec zone))))"

definition same_object :: "ObjectMeta \<Rightarrow> ObjectMeta \<Rightarrow> bool" where
  "same_object a b \<longleftrightarrow> om_Name a = om_Name b \<and> om_Namespace a = om_Namespace b"

definition ValidateZoneOverlaps :: "dnslib \<Rightarrow> apierr + Zone list \<Rightarrow> Zone \<Rightarrow> string list \<times> zone_error option" where
  "ValidateZoneOverlaps dl list zone =
     (case list of
        Inl err \<Rightarrow> ([], Some (ListZones err))
      | Inr zones \<Rightarrow>
          (let overlapping = map (\<lambda>z. om_Name (zone_Meta z))
                 (filter (\<lambda>z. \<not> same_object (zone_Meta z) (zone_Meta zone) \<and> zone_overlap dl zone z) zones) in
           if overlapping \<noteq> [] then (overlapping, Some (ZoneOverlaps (zones_Zone (zone_Spec zone)) overlapping))
           else ([], None)))"

text \<open>\<open>ValidateDelete\<close>; a service may be listed twice, for its domain and for an alias.\<close>

definition Zone_ValidateDelete :: "dnslib \<Rightarrow> apierr + Service list \<Rightarrow> Zone \<Rightarrow> string list \<times> zone_error option" where
  "Zone_ValidateDelete dl list zone =
     (case list of
        Inl err \<Rightarrow> ([], Some (ListServices err))
      | Inr services \<Rightarrow>
          (let covers = (\<lambda>name. IsSubDomain dl (dotted (zones_Zone (zone_Spec zone))) (dotted name));
               using = concat (map (\<lambda>s.
                 (if covers (ss_Domain (svc_Spec s)) then [om_Name (svc_Meta s)] else []) @
                 (if list_ex (\<lambda>a. covers (ha_Name a)) (ss_HostAliases (svc_Spec s))
                  then [om_Name (svc_Meta s)] else [])) services) in
           if using \<noteq> [] then (using, Some (ZoneInUse (zones_Zone (zone_Spec zone)) using)) else ([], None)))"

section \<open>Service\<close>

datatype service_error =
    CachingReconcilerDisabled
  | ListServicesFailed apierr
  | DomainUsed string string string
  | HostAliasUsed string string string
  | NoStaticOrigins
  | EmptyUpstream
  | NotPublicIPv4OrFQDN string
  | PrivateIPv4 string
  | BlockedTLD string string
  | InvalidHostHeader string service_error

definition normaliseUpstreamTLDs :: "string list \<Rightarrow> string list" where
  "normaliseUpstreamTLDs tlds =
     filter (\<lambda>t. t \<noteq> []) (map (\<lambda>tld. TrimPrefix (TrimSpace (ToLower tld)) ''.'') tlds)"

definition ldh :: "char \<Rightarrow> bool" where
  "ldh c \<longleftrightarrow> (let n = of_char c :: nat in
     97 \<le> n \<and> n \<le> 122 \<or> 65 \<le> n \<and> n \<le> 90 \<or> 48 \<le> n \<and> n \<le> 57 \<or> n = 45)"

definition fqdn_label :: "string \<Rightarrow> bool" where
  "fqdn_label l \<longleftrightarrow> length l \<noteq> 0 \<and> \<not> 63 < length l \<and> hd l \<noteq> CHR ''-'' \<and> last l \<noteq> CHR ''-'' \<and> list_all ldh l"

definition isFQDN :: "string \<Rightarrow> bool" where
  "isFQDN host =
     (let normalizedHost = TrimSuffix host ''.'' in
      if length normalizedHost = 0 \<or> 253 < length normalizedHost then False
      else let labels = Split normalizedHost CHR ''.'' in
        if length labels < 2 then False else list_all fqdn_label labels)"

definition validateUpstreamConfiguration :: "string list \<Rightarrow> string \<Rightarrow> service_error option" where
  "validateUpstreamConfiguration blocked upstream =
     (let trimmed = TrimSpace upstream in
      if trimmed = [] then Some EmptyUpstream
      else case ParseIP trimmed of
        Some ip \<Rightarrow>
          if To4 ip = None then Some (NotPublicIPv4OrFQDN upstream)
          else if IsPrivate ip then Some (PrivateIPv4 upstream)
          else None
      | None \<Rightarrow>
          if \<not> isFQDN trimmed then Some (NotPublicIPv4OrFQDN upstream)
          else let normalizedHost = TrimSuffix (ToLower trimmed) ''.'' in
            first_error (\<lambda>tld. if HasSuffix normalizedHost (CHR ''.'' # tld)
                               then Some (BlockedTLD upstream tld) else None) blocked)"

definition validateStaticOrigin :: "string list \<Rightarrow> StaticOriginSpec \<Rightarrow> service_error option" where
  "validateStaticOrigin blocked origin =
     (if so_Upstream origin = [] then Some EmptyUpstream
      else case validateUpstreamConfiguration blocked (so_Upstream origin) of
        Some err \<Rightarrow> Some err
      | None \<Rightarrow>
          if so_HostHeader origin \<noteq> [] then
            map_option (InvalidHostHeader (so_HostHeader origin))
              (validateUpstreamConfiguration blocked (so_HostHeader origin))
          else None)"

text \<open>The duplicates of a name among the existing services\<close>

definition service_duplicate :: "Service \<Rightarrow> Service \<Rightarrow> service_error option" where
  "service_duplicate service svc =
     (if ss_Domain (svc_Spec svc) = ss_Domain (svc_Spec service) \<and> \<not> same_object (svc_Meta svc) (svc_Meta service)
      then Some (DomainUsed (ss_Domain (svc_Spec service)) (om_Namespace (svc_Meta svc)) (om_Name (svc_Meta svc)))
      else first_error (\<lambda>hostAlias.
        if list_ex (\<lambda>ha. if same_object (svc_Meta svc) (svc_Meta service) then False
                         else ha_Name ha = ha_Name hostAlias) (ss_HostAliases (svc_Spec service))
        then Some (HostAliasUsed (ha_Name hostAlias) (om_Namespace (svc_Meta svc)) (om_Name (svc_Meta svc)))
        else None) (ss_HostAliases (svc_Spec svc)))"

record ServiceCustomValidator =
  BlockedUpstreamTLDs :: "string list"
  CachingReconcilerEnabled :: bool

text \<open>The one warning of a duplicate repeats the error; the other errors have no warning.\<close>

definition ValidateService ::
  "ServiceCustomValidator \<Rightarrow> apierr + Service list \<Rightarrow> Service \<Rightarrow> service_error list \<times> service_error option" where
  "ValidateService v list service =
     (if \<not> CachingReconcilerEnabled v then ([], Some CachingReconcilerDisabled)
      else case list of
        Inl err \<Rightarrow> ([], Some (ListServicesFailed err))
      | Inr services \<Rightarrow>
          (case first_error (service_duplicate service) services of
             Some err \<Rightarrow> ([err], Some err)
           | None \<Rightarrow>
               if ss_OriginType (svc_Spec service) = ''static'' then
                 if length (ss_StaticOrigins (svc_Spec service)) = 0 then ([], Some NoStaticOrigins)
                 else ([], first_error (validateStaticOrigin (BlockedUpstreamTLDs v))
                             (ss_StaticOrigins (svc_Spec service)))
               else ([], None)))"

section \<open>Fully qualified names\<close>

lemma fqdn_label_no_dot: "fqdn_label l \<Longrightarrow> CHR ''.'' \<notin> set l"
  by (auto simp: fqdn_label_def list_all_iff ldh_def)

lemma last_Join: "ws \<noteq> [] \<Longrightarrow> last ws \<noteq> [] \<Longrightarrow> last (Join ws sep) = last (last ws) \<and> Join ws sep \<noteq> []"
  by (induction ws sep rule: Join.induct) auto

lemma TrimSuffix_Join:
  assumes "ws \<noteq> []" and "list_all fqdn_label ws"
  shows "TrimSuffix (Join ws CHR ''.'') ''.'' = Join ws CHR ''.''"
proof -
  have l: "fqdn_label (last ws)" using assms by (simp add: list_all_iff)
  then have "last ws \<noteq> []" "last (last ws) \<noteq> CHR ''.''"
    using fqdn_label_no_dot [OF l] last_in_set [of "last ws"] unfolding fqdn_label_def by force+
  then have "last (Join ws CHR ''.'') \<noteq> CHR ''.''" using last_Join assms(1) by metis
  then show ?thesis by (auto simp: TrimSuffix_def HasSuffix_iff)
qed

lemma isFQDN_labels:
  "isFQDN host \<longleftrightarrow> (\<exists>labels. 2 \<le> length labels \<and> list_all fqdn_label labels \<and>
     length (Join labels CHR ''.'') \<le> 253 \<and>
     (host = Join labels CHR ''.'' \<or> host = Join labels CHR ''.'' @ ''.''))"
proof
  assume f: "isFQDN host"
  let ?h = "TrimSuffix host ''.''"
  have "host = ?h \<or> host = ?h @ ''.''" by (rule TrimSuffix_cases [of host "''.''"]) auto
  then show "\<exists>labels. 2 \<le> length labels \<and> list_all fqdn_label labels \<and>
     length (Join labels CHR ''.'') \<le> 253 \<and>
     (host = Join labels CHR ''.'' \<or> host = Join labels CHR ''.'' @ ''.'')"
    using f by (intro exI [of _ "Split ?h CHR ''.''"])
      (auto simp: isFQDN_def Let_def Join_Split split: if_splits)
next
  assume "\<exists>labels. 2 \<le> length labels \<and> list_all fqdn_label labels \<and>
     length (Join labels CHR ''.'') \<le> 253 \<and>
     (host = Join labels CHR ''.'' \<or> host = Join labels CHR ''.'' @ ''.'')"
  then obtain ws where ws: "2 \<le> length ws" "list_all fqdn_label ws" "length (Join ws CHR ''.'') \<le> 253"
    "host = Join ws CHR ''.'' \<or> host = Join ws CHR ''.'' @ ''.''" by blast
  have ne: "ws \<noteq> []" using ws(1) by auto
  have t: "TrimSuffix host ''.'' = Join ws CHR ''.''"
    using ws(4) TrimSuffix_Join [OF ne ws(2)] by auto
  have "last ws \<noteq> []" using ws(2) ne by (auto simp: list_all_iff fqdn_label_def)
  then have "Join ws CHR ''.'' \<noteq> []" using last_Join [OF ne] by blast
  moreover have "Split (Join ws CHR ''.'') CHR ''.'' = ws"
    using ne ws(2) fqdn_label_no_dot by (intro Split_Join) (auto simp: list_all_iff)
  ultimately show "isFQDN host" using t ws by (auto simp: isFQDN_def Let_def)
qed

section \<open>Admitted upstreams\<close>

definition upstream_allowed :: "string list \<Rightarrow> string \<Rightarrow> bool" where
  "upstream_allowed blocked upstream \<longleftrightarrow>
     TrimSpace upstream \<noteq> [] \<and>
     (case ParseIP (TrimSpace upstream) of
        Some ip \<Rightarrow> To4 ip \<noteq> None \<and> \<not> IsPrivate ip
      | None \<Rightarrow> isFQDN (TrimSpace upstream) \<and>
          list_all (\<lambda>tld. \<not> HasSuffix (TrimSuffix (ToLower (TrimSpace upstream)) ''.'') (CHR ''.'' # tld)) blocked)"

lemma validateUpstreamConfiguration_iff:
  "validateUpstreamConfiguration blocked u = None \<longleftrightarrow> upstream_allowed blocked u"
  by (auto simp: validateUpstreamConfiguration_def upstream_allowed_def Let_def list_all_iff
      simp del: not_None_eq split: option.split)

definition origin_allowed :: "string list \<Rightarrow> StaticOriginSpec \<Rightarrow> bool" where
  "origin_allowed blocked origin \<longleftrightarrow> upstream_allowed blocked (so_Upstream origin) \<and>
     (so_HostHeader origin = [] \<or> upstream_allowed blocked (so_HostHeader origin))"

lemma upstream_allowed_not_Nil: "upstream_allowed blocked u \<Longrightarrow> u \<noteq> []"
  by (auto simp: upstream_allowed_def TrimSpace_def TrimLeftFunc_def TrimRightFunc_def)

lemma validateStaticOrigin_iff: "validateStaticOrigin blocked origin = None \<longleftrightarrow> origin_allowed blocked origin"
  using upstream_allowed_not_Nil [of blocked "so_Upstream origin"]
  by (auto simp: validateStaticOrigin_def origin_allowed_def validateUpstreamConfiguration_iff [symmetric]
      split: option.split)

definition names_clash :: "Service \<Rightarrow> Service \<Rightarrow> bool" where
  "names_clash a b \<longleftrightarrow> ss_Domain (svc_Spec a) = ss_Domain (svc_Spec b) \<or>
     ha_Name ` set (ss_HostAliases (svc_Spec a)) \<inter> ha_Name ` set (ss_HostAliases (svc_Spec b)) \<noteq> {}"

lemma service_duplicate_iff:
  "service_duplicate service svc = None \<longleftrightarrow>
   same_object (svc_Meta svc) (svc_Meta service) \<or> \<not> names_clash service svc"
  by (auto simp: service_duplicate_def names_clash_def list_ex_iff)

lemma ValidateService_iff:
  "snd (ValidateService v (Inr services) service) = None \<longleftrightarrow>
   CachingReconcilerEnabled v \<and>
   (\<forall>svc \<in> set services. same_object (svc_Meta svc) (svc_Meta service) \<or> \<not> names_clash service svc) \<and>
   (ss_OriginType (svc_Spec service) = ''static'' \<longrightarrow>
      ss_StaticOrigins (svc_Spec service) \<noteq> [] \<and>
      list_all (origin_allowed (BlockedUpstreamTLDs v)) (ss_StaticOrigins (svc_Spec service)))"
proof (cases "first_error (service_duplicate service) services")
  case None
  then have "\<forall>svc \<in> set services. same_object (svc_Meta svc) (svc_Meta service) \<or> \<not> names_clash service svc"
    by (simp add: service_duplicate_iff)
  with None show ?thesis
    by (simp add: ValidateService_def validateStaticOrigin_iff list_all_iff del: first_error_None_iff)
      (simp add: validateStaticOrigin_iff)
next
  case (Some e)
  then have "\<not> (\<forall>svc \<in> set services. same_object (svc_Meta svc) (svc_Meta service) \<or> \<not> names_clash service svc)"
    using first_error_None_iff [of "service_duplicate service" services] service_duplicate_iff
    by (metis option.distinct(1))
  with Some show ?thesis by (simp add: ValidateService_def)
qed

section \<open>Zones and services that get along\<close>

lemma zone_overlap_sym: "zone_overlap dl a b \<longleftrightarrow> zone_overlap dl b a"
  by (auto simp: zone_overlap_def)

lemma names_clash_sym: "names_clash a b \<longleftrightarrow> names_clash b a"
  by (auto simp: names_clash_def)

lemma ValidateZoneOverlaps_None:
  "snd (ValidateZoneOverlaps dl (Inr zs) z) = None \<Longrightarrow>
   y \<in> set zs \<Longrightarrow> same_object (zone_Meta y) (zone_Meta z) \<or> \<not> zone_overlap dl z y"
  by (auto simp: ValidateZoneOverlaps_def Let_def filter_empty_conv split: if_splits)

lemma probe_durations_iff:
  "validateHealthCheckProfileProbeDurations profile = None \<longleftrightarrow>
   list_all (\<lambda>p. 5 * second \<le> probe_Interval p \<and> 0 < probe_Timeout p \<and> probe_Timeout p < probe_Interval p)
     (hcps_Probes (hcp_Spec profile))"
  by (auto simp: validateHealthCheckProfileProbeDurations_def list_all_iff)

section \<open>What a service may be\<close>

text \<open>The private IPv4 ranges 10.0.0.0/8, 172.16.0.0/12 and 192.168.0.0/16\<close>

definition private_ranges :: "nat set" where
  "private_ranges = {10 * 2 ^ 24 ..< 11 * 2 ^ 24} \<union> {172 * 2 ^ 24 + 16 * 2 ^ 16 ..< 172 * 2 ^ 24 + 32 * 2 ^ 16} \<union>
     {192 * 2 ^ 24 + 168 * 2 ^ 16 ..< 192 * 2 ^ 24 + 169 * 2 ^ 16}"

text \<open>A name of at least two labels, with or without a final dot, under no blocked domain\<close>

definition open_name :: "string list \<Rightarrow> string \<Rightarrow> bool" where
  "open_name blocked host \<longleftrightarrow> (\<exists>labels. 2 \<le> length labels \<and> list_all fqdn_label labels \<and> length (Join labels CHR ''.'') \<le> 253 \<and>
     host \<in> {Join labels CHR ''.'', Join labels CHR ''.'' @ ''.''} \<and>
     (\<nexists>p tld. tld \<in> set blocked \<and> ToLower (Join labels CHR ''.'') = p @ ''.'' @ tld))"

text \<open>After trimming: an IPv4 address outside the private ranges, or such a name. Loopback and link-local addresses are among the first.\<close>

definition usable_host :: "string list \<Rightarrow> string \<Rightarrow> bool" where
  "usable_host blocked host = (case ParseIP (TrimSpace host) of
     Some ip \<Rightarrow> (case To4 ip of Some a \<Rightarrow> unat a \<notin> private_ranges | None \<Rightarrow> False)
   | None \<Rightarrow> open_name blocked (TrimSpace host))"

lemma octet_ranges:
  fixes a b r :: nat
  assumes "b < 256" "r < 65536"
  shows "a = 10 \<or> a = 172 \<and> 16 \<le> b \<and> b \<le> 31 \<or> a = 192 \<and> b = 168 \<longleftrightarrow> a * 16777216 + b * 65536 + r \<in> private_ranges"
proof -
  have "a = 10 \<longleftrightarrow> a * 16777216 + b * 65536 + r \<in> {10 * 2 ^ 24 ..< 11 * 2 ^ 24}" using assms by auto
  moreover have "a = 172 \<and> 16 \<le> b \<and> b \<le> 31 \<longleftrightarrow>
      a * 16777216 + b * 65536 + r \<in> {172 * 2 ^ 24 + 16 * 2 ^ 16 ..< 172 * 2 ^ 24 + 32 * 2 ^ 16}"
    using assms by (cases "a = 172") auto
  moreover have "a = 192 \<and> b = 168 \<longleftrightarrow>
      a * 16777216 + b * 65536 + r \<in> {192 * 2 ^ 24 + 168 * 2 ^ 16 ..< 192 * 2 ^ 24 + 169 * 2 ^ 16}"
    using assms by (cases "a = 192") auto
  ultimately show ?thesis unfolding private_ranges_def by blast
qed

lemma IsPrivate_ranges:
  assumes "To4 ip = Some v"
  shows "IsPrivate ip \<longleftrightarrow> unat v \<in> private_ranges"
proof -
  let ?n = "unat v"
  define a b r where "a = ?n div 16777216" "b = ?n div 65536 mod 256" "r = ?n mod 65536"
  note abr = this
  have four: "(4::nat) = Suc (Suc (Suc (Suc 0)))" by simp
  have octets: "octets v = [?n div 256 div 256 div 256 mod 256, ?n div 256 div 256 mod 256, ?n div 256 mod 256, ?n mod 256]"
    unfolding octets_def four by simp
  have a: "a = ?n div 65536 div 256" by (simp add: abr div_mult2_eq [symmetric])
  then have "?n div 65536 = a * 256 + b" unfolding abr(2) by (simp add: div_mult_mod_eq)
  then have "?n = (a * 256 + b) * 65536 + r" unfolding abr(3) by (metis div_mult_mod_eq)
  then have n: "?n = a * 16777216 + b * 65536 + r" "b < 256" "r < 65536" by (simp_all add: abr(2,3))
  have "?n < 2 ^ 32" using unsigned_less [of v, where 'a = nat] by simp
  then have "a < 256" using n(1) by simp
  then have "octets v ! 0 = a" "octets v ! 1 = b" using a unfolding octets abr(2) by (simp_all add: div_mult2_eq [symmetric])
  then show ?thesis using assms octet_ranges [OF n(2,3), of a] n(1) by (simp add: IsPrivate_def Let_def)
qed

lemma lower_dot: "lower_char c = CHR ''.'' \<longleftrightarrow> c = CHR ''.''"
proof -
  have "(of_char (lower_char c) :: nat) = 46 \<longleftrightarrow> (of_char c :: nat) = 46"
    by (simp add: lower_char_def Let_def of_char_of)
  moreover have "(of_char CHR ''.'' :: nat) = 46" by code_simp
  ultimately show ?thesis by (metis char_of_char)
qed

lemma ToLower_dot: "ToLower (s @ ''.'') = ToLower s @ ''.''"
proof -
  have "ToLower ''.'' = ''.''" by code_simp
  then show ?thesis by (simp add: ToLower_def)
qed

lemma ToLower_Join:
  assumes "ws \<noteq> []" "list_all fqdn_label ws"
  shows "TrimSuffix (ToLower (Join ws CHR ''.'')) ''.'' = ToLower (Join ws CHR ''.'')"
proof -
  have l: "fqdn_label (last ws)" using assms by (simp add: list_all_iff)
  then have label: "last ws \<noteq> []" "CHR ''.'' \<notin> set (last ws)" using fqdn_label_no_dot by (auto simp: fqdn_label_def)
  then have "last (Join ws CHR ''.'') \<noteq> CHR ''.''" "Join ws CHR ''.'' \<noteq> []" using last_Join [OF assms(1)] by (metis last_in_set)+
  then have "last (ToLower (Join ws CHR ''.'')) \<noteq> CHR ''.''" by (simp add: ToLower_def last_map lower_dot)
  then have "\<not> HasSuffix (ToLower (Join ws CHR ''.'')) ''.''" by (auto simp: HasSuffix_iff)
  then show ?thesis by (simp add: TrimSuffix_def)
qed

lemma open_name_iff:
  "isFQDN host \<and> list_all (\<lambda>tld. \<not> HasSuffix (TrimSuffix (ToLower host) ''.'') (CHR ''.'' # tld)) blocked \<longleftrightarrow>
   open_name blocked host"
proof -
  have "TrimSuffix (ToLower host) ''.'' = ToLower (Join ws CHR ''.'')"
    if "2 \<le> length ws" "list_all fqdn_label ws" "host = Join ws CHR ''.'' \<or> host = Join ws CHR ''.'' @ ''.''" for ws
    using that ToLower_Join [of ws] ToLower_dot by fastforce
  then show ?thesis unfolding open_name_def isFQDN_labels by (auto simp: list_all_iff HasSuffix_iff) metis+
qed

lemma upstream_allowed_iff: "upstream_allowed blocked u \<longleftrightarrow> usable_host blocked u"
proof -
  have "TrimSpace u \<noteq> []" if "isFQDN (TrimSpace u)" using that by (auto simp: isFQDN_def TrimSuffix_def HasSuffix_def)
  moreover have "ParseIP [] = None" by code_simp
  ultimately show ?thesis
    unfolding upstream_allowed_def usable_host_def open_name_iff [symmetric] using IsPrivate_ranges
    by (auto split: option.split)
qed

text \<open>Examples\<close>

definition example_service :: "string \<Rightarrow> string \<Rightarrow> string list \<Rightarrow> Service" where
  "example_service name domain aliases =
     zero_Service\<lparr>svc_Meta := new_ObjectMeta name ''team-a'',
       svc_Spec := zero_ServiceSpec\<lparr>ss_Project := Some \<lparr>lor_Name = ''team-a''\<rparr>, ss_Domain := domain,
         ss_HostAliases := map (\<lambda>a. \<lparr>ha_Name = a, ha_Certificate = zero_CertificateSpec\<rparr>) aliases\<rparr>\<rparr>"

definition example_validator :: ServiceCustomValidator where
  "example_validator = \<lparr>BlockedUpstreamTLDs = [''local'', ''internal'', ''private''], CachingReconcilerEnabled = True\<rparr>"

section \<open>Properties\<close>

text \<open>
  C24. \<open>ValidateService\<close> accepts a service exactly when the feature gate is on, the services can be listed, no other service
  (another name or namespace) has the same domain or an alias of the same name, and a service with static origins has at least one,
  each with a usable upstream and either no host header or a usable one. A host is usable when it is, without the spaces around it, an IPv4 address
  outside the three private ranges, or a name of at least two labels that is under no blocked domain. A domain is not compared with aliases, and
  loopback and link-local addresses are usable.
\<close>

theorem ValidateService_accepts:
  "(snd (ValidateService v (Inr services) service) = None \<longleftrightarrow>
     CachingReconcilerEnabled v \<and>
     (\<nexists>other. other \<in> set services \<and>
        (om_Namespace (svc_Meta other), om_Name (svc_Meta other)) \<noteq> (om_Namespace (svc_Meta service), om_Name (svc_Meta service)) \<and>
        (ss_Domain (svc_Spec other) = ss_Domain (svc_Spec service) \<or>
         (\<exists>name. name \<in> ha_Name ` set (ss_HostAliases (svc_Spec other)) \<and> name \<in> ha_Name ` set (ss_HostAliases (svc_Spec service))))) \<and>
     (if ss_OriginType (svc_Spec service) = ''static''
      then ss_StaticOrigins (svc_Spec service) \<noteq> [] \<and>
        list_all (\<lambda>origin. usable_host (BlockedUpstreamTLDs v) (so_Upstream origin) \<and>
          (so_HostHeader origin = [] \<or> usable_host (BlockedUpstreamTLDs v) (so_HostHeader origin))) (ss_StaticOrigins (svc_Spec service))
      else True)) \<and>
   snd (ValidateService v (Inl err) service) \<noteq> None"
proof -
  have "snd (ValidateService v (Inl err) service) \<noteq> None" by (simp add: ValidateService_def)
  moreover have "same_object (svc_Meta x) (svc_Meta service) \<longleftrightarrow>
      (om_Namespace (svc_Meta x), om_Name (svc_Meta x)) = (om_Namespace (svc_Meta service), om_Name (svc_Meta service))" for x
    by (auto simp: same_object_def)
  moreover have "names_clash service x \<longleftrightarrow> ss_Domain (svc_Spec x) = ss_Domain (svc_Spec service) \<or>
      (\<exists>name. name \<in> ha_Name ` set (ss_HostAliases (svc_Spec x)) \<and> name \<in> ha_Name ` set (ss_HostAliases (svc_Spec service)))" for x
    unfolding names_clash_def by (subst Int_commute) (auto simp: disjoint_iff)
  ultimately show ?thesis
    unfolding ValidateService_iff by (simp add: origin_allowed_def [abs_def] upstream_allowed_iff) blast
qed

text \<open>
  \<open>isFQDN\<close> accepts exactly the names of at least two labels, at most 253 bytes without an
  optional final dot, each label of 1 to 63 letters, digits and hyphens with no hyphen at its ends.
\<close>

theorem isFQDN_iff_labels:
  "isFQDN host \<longleftrightarrow> (\<exists>labels. 2 \<le> length labels \<and> list_all fqdn_label labels \<and>
     length (Join labels CHR ''.'') \<le> 253 \<and>
     (host = Join labels CHR ''.'' \<or> host = Join labels CHR ''.'' @ ''.''))"
  by (rule isFQDN_labels)

text \<open>
  The check that an upstream is a public IPv4 address rejects the private ranges only: the
  loopback address, the link-local metadata address and the unspecified address are accepted,
  whatever top-level domains are blocked.
\<close>

theorem upstream_accepts_loopback:
  "validateUpstreamConfiguration blocked ''127.0.0.1'' = None \<and>
   validateUpstreamConfiguration blocked ''169.254.169.254'' = None \<and>
   validateUpstreamConfiguration blocked ''0.0.0.0'' = None \<and>
   validateUpstreamConfiguration blocked ''10.0.0.1'' \<noteq> None"
proof -
  have t: "TrimSpace ''127.0.0.1'' = ''127.0.0.1''" "TrimSpace ''169.254.169.254'' = ''169.254.169.254''"
    "TrimSpace ''0.0.0.0'' = ''0.0.0.0''" "TrimSpace ''10.0.0.1'' = ''10.0.0.1''" by code_simp+
  have p: "ParseIP ''127.0.0.1'' = Some (IP4 0x7F000001)" "ParseIP ''169.254.169.254'' = Some (IP4 0xA9FEA9FE)"
    "ParseIP ''0.0.0.0'' = Some (IP4 0)" "ParseIP ''10.0.0.1'' = Some (IP4 0x0A000001)" by code_simp+
  have v: "\<not> IsPrivate (IP4 0x7F000001)" "\<not> IsPrivate (IP4 0xA9FEA9FE)" "\<not> IsPrivate (IP4 0)"
    "IsPrivate (IP4 0x0A000001)" by code_simp+
  show ?thesis by (simp add: validateUpstreamConfiguration_def t p v)
qed

end
