(* ===== verification/Webhook_DNS.thy ===== *)
theory Webhook_DNS
  imports Webhooks
begin

text \<open>
  The validating webhook for DNS records (\<open>internal/webhook/v1alpha1/dnsendpoint_webhook.go\<close>).
  The two calls to the API server, the zone of the record and the records of its namespace, are
  arguments. A failed type assertion of the code is the error \<open>Panic\<close>.
\<close>

section \<open>The model\<close>

datatype dns_error =
    RouteSelectorRequired string
  | ZoneRequired
  | ZoneDoesNotExist string string
  | GetZoneFailed string apierr
  | InvalidZoneName string
  | InvalidDNSName string
  | OutsideZone string string
  | BadTTL
  | UnsupportedType string
  | UnsupportedTypeWithPolicy string string
  | NoTargets
  | CNAMETargets
  | CNAMETargetIsIP string
  | InvalidTarget string string
  | CNAMETargetIsOwner
  | ListRecordsFailed apierr
  | RecordExists string string string
  | CNAMECoexists string
  | TargetIsCNAME string string
  | Panic

definition maxDNSRecordTTL :: int where
  "maxDNSRecordTTL = 2 ^ 31 - 1"

definition label_ok :: "bool \<Rightarrow> nat \<Rightarrow> string \<Rightarrow> bool" where
  "label_ok allowWildcard index label \<longleftrightarrow>
     \<not> (CHR ''*'' \<in> set label \<and> (\<not> allowWildcard \<or> index \<noteq> 0 \<or> label \<noteq> ''*''))"

definition validDNSName :: "dnslib \<Rightarrow> string \<Rightarrow> bool \<Rightarrow> bool" where
  "validDNSName dl name allowWildcard =
     (let name' = TrimSuffix name ''.'' in
      if name' = [] \<or> name' = ''.'' then False
      else if \<not> list_all (\<lambda>(i, l). label_ok allowWildcard i l) (enumerate 0 (Split name' CHR ''.'')) then False
      else IsDomainName dl (Fqdn dl name'))"

definition supportedDNSRecordType :: "string \<Rightarrow> bool" where
  "supportedDNSRecordType recordType \<longleftrightarrow>
     List.member [''A'', ''AAAA'', ''CNAME'', ''TXT'', ''MX'', ''SRV'', ''NS''] (ToUpper recordType)"

definition isAddressRecordType :: "string \<Rightarrow> bool" where
  "isAddressRecordType recordType \<longleftrightarrow> EqualFold recordType ''A'' \<or> EqualFold recordType ''AAAA''"

definition canonicalDNSName :: "dnslib \<Rightarrow> string \<Rightarrow> string" where
  "canonicalDNSName dl name = ToLower (Fqdn dl (TrimSuffix name ''.''))"

definition isSimpleRouting :: "string \<Rightarrow> bool" where
  "isSimpleRouting routingPolicy \<longleftrightarrow> routingPolicy = [] \<or> EqualFold routingPolicy ''Simple''"

definition record_text :: "dnslib \<Rightarrow> DNSEndpointSpec \<Rightarrow> string \<Rightarrow> string" where
  "record_text dl spec target =
     rr_text (Fqdn dl (des_DNSName spec)) (des_RecordTTL spec) (ToUpper (des_RecordType spec)) target"

definition validateDNSRecordTarget :: "dnslib \<Rightarrow> DNSEndpointSpec \<Rightarrow> string \<Rightarrow> dns_error option" where
  "validateDNSRecordTarget dl spec target =
     (if EqualFold (des_RecordType spec) ''CNAME'' \<and> ParseIP (TrimSuffix target ''.'') \<noteq> None
      then Some (CNAMETargetIsIP target)
      else case NewRR dl (record_text dl spec target) of
        Inl err \<Rightarrow> Some (InvalidTarget target (des_RecordType spec))
      | Inr rr \<Rightarrow>
          if EqualFold (des_RecordType spec) ''CNAME'' then
            (case rr of
               Some (CNAME t) \<Rightarrow>
                 if canonicalDNSName dl t = canonicalDNSName dl (des_DNSName spec)
                 then Some CNAMETargetIsOwner else None
             | _ \<Rightarrow> Some Panic)
          else None)"

definition validateDNSRecordTargets :: "dnslib \<Rightarrow> DNSEndpointSpec \<Rightarrow> dns_error option" where
  "validateDNSRecordTargets dl spec =
     (let policy = (if ToLower (des_RoutingPolicy spec) = [] then ''simple'' else ToLower (des_RoutingPolicy spec)) in
      if policy \<noteq> ''simple'' then None
      else if length (des_Targets spec) = 0 then Some NoTargets
      else if EqualFold (des_RecordType spec) ''CNAME'' \<and> length (des_Targets spec) \<noteq> 1 then Some CNAMETargets
      else first_error (validateDNSRecordTarget dl spec) (des_Targets spec))"

fun rr_target :: "rr option \<Rightarrow> string option" where
  "rr_target (Some (MX m)) = Some m"
| "rr_target (Some (NS n)) = Some n"
| "rr_target _ = None"

definition mxOrNSTargets :: "dnslib \<Rightarrow> DNSEndpointSpec \<Rightarrow> string list" where
  "mxOrNSTargets dl spec =
     (if \<not> isSimpleRouting (des_RoutingPolicy spec) then []
      else List.map_filter (\<lambda>target.
        case NewRR dl (record_text dl spec target) of Inl err \<Rightarrow> None | Inr rr \<Rightarrow> rr_target rr)
        (des_Targets spec))"

definition targetNameFromTarget :: "dnslib \<Rightarrow> string \<Rightarrow> string \<Rightarrow> string" where
  "targetNameFromTarget dl recordType target =
     (case NewRR dl (rr_text ''target.invalid.'' 0 recordType target) of
        Inl err \<Rightarrow> []
      | Inr rr \<Rightarrow> (case rr_target rr of Some t \<Rightarrow> t | None \<Rightarrow> []))"

text \<open>The body of the loop of \<open>validateDNSRecordConflicts\<close> for one existing record\<close>

definition record_conflict :: "dnslib \<Rightarrow> DNSEndpoint \<Rightarrow> string \<Rightarrow> DNSEndpoint \<Rightarrow> dns_error option" where
  "record_conflict dl endpoint zoneName other =
     (let spec = de_Spec endpoint; ospec = de_Spec other;
          owner = canonicalDNSName dl (des_DNSName spec);
          recordType = ToUpper (des_RecordType spec);
          otherOwner = canonicalDNSName dl (des_DNSName ospec);
          otherType = ToUpper (des_RecordType ospec);
          sameOwner = (owner = otherOwner);
          sameZone = (case des_Zone ospec of None \<Rightarrow> False | Some z \<Rightarrow> lor_Name z = zoneName) in
      if same_object (de_Meta other) (de_Meta endpoint) then None
      else if sameOwner \<and> sameZone \<and> recordType = otherType
      then Some (RecordExists (des_DNSName spec) recordType zoneName)
      else if sameOwner \<and> (recordType = ''CNAME'' \<or> otherType = ''CNAME'')
      then Some (CNAMECoexists (des_DNSName spec))
      else if recordType = ''CNAME'' \<and> isSimpleRouting (des_RoutingPolicy ospec) \<and>
              (otherType = ''MX'' \<or> otherType = ''NS'') \<and>
              list_ex (\<lambda>target. canonicalDNSName dl target = owner) (mxOrNSTargets dl ospec)
      then Some (TargetIsCNAME otherType (des_DNSName spec))
      else if isSimpleRouting (des_RoutingPolicy spec) \<and> (recordType = ''MX'' \<or> recordType = ''NS'') then
        first_error (\<lambda>target. let targetName = targetNameFromTarget dl recordType target in
          if otherType = ''CNAME'' \<and> canonicalDNSName dl targetName = otherOwner
          then Some (TargetIsCNAME recordType targetName) else None) (des_Targets spec)
      else None)"

definition validateDNSRecordConflicts ::
  "dnslib \<Rightarrow> DNSEndpoint \<Rightarrow> string \<Rightarrow> DNSEndpoint list \<Rightarrow> dns_error option" where
  "validateDNSRecordConflicts dl endpoint zoneName existing =
     first_error (record_conflict dl endpoint zoneName) existing"

text \<open>The checks of \<open>validateSpec\<close> that need the zone only\<close>

definition validateRecord :: "dnslib \<Rightarrow> DNSEndpointSpec \<Rightarrow> Zone \<Rightarrow> dns_error option" where
  "validateRecord dl spec zone =
     (let zoneName = zones_Zone (zone_Spec zone) in
      if \<not> validDNSName dl zoneName False then Some (InvalidZoneName zoneName)
      else if \<not> validDNSName dl (des_DNSName spec) True then Some (InvalidDNSName (des_DNSName spec))
      else if \<not> IsSubDomain dl (Fqdn dl zoneName) (Fqdn dl (des_DNSName spec))
      then Some (OutsideZone (des_DNSName spec) zoneName)
      else if des_RecordTTL spec < 0 \<or> maxDNSRecordTTL < des_RecordTTL spec then Some BadTTL
      else if StringToType dl (ToUpper (des_RecordType spec)) = 0 \<or> \<not> supportedDNSRecordType (des_RecordType spec)
      then Some (UnsupportedType (des_RecordType spec))
      else if \<not> isSimpleRouting (des_RoutingPolicy spec) \<and> \<not> isAddressRecordType (des_RecordType spec)
      then Some (UnsupportedTypeWithPolicy (des_RecordType spec) (des_RoutingPolicy spec))
      else validateDNSRecordTargets dl spec)"

definition validateSpec ::
  "dnslib \<Rightarrow> (NamespacedName \<Rightarrow> apierr + Zone) \<Rightarrow> (string \<Rightarrow> apierr + DNSEndpoint list) \<Rightarrow> DNSEndpoint
   \<Rightarrow> dns_error option" where
  "validateSpec dl getZone listRecords endpoint =
     (let spec = de_Spec endpoint; namespace = om_Namespace (de_Meta endpoint) in
      if List.member [''Weighted'', ''Geolocation'', ''RoundRobin''] (des_RoutingPolicy spec) \<and>
         des_RouteSelector spec = None
      then Some (RouteSelectorRequired (des_RoutingPolicy spec))
      else case des_Zone spec of
        None \<Rightarrow> Some ZoneRequired
      | Some z \<Rightarrow>
          if lor_Name z = [] then Some ZoneRequired
          else (case getZone \<lparr>nn_Namespace = namespace, nn_Name = lor_Name z\<rparr> of
             Inl NotFound \<Rightarrow> Some (ZoneDoesNotExist (lor_Name z) namespace)
           | Inl err \<Rightarrow> Some (GetZoneFailed (lor_Name z) err)
           | Inr zone \<Rightarrow>
               (case validateRecord dl spec zone of
                  Some err \<Rightarrow> Some err
                | None \<Rightarrow>
                    (case listRecords namespace of
                       Inl err \<Rightarrow> Some (ListRecordsFailed err)
                     | Inr items \<Rightarrow> validateDNSRecordConflicts dl endpoint (lor_Name z) items))))"

section \<open>Conflicts between records\<close>

definition owner_of :: "dnslib \<Rightarrow> DNSEndpoint \<Rightarrow> string" where
  "owner_of dl e = canonicalDNSName dl (des_DNSName (de_Spec e))"

definition type_of :: "DNSEndpoint \<Rightarrow> string" where
  "type_of e = ToUpper (des_RecordType (de_Spec e))"

definition zone_of :: "DNSEndpoint \<Rightarrow> string option" where
  "zone_of e = map_option lor_Name (des_Zone (de_Spec e))"

text \<open>The names that the mail exchangers or name servers of a record are\<close>

definition server_names :: "dnslib \<Rightarrow> DNSEndpoint \<Rightarrow> string set" where
  "server_names dl e =
     (if isSimpleRouting (des_RoutingPolicy (de_Spec e)) \<and> type_of e \<in> {''MX'', ''NS''}
      then canonicalDNSName dl ` set (mxOrNSTargets dl (de_Spec e)) else {})"

text \<open>An owner that is put into the text of a record as it is\<close>

definition plain_owner :: "dnslib \<Rightarrow> DNSEndpoint \<Rightarrow> bool" where
  "plain_owner dl e \<longleftrightarrow> plain_name (Fqdn dl (des_DNSName (de_Spec e)))"

text \<open>
  What no two records may do: have the same owner, type and zone; share an owner when one is an
  alias; or one be an alias at a name that the other, whose owner is plain, uses as a mail exchanger or name server.
\<close>

definition records_clash :: "dnslib \<Rightarrow> DNSEndpoint \<Rightarrow> DNSEndpoint \<Rightarrow> bool" where
  "records_clash dl a b \<longleftrightarrow>
     owner_of dl a = owner_of dl b \<and>
       (zone_of a = zone_of b \<and> type_of a = type_of b \<or> type_of a = ''CNAME'' \<or> type_of b = ''CNAME'') \<or>
     type_of a = ''CNAME'' \<and> plain_owner dl b \<and> owner_of dl a \<in> server_names dl b \<or>
     type_of b = ''CNAME'' \<and> plain_owner dl a \<and> owner_of dl b \<in> server_names dl a"

lemma records_clash_sym: "records_clash dl a b \<longleftrightarrow> records_clash dl b a"
  by (auto simp: records_clash_def)

lemma mxOrNSTargets_target:
  assumes "dns_records dl" and "t \<in> set (mxOrNSTargets dl spec)"
    and "plain_name (Fqdn dl (des_DNSName spec))" "0 \<le> des_RecordTTL spec" "des_RecordTTL spec < 2 ^ 31"
      "ToUpper (des_RecordType spec) \<in> {''MX'', ''NS''}"
  shows "\<exists>target \<in> set (des_Targets spec). targetNameFromTarget dl (ToUpper (des_RecordType spec)) target = t"
proof -
  obtain target r where t: "target \<in> set (des_Targets spec)" "rr_target r = Some t"
    "NewRR dl (record_text dl spec target) = Inr r"
    using assms(2) by (auto simp: mxOrNSTargets_def List.map_filter_def split: if_splits sum.splits)
  then obtain r' where "r = Some r'" by (cases r) auto
  with t have "NewRR dl (rr_text ''target.invalid.'' 0 (ToUpper (des_RecordType spec)) target) = Inr r"
    using dns_records.NewRR_target [OF assms(1,3-6)] by (simp add: record_text_def)
  with t have "targetNameFromTarget dl (ToUpper (des_RecordType spec)) target = t"
    by (simp add: targetNameFromTarget_def)
  with t(1) show ?thesis by blast
qed

lemma record_conflict_None:
  assumes "dns_records dl" and "record_conflict dl e z b = None" and "zone_of e = Some z"
    and "\<not> same_object (de_Meta b) (de_Meta e)" "0 \<le> des_RecordTTL (de_Spec e)" "des_RecordTTL (de_Spec e) < 2 ^ 31"
  shows "\<not> records_clash dl e b"
proof -
  note c = assms(2) [unfolded record_conflict_def Let_def]
  have sz: "(case des_Zone (de_Spec b) of None \<Rightarrow> False | Some y \<Rightarrow> lor_Name y = z) \<longleftrightarrow> zone_of e = zone_of b"
    using assms(3) by (auto simp: zone_of_def split: option.split)
  have 1: "\<not> (owner_of dl e = owner_of dl b \<and> zone_of e = zone_of b \<and> type_of e = type_of b)"
    using c assms(4) unfolding sz owner_of_def type_of_def by (auto split: if_splits)
  have 2: "\<not> (owner_of dl e = owner_of dl b \<and> (type_of e = ''CNAME'' \<or> type_of b = ''CNAME''))"
    using c assms(4) unfolding owner_of_def type_of_def by (auto split: if_splits)
  have 3: "\<not> (type_of e = ''CNAME'' \<and> owner_of dl e \<in> server_names dl b)"
    using c assms(4) unfolding owner_of_def type_of_def server_names_def by (auto simp: list_ex_iff split: if_splits)
  have 4: False if cn: "type_of b = ''CNAME''" "owner_of dl b \<in> server_names dl e" and plain: "plain_owner dl e"
  proof -
    obtain t where t: "t \<in> set (mxOrNSTargets dl (de_Spec e))" "owner_of dl b = canonicalDNSName dl t"
      and ty: "isSimpleRouting (des_RoutingPolicy (de_Spec e))" "type_of e \<in> {''MX'', ''NS''}"
      using cn(2) by (auto simp: server_names_def split: if_splits)
    obtain target where "target \<in> set (des_Targets (de_Spec e))"
      "targetNameFromTarget dl (type_of e) target = t"
      using mxOrNSTargets_target [OF assms(1) t(1) plain [unfolded plain_owner_def] assms(5,6)] ty(2) unfolding type_of_def by blast
    with c assms(4) ty cn(1) t(2) 2 show False
      unfolding owner_of_def type_of_def by (auto simp: Let_def split: if_splits)
  qed
  show ?thesis using 1 2 3 4 unfolding records_clash_def by blast
qed

lemma validateSpec_None:
  assumes "validateSpec dl getZone listRecords e = None"
  obtains z zone items where "des_Zone (de_Spec e) = Some z" "lor_Name z \<noteq> []"
    "getZone \<lparr>nn_Namespace = om_Namespace (de_Meta e), nn_Name = lor_Name z\<rparr> = Inr zone"
    "validateRecord dl (de_Spec e) zone = None" "listRecords (om_Namespace (de_Meta e)) = Inr items"
    "validateDNSRecordConflicts dl e (lor_Name z) items = None"
  using assms unfolding validateSpec_def Let_def
  by (auto split: if_splits option.splits sum.splits apierr.splits)

section \<open>Case folding\<close>

lemma of_char_eq_iff: "(of_char c :: nat) = of_char d \<longleftrightarrow> c = d"
  by (metis char_of_char)

lemma of_char_lower:
  "(of_char (lower_char c) :: nat) = (if 65 \<le> (of_char c :: nat) \<and> (of_char c :: nat) \<le> 90 then of_char c + 32 else of_char c)"
  using of_char_char_of_small [of "of_char c + 32"] by (simp add: lower_char_def Let_def)

lemma of_char_upper:
  "(of_char (upper_char c) :: nat) = (if 97 \<le> (of_char c :: nat) \<and> (of_char c :: nat) \<le> 122 then of_char c - 32 else of_char c)"
  by (auto simp: upper_char_def Let_def of_char_of)

lemma lower_upper_char: "lower_char c = lower_char d \<longleftrightarrow> upper_char c = upper_char d"
proof -
  have "(if 65 \<le> x \<and> x \<le> 90 then x + 32 else x) = (if 65 \<le> y \<and> y \<le> 90 then y + 32 else y) \<longleftrightarrow>
    (if 97 \<le> x \<and> x \<le> 122 then x - 32 else x) = (if 97 \<le> y \<and> y \<le> 122 then y - 32 else y)" for x y :: nat
    by (auto split: if_splits)
  then show ?thesis
    unfolding of_char_eq_iff [symmetric, of "lower_char c"] of_char_eq_iff [symmetric, of "upper_char c"]
      of_char_lower of_char_upper .
qed

lemma EqualFold_ToUpper: "EqualFold s t \<longleftrightarrow> ToUpper s = ToUpper t"
  unfolding EqualFold_def ToLower_def ToUpper_def
  by (induction s arbitrary: t) (auto simp: Cons_eq_map_conv map_eq_Cons_conv lower_upper_char)

lemma isAddressRecordType_iff: "isAddressRecordType t \<longleftrightarrow> ToUpper t = ''A'' \<or> ToUpper t = ''AAAA''"
proof -
  have "ToUpper ''A'' = ''A''" "ToUpper ''AAAA'' = ''AAAA''" by code_simp+
  then show ?thesis by (simp add: isAddressRecordType_def EqualFold_ToUpper)
qed

lemma EqualFold_CNAME: "EqualFold t ''CNAME'' \<longleftrightarrow> ToUpper t = ''CNAME''"
proof -
  have "ToUpper ''CNAME'' = ''CNAME''" by code_simp
  then show ?thesis by (simp add: EqualFold_ToUpper)
qed

lemma simple_policy: "isSimpleRouting p \<longleftrightarrow> (if ToLower p = [] then ''simple'' else ToLower p) = ''simple''"
proof -
  have "ToLower ''Simple'' = ''simple''" by code_simp
  then show ?thesis by (auto simp: isSimpleRouting_def EqualFold_def ToLower_def)
qed

section \<open>Sound records\<close>

text \<open>What the webhook checks of a record alone, apart from its zone\<close>

definition record_ok :: "dnslib \<Rightarrow> DNSEndpoint \<Rightarrow> bool" where
  "record_ok dl e \<longleftrightarrow> 0 \<le> des_RecordTTL (de_Spec e) \<and> des_RecordTTL (de_Spec e) < 2 ^ 31 \<and>
    type_of e \<in> {''A'', ''AAAA'', ''CNAME'', ''TXT'', ''MX'', ''SRV'', ''NS''} \<and>
    (if isSimpleRouting (des_RoutingPolicy (de_Spec e))
     then des_Targets (de_Spec e) \<noteq> [] \<and>
       list_all (\<lambda>t. \<exists>r. NewRR dl (record_text dl (de_Spec e) t) = Inr r) (des_Targets (de_Spec e)) \<and>
       (type_of e = ''CNAME'' \<longrightarrow> length (des_Targets (de_Spec e)) = 1)
     else type_of e \<in> {''A'', ''AAAA''})"

lemma validateRecord_ok:
  assumes "validateRecord dl (de_Spec e) zone = None"
  shows "IsSubDomain dl (Fqdn dl (zones_Zone (zone_Spec zone))) (Fqdn dl (des_DNSName (de_Spec e))) \<and> record_ok dl e"
proof -
  note v = assms [unfolded validateRecord_def Let_def]
  have 1: "IsSubDomain dl (Fqdn dl (zones_Zone (zone_Spec zone))) (Fqdn dl (des_DNSName (de_Spec e)))"
    and 2: "0 \<le> des_RecordTTL (de_Spec e)" "des_RecordTTL (de_Spec e) \<le> maxDNSRecordTTL"
    and 3: "supportedDNSRecordType (des_RecordType (de_Spec e))"
    and 4: "isSimpleRouting (des_RoutingPolicy (de_Spec e)) \<or> isAddressRecordType (des_RecordType (de_Spec e))"
    and 5: "validateDNSRecordTargets dl (de_Spec e) = None"
    using v by (auto split: if_splits)
  have t: "\<exists>r. NewRR dl (record_text dl (de_Spec e) t) = Inr r"
    if "validateDNSRecordTarget dl (de_Spec e) t = None" for t
    using that by (auto simp: validateDNSRecordTarget_def split: if_splits sum.splits)
  have 6: "des_Targets (de_Spec e) \<noteq> [] \<and>
      list_all (\<lambda>t. \<exists>r. NewRR dl (record_text dl (de_Spec e) t) = Inr r) (des_Targets (de_Spec e)) \<and>
      (type_of e = ''CNAME'' \<longrightarrow> length (des_Targets (de_Spec e)) = 1)"
    if "isSimpleRouting (des_RoutingPolicy (de_Spec e))"
    using 5 that t unfolding validateDNSRecordTargets_def Let_def simple_policy EqualFold_CNAME type_of_def
    by (auto simp: list_all_iff split: if_splits)
  show ?thesis
    using 1 2 3 4 6
    by (auto simp: record_ok_def maxDNSRecordTTL_def type_of_def supportedDNSRecordType_def isAddressRecordType_iff
        List.member_iff)
qed

lemma validateSpec_no_clash:
  assumes "dns_records dl" and "validateSpec dl getZone listRecords e = None"
    and "listRecords (om_Namespace (de_Meta e)) = Inr es" "b \<in> set es" "\<not> same_object (de_Meta b) (de_Meta e)"
  shows "\<not> records_clash dl e b"
proof -
  obtain z zone where z: "zone_of e = Some z" "validateDNSRecordConflicts dl e z es = None" "validateRecord dl (de_Spec e) zone = None"
    using validateSpec_None [OF assms(2)] assms(3) by (metis Inr_inject option.simps(9) zone_of_def)
  from validateRecord_ok [OF z(3)] record_conflict_None [OF assms(1) _ z(1) assms(5)] z(2) assms(4) show ?thesis
    by (simp add: validateDNSRecordConflicts_def record_ok_def)
qed

definition example_record :: "string \<Rightarrow> string \<Rightarrow> string \<Rightarrow> string \<Rightarrow> DNSEndpoint" where
  "example_record name dnsName recordType target =
     (let e = example_endpoint ''team-a'' name ''team-a'' ''z'' dnsName in
      e\<lparr>de_Spec := (de_Spec e)\<lparr>des_RecordType := recordType, des_Targets := [target]\<rparr>\<rparr>)"

definition example_get_zone :: "NamespacedName \<Rightarrow> apierr + Zone" where
  "example_get_zone key = Inr (example_zone ''team-a'' ''z'' ''team-a'' ''a.com'')"

section \<open>Properties\<close>

text \<open>
  C25. An admitted record lies in its zone, which exists in its namespace; its TTL fits 31 bits;
  its type is supported, and with any routing policy but the simple one it is an address type;
  with simple routing it has targets, each of them parses, and an alias has exactly one.
\<close>

theorem admitted_record_sound:
  assumes "validateSpec dl getZone listRecords e = None"
  shows "\<exists>z zone. des_Zone (de_Spec e) = Some z \<and>
    getZone \<lparr>nn_Namespace = om_Namespace (de_Meta e), nn_Name = lor_Name z\<rparr> = Inr zone \<and>
    IsSubDomain dl (Fqdn dl (zones_Zone (zone_Spec zone))) (Fqdn dl (des_DNSName (de_Spec e))) \<and>
    0 \<le> des_RecordTTL (de_Spec e) \<and> des_RecordTTL (de_Spec e) < 2 ^ 31 \<and>
    type_of e \<in> {''A'', ''AAAA'', ''CNAME'', ''TXT'', ''MX'', ''SRV'', ''NS''} \<and>
    (if isSimpleRouting (des_RoutingPolicy (de_Spec e))
     then des_Targets (de_Spec e) \<noteq> [] \<and>
       list_all (\<lambda>t. \<exists>r. NewRR dl (record_text dl (de_Spec e) t) = Inr r) (des_Targets (de_Spec e)) \<and>
       (type_of e = ''CNAME'' \<longrightarrow> length (des_Targets (de_Spec e)) = 1)
     else type_of e \<in> {''A'', ''AAAA''})"
proof -
  obtain z zone where "des_Zone (de_Spec e) = Some z"
    "getZone \<lparr>nn_Namespace = om_Namespace (de_Meta e), nn_Name = lor_Name z\<rparr> = Inr zone"
    and r: "validateRecord dl (de_Spec e) zone = None"
    using validateSpec_None [OF assms] by metis
  with validateRecord_ok [OF r] show ?thesis unfolding record_ok_def by blast
qed

theorem admitted_record_sound_witness:
  "IsSubDomain reference_dns ''a.com.'' ''www.a.com.''"
proof -
  let ?a = "example_record ''one'' ''www.a.com'' ''CNAME'' ''other.a.com.''"
  have "validateSpec reference_dns example_get_zone (\<lambda>_. Inr []) ?a = None" by code_simp
  from admitted_record_sound [OF this] obtain zone where
    "example_get_zone \<lparr>nn_Namespace = om_Namespace (de_Meta ?a), nn_Name = lor_Name \<lparr>lor_Name = ''z''\<rparr>\<rparr> = Inr zone"
    "IsSubDomain reference_dns (Fqdn reference_dns (zones_Zone (zone_Spec zone)))
       (Fqdn reference_dns (des_DNSName (de_Spec ?a)))"
    by (auto simp: example_record_def example_defs Let_def)
  then show ?thesis
    by (auto simp: example_get_zone_def example_record_def example_defs reference_dns_def Let_def)
qed

end
