(* ===== verification/Admission.thy ===== *)
theory Admission
  imports Webhook_DNS Tenancy Kube_Client
begin

text \<open>
  The admission of custom resources as a whole: the entry points of the validating webhooks
  (\<open>internal/webhook/v1alpha1\<close>), the verbs and kinds they are registered for, and a cluster whose
  objects change by requests that go through them. What a webhook reads of the cluster may fail; a webhook that
  returns an error denies the request, as does one that cannot be reached (\<open>failurePolicy=fail\<close>).
\<close>

section \<open>The entry points\<close>

text \<open>What the webhooks read of the cluster: single objects, and lists\<close>

record api_reads =
  rd_get :: reader
  rd_zones :: "apierr + Zone list"
  rd_services :: "apierr + Service list"
  rd_records :: "string \<Rightarrow> apierr + DNSEndpoint list"

definition getZone :: "api_reads \<Rightarrow> NamespacedName \<Rightarrow> apierr + Zone" where
  "getZone r key =
     (case rd_get r KZone key of
        Inl err \<Rightarrow> Inl err
      | Inr ob \<Rightarrow> (case ob of OZone z \<Rightarrow> Inr z | _ \<Rightarrow> Inl (OtherError ''not a zone'')))"

definition HealthCheckProfile_ValidateCreate :: "HealthCheckProfile \<Rightarrow> health_error option" where
  "HealthCheckProfile_ValidateCreate profile = validateHealthCheckProfileProbeDurations profile"

definition HealthCheckProfile_ValidateUpdate :: "HealthCheckProfile \<Rightarrow> HealthCheckProfile \<Rightarrow> health_error option" where
  "HealthCheckProfile_ValidateUpdate oldObj profile = validateHealthCheckProfileProbeDurations profile"

definition HealthCheckProfile_ValidateDelete :: "HealthCheckProfile \<Rightarrow> health_error option" where
  "HealthCheckProfile_ValidateDelete profile = None"

definition Zone_ValidateCreate :: "dnslib \<Rightarrow> api_reads \<Rightarrow> Zone \<Rightarrow> string list \<times> zone_error option" where
  "Zone_ValidateCreate dl r obj = ValidateZoneOverlaps dl (rd_zones r) obj"

definition Zone_ValidateUpdate :: "dnslib \<Rightarrow> api_reads \<Rightarrow> Zone \<Rightarrow> Zone \<Rightarrow> string list \<times> zone_error option" where
  "Zone_ValidateUpdate dl r oldObj newObj = ValidateZoneOverlaps dl (rd_zones r) newObj"

definition Service_ValidateCreate ::
  "ServiceCustomValidator \<Rightarrow> api_reads \<Rightarrow> Service \<Rightarrow> service_error list \<times> service_error option" where
  "Service_ValidateCreate v r obj = ValidateService v (rd_services r) obj"

definition Service_ValidateUpdate ::
  "ServiceCustomValidator \<Rightarrow> api_reads \<Rightarrow> Service \<Rightarrow> Service \<Rightarrow> service_error list \<times> service_error option" where
  "Service_ValidateUpdate v r oldObj newObj = ValidateService v (rd_services r) newObj"

definition Service_ValidateDelete :: "Service \<Rightarrow> service_error list \<times> service_error option" where
  "Service_ValidateDelete obj = ([], None)"

definition DNSEndpoint_ValidateCreate :: "dnslib \<Rightarrow> api_reads \<Rightarrow> DNSEndpoint \<Rightarrow> dns_error option" where
  "DNSEndpoint_ValidateCreate dl r obj = validateSpec dl (getZone r) (rd_records r) obj"

definition DNSEndpoint_ValidateUpdate :: "dnslib \<Rightarrow> api_reads \<Rightarrow> DNSEndpoint \<Rightarrow> DNSEndpoint \<Rightarrow> dns_error option" where
  "DNSEndpoint_ValidateUpdate dl r oldObj newObj = validateSpec dl (getZone r) (rd_records r) newObj"

definition DNSEndpoint_ValidateDelete :: "DNSEndpoint \<Rightarrow> dns_error option" where
  "DNSEndpoint_ValidateDelete obj = None"

text \<open>The validators of prefix lists only write to the log.\<close>

definition PrefixList_ValidateCreate :: "PrefixList \<Rightarrow> string list \<times> string option" where
  "PrefixList_ValidateCreate obj = ([], None)"

definition PrefixList_ValidateUpdate :: "PrefixList \<Rightarrow> PrefixList \<Rightarrow> string list \<times> string option" where
  "PrefixList_ValidateUpdate oldObj newObj = ([], None)"

definition PrefixList_ValidateDelete :: "PrefixList \<Rightarrow> string list \<times> string option" where
  "PrefixList_ValidateDelete obj = ([], None)"

section \<open>Admission\<close>

text \<open>The markers of the webhooks: all of them are registered for the verbs create and update, none for delete.\<close>

datatype operation = CreateRequest kobject | UpdateRequest kobject kobject | DeleteRequest kobject

definition tenancy_resources :: "kind list" where
  "tenancy_resources = [KProject, KAPIKey, KDNSEndpoint, KHealthCheckProfile, KLocation, KPrefixList, KService, KZone]"

datatype rejection =
    TenancyRejects tenancy_error
  | HealthRejects health_error
  | ZoneRejects zone_error
  | ServiceRejects service_error
  | RecordRejects dns_error
  | PrefixListRejects string

record gatekeeper =
  gk_scope :: Scope
  gk_dns :: dnslib
  gk_service :: ServiceCustomValidator

text \<open>The webhook of the kind of the object. The API server sends an update with the old object of the same kind.\<close>

definition validate_create :: "gatekeeper \<Rightarrow> api_reads \<Rightarrow> kobject \<Rightarrow> rejection option" where
  "validate_create gk r object =
     (case object of
        OHealthCheckProfile x \<Rightarrow> map_option HealthRejects (HealthCheckProfile_ValidateCreate x)
      | OZone x \<Rightarrow> map_option ZoneRejects (snd (Zone_ValidateCreate (gk_dns gk) r x))
      | OService x \<Rightarrow> map_option ServiceRejects (snd (Service_ValidateCreate (gk_service gk) r x))
      | ODNSEndpoint x \<Rightarrow> map_option RecordRejects (DNSEndpoint_ValidateCreate (gk_dns gk) r x)
      | OPrefixList x \<Rightarrow> map_option PrefixListRejects (snd (PrefixList_ValidateCreate x))
      | OProject x \<Rightarrow> map_option TenancyRejects (Project_ValidateCreate (gk_scope gk) x)
      | _ \<Rightarrow> None)"

definition validate_update :: "gatekeeper \<Rightarrow> api_reads \<Rightarrow> kobject \<Rightarrow> kobject \<Rightarrow> rejection option" where
  "validate_update gk r old object =
     (case (old, object) of
        (OHealthCheckProfile y, OHealthCheckProfile x) \<Rightarrow> map_option HealthRejects (HealthCheckProfile_ValidateUpdate y x)
      | (OZone y, OZone x) \<Rightarrow> map_option ZoneRejects (snd (Zone_ValidateUpdate (gk_dns gk) r y x))
      | (OService y, OService x) \<Rightarrow> map_option ServiceRejects (snd (Service_ValidateUpdate (gk_service gk) r y x))
      | (ODNSEndpoint y, ODNSEndpoint x) \<Rightarrow> map_option RecordRejects (DNSEndpoint_ValidateUpdate (gk_dns gk) r y x)
      | (OPrefixList y, OPrefixList x) \<Rightarrow> map_option PrefixListRejects (snd (PrefixList_ValidateUpdate y x))
      | (OProject y, OProject x) \<Rightarrow> map_option TenancyRejects (Project_ValidateUpdate (gk_scope gk) y x)
      | _ \<Rightarrow> None)"

text \<open>
  The tenancy webhook answers with the result of \<open>ValidateResource\<close> on what it decodes. A request is allowed when
  all webhooks that match it allow it.
\<close>

definition tenancy_check :: "gatekeeper \<Rightarrow> api_reads \<Rightarrow> kobject \<Rightarrow> kobject option \<Rightarrow> rejection option" where
  "tenancy_check gk r object old =
     (if List.member tenancy_resources (kind_of object)
      then map_option TenancyRejects (ValidateResource (gk_scope gk) (rd_get r) object old) else None)"

fun admission :: "gatekeeper \<Rightarrow> api_reads \<Rightarrow> operation \<Rightarrow> rejection list" where
  "admission gk r (CreateRequest object) =
     List.map_filter id [tenancy_check gk r object None, validate_create gk r object]"
| "admission gk r (UpdateRequest old object) =
     List.map_filter id [tenancy_check gk r object (Some old), validate_update gk r old object]"
| "admission gk r (DeleteRequest object) = []"

section \<open>The cluster\<close>

text \<open>A read fails or returns what is stored.\<close>

definition honest :: "api_reads \<Rightarrow> kobject set \<Rightarrow> bool" where
  "honest r os \<longleftrightarrow>
     (\<forall>k key ob. rd_get r k key = Inr ob \<longrightarrow> ob \<in> os \<and> id_of ob = (k, key)) \<and>
     (\<forall>zs. rd_zones r = Inr zs \<longrightarrow> set zs = {z. OZone z \<in> os}) \<and>
     (\<forall>ss. rd_services r = Inr ss \<longrightarrow> set ss = {s. OService s \<in> os}) \<and>
     (\<forall>ns es. rd_records r ns = Inr es \<longrightarrow> set es = {e. ODNSEndpoint e \<in> os \<and> om_Namespace (de_Meta e) = ns})"

text \<open>The object with the identity of \<open>ob\<close> becomes \<open>ob\<close>.\<close>

definition put :: "kobject \<Rightarrow> kobject set \<Rightarrow> kobject set" where
  "put ob os = insert ob {x \<in> os. id_of x \<noteq> id_of ob}"

text \<open>
  How the objects of a cluster change. The server fills in the metadata that belongs to it. It writes a
  status, or the mark that an object is being deleted, without asking the webhooks, and so does it remove an object.
\<close>

inductive cluster_step :: "gatekeeper \<Rightarrow> kobject set \<Rightarrow> kobject set \<Rightarrow> bool" for gk where
  create: "honest r os \<Longrightarrow> admission gk r (CreateRequest ob) = [] \<Longrightarrow> id_of ob \<notin> id_of ` os \<Longrightarrow> core ob' = core ob \<Longrightarrow>
    cluster_step gk os (put ob' os)"
| update: "honest r os \<Longrightarrow> old \<in> os \<Longrightarrow> id_of old = id_of ob \<Longrightarrow> admission gk r (UpdateRequest old ob) = [] \<Longrightarrow> core ob' = core ob \<Longrightarrow>
    cluster_step gk os (put ob' os)"
| touch: "old \<in> os \<Longrightarrow> core ob' = core old \<Longrightarrow> cluster_step gk os (put ob' os)"
| remove: "admission gk r (DeleteRequest ob) = [] \<Longrightarrow> cluster_step gk os (os - {ob})"

inductive admitted_cluster :: "gatekeeper \<Rightarrow> kobject set \<Rightarrow> bool" for gk where
  empty: "admitted_cluster gk {}"
| step: "admitted_cluster gk os \<Longrightarrow> cluster_step gk os os' \<Longrightarrow> admitted_cluster gk os'"

section \<open>What holds of the stored objects\<close>

text \<open>Of each of them: it belongs to a project that its namespace allows, and its spec is valid.\<close>

definition owned_by_tenant :: "Scope \<Rightarrow> kobject \<Rightarrow> bool" where
  "owned_by_tenant s ob \<longleftrightarrow>
     (if kind_of ob = KProject then in_scope s (GetNamespace ob) (om_Name (obj_meta ob))
      else case ProjectReference ob of
        None \<Rightarrow> False
      | Some p \<Rightarrow> lor_Name p \<noteq> [] \<and> in_scope s (GetNamespace ob) (lor_Name p) \<and> \<not> self_reference ob)"

definition spec_ok :: "gatekeeper \<Rightarrow> kobject \<Rightarrow> bool" where
  "spec_ok gk ob =
     (case ob of
        OHealthCheckProfile x \<Rightarrow> list_all (\<lambda>p. 5 * second \<le> probe_Interval p \<and> 0 < probe_Timeout p \<and>
          probe_Timeout p < probe_Interval p) (hcps_Probes (hcp_Spec x))
      | OService x \<Rightarrow> (if ss_OriginType (svc_Spec x) = ''static''
          then ss_StaticOrigins (svc_Spec x) \<noteq> [] \<and>
            list_all (origin_allowed (BlockedUpstreamTLDs (gk_service gk))) (ss_StaticOrigins (svc_Spec x))
          else True)
      | ODNSEndpoint x \<Rightarrow> record_ok (gk_dns gk) x \<and> zone_of x \<noteq> None
      | _ \<Rightarrow> True)"

definition well_formed :: "gatekeeper \<Rightarrow> kobject \<Rightarrow> bool" where
  "well_formed gk ob \<longleftrightarrow> (kind_of ob \<in> set tenancy_resources \<longrightarrow> owned_by_tenant (gk_scope gk) ob) \<and> spec_ok gk ob"

text \<open>Of two of them\<close>

definition clash :: "dnslib \<Rightarrow> kobject \<Rightarrow> kobject \<Rightarrow> bool" where
  "clash dl a b =
     (case (a, b) of
        (OZone x, OZone y) \<Rightarrow> zone_overlap dl x y
      | (OService x, OService y) \<Rightarrow> names_clash x y
      | (ODNSEndpoint x, ODNSEndpoint y) \<Rightarrow> om_Namespace (de_Meta x) = om_Namespace (de_Meta y) \<and> records_clash dl x y
      | _ \<Rightarrow> False)"

lemma clash_sym: "clash dl a b \<longleftrightarrow> clash dl b a"
  unfolding clash_def
  by (auto split: kobject.splits simp: zone_overlap_sym names_clash_sym records_clash_sym)

text \<open>Both depend only on what a client decides of an object.\<close>

lemma core_fields:
  "self_reference (core ob) = self_reference ob" "ProjectReference (core ob) = ProjectReference ob"
  "GetNamespace (core ob) = GetNamespace ob" "om_Name (obj_meta (core ob)) = om_Name (obj_meta ob)"
  "kind_of (core ob) = kind_of ob"
  by (cases ob; simp add: core_def server_meta_def self_reference_def)+

lemma well_formed_core: "core a = core b \<Longrightarrow> well_formed gk a \<longleftrightarrow> well_formed gk b"
proof -
  have "spec_ok gk (core ob) = spec_ok gk ob" for ob
    by (cases ob) (simp_all add: core_def spec_ok_def record_ok_def type_of_def zone_of_def default_path_def list.pred_map o_def)
  then have "well_formed gk (core ob) = well_formed gk ob" for ob
    by (simp add: well_formed_def owned_by_tenant_def core_fields split: option.split)
  then show "core a = core b \<Longrightarrow> ?thesis" by metis
qed

lemma clash_core: "core a = core b \<Longrightarrow> clash dl a c \<longleftrightarrow> clash dl b c"
proof -
  have "clash dl (core ob) c = clash dl ob c" for ob
  proof (cases ob)
    case (ODNSEndpoint x)
    define x' where "x' = x\<lparr>de_Status := zero_DNSEndpointStatus, de_Meta := server_meta (de_Meta x)\<rparr>"
    have "core ob = ODNSEndpoint x'" "de_Spec x' = de_Spec x" "om_Namespace (de_Meta x') = om_Namespace (de_Meta x)"
      by (simp_all add: ODNSEndpoint core_def server_meta_def x'_def)
    moreover from this have "owner_of dl x' = owner_of dl x" "zone_of x' = zone_of x" "type_of x' = type_of x" "server_names dl x' = server_names dl x" "plain_owner dl x' = plain_owner dl x"
      unfolding owner_of_def zone_of_def type_of_def server_names_def plain_owner_def by metis+
    then have "records_clash dl x' y = records_clash dl x y" for y by (simp add: records_clash_def)
    ultimately show ?thesis using ODNSEndpoint by (cases c) (simp_all add: clash_def)
  qed (cases c; simp add: core_def clash_def zone_overlap_def names_clash_def)+
  then show "core a = core b \<Longrightarrow> ?thesis" by metis
qed

section \<open>One request\<close>

text \<open>The request that leads to a stored object, a create or an update\<close>

definition applies :: "operation \<Rightarrow> kobject \<Rightarrow> bool" where
  "applies operation ob \<longleftrightarrow> operation = CreateRequest ob \<or> (\<exists>old. operation = UpdateRequest old ob \<and> id_of old = id_of ob)"

lemma validate_update_simps:
  "validate_update gk r (OHealthCheckProfile y1) (OHealthCheckProfile x1) =
     map_option HealthRejects (validateHealthCheckProfileProbeDurations x1)"
  "validate_update gk r (OZone y2) (OZone x2) = map_option ZoneRejects (snd (ValidateZoneOverlaps (gk_dns gk) (rd_zones r) x2))"
  "validate_update gk r (OService y3) (OService x3) =
     map_option ServiceRejects (snd (ValidateService (gk_service gk) (rd_services r) x3))"
  "validate_update gk r (ODNSEndpoint y4) (ODNSEndpoint x4) =
     map_option RecordRejects (validateSpec (gk_dns gk) (getZone r) (rd_records r) x4)"
  by (simp_all add: validate_update_def HealthCheckProfile_ValidateUpdate_def Zone_ValidateUpdate_def Service_ValidateUpdate_def
      DNSEndpoint_ValidateUpdate_def)

lemma validate_create_simps:
  "validate_create gk r (OHealthCheckProfile x1) = map_option HealthRejects (validateHealthCheckProfileProbeDurations x1)"
  "validate_create gk r (OZone x2) = map_option ZoneRejects (snd (ValidateZoneOverlaps (gk_dns gk) (rd_zones r) x2))"
  "validate_create gk r (OService x3) = map_option ServiceRejects (snd (ValidateService (gk_service gk) (rd_services r) x3))"
  "validate_create gk r (ODNSEndpoint x4) = map_option RecordRejects (validateSpec (gk_dns gk) (getZone r) (rd_records r) x4)"
  by (simp_all add: validate_create_def HealthCheckProfile_ValidateCreate_def Zone_ValidateCreate_def Service_ValidateCreate_def
      DNSEndpoint_ValidateCreate_def)

text \<open>An update is checked like a create of the new object, except by the tenancy webhook.\<close>

lemma validate_update_create:
  assumes "kind_of old = kind_of ob" "kind_of ob \<in> {KHealthCheckProfile, KZone, KService, KDNSEndpoint}"
  shows "validate_update gk r old ob = validate_create gk r ob"
  using assms by (cases ob; cases old) (simp_all add: validate_update_simps validate_create_simps)

lemma admitted_create:
  assumes "admission gk r operation = []" "applies operation ob"
  shows "\<exists>old. tenancy_check gk r ob old = None"
    "kind_of ob \<in> {KHealthCheckProfile, KZone, KService, KDNSEndpoint} \<Longrightarrow> validate_create gk r ob = None"
proof -
  consider "operation = CreateRequest ob" | old where "operation = UpdateRequest old ob" "kind_of old = kind_of ob"
    using assms(2) unfolding applies_def by (metis id_of_kind)
  note request = this
  from request show "\<exists>old. tenancy_check gk r ob old = None"
    by cases (use assms(1) in \<open>auto split: option.splits\<close>)
  from request show "kind_of ob \<in> {KHealthCheckProfile, KZone, KService, KDNSEndpoint} \<Longrightarrow> validate_create gk r ob = None"
    by cases (use assms(1) in \<open>auto simp: validate_update_create split: option.splits\<close>)
qed

lemma admitted_validators:
  assumes "admission gk r operation = []" "applies operation ob"
  shows "\<exists>old. tenancy_check gk r ob old = None"
    "ob = OHealthCheckProfile x1 \<Longrightarrow> validateHealthCheckProfileProbeDurations x1 = None"
    "ob = OZone x2 \<Longrightarrow> snd (ValidateZoneOverlaps (gk_dns gk) (rd_zones r) x2) = None"
    "ob = OService x3 \<Longrightarrow> snd (ValidateService (gk_service gk) (rd_services r) x3) = None"
    "ob = ODNSEndpoint x4 \<Longrightarrow> validateSpec (gk_dns gk) (getZone r) (rd_records r) x4 = None"
  using admitted_create [OF assms] by (simp_all add: validate_create_simps)

lemma admitted_well_formed:
  assumes "admission gk r operation = []" "applies operation ob"
  shows "well_formed gk ob"
proof -
  note v = admitted_validators [OF assms]
  have "owned_by_tenant (gk_scope gk) ob" if "kind_of ob \<in> set tenancy_resources"
    using v(1) that
    by (auto simp: tenancy_check_def List.member_iff ValidateResource_admissible admissible_def owned_by_tenant_def split: option.splits if_splits)
  moreover have "spec_ok gk ob"
  proof (cases ob)
    case (OHealthCheckProfile x)
    with v(2) show ?thesis by (simp add: spec_ok_def probe_durations_iff)
  next
    case (OService x)
    from v(4) [OF this] have "\<exists>ss. rd_services r = Inr ss" by (cases "rd_services r") (auto simp: ValidateService_def split: if_splits)
    then show ?thesis using v(4) [OF OService] OService by (auto simp: spec_ok_def ValidateService_iff)
  next
    case (ODNSEndpoint x)
    from validateSpec_None [OF v(5) [OF this]] validateRecord_ok [of "gk_dns gk" x]
    have "zone_of x \<noteq> None \<and> record_ok (gk_dns gk) x" unfolding zone_of_def by (metis option.map_disc_iff option.distinct(1))
    with ODNSEndpoint show ?thesis by (simp add: spec_ok_def)
  qed (simp_all add: spec_ok_def)
  ultimately show ?thesis by (simp add: well_formed_def)
qed

lemma same_object_id: "kind_of a = kind_of b \<Longrightarrow> same_object (obj_meta a) (obj_meta b) \<longleftrightarrow> id_of a = id_of b"
  by (auto simp: same_object_def id_of_def key_of_def)

lemma admitted_no_clash:
  assumes "dns_records (gk_dns gk)" "honest r os" "admission gk r operation = []" "applies operation ob"
    and "b \<in> os" "id_of b \<noteq> id_of ob"
  shows "\<not> clash (gk_dns gk) ob b"
proof
  note v = admitted_validators [OF assms(3,4)]
  assume "clash (gk_dns gk) ob b"
  then consider x y where "ob = OZone x" "b = OZone y" "zone_overlap (gk_dns gk) x y"
    | x y where "ob = OService x" "b = OService y" "names_clash x y"
    | x y where "ob = ODNSEndpoint x" "b = ODNSEndpoint y" "om_Namespace (de_Meta x) = om_Namespace (de_Meta y)" "records_clash (gk_dns gk) x y"
    by (auto simp: clash_def split: kobject.splits)
  then show False
  proof cases
    case 1
    obtain zs where zs: "rd_zones r = Inr zs" using v(3) [OF 1(1)] by (cases "rd_zones r") (auto simp: ValidateZoneOverlaps_def)
    have "y \<in> set zs" using assms(2,5) zs 1(2) by (auto simp: honest_def)
    with ValidateZoneOverlaps_None v(3) [OF 1(1)] zs 1(3) have "same_object (zone_Meta y) (zone_Meta x)" by metis
    with same_object_id [of b ob] 1(1,2) assms(6) show False by simp
  next
    case 2
    obtain ss where ss: "rd_services r = Inr ss"
      using v(4) [OF 2(1)] by (cases "rd_services r") (auto simp: ValidateService_def split: if_splits)
    have "y \<in> set ss" using assms(2,5) ss 2(2) by (auto simp: honest_def)
    with v(4) [OF 2(1)] ss 2(3) have "same_object (svc_Meta y) (svc_Meta x)" by (auto simp: ValidateService_iff)
    with same_object_id [of b ob] 2(1,2) assms(6) show False by simp
  next
    case 3
    obtain es where es: "rd_records r (om_Namespace (de_Meta x)) = Inr es" using validateSpec_None [OF v(5) [OF 3(1)]] by metis
    have "y \<in> set es" using assms(2,5) es 3(2,3) by (auto simp: honest_def)
    with validateSpec_no_clash [OF assms(1) v(5) [OF 3(1)] es] 3(4) have "same_object (de_Meta y) (de_Meta x)" by blast
    with same_object_id [of b ob] 3(1,2) assms(6) show False by simp
  qed
qed

section \<open>The invariant\<close>

definition consistent :: "gatekeeper \<Rightarrow> kobject set \<Rightarrow> bool" where
  "consistent gk os \<longleftrightarrow> (\<forall>a \<in> os. well_formed gk a \<and> (\<forall>b \<in> os. id_of a \<noteq> id_of b \<longrightarrow> \<not> clash (gk_dns gk) a b))"

lemma consistent_put:
  assumes "consistent gk os" "well_formed gk ob" "\<And>b. b \<in> os \<Longrightarrow> id_of b \<noteq> id_of ob \<Longrightarrow> \<not> clash (gk_dns gk) ob b"
    and "core ob' = core ob"
  shows "consistent gk (put ob' os)"
proof -
  have new: "\<not> clash (gk_dns gk) ob' b" if "b \<in> os" "id_of b \<noteq> id_of ob'" for b
    using assms(3) [OF that(1)] that(2) clash_core [OF assms(4)] core_id [OF assms(4)] by simp
  moreover have "\<not> clash (gk_dns gk) b ob'" if "b \<in> os" "id_of b \<noteq> id_of ob'" for b
    using new [OF that] by (subst clash_sym)
  moreover have "well_formed gk ob'" using assms(2) well_formed_core [OF assms(4)] by simp
  ultimately show ?thesis using assms(1) unfolding consistent_def put_def by simp
qed

lemma cluster_step_consistent:
  assumes "cluster_step gk os os'" "dns_records (gk_dns gk)" "consistent gk os"
  shows "consistent gk os'"
  using assms(1)
proof cases
  case (create r ob ob')
  have "applies (CreateRequest ob) ob" by (simp add: applies_def)
  with create admitted_well_formed admitted_no_clash [OF assms(2)] show ?thesis
    using consistent_put [OF assms(3), of ob ob'] by blast
next
  case (update r old ob ob')
  then have "applies (UpdateRequest old ob) ob" by (simp add: applies_def)
  with update admitted_well_formed admitted_no_clash [OF assms(2)] show ?thesis
    using consistent_put [OF assms(3), of ob ob'] by blast
next
  case (touch old ob')
  with assms(3) have "well_formed gk old" "\<And>b. b \<in> os \<Longrightarrow> id_of b \<noteq> id_of old \<Longrightarrow> \<not> clash (gk_dns gk) old b"
    unfolding consistent_def by metis+
  with consistent_put [OF assms(3), of old ob'] touch show ?thesis by blast
next
  case (remove r ob)
  with assms(3) show ?thesis by (simp add: consistent_def)
qed

lemma admitted_cluster_consistent:
  "admitted_cluster gk os \<Longrightarrow> dns_records (gk_dns gk) \<Longrightarrow> consistent gk os"
  by (induction rule: admitted_cluster.induct) (simp add: consistent_def, blast intro: cluster_step_consistent)

text \<open>The first part needs no law of the DNS library.\<close>

lemma put_well_formed:
  assumes "core ob' = core ob" "well_formed gk ob" "\<forall>x \<in> os. well_formed gk x"
  shows "\<forall>x \<in> put ob' os. well_formed gk x"
proof -
  have "well_formed gk ob'" using well_formed_core [OF assms(1)] assms(2) by simp
  then show ?thesis using assms(3) by (simp add: put_def)
qed

lemma admitted_cluster_well_formed: "admitted_cluster gk os \<Longrightarrow> \<forall>x \<in> os. well_formed gk x"
proof (induction rule: admitted_cluster.induct)
  case (step os os')
  from step(2) show ?case
  proof cases
    case (create r ob ob')
    then show ?thesis
      using put_well_formed [OF create(5) admitted_well_formed [OF create(3)] step(3)] by (simp add: applies_def)
  next
    case (update r old ob ob')
    then show ?thesis
      using put_well_formed [OF update(6) admitted_well_formed [OF update(5)] step(3)] by (simp add: applies_def)
  next
    case (touch old ob')
    then show ?thesis using put_well_formed [OF touch(3) _ step(3)] step(3) by simp
  qed (use step(3) in simp)
qed simp

section \<open>Projects that are gone\<close>

text \<open>
  An update of a resource whose project is gone or being deleted is always denied, also when it only removes a finalizer. So a zone
  that outlives its project can never lose the finalizer of the zone reconciler, and with it its namespace never ends.
\<close>

lemma update_needs_live_project:
  assumes "honest r os" "kind_of ob \<in> set tenancy_resources" "kind_of ob \<noteq> KProject"
    and "\<And>p x. ProjectReference ob = Some p \<Longrightarrow> x \<in> os \<Longrightarrow>
      id_of x = (KProject, \<lparr>nn_Namespace = GetNamespace ob, nn_Name = lor_Name p\<rparr>) \<Longrightarrow> om_DeletionTimestamp (obj_meta x) \<noteq> None"
  shows "admission gk r (UpdateRequest old ob) \<noteq> []"
proof -
  have "\<not> project_alive (rd_get r) \<lparr>nn_Namespace = GetNamespace ob, nn_Name = lor_Name p\<rparr>" if "ProjectReference ob = Some p" for p
    using assms(1) assms(4) [OF that] by (auto simp: honest_def project_alive_def split: sum.splits)
  then have "\<not> admissible (gk_scope gk) (rd_get r) ob (Some old)"
    using assms(3) by (auto simp: admissible_def split: option.splits)
  then show ?thesis
    using assms(2) by (auto simp: tenancy_check_def List.member_iff ValidateResource_admissible [symmetric] split: option.splits)
qed

section \<open>An example\<close>

text \<open>Reads that always succeed\<close>

definition reads_of :: "kobject list \<Rightarrow> api_reads" where
  "reads_of os = \<lparr>rd_get = (\<lambda>k key. case List.find (\<lambda>ob. id_of ob = (k, key)) os of None \<Rightarrow> Inl NotFound | Some ob \<Rightarrow> Inr ob),
     rd_zones = Inr (List.map_filter (\<lambda>ob. case ob of OZone z \<Rightarrow> Some z | _ \<Rightarrow> None) os),
     rd_services = Inr (List.map_filter (\<lambda>ob. case ob of OService x \<Rightarrow> Some x | _ \<Rightarrow> None) os),
     rd_records = (\<lambda>ns. Inr (filter (\<lambda>e. om_Namespace (de_Meta e) = ns)
       (List.map_filter (\<lambda>ob. case ob of ODNSEndpoint e \<Rightarrow> Some e | _ \<Rightarrow> None) os)))\<rparr>"

lemma honest_reads_of: "honest (reads_of os) (set os)"
proof -
  have items: "set (List.map_filter f os) = {x. \<exists>ob \<in> set os. f ob = Some x}" for f :: "kobject \<Rightarrow> 'a option"
    by (induction os) (auto split: option.splits)
  have "(case ob of OZone z \<Rightarrow> Some z | _ \<Rightarrow> None) = Some x \<longleftrightarrow> ob = OZone x" for ob x by (cases ob) simp_all
  moreover have "(case ob of OService z \<Rightarrow> Some z | _ \<Rightarrow> None) = Some x \<longleftrightarrow> ob = OService x" for ob x by (cases ob) simp_all
  moreover have "(case ob of ODNSEndpoint z \<Rightarrow> Some z | _ \<Rightarrow> None) = Some x \<longleftrightarrow> ob = ODNSEndpoint x" for ob x by (cases ob) simp_all
  ultimately show ?thesis
    unfolding honest_def reads_of_def by (auto simp: items find_Some_iff split: option.splits)
qed

definition example_gatekeeper :: gatekeeper where
  "example_gatekeeper = \<lparr>gk_scope = \<lparr>Namespaced = True, TargetNamespace = []\<rparr>, gk_dns = reference_dns, gk_service = example_validator\<rparr>"

definition example_requests :: "kobject list" where
  "example_requests = [OProject (example_project ''team-a'' ''team-a''), OZone (example_zone ''team-a'' ''z'' ''team-a'' ''a.com''),
     ODNSEndpoint (example_record ''one'' ''www.a.com'' ''CNAME'' ''other.a.com.''),
     ODNSEndpoint (example_record ''two'' ''a.com'' ''MX'' ''mail.a.com.''),
     OService (example_service ''one'' ''www.a.com'' [''alias.a.com'']), OService (example_service ''two'' ''alias.a.com'' [])]"

lemma admitted_requests:
  assumes "list_all (\<lambda>n. admission gk (reads_of (take n obs)) (CreateRequest (obs ! n)) = [] \<and> id_of (obs ! n) \<notin> id_of ` set (take n obs)) [0..<length obs]"
  shows "admitted_cluster gk (set obs)"
proof -
  have "admitted_cluster gk (set (take n obs))" if "n \<le> length obs" for n
    using that
  proof (induction n)
    case (Suc n)
    have n: "admission gk (reads_of (take n obs)) (CreateRequest (obs ! n)) = []" "id_of (obs ! n) \<notin> id_of ` set (take n obs)"
      using assms Suc.prems by (auto simp: list_all_iff)
    have "set (take (Suc n) obs) = put (obs ! n) (set (take n obs))"
      using n(2) Suc.prems by (auto simp: put_def take_Suc_conv_app_nth image_iff)
    with Suc admitted_cluster.step [OF _ cluster_step.create [OF honest_reads_of n refl]] show ?case by simp
  qed (simp add: admitted_cluster.empty)
  from this [of "length obs"] show ?thesis by simp
qed

lemma example_cluster: "admitted_cluster example_gatekeeper (set example_requests)"
  by (rule admitted_requests) code_simp

section \<open>Properties\<close>

text \<open>
  C16. Every object that the webhooks let into the cluster is well-formed, in whatever order objects were created, updated, marked and
  removed, and whichever reads of the webhooks failed: it names a project that its namespace allows, a location does not refer to itself,
  the probes of a profile have intervals of at least five seconds and positive timeouts below them, the origins of a static service are
  allowed, and a DNS record names a zone and has a 31-bit TTL, a supported type and, with simple routing, targets that parse.
\<close>

theorem stored_objects_well_formed:
  assumes "admitted_cluster gk os" "ob \<in> os"
  shows "well_formed gk ob"
  using admitted_cluster_well_formed [OF assms(1)] assms(2) by blast

theorem stored_objects_well_formed_witness:
  "well_formed example_gatekeeper (ODNSEndpoint (example_record ''two'' ''a.com'' ''MX'' ''mail.a.com.''))"
  by (rule stored_objects_well_formed [OF example_cluster]) (simp add: example_requests_def)

text \<open>
  C2. The objects of a cluster get along: a DNS name lies in at most one zone, no two services have the same domain or share a host alias,
  and no two DNS records of one namespace contradict each other, be it as duplicates, as an alias beside another record of its owner
  name, or as an alias at the name of a mail exchanger or name server; the last for mail exchanger and name server records whose owner is a plain name,
  of letters, digits, hyphens, underscores, asterisks and dots. The webhook does not require that of an owner.
\<close>

theorem stored_objects_never_clash:
  assumes "dns_records (gk_dns gk)" and "admitted_cluster gk os" "a \<in> os" "b \<in> os" "id_of a \<noteq> id_of b"
  shows "(case (a, b) of
      (OZone y, OZone z) \<Rightarrow> \<not> (\<exists>name. IsSubDomain (gk_dns gk) (dotted (zones_Zone (zone_Spec y))) name \<and>
        IsSubDomain (gk_dns gk) (dotted (zones_Zone (zone_Spec z))) name)
    | (OService s, OService t) \<Rightarrow> ss_Domain (svc_Spec s) \<noteq> ss_Domain (svc_Spec t) \<and>
        ha_Name ` set (ss_HostAliases (svc_Spec s)) \<inter> ha_Name ` set (ss_HostAliases (svc_Spec t)) = {}
    | (ODNSEndpoint d, ODNSEndpoint e) \<Rightarrow> \<not> (om_Namespace (de_Meta d) = om_Namespace (de_Meta e) \<and> records_clash (gk_dns gk) d e)
    | _ \<Rightarrow> True)"
proof -
  have "\<not> clash (gk_dns gk) a b"
    using admitted_cluster_consistent [OF assms(2,1)] assms(3-5) by (simp add: consistent_def)
  moreover have "\<not> zone_overlap (gk_dns gk) y z \<Longrightarrow> \<not> (\<exists>name. IsSubDomain (gk_dns gk) (dotted (zones_Zone (zone_Spec y))) name \<and>
        IsSubDomain (gk_dns gk) (dotted (zones_Zone (zone_Spec z))) name)" for y z
    using dns_names.sub_linear [OF dns_records.axioms(1) [OF assms(1)]] unfolding zone_overlap_def by blast
  ultimately show ?thesis
    by (cases a; cases b) (auto simp: clash_def names_clash_def)
qed

theorem stored_objects_never_clash_witness:
  "\<not> records_clash reference_dns (example_record ''two'' ''a.com'' ''MX'' ''mail.a.com.'')
     (example_record ''one'' ''www.a.com'' ''CNAME'' ''other.a.com.'')"
proof -
  let ?a = "example_record ''two'' ''a.com'' ''MX'' ''mail.a.com.''"
  let ?b = "example_record ''one'' ''www.a.com'' ''CNAME'' ''other.a.com.''"
  have "id_of (ODNSEndpoint ?a) \<noteq> id_of (ODNSEndpoint ?b)" "om_Namespace (de_Meta ?a) = om_Namespace (de_Meta ?b)" by code_simp+
  with stored_objects_never_clash [OF _ example_cluster, of "ODNSEndpoint ?a" "ODNSEndpoint ?b"] reference_dns.dns_records_axioms show ?thesis
    by (simp add: example_gatekeeper_def example_requests_def)
qed

text \<open>
  The uniqueness does not extend from domains to aliases: the webhook admits a service whose
  domain is a host alias of another service.
\<close>

theorem domain_may_equal_alias:
  "\<exists>gk os s t. admitted_cluster gk os \<and> OService s \<in> os \<and> OService t \<in> os \<and> s \<noteq> t \<and>
     ss_Domain (svc_Spec s) \<in> ha_Name ` set (ss_HostAliases (svc_Spec t))"
proof -
  show ?thesis using example_cluster
    by (intro exI [of _ example_gatekeeper] exI [of _ "set example_requests"] exI [of _ "example_service ''two'' ''alias.a.com'' []"]
        exI [of _ "example_service ''one'' ''www.a.com'' [''alias.a.com'']"])
      (simp add: example_requests_def example_service_def zero_defs)
qed

end
