(* ===== verification/Ingress_Builder.thy ===== *)
theory Ingress_Builder
  imports Builders
begin

text \<open>
  The ingress of a cached service (\<open>internal/builder/ingress_builder.go\<close>): rules and TLS for the
  domain and the host aliases, and the annotations that configure nginx. The configuration snippet
  is the output of the \<open>text/template\<close> of the source, written out; executing it fails when a
  static service has no origin, and then \<open>WithService\<close> returns with the ingress unchanged.
\<close>

section \<open>The model\<close>

record CacheIngressBuilder =
  cib_ingress :: Ingress
  cib_SecureUrlsEndpoint :: string

definition NewCacheIngressBuilder :: "string \<Rightarrow> string \<Rightarrow> string \<Rightarrow> CacheIngressBuilder" where
  "NewCacheIngressBuilder name namespace secureUrlsEndpoint =
     \<lparr>cib_ingress = \<lparr>ing_TypeMeta = \<lparr>tm_APIVersion = ''networking.k8s.io/v1'', tm_Kind = ''Ingress''\<rparr>,
        ing_Meta = new_ObjectMeta name namespace,
        ing_Spec = \<lparr>is_IngressClassName = None, is_TLS = [], is_Rules = []\<rparr>\<rparr>,
      cib_SecureUrlsEndpoint = secureUrlsEndpoint\<rparr>"

definition map_ingress :: "(Ingress \<Rightarrow> Ingress) \<Rightarrow> CacheIngressBuilder \<Rightarrow> CacheIngressBuilder" where
  "map_ingress f b = b\<lparr>cib_ingress := f (cib_ingress b)\<rparr>"

definition WithLabel :: "string \<Rightarrow> string \<Rightarrow> CacheIngressBuilder \<Rightarrow> CacheIngressBuilder" where
  "WithLabel key value = map_ingress (\<lambda>i. i\<lparr>ing_Meta := (ing_Meta i)\<lparr>om_Labels := fmupd key value (om_Labels (ing_Meta i))\<rparr>\<rparr>)"

definition WithAnnotation :: "string \<Rightarrow> string \<Rightarrow> CacheIngressBuilder \<Rightarrow> CacheIngressBuilder" where
  "WithAnnotation key value = map_ingress (\<lambda>i. i\<lparr>ing_Meta := (ing_Meta i)\<lparr>om_Annotations :=
     fmupd key value (om_Annotations (ing_Meta i))\<rparr>\<rparr>)"

definition map_spec :: "(IngressSpec \<Rightarrow> IngressSpec) \<Rightarrow> CacheIngressBuilder \<Rightarrow> CacheIngressBuilder" where
  "map_spec f = map_ingress (\<lambda>i. i\<lparr>ing_Spec := f (ing_Spec i)\<rparr>)"

definition WithIngressClass :: "string \<Rightarrow> CacheIngressBuilder \<Rightarrow> CacheIngressBuilder" where
  "WithIngressClass ingressClass = map_spec (\<lambda>s. s\<lparr>is_IngressClassName := Some ingressClass\<rparr>)"

definition WithTls :: "IngressTLS list \<Rightarrow> CacheIngressBuilder \<Rightarrow> CacheIngressBuilder" where
  "WithTls tls = map_spec (\<lambda>s. s\<lparr>is_TLS := tls\<rparr>)"

definition WithAdditionalTLS :: "IngressTLS list \<Rightarrow> CacheIngressBuilder \<Rightarrow> CacheIngressBuilder" where
  "WithAdditionalTLS tls = map_spec (\<lambda>s. s\<lparr>is_TLS := is_TLS s @ tls\<rparr>)"

definition WithRules :: "IngressRule list \<Rightarrow> CacheIngressBuilder \<Rightarrow> CacheIngressBuilder" where
  "WithRules rules = map_spec (\<lambda>s. s\<lparr>is_Rules := rules\<rparr>)"

definition WithAdditionalRules :: "IngressRule list \<Rightarrow> CacheIngressBuilder \<Rightarrow> CacheIngressBuilder" where
  "WithAdditionalRules rules = map_spec (\<lambda>s. s\<lparr>is_Rules := is_Rules s @ rules\<rparr>)"

definition Ingress_Build :: "golib \<Rightarrow> CacheIngressBuilder \<Rightarrow> ctl_error + Ingress \<times> string" where
  "Ingress_Build g b = (case g_json g (OIngress (cib_ingress b)) of
     None \<Rightarrow> Inl MarshalError
   | Some marshalled \<Rightarrow>
       let hash = hex_bytes (g_md5 g marshalled)
       in Inr (cib_ingress (WithAnnotation ValuesHashAnnotation hash b), hash))"

definition nginx :: "string \<Rightarrow> string" where
  "nginx key = ''nginx.ingress.kubernetes.io/'' @ key"

text \<open>A line break, indentation and the text of a line\<close>

definition line :: "nat \<Rightarrow> string \<Rightarrow> string" where
  "line tabs text = CHR 0x0A # replicate tabs (CHR 0x09) @ text"

definition WithWaf :: "WafSpec \<Rightarrow> CacheIngressBuilder \<Rightarrow> CacheIngressBuilder" where
  "WithWaf waf b =
     (if waf \<noteq> \<lparr>waf_Enabled = False\<rparr> \<and> waf_Enabled waf then
        WithAnnotation (nginx ''modsecurity-snippet'') (line 3 ''SecRuleEngine On'' @ line 2 [])
          (WithAnnotation (nginx ''enable-owasp-core-rules'') ''true''
            (WithAnnotation (nginx ''modsecurity-transaction-id'') ''$request_id'' b))
      else WithAnnotation (nginx ''modsecurity-snippet'') ''SecRuleEngine Off''
          (WithAnnotation (nginx ''modsecurity-transaction-id'') [] b))"

definition allowed_params :: "string list \<Rightarrow> string" where
  "allowed_params params = concat (map (\<lambda>p. CHR 0x22 # p @ [CHR 0x22, CHR '','']) params)"

definition lua_block :: "string list \<Rightarrow> string" where
  "lua_block params =
     (if params \<noteq> [] then
        line 2 ''local h, err = ngx.req.get_uri_args()'' @
        line 2 (''local allowed_query_params = { '' @ allowed_params params @ '' }'') @ line 0 [] @
        line 2 ''for k, v in pairs(h) do'' @ line 3 ''local found = false'' @
        line 3 ''for _, allowed in ipairs(allowed_query_params) do'' @ line 4 ''if k == allowed then'' @
        line 5 ''found = true'' @ line 5 ''break'' @ line 4 ''end'' @ line 3 ''end'' @
        line 3 ''if not found then'' @ line 4 ''h[k] = nil'' @ line 3 ''end'' @ line 2 ''end''
      else line 2 ''local h = {}'')"

text \<open>The output of the template; \<open>None\<close> when executing it fails\<close>

definition configSnippet :: "ServiceSpec \<Rightarrow> string option" where
  "configSnippet spec =
     (let rest = line 1 (''proxy_cache '' @ ss_Cache spec @ '';'') @
        line 1 ''proxy_cache_use_stale error timeout http_500 http_502 http_503 http_504;'' @
        line 1 ''proxy_cache_background_update on;'' @ line 1 ''proxy_cache_revalidate on;'' @
        line 1 ''proxy_cache_lock on;'' @ line 0 [] @ line 1 ''access_by_lua_block {'' @
        lua_block (ck_QueryParams (ss_CacheKeySpec spec)) @ line 0 [] @
        line 2 ''ngx.req.set_uri_args(h)'' @ line 1 ''}'' @ line 0 [] @
        line 1 ''proxy_cache_key $proxy_host$uri$is_args$args;'' @
        line 1 ''add_header X-Cache-Key $proxy_host$uri$is_args$args;'' @
        line 1 ''add_header X-EX-Status $upstream_cache_status;'' @ line 1 []
      in if ss_OriginType spec = OriginTypeStatic then
           case ss_StaticOrigins spec of
             [] \<Rightarrow> None
           | origin # _ \<Rightarrow>
               if so_Scheme origin = ''Https''
               then Some (line 1 (''proxy_ssl_name '' @ so_HostHeader origin @ '';'') @
                      line 1 ''proxy_ssl_server_name on;'' @ rest)
               else Some rest
         else Some rest)"

definition server_snippet :: string where
  "server_snippet = line 0 ''location /.edgecdnx/healthz {'' @
     line 1 (''return 200 '' @ CHR 0x22 # ''OK'' @ CHR 0x22 # '';'') @ line 0 ''}'' @ line 1 []"

text \<open>\<open>int32(n)\<close>\<close>

definition int32 :: "int \<Rightarrow> int" where
  "int32 n = signed_take_bit 31 n"

definition ingress_path :: "string \<Rightarrow> int \<Rightarrow> string \<Rightarrow> HTTPIngressPath" where
  "ingress_path serviceName port path = \<lparr>hip_Path = path, hip_PathType = Some ''ImplementationSpecific'',
     hip_ServiceName = serviceName, hip_ServicePort = port\<rparr>"

definition with_hosts :: "ServiceSpec \<Rightarrow> HTTPIngressPath list \<Rightarrow> CacheIngressBuilder \<Rightarrow> CacheIngressBuilder" where
  "with_hosts spec paths b =
     fold (\<lambda>alias. WithAdditionalRules [\<lparr>ir_Host = ha_Name alias, ir_Paths = paths\<rparr>]) (ss_HostAliases spec)
       (WithRules [\<lparr>ir_Host = ss_Domain spec, ir_Paths = paths\<rparr>] b)"

definition with_cors :: "CorsSpec \<Rightarrow> CacheIngressBuilder \<Rightarrow> CacheIngressBuilder" where
  "with_cors cors b =
     (if cors = \<lparr>cors_AllowMethods = [], cors_AllowOrigin = [], cors_AllowCredentials = False\<rparr> then b
      else let b1 = WithAnnotation (nginx ''enable-cors'') ''true'' b;
               b2 = (if cors_AllowMethods cors \<noteq> []
                     then WithAnnotation (nginx ''cors-allow-methods'') (cors_AllowMethods cors) b1 else b1);
               b3 = (if cors_AllowOrigin cors \<noteq> []
                     then WithAnnotation (nginx ''cors-allow-origin'') (cors_AllowOrigin cors) b2 else b2)
           in WithAnnotation (nginx ''cors-allow-credentials'')
                (if cors_AllowCredentials cors then ''true'' else ''false'') b3)"

definition with_certificate :: "Service \<Rightarrow> CacheIngressBuilder \<Rightarrow> CacheIngressBuilder" where
  "with_certificate service b =
     (let spec = svc_Spec service; secret = om_Name (svc_Meta service) @ ''-tls''
      in if cert_Crt (ss_Certificate spec) \<noteq> [] \<and> cert_Key (ss_Certificate spec) \<noteq> []
         then fold (\<lambda>alias. WithAdditionalTLS [\<lparr>it_Hosts = [ha_Name alias], it_SecretName = secret\<rparr>]) (ss_HostAliases spec)
                (WithTls [\<lparr>it_Hosts = [ss_Domain spec], it_SecretName = secret\<rparr>] b)
         else b)"

definition with_mirror :: "MirrorSpec \<Rightarrow> CacheIngressBuilder \<Rightarrow> CacheIngressBuilder" where
  "with_mirror mirror b =
     (if mirror_URL mirror = [] then b
      else let b1 = WithAnnotation (nginx ''mirror-target'') (mirror_URL mirror @ ''$request_uri'') b
           in if mirror_HostHeader mirror \<noteq> []
              then WithAnnotation (nginx ''mirror-host'') (mirror_HostHeader mirror) b1 else b1)"

definition with_static_origin :: "Service \<Rightarrow> StaticOriginSpec \<Rightarrow> CacheIngressBuilder \<Rightarrow> CacheIngressBuilder" where
  "with_static_origin service origin b =
     (let spec = svc_Spec service; serviceName = ReplaceAll (om_Name (svc_Meta service)) CHR ''.'' CHR ''-'';
          b1 = WithAnnotation (nginx ''upstream-vhost'') (so_HostHeader origin)
                 (WithAnnotation (nginx ''backend-protocol'') (ToUpper (so_Scheme origin)) b);
          b2 = (if path_Rewrite (ss_Path spec) \<noteq> []
                then WithAnnotation (nginx ''rewrite-target'') (path_Rewrite (ss_Path spec))
                       (WithAnnotation (nginx ''use-regex'') ''true'' b1)
                else b1);
          paths = (if path_Paths (ss_Path spec) = [] then [''/''] else path_Paths (ss_Path spec))
      in with_hosts spec (map (ingress_path serviceName (int32 (so_Port origin))) paths) b2)"

definition with_s3_origin :: "Service \<Rightarrow> CacheIngressBuilder \<Rightarrow> CacheIngressBuilder" where
  "with_s3_origin service b =
     with_hosts (svc_Spec service)
       [ingress_path (ReplaceAll (om_Name (svc_Meta service)) CHR ''.'' CHR ''-'') 80 ''/''] b"

definition Ingress_WithService :: "Service \<Rightarrow> CacheIngressBuilder \<Rightarrow> CacheIngressBuilder" where
  "Ingress_WithService service b =
     (let spec = svc_Spec service
      in case configSnippet spec of
        None \<Rightarrow> b
      | Some snippet \<Rightarrow>
          let b1 = WithAnnotation (nginx ''server-snippet'') server_snippet
                     (WithAnnotation (nginx ''configuration-snippet'') snippet (WithIngressClass (ss_Cache spec) b));
              b2 = with_certificate service
                     (WithAnnotation (nginx ''force-ssl-redirect'') ''true'' (with_cors (ss_Cors spec) b1));
              b3 = (if ss_SecureKeys spec \<noteq> []
                    then WithAnnotation (nginx ''auth-url'') (cib_SecureUrlsEndpoint b2) b2 else b2);
              b4 = with_mirror (ss_MirrorSpec spec) b3;
              b5 = (if ss_OriginType spec = OriginTypeStatic
                    then (case ss_StaticOrigins spec of [] \<Rightarrow> b4 | origin # _ \<Rightarrow> with_static_origin service origin b4)
                    else b4);
              b6 = (if ss_OriginType spec = OriginTypeS3 then with_s3_origin service b5 else b5)
          in WithWaf (ss_Waf spec) b6)"

section \<open>Rules and TLS of a service\<close>

text \<open>What the steps do to the spec: annotations do not touch it.\<close>

abbreviation ispec :: "CacheIngressBuilder \<Rightarrow> IngressSpec" where
  "ispec b \<equiv> ing_Spec (cib_ingress b)"

lemma ispec_map_spec [simp]: "ispec (map_spec f b) = f (ispec b)"
  by (simp add: map_spec_def map_ingress_def)

lemma ispec_WithAnnotation [simp]: "ispec (WithAnnotation k v b) = ispec b"
  by (simp add: WithAnnotation_def map_ingress_def)

lemma ispec_WithWaf [simp]: "ispec (WithWaf waf b) = ispec b"
  by (simp add: WithWaf_def)

lemma ispec_with_cors [simp]: "ispec (with_cors cors b) = ispec b"
  by (simp add: with_cors_def Let_def)

lemma ispec_with_mirror [simp]: "ispec (with_mirror m b) = ispec b"
  by (simp add: with_mirror_def Let_def)

lemma ispec_additional_rules:
  "ispec (fold (\<lambda>a. WithAdditionalRules [f a]) as b) = (ispec b)\<lparr>is_Rules := is_Rules (ispec b) @ map f as\<rparr>"
  by (induction as arbitrary: b) (simp_all add: WithAdditionalRules_def)

lemma ispec_additional_tls:
  "ispec (fold (\<lambda>a. WithAdditionalTLS [f a]) as b) = (ispec b)\<lparr>is_TLS := is_TLS (ispec b) @ map f as\<rparr>"
  by (induction as arbitrary: b) (simp_all add: WithAdditionalTLS_def)

text \<open>The names under which a service is reached\<close>

definition service_hosts :: "Service \<Rightarrow> string list" where
  "service_hosts service = ss_Domain (svc_Spec service) # map ha_Name (ss_HostAliases (svc_Spec service))"

lemma ispec_with_hosts:
  "ispec (with_hosts (svc_Spec service) paths b) =
     (ispec b)\<lparr>is_Rules := map (\<lambda>host. \<lparr>ir_Host = host, ir_Paths = paths\<rparr>) (service_hosts service)\<rparr>"
  by (simp add: with_hosts_def ispec_additional_rules WithRules_def service_hosts_def comp_def)

lemma ispec_with_certificate:
  "ispec (with_certificate service b) =
     (if cert_Crt (ss_Certificate (svc_Spec service)) \<noteq> [] \<and> cert_Key (ss_Certificate (svc_Spec service)) \<noteq> []
      then (ispec b)\<lparr>is_TLS := map (\<lambda>host. \<lparr>it_Hosts = [host], it_SecretName = om_Name (svc_Meta service) @ ''-tls''\<rparr>)
        (service_hosts service)\<rparr>
      else ispec b)"
  by (simp add: with_certificate_def ispec_additional_tls WithTls_def service_hosts_def comp_def Let_def)

lemma ispec_with_static:
  "ispec (with_static_origin service origin b) = (ispec b)\<lparr>is_Rules := map (\<lambda>host. \<lparr>ir_Host = host, ir_Paths =
     map (ingress_path (ReplaceAll (om_Name (svc_Meta service)) CHR ''.'' CHR ''-'') (int32 (so_Port origin)))
       (if path_Paths (ss_Path (svc_Spec service)) = [] then [''/''] else path_Paths (ss_Path (svc_Spec service)))\<rparr>)
     (service_hosts service)\<rparr>"
  by (simp add: with_static_origin_def Let_def ispec_with_hosts)

lemma configSnippet_None_iff:
  "configSnippet spec = None \<longleftrightarrow> ss_OriginType spec = OriginTypeStatic \<and> ss_StaticOrigins spec = []"
  by (simp add: configSnippet_def Let_def split: list.split)

text \<open>The spec before the rules are set\<close>

definition base_spec :: "Service \<Rightarrow> CacheIngressBuilder \<Rightarrow> IngressSpec" where
  "base_spec service b = ispec (with_certificate service (WithIngressClass (ss_Cache (svc_Spec service)) b))"

lemma ispec_certificate_cong: "ispec a = ispec b \<Longrightarrow> ispec (with_certificate service a) = ispec (with_certificate service b)"
  by (simp add: ispec_with_certificate)

lemma ispec_WithService:
  assumes "configSnippet (svc_Spec service) = Some snippet"
  shows "ispec (Ingress_WithService service b) =
    (if ss_OriginType (svc_Spec service) = OriginTypeStatic then
       (case ss_StaticOrigins (svc_Spec service) of
          [] \<Rightarrow> base_spec service b
        | origin # _ \<Rightarrow> ispec (with_static_origin service origin (with_certificate service (WithIngressClass (ss_Cache (svc_Spec service)) b))))
     else if ss_OriginType (svc_Spec service) = OriginTypeS3
     then ispec (with_s3_origin service (with_certificate service (WithIngressClass (ss_Cache (svc_Spec service)) b)))
     else base_spec service b)"
proof -
  have "OriginTypeS3 \<noteq> OriginTypeStatic" by (simp add: OriginTypeS3_def OriginTypeStatic_def)
  then show ?thesis
    by (simp add: Ingress_WithService_def assms Let_def base_spec_def ispec_with_static with_s3_origin_def
        ispec_with_hosts ispec_with_certificate split: list.split)
qed

section \<open>Properties\<close>

text \<open>The backends of a service: the port and the paths that are proxied to it\<close>

definition service_backend :: "Service \<Rightarrow> (int \<times> string list) option" where
  "service_backend service =
     (let spec = svc_Spec service
      in if ss_OriginType spec = OriginTypeS3 then Some (80, [''/''])
         else if ss_OriginType spec = OriginTypeStatic \<and> ss_StaticOrigins spec \<noteq> []
         then Some (so_Port (hd (ss_StaticOrigins spec)),
                if path_Paths (ss_Path spec) = [] then [''/''] else path_Paths (ss_Path spec))
         else None)"

text \<open>
  C32. The ingress of a service whose origin is known routes exactly its domain and its host aliases,
  in this order, each with every path of the service (or the root) to the backend service with the
  dots of its name replaced and the port of the origin, if that is a 16-bit port. TLS covers
  exactly the same hosts when the service has a certificate and a key, and none otherwise.
\<close>

theorem ingress_routes_service:
  assumes "service_backend service = Some (port, paths)" and "0 \<le> port" "port < 65536"
  shows "ispec (Ingress_WithService service (NewCacheIngressBuilder name namespace endpoint)) =
    \<lparr>is_IngressClassName = Some (ss_Cache (svc_Spec service)),
     is_TLS = (if cert_Crt (ss_Certificate (svc_Spec service)) \<noteq> [] \<and> cert_Key (ss_Certificate (svc_Spec service)) \<noteq> []
       then map (\<lambda>host. \<lparr>it_Hosts = [host], it_SecretName = om_Name (svc_Meta service) @ ''-tls''\<rparr>) (service_hosts service)
       else []),
     is_Rules = map (\<lambda>host. \<lparr>ir_Host = host, ir_Paths = map (\<lambda>path. \<lparr>hip_Path = path,
         hip_PathType = Some ''ImplementationSpecific'',
         hip_ServiceName = ReplaceAll (om_Name (svc_Meta service)) CHR ''.'' CHR ''-'', hip_ServicePort = port\<rparr>) paths\<rparr>)
       (service_hosts service)\<rparr>"
proof -
  let ?b = "with_certificate service (WithIngressClass (ss_Cache (svc_Spec service)) (NewCacheIngressBuilder name namespace endpoint))"
  have b: "ispec ?b = \<lparr>is_IngressClassName = Some (ss_Cache (svc_Spec service)),
     is_TLS = (if cert_Crt (ss_Certificate (svc_Spec service)) \<noteq> [] \<and> cert_Key (ss_Certificate (svc_Spec service)) \<noteq> []
       then map (\<lambda>host. \<lparr>it_Hosts = [host], it_SecretName = om_Name (svc_Meta service) @ ''-tls''\<rparr>) (service_hosts service)
       else []), is_Rules = []\<rparr>"
    by (simp add: ispec_with_certificate WithIngressClass_def NewCacheIngressBuilder_def)
  have port: "int32 port = port" using assms(2,3) by (simp add: int32_def signed_take_bit_int_eq_self_iff)
  have ne: "OriginTypeS3 \<noteq> OriginTypeStatic" by (simp add: OriginTypeS3_def OriginTypeStatic_def)
  consider (s3) "ss_OriginType (svc_Spec service) = OriginTypeS3" "port = 80" "paths = [''/'']"
    | (static) origin rest where "ss_OriginType (svc_Spec service) = OriginTypeStatic"
        "ss_StaticOrigins (svc_Spec service) = origin # rest" "port = so_Port origin"
        "paths = (if path_Paths (ss_Path (svc_Spec service)) = [] then [''/''] else path_Paths (ss_Path (svc_Spec service)))"
    using assms(1) by (auto simp: service_backend_def Let_def neq_Nil_conv split: if_splits)
  then show ?thesis
  proof cases
    case s3
    then obtain snippet where "configSnippet (svc_Spec service) = Some snippet"
      using configSnippet_None_iff [of "svc_Spec service"] ne by auto
    from ispec_WithService [OF this] s3 ne b show ?thesis
      by (simp add: with_s3_origin_def ispec_with_hosts ingress_path_def)
  next
    case static
    then obtain snippet where "configSnippet (svc_Spec service) = Some snippet"
      using configSnippet_None_iff [of "svc_Spec service"] by auto
    from ispec_WithService [OF this] static b port show ?thesis
      by (simp add: ispec_with_static ingress_path_def comp_def)
  qed
qed

definition s3_service :: Service where
  "s3_service = zero_Service\<lparr>svc_Meta := new_ObjectMeta ''cdn.a.com'' ''team-a'',
     svc_Spec := zero_ServiceSpec\<lparr>ss_Domain := ''cdn.a.com'', ss_OriginType := OriginTypeS3,
       ss_HostAliases := [\<lparr>ha_Name = ''www.a.com'', ha_Certificate = zero_CertificateSpec\<rparr>], ss_Cache := ''disk''\<rparr>\<rparr>"

theorem ingress_routes_service_witness:
  "map ir_Host (is_Rules (ispec (Ingress_WithService s3_service (NewCacheIngressBuilder ''cdn.a.com'' ''team-a'' []))))
     = [''cdn.a.com'', ''www.a.com'']"
proof -
  have "service_backend s3_service = Some (80, [''/''])"
    by (simp add: s3_service_def service_backend_def Let_def)
  from ingress_routes_service [OF this] show ?thesis
    by (simp add: s3_service_def service_hosts_def comp_def)
qed

end
