(* ===== verification/Owned_Objects.thy ===== *)
theory Owned_Objects
  imports Kube_Programs Ingress_Builder
begin

text \<open>
  The step that the service, cache and challenge reconcilers repeat for every object they own: read
  it, create it with a controller reference when there is none, and otherwise update it when the
  hash annotation differs from the hash of the wanted object.
\<close>

section \<open>The model\<close>

definition stamped :: "string \<Rightarrow> kobject \<Rightarrow> bool" where
  "stamped hash ob \<longleftrightarrow> fmlookup (om_Annotations (obj_meta ob)) ValuesHashAnnotation = Some hash"

text \<open>How the step ends: \<open>Current\<close> when nothing was to do and the reconciler goes on\<close>

datatype 'a outcome = Failed ctl_error | Created | Deleting | Updated | Current 'a

definition create_owned :: "golib \<Rightarrow> 'w client \<Rightarrow> 'a resource \<Rightarrow> kobject \<Rightarrow> 'a \<Rightarrow> ('w, 'a outcome) state" where
  "create_owned g c r owner desired =
     (case g_SetControllerReference g owner (r_in r desired) of
        Inl err \<Rightarrow> State_Monad.return (Failed (ReferenceError err))
      | Inr owned \<Rightarrow> do {
          created \<leftarrow> c_create c owned;
          State_Monad.return (case write_error created of Some err \<Rightarrow> Failed (ApiError err) | None \<Rightarrow> Created)
        })"

text \<open>
  \<open>skip\<close>: an object that is being deleted is left alone. \<open>adopt desired current\<close> is the current object
  with the wanted spec (or data) and annotations.
\<close>

definition ensure ::
  "golib \<Rightarrow> 'w client \<Rightarrow> 'a resource \<Rightarrow> bool \<Rightarrow> ('a \<Rightarrow> 'a \<Rightarrow> 'a) \<Rightarrow> kobject \<Rightarrow> NamespacedName \<Rightarrow> 'a \<Rightarrow> string \<Rightarrow>
   ('w, 'a outcome) state" where
  "ensure g c r skip adopt owner key desired hash = do {
     got \<leftarrow> Get c r key;
     case got of
       Inl err \<Rightarrow>
         if err = NotFound then create_owned g c r owner desired
         else State_Monad.return (Failed (ApiError err))
     | Inr current \<Rightarrow>
         if skip \<and> om_DeletionTimestamp (obj_meta (r_in r current)) \<noteq> None then State_Monad.return Deleting
         else if stamped hash (r_in r current) then State_Monad.return (Current current)
         else do {
           u \<leftarrow> Update c r (adopt desired current);
           State_Monad.return (case write_error u of Some err \<Rightarrow> Failed (ApiError err) | None \<Rightarrow> Updated)
         }
   }"

text \<open>The reconciler returns unless the object is current: \<open>Inl\<close> is the error it returns with, if any.\<close>

fun settle :: "'a outcome \<Rightarrow> ctl_error option + 'a" where
  "settle (Failed e) = Inl (Some e)"
| "settle (Current x) = Inr x"
| "settle _ = Inl None"

section \<open>Wanted objects\<close>

text \<open>
  The contract between a builder and the step: the wanted object has the address under which it is
  looked up and carries its hash, and so does the current object when it is adopted.
\<close>

lemma stamped_core: "core a = core b \<Longrightarrow> stamped h a \<longleftrightarrow> stamped h b"
  using core_meta(1) unfolding stamped_def by metis

locale wanted_object = typed_client c st r + go_library g
  for c :: "'w client" and st :: "'w \<Rightarrow> store" and r :: "'a resource" and g :: golib +
  fixes adopt :: "'a \<Rightarrow> 'a \<Rightarrow> 'a" and key :: NamespacedName and desired :: 'a and hash :: string
  assumes wanted_id: "id_of (r_in r desired) = (r_kind r, key)"
    and wanted_stamped: "stamped hash (r_in r desired)"
    and adopt_id: "id_of (r_in r (adopt desired x)) = id_of (r_in r x)"
begin

lemma owned_like:
  assumes "g_SetControllerReference g owner (r_in r desired) = Inr owned"
  shows "id_of owned = (r_kind r, key)" "stamped hash owned" "IsControlledBy (obj_meta owned) (obj_meta owner)"
proof -
  note ref = reference_set [OF assms]
  have "obj_meta owned = (obj_meta (r_in r desired))\<lparr>om_OwnerReferences := om_OwnerReferences (obj_meta owned)\<rparr>"
    using arg_cong [OF conjunct2 [OF ref], of obj_meta] by simp
  moreover have "kind_of owned = kind_of (r_in r desired)"
    using arg_cong [OF conjunct2 [OF ref], of kind_of] by simp
  ultimately show "id_of owned = (r_kind r, key)" "stamped hash owned"
    using wanted_id wanted_stamped by (auto simp: id_of_def key_of_def stamped_def)
      (metis ObjectMeta.ext_inject ObjectMeta.surjective ObjectMeta.update_convs(11))+
  show "IsControlledBy (obj_meta owned) (obj_meta owner)" using ref by blast
qed

text \<open>What the step leaves behind\<close>

lemma ensure_wp:
  "wp (ensure g c r skip adopt owner key desired hash) (\<lambda>x w'. only_at {(r_kind r, key)} (st w) (st w') \<and>
     (case x of
        Current y \<Rightarrow> st w' = st w \<and> st w (r_kind r, key) = Some (r_in r y) \<and> stamped hash (r_in r y)
      | Created \<Rightarrow> (\<exists>ob. st w' (r_kind r, key) = Some ob \<and> stamped hash ob)
      | Deleting \<Rightarrow> st w' = st w | _ \<Rightarrow> True)) w"
proof -
  have new: "only_at {(r_kind r, key)} (st w) (st w') \<and> (\<exists>ob. st w' (r_kind r, key) = Some ob \<and> stamped hash ob)"
    if "creates (st w) owned (st w') ob" "g_SetControllerReference g owner (r_in r desired) = Inr owned" for w' owned ob
  proof -
    have "stamped hash ob" using that(1) stamped_core [of ob owned] owned_like(2) [OF that(2)] by (simp add: creates_def)
    moreover have "st w' (r_kind r, key) = Some ob" using that(1) owned_like(1) [OF that(2)] by (simp add: creates_def)
    ultimately show ?thesis using writes_only_at(1) [OF that(1)] owned_like(1) [OF that(2)] by simp
  qed
  have old: "only_at {(r_kind r, key)} (st w) (st w')"
    if "updates (st w) (r_in r (adopt desired y)) (st w') ob" "st w (r_kind r, key) = Some (r_in r y)" for w' y ob
    using writes_only_at(2) [OF that(1)] adopt_id stored_id [OF that(2)] by simp
  show ?thesis
    unfolding ensure_def create_owned_def
  proof (intro wp Get_wp Update_wp, goal_cases)
    case (2 x w1 err owned y w2)
    then show ?case using new [of owned w2] by (cases y) (auto simp: write_error_def)
  next
    case (6 x w1 y u w2)
    then show ?case using old [of y w2] by (cases u) (auto simp: write_error_def)
  qed auto
qed

end

text \<open>Every builder stamps the object it builds and leaves its address alone.\<close>

lemma builds_stamped:
  "DNSEndpoint_Build g b1 = Inr (d1, h) \<Longrightarrow> id_of (ODNSEndpoint d1) = id_of (ODNSEndpoint b1) \<and> stamped h (ODNSEndpoint d1)"
  "Cert_Build g b2 = Inr (d2, h) \<Longrightarrow> id_of (OCertificate d2) = id_of (OCertificate b2) \<and> stamped h (OCertificate d2)"
  "Secret_Build g b3 = Inr (d3, h) \<Longrightarrow> id_of (OSecret d3) = id_of (OSecret b3) \<and> stamped h (OSecret d3)"
  "CoreService_Build g b4 = Inr (d4, h) \<Longrightarrow> id_of (OCoreService d4) = id_of (OCoreService b4) \<and> stamped h (OCoreService d4)"
  "Appset_Build g b5 = Inr (d5, h) \<Longrightarrow> id_of (OApplicationSet d5) = id_of (OApplicationSet b5) \<and> stamped h (OApplicationSet d5)"
  "Deployment_Build g b6 = Inr (d6, h) \<Longrightarrow> id_of (ODeployment d6) = id_of (ODeployment b6) \<and> stamped h (ODeployment d6)"
  "Ingress_Build g b7 = Inr (d7, h) \<Longrightarrow> id_of (OIngress d7) = id_of (OIngress (cib_ingress b7)) \<and> stamped h (OIngress d7)"
  by (auto simp: DNSEndpoint_Build_def Cert_Build_def Secret_Build_def CoreService_Build_def Appset_Build_def
      Deployment_Build_def Ingress_Build_def Secret_WithAnnotations_def CoreService_WithAnnotations_def
      Deployment_WithAnnotations_def WithAnnotation_def map_ingress_def Let_def id_of_def key_of_def stamped_def
      hash_annotation_def split: option.splits)

end
