(* ===== verification/Status_Controllers.thy ===== *)
theory Status_Controllers
  imports Kube_Client
begin

text \<open>
  The reconcilers of \<open>HealthCheckProfile\<close>, \<open>Location\<close> and \<open>PrefixList\<close>
  (\<open>internal/controller/healthcheckprofile_controller.go\<close>, \<open>location_controller.go\<close>,
  \<open>prefixlist_controller.go\<close>): they mark an accepted resource as healthy. What they share is the
  locale \<open>status_reconciler\<close>.
\<close>

section \<open>The model\<close>

definition HealthCheckProfile_Reconcile :: "'w client \<Rightarrow> NamespacedName \<Rightarrow> ('w, Result \<times> apierr option) state" where
  "HealthCheckProfile_Reconcile c key = do {
     got \<leftarrow> Get c healthCheckProfileR key;
     case got of
       Inl err \<Rightarrow> State_Monad.return (done_result, IgnoreNotFound (Some err))
     | Inr profile \<Rightarrow>
         if om_DeletionTimestamp (hcp_Meta profile) \<noteq> None \<or> hcpst_Status (hcp_Status profile) = HealthStatusHealthy
         then State_Monad.return (done_result, None)
         else do {
           u \<leftarrow> StatusUpdate c healthCheckProfileR
             (profile\<lparr>hcp_Status := (hcp_Status profile)\<lparr>hcpst_Status := HealthStatusHealthy\<rparr>\<rparr>);
           State_Monad.return (done_result, write_error u)
         }
   }"

definition Location_Reconcile :: "'w client \<Rightarrow> NamespacedName \<Rightarrow> ('w, Result \<times> apierr option) state" where
  "Location_Reconcile c key = do {
     got \<leftarrow> Get c locationR key;
     case got of
       Inl err \<Rightarrow> State_Monad.return (done_result, IgnoreNotFound (Some err))
     | Inr location \<Rightarrow>
         if om_DeletionTimestamp (loc_Meta location) \<noteq> None \<or> locst_Status (loc_Status location) = HealthStatusHealthy
         then State_Monad.return (done_result, None)
         else do {
           u \<leftarrow> StatusUpdate c locationR
             (location\<lparr>loc_Status := (loc_Status location)\<lparr>locst_Status := HealthStatusHealthy\<rparr>\<rparr>);
           State_Monad.return (done_result, write_error u)
         }
   }"

definition PrefixList_Reconcile :: "'w client \<Rightarrow> NamespacedName \<Rightarrow> ('w, Result \<times> apierr option) state" where
  "PrefixList_Reconcile c key = do {
     got \<leftarrow> Get c prefixListR key;
     case got of
       Inl err \<Rightarrow>
         if err = NotFound then State_Monad.return (done_result, None)
         else State_Monad.return (done_result, Some err)
     | Inr prefixList \<Rightarrow>
         if pl_Status prefixList \<noteq> zero_PrefixListStatus then State_Monad.return (done_result, None)
         else do {
           u \<leftarrow> StatusUpdate c prefixListR
             (prefixList\<lparr>pl_Status := zero_PrefixListStatus\<lparr>plst_Status := HealthStatusHealthy\<rparr>\<rparr>);
           State_Monad.return (done_result, write_error u)
         }
   }"

section \<open>What a status reconciler does\<close>

text \<open>Only the status of one object differs between two stores.\<close>

definition only_status :: "obj_id \<Rightarrow> store \<Rightarrow> store \<Rightarrow> bool" where
  "only_status i s s' \<longleftrightarrow> (\<forall>j. j \<noteq> i \<longrightarrow> s' j = s j) \<and>
     (case s i of None \<Rightarrow> s' i = None
      | Some ob \<Rightarrow> (\<exists>ob'. s' i = Some ob' \<and> core ob' = core ob \<and> same_identity ob ob'))"

lemma only_status_refl [simp]: "only_status i s s"
  by (auto simp: only_status_def same_identity_def split: option.split)

lemma status_updates_only_status: "status_updates s ob s' ob' \<Longrightarrow> only_status (id_of ob) s s'"
  by (auto simp: status_updates_def only_status_def)

text \<open>
  The contract of the three: read the object, do nothing when it is settled, and otherwise write
  its status once; an object with the status written is settled.
\<close>

locale status_reconciler = typed_client c st r
  for c :: "'w client" and st :: "'w \<Rightarrow> store" and r :: "'a resource" +
  fixes reconcile :: "NamespacedName \<Rightarrow> ('w, Result \<times> apierr option) state"
    and settled :: "'a \<Rightarrow> bool" and mark :: "'a \<Rightarrow> 'a"
  assumes reconcile_eq: "reconcile key = do {
       got \<leftarrow> Get c r key;
       case got of
         Inl err \<Rightarrow> State_Monad.return (done_result, IgnoreNotFound (Some err))
       | Inr x \<Rightarrow> if settled x then State_Monad.return (done_result, None)
                  else do { u \<leftarrow> StatusUpdate c r (mark x); State_Monad.return (done_result, write_error u) }
     }"
    and mark_id: "id_of (r_in r (mark x)) = id_of (r_in r x)"
    and mark_settles: "status_of (r_in r y) = status_of (r_in r (mark x)) \<Longrightarrow> settled y"
begin

lemma reconcile_cases:
  assumes "run_state (reconcile key) w = ((res, err), w')"
  obtains (unread) e where "err = IgnoreNotFound (Some e)" "st w' = st w" "e = NotFound \<Longrightarrow> st w (r_kind r, key) = None"
  | (settled) x where "st w (r_kind r, key) = Some (r_in r x)" "settled x" "err = None" "st w' = st w"
  | (failed) x e where "st w (r_kind r, key) = Some (r_in r x)" "\<not> settled x" "err = Some e"
      "st w' = st w \<or> (\<exists>ob. status_updates (st w) (r_in r (mark x)) (st w') ob)"
  | (marked) x y where "st w (r_kind r, key) = Some (r_in r x)" "\<not> settled x" "err = None"
      "status_updates (st w) (r_in r (mark x)) (st w') (r_in r y)"
proof -
  obtain got w1 where g: "run_state (Get c r key) w = (got, w1)" by (cases "run_state (Get c r key) w")
  note gl = Get_law [OF g]
  show thesis
  proof (cases got)
    case (Inl e)
    with assms g have "err = IgnoreNotFound (Some e)" "w' = w1" by (simp_all add: reconcile_eq run_state_bind)
    with unread gl Inl show thesis by blast
  next
    case (Inr x)
    show thesis
    proof (cases "settled x")
      case True
      with assms g Inr have "err = None" "w' = w1" by (simp_all add: reconcile_eq run_state_bind)
      with settled gl Inr True show thesis by blast
    next
      case False
      obtain u w2 where u: "run_state (StatusUpdate c r (mark x)) w1 = (u, w2)"
        by (cases "run_state (StatusUpdate c r (mark x)) w1")
      note ul = StatusUpdate_law [OF u]
      have e: "err = write_error u" "w' = w2"
        using assms g Inr False u by (simp_all add: reconcile_eq run_state_bind)
      show thesis
      proof (cases u)
        case (Inl a)
        with e have "err = Some a" by (simp add: write_error_def)
        then show thesis using failed gl Inr False ul e \<open>got = Inr x\<close> by metis
      next
        case (Inr b)
        with e have "err = None" by (simp add: write_error_def)
        then show thesis using marked gl False ul(2) [OF Inr] e \<open>got = Inr x\<close> by metis
      qed
    qed
  qed
qed

lemma id_at: "st w (r_kind r, key) = Some (r_in r x) \<Longrightarrow> id_of (r_in r (mark x)) = (r_kind r, key)"
  using mark_id stored_id by simp

lemma reconcile_only_status:
  assumes "run_state (reconcile key) w = ((res, err), w')"
  shows "only_status (r_kind r, key) (st w) (st w')"
  using assms
proof (cases rule: reconcile_cases)
  case (failed x e)
  with status_updates_only_status [of "st w" "r_in r (mark x)" "st w'"] show ?thesis
    by (auto simp: id_at [OF failed(1)])
next
  case (marked x y)
  with status_updates_only_status [OF marked(4)] show ?thesis by (simp add: id_at [OF marked(1)])
qed simp_all

lemma reconcile_marks:
  assumes "run_state (reconcile key) w = ((res, None), w')" and "st w (r_kind r, key) \<noteq> None"
  shows "\<exists>y. st w' (r_kind r, key) = Some (r_in r y) \<and> settled y"
  using assms(1)
proof (cases rule: reconcile_cases)
  case (unread e)
  then show ?thesis using assms(2) by (cases e) auto
next
  case (marked x y)
  have "st w' (r_kind r, key) = Some (r_in r y)" "status_of (r_in r y) = status_of (r_in r (mark x))"
    using marked(4) id_at [OF marked(1)] by (auto simp: status_updates_def)
  with mark_settles show ?thesis by blast
qed auto

lemma reconcile_again:
  assumes "run_state (reconcile key) w = ((res, None), w')"
    and "run_state (reconcile key) w' = ((res', err'), w'')"
  shows "st w'' = st w'"
proof (cases "st w (r_kind r, key)")
  case None
  then have "st w' (r_kind r, key) = None"
    using reconcile_only_status [OF assms(1)] by (simp add: only_status_def)
  with assms(2) show ?thesis by (cases rule: reconcile_cases) auto
next
  case (Some ob)
  then obtain y where y: "st w' (r_kind r, key) = Some (r_in r y)" "settled y"
    using reconcile_marks [OF assms(1)] by auto
  from assms(2) show ?thesis by (cases rule: reconcile_cases) (use y in auto)
qed

end

section \<open>The three reconcilers\<close>

text \<open>The contract holds of each of them over any API server.\<close>

sublocale api_server \<subseteq> profiles: status_reconciler c st healthCheckProfileR "HealthCheckProfile_Reconcile c"
  "\<lambda>x. om_DeletionTimestamp (hcp_Meta x) \<noteq> None \<or> hcpst_Status (hcp_Status x) = HealthStatusHealthy"
  "\<lambda>x. x\<lparr>hcp_Status := (hcp_Status x)\<lparr>hcpst_Status := HealthStatusHealthy\<rparr>\<rparr>"
  by unfold_locales (simp_all add: HealthCheckProfile_Reconcile_def healthCheckProfileR_def id_of_def)

sublocale api_server \<subseteq> locations: status_reconciler c st locationR "Location_Reconcile c"
  "\<lambda>x. om_DeletionTimestamp (loc_Meta x) \<noteq> None \<or> locst_Status (loc_Status x) = HealthStatusHealthy"
  "\<lambda>x. x\<lparr>loc_Status := (loc_Status x)\<lparr>locst_Status := HealthStatusHealthy\<rparr>\<rparr>"
  by unfold_locales (simp_all add: Location_Reconcile_def locationR_def id_of_def)

lemma IgnoreNotFound_iff: "IgnoreNotFound (Some e) = (if e = NotFound then None else Some e)"
  by (cases e) simp_all

lemma PrefixList_Reconcile_eq:
  "PrefixList_Reconcile c key = do {
     got \<leftarrow> Get c prefixListR key;
     case got of
       Inl err \<Rightarrow> State_Monad.return (done_result, IgnoreNotFound (Some err))
     | Inr x \<Rightarrow> if pl_Status x \<noteq> zero_PrefixListStatus then State_Monad.return (done_result, None)
                else do { u \<leftarrow> StatusUpdate c prefixListR
                            (x\<lparr>pl_Status := zero_PrefixListStatus\<lparr>plst_Status := HealthStatusHealthy\<rparr>\<rparr>);
                          State_Monad.return (done_result, write_error u) }
   }"
  unfolding PrefixList_Reconcile_def IgnoreNotFound_iff if_distrib [of Pair] if_distrib [of State_Monad.return]
  by (intro arg_cong [where f = "State_Monad.bind (Get c prefixListR key)"] ext) (simp split: sum.split)

sublocale api_server \<subseteq> prefixlists: status_reconciler c st prefixListR "PrefixList_Reconcile c"
  "\<lambda>x. pl_Status x \<noteq> zero_PrefixListStatus"
  "\<lambda>x. x\<lparr>pl_Status := zero_PrefixListStatus\<lparr>plst_Status := HealthStatusHealthy\<rparr>\<rparr>"
  by unfold_locales
    (simp_all add: PrefixList_Reconcile_eq prefixListR_def id_of_def zero_PrefixListStatus_def HealthStatusHealthy_def)

context api_server
begin

lemmas status_only =
  profiles.reconcile_only_status locations.reconcile_only_status prefixlists.reconcile_only_status

lemmas status_again =
  profiles.reconcile_again locations.reconcile_again prefixlists.reconcile_again

lemmas status_marks =
  profiles.reconcile_marks locations.reconcile_marks prefixlists.reconcile_marks

end

section \<open>Properties\<close>

text \<open>
  C26. The health check profile, location and prefix list reconcilers change nothing but the status
  of the object they are called for: no other object, not its spec or metadata, and they create and
  delete nothing, also when a call to the API server fails.
\<close>

theorem status_reconcilers_touch_status_only:
  assumes "api_server c st"
    and "(k, reconcile) \<in> {(KHealthCheckProfile, HealthCheckProfile_Reconcile c),
      (KLocation, Location_Reconcile c), (KPrefixList, PrefixList_Reconcile c)}"
    and "run_state (reconcile key) w = ((res, err), w')"
  shows "only_status (k, key) (st w) (st w')"
proof -
  have k: "r_kind healthCheckProfileR = KHealthCheckProfile" "r_kind locationR = KLocation"
    "r_kind prefixListR = KPrefixList" by (simp_all add: resource_defs)
  from assms(2,3) show ?thesis
    using api_server.status_only [OF assms(1)] unfolding k by blast
qed

definition example_location :: Location where
  "example_location = zero_Location\<lparr>loc_Meta := new_ObjectMeta ''l'' ''team-a''\<rparr>"

definition healthy_location :: Location where
  "healthy_location = example_location\<lparr>loc_Status := zero_LocationStatus\<lparr>locst_Status := ''Healthy''\<rparr>\<rparr>"

lemma example_location_run:
  "run_state (Location_Reconcile ref_client \<lparr>nn_Namespace = ''team-a'', nn_Name = ''l''\<rparr>) [OLocation example_location] =
   ((done_result, None), [OLocation healthy_location])"
  by code_simp

theorem status_reconcilers_touch_status_only_witness:
  "only_status (KLocation, \<lparr>nn_Namespace = ''team-a'', nn_Name = ''l''\<rparr>)
     (ref_st [OLocation example_location]) (ref_st [OLocation healthy_location])"
  using status_reconcilers_touch_status_only
    [where k = KLocation and reconcile = "Location_Reconcile ref_client",
      OF reference_server.api_server_axioms _ example_location_run] by simp

text \<open>
  C27. They settle: once a call has returned no error, another one writes nothing. After it, a
  profile or location that is not being deleted is healthy and a prefix list has a status.
\<close>

theorem status_reconcilers_settle:
  assumes "api_server c st"
    and "(k, reconcile) \<in> {(KHealthCheckProfile, HealthCheckProfile_Reconcile c),
      (KLocation, Location_Reconcile c), (KPrefixList, PrefixList_Reconcile c)}"
    and "run_state (reconcile key) w = ((res, None), w')" and "st w (k, key) \<noteq> None"
  shows "(\<forall>res' err' w''. run_state (reconcile key) w' = ((res', err'), w'') \<longrightarrow> st w'' = st w') \<and>
    (case st w' (k, key) of
       Some (OHealthCheckProfile x) \<Rightarrow>
         om_DeletionTimestamp (hcp_Meta x) = None \<longrightarrow> hcpst_Status (hcp_Status x) = HealthStatusHealthy
     | Some (OLocation x) \<Rightarrow>
         om_DeletionTimestamp (loc_Meta x) = None \<longrightarrow> locst_Status (loc_Status x) = HealthStatusHealthy
     | Some (OPrefixList x) \<Rightarrow> pl_Status x \<noteq> zero_PrefixListStatus
     | _ \<Rightarrow> False)"
proof -
  have k: "r_kind healthCheckProfileR = KHealthCheckProfile" "r_kind locationR = KLocation"
    "r_kind prefixListR = KPrefixList" "r_in healthCheckProfileR = OHealthCheckProfile"
    "r_in locationR = OLocation" "r_in prefixListR = OPrefixList" by (simp_all add: resource_defs)
  from assms(2) show ?thesis
    using api_server.status_again [OF assms(1)] api_server.status_marks [OF assms(1)] assms(3,4)
    unfolding k by fastforce
qed

theorem status_reconcilers_settle_witness:
  "locst_Status (loc_Status healthy_location) = HealthStatusHealthy"
proof -
  have "ref_st [OLocation example_location] (KLocation, \<lparr>nn_Namespace = ''team-a'', nn_Name = ''l''\<rparr>) \<noteq> None"
    "ref_st [OLocation healthy_location] (KLocation, \<lparr>nn_Namespace = ''team-a'', nn_Name = ''l''\<rparr>) =
       Some (OLocation healthy_location)"
    "om_DeletionTimestamp (loc_Meta healthy_location) = None"
    by code_simp+
  with status_reconcilers_settle [where k = KLocation and reconcile = "Location_Reconcile ref_client",
      OF reference_server.api_server_axioms _ example_location_run]
  show ?thesis by simp
qed

end
