(* ===== verification/Service_Cache.thy ===== *)
theory Service_Cache
  imports Owned_Objects Status_Controllers
begin

text \<open>
  The reconciler of a cache location (\<open>internal/controller/service_cache_controller.go\<close>): for a
  service it keeps a backend service, an S3 gateway when the origin is S3, the TLS secret, and the
  ingress, one write per call, and then reports the service as healthy.
\<close>

section \<open>The model\<close>

definition backend_name :: "Service \<Rightarrow> string" where
  "backend_name service = ReplaceAll (om_Name (svc_Meta service)) CHR ''.'' CHR ''-''"

definition in_namespace_of :: "Service \<Rightarrow> string \<Rightarrow> NamespacedName" where
  "in_namespace_of service name = \<lparr>nn_Namespace = om_Namespace (svc_Meta service), nn_Name = name\<rparr>"

abbreviation backend_key :: "Service \<Rightarrow> NamespacedName" where
  "backend_key service \<equiv> in_namespace_of service (backend_name service)"

abbreviation gateway_key :: "Service \<Rightarrow> NamespacedName" where
  "gateway_key service \<equiv> in_namespace_of service (backend_name service @ ''-s3gateway'')"

abbreviation tls_key :: "Service \<Rightarrow> NamespacedName" where
  "tls_key service \<equiv> in_namespace_of service (om_Name (svc_Meta service) @ ''-tls'')"

abbreviation ingress_key :: "Service \<Rightarrow> NamespacedName" where
  "ingress_key service \<equiv> in_namespace_of service (om_Name (svc_Meta service))"

text \<open>The wanted objects with their hashes. \<open>StaticOrigins[0]\<close> of an empty list is a panic.\<close>

definition wanted_backend :: "golib \<Rightarrow> Service \<Rightarrow> ctl_error + CoreService \<times> string" where
  "wanted_backend g service =
     (case CoreV1ServiceBuilderFactory ''default'' (backend_name service) (om_Namespace (svc_Meta service)) of
        Inl err \<Rightarrow> Inl err
      | Inr b \<Rightarrow>
          let s3 = (\<lambda>b. if ss_OriginType (svc_Spec service) = OriginTypeS3
                        then WithS3Gateway (ss_Domain (svc_Spec service)) b else b)
          in if ss_OriginType (svc_Spec service) = OriginTypeStatic then
               (case ss_StaticOrigins (svc_Spec service) of
                  [] \<Rightarrow> Inl IndexPanic
                | origin # _ \<Rightarrow> CoreService_Build g (s3 (WithUpstream (so_Upstream origin) b)))
             else CoreService_Build g (s3 b))"

definition adopt_backend :: "CoreService \<Rightarrow> CoreService \<Rightarrow> CoreService" where
  "adopt_backend desired current = current\<lparr>cs_Spec := cs_Spec desired,
     cs_Meta := (cs_Meta current)\<lparr>om_Annotations := om_Annotations (cs_Meta desired)\<rparr>\<rparr>"

definition wanted_gateway :: "golib \<Rightarrow> Service \<Rightarrow> ctl_error + Deployment \<times> string" where
  "wanted_gateway g service =
     (case DeploymentBuilderFactory ''s3-gateway'' (backend_name service @ ''-s3gateway'')
         (om_Namespace (svc_Meta service)) of
        Inl err \<Rightarrow> Inl err
      | Inr b \<Rightarrow> Deployment_Build g (Deployment_WithService service b))"

definition adopt_gateway :: "Deployment \<Rightarrow> Deployment \<Rightarrow> Deployment" where
  "adopt_gateway desired current = current\<lparr>dep_Spec := dep_Spec desired,
     dep_Meta := (dep_Meta current)\<lparr>om_Annotations := om_Annotations (dep_Meta desired)\<rparr>\<rparr>"

definition wanted_tls :: "golib \<Rightarrow> Service \<Rightarrow> ctl_error + Secret \<times> string" where
  "wanted_tls g service =
     (case base64_decode (cert_Crt (ss_Certificate (svc_Spec service))) of
        None \<Rightarrow> Inl Base64Error
      | Some crt \<Rightarrow> (case base64_decode (cert_Key (ss_Certificate (svc_Spec service))) of
          None \<Rightarrow> Inl Base64Error
        | Some key \<Rightarrow> Secret_Build g (WithDataEntry ''tls.key'' key (WithDataEntry ''tls.crt'' crt
            (NewSecretBuilder (om_Name (svc_Meta service) @ ''-tls'') (om_Namespace (svc_Meta service)))))))"

definition adopt_tls :: "Secret \<Rightarrow> Secret \<Rightarrow> Secret" where
  "adopt_tls desired current = current\<lparr>sec_Data := sec_Data desired,
     sec_Meta := (sec_Meta current)\<lparr>om_Annotations := om_Annotations (sec_Meta desired)\<rparr>\<rparr>"

definition wanted_ingress :: "golib \<Rightarrow> string \<Rightarrow> Service \<Rightarrow> ctl_error + Ingress \<times> string" where
  "wanted_ingress g secureUrlsEndpoint service =
     Ingress_Build g (Ingress_WithService service
       (NewCacheIngressBuilder (om_Name (svc_Meta service)) (om_Namespace (svc_Meta service)) secureUrlsEndpoint))"

definition adopt_ingress :: "Ingress \<Rightarrow> Ingress \<Rightarrow> Ingress" where
  "adopt_ingress desired current = current\<lparr>ing_Spec := ing_Spec desired,
     ing_Meta := (ing_Meta current)\<lparr>om_Annotations := om_Annotations (ing_Meta desired)\<rparr>\<rparr>"

text \<open>The sections of the reconciler: \<open>Inl\<close> is a return, \<open>Inr\<close> goes on.\<close>

definition sync_backend :: "golib \<Rightarrow> 'w client \<Rightarrow> Service \<Rightarrow> ('w, ctl_error option + unit) state" where
  "sync_backend g c service =
     (case wanted_backend g service of
        Inl err \<Rightarrow> State_Monad.return (Inl (Some err))
      | Inr (desired, hash) \<Rightarrow> do {
          x \<leftarrow> ensure g c coreServiceR False adopt_backend (OService service) (backend_key service) desired hash;
          State_Monad.return (map_sum id (\<lambda>_. ()) (settle x))
        })"

definition sync_gateway :: "golib \<Rightarrow> 'w client \<Rightarrow> Service \<Rightarrow> ('w, ctl_error option + unit) state" where
  "sync_gateway g c service =
     (if ss_OriginType (svc_Spec service) = OriginTypeStatic then do {
        got \<leftarrow> Get c deploymentR (gateway_key service);
        case got of
          Inr deployment \<Rightarrow> do {
            d \<leftarrow> Delete c deploymentR deployment;
            State_Monad.return (Inl (map_option ApiError (write_error d)))
          }
        | Inl err \<Rightarrow> State_Monad.return (if err \<noteq> NotFound then Inl (Some (ApiError err)) else Inr ())
      }
      else if ss_OriginType (svc_Spec service) = OriginTypeS3 then
        (case wanted_gateway g service of
           Inl err \<Rightarrow> State_Monad.return (Inl (Some err))
         | Inr (desired, hash) \<Rightarrow> do {
             x \<leftarrow> ensure g c deploymentR False adopt_gateway (OService service) (gateway_key service) desired hash;
             State_Monad.return (map_sum id (\<lambda>_. ()) (settle x))
           })
      else State_Monad.return (Inr ()))"

definition has_certificate :: "Service \<Rightarrow> bool" where
  "has_certificate service \<longleftrightarrow>
     cert_Crt (ss_Certificate (svc_Spec service)) \<noteq> [] \<and> cert_Key (ss_Certificate (svc_Spec service)) \<noteq> []"

definition sync_tls :: "golib \<Rightarrow> 'w client \<Rightarrow> Service \<Rightarrow> ('w, ctl_error option + unit) state" where
  "sync_tls g c service =
     (if has_certificate service then
        (case wanted_tls g service of
           Inl err \<Rightarrow> State_Monad.return (Inl (Some err))
         | Inr (desired, hash) \<Rightarrow> do {
             x \<leftarrow> ensure g c secretR False adopt_tls (OService service) (tls_key service) desired hash;
             State_Monad.return (map_sum id (\<lambda>_. ()) (settle x))
           })
      else State_Monad.return (Inr ()))"

text \<open>After it has created the ingress, the reconciler goes on.\<close>

definition sync_ingress :: "golib \<Rightarrow> string \<Rightarrow> 'w client \<Rightarrow> Service \<Rightarrow> ('w, ctl_error option + unit) state" where
  "sync_ingress g secureUrlsEndpoint c service =
     (case wanted_ingress g secureUrlsEndpoint service of
        Inl err \<Rightarrow> State_Monad.return (Inl (Some err))
      | Inr (desired, hash) \<Rightarrow> do {
          x \<leftarrow> ensure g c ingressR False adopt_ingress (OService service) (ingress_key service) desired hash;
          State_Monad.return (case x of Created \<Rightarrow> Inr () | _ \<Rightarrow> map_sum id (\<lambda>_. ()) (settle x))
        })"

definition and_then ::
  "('w, ctl_error option + 'a) state \<Rightarrow> ('a \<Rightarrow> ('w, Result \<times> ctl_error option) state) \<Rightarrow>
   ('w, Result \<times> ctl_error option) state" where
  "and_then m k = do {
     x \<leftarrow> m;
     case x of Inl err \<Rightarrow> State_Monad.return (done_result, err) | Inr y \<Rightarrow> k y
   }"

definition set_status :: "'w client \<Rightarrow> Service \<Rightarrow> string \<Rightarrow> ('w, Result \<times> ctl_error option) state" where
  "set_status c service status = do {
     u \<leftarrow> StatusUpdate c serviceR (service\<lparr>svc_Status := \<lparr>sst_Status = status\<rparr>\<rparr>);
     State_Monad.return (done_result, map_option ApiError (write_error u))
   }"

definition ServiceCache_Reconcile ::
  "golib \<Rightarrow> string \<Rightarrow> 'w client \<Rightarrow> NamespacedName \<Rightarrow> ('w, Result \<times> ctl_error option) state" where
  "ServiceCache_Reconcile g secureUrlsEndpoint c key = do {
     got \<leftarrow> Get c serviceR key;
     case got of
       Inl err \<Rightarrow> State_Monad.return (done_result, map_option ApiError (IgnoreNotFound (Some err)))
     | Inr service \<Rightarrow>
         if om_DeletionTimestamp (svc_Meta service) \<noteq> None then State_Monad.return (done_result, None)
         else if svc_Status service \<noteq> zero_ServiceStatus then
           and_then (sync_backend g c service) (\<lambda>_.
           and_then (sync_gateway g c service) (\<lambda>_.
           and_then (sync_tls g c service) (\<lambda>_.
           and_then (sync_ingress g secureUrlsEndpoint c service) (\<lambda>_.
           set_status c service HealthStatusHealthy))))
         else set_status c service HealthStatusProgressing
   }"

section \<open>The wanted objects\<close>

text \<open>No step of the ingress builder changes the address of the ingress.\<close>

abbreviation iid :: "CacheIngressBuilder \<Rightarrow> obj_id" where
  "iid b \<equiv> id_of (OIngress (cib_ingress b))"

lemma iid_steps [simp]:
  "iid (WithAnnotation k v b) = iid b" "iid (WithIngressClass x b) = iid b" "iid (WithTls t b) = iid b"
  "iid (WithAdditionalTLS t b) = iid b" "iid (WithRules rs b) = iid b" "iid (WithAdditionalRules rs b) = iid b"
  by (simp_all add: WithAnnotation_def WithIngressClass_def WithTls_def WithAdditionalTLS_def WithRules_def
      WithAdditionalRules_def map_spec_def map_ingress_def id_of_def key_of_def)

lemma iid_fold: "(\<And>a b. iid (f a b) = iid b) \<Longrightarrow> iid (fold f as b) = iid b"
  by (induction as arbitrary: b) simp_all

lemma iid_blocks [simp]:
  "iid (WithWaf waf b) = iid b" "iid (with_cors cors b) = iid b" "iid (with_certificate service b) = iid b"
  "iid (with_mirror mirror b) = iid b" "iid (with_hosts spec paths b) = iid b"
  by (simp_all add: WithWaf_def with_cors_def with_certificate_def with_mirror_def with_hosts_def Let_def iid_fold)

lemma ingress_WithService_key: "iid (Ingress_WithService service b) = iid b"
  by (simp add: Ingress_WithService_def with_static_origin_def with_s3_origin_def Let_def split: option.split list.split)

text \<open>An object exists and carries the hash.\<close>

definition ready :: "store \<Rightarrow> obj_id \<Rightarrow> string \<Rightarrow> bool" where
  "ready s i h \<longleftrightarrow> (\<exists>ob. s i = Some ob \<and> stamped h ob)"

definition backend_ready :: "golib \<Rightarrow> Service \<Rightarrow> store \<Rightarrow> bool" where
  "backend_ready g service s \<longleftrightarrow> (\<exists>d h. wanted_backend g service = Inr (d, h) \<and> ready s (KCoreService, backend_key service) h)"

definition gateway_ready :: "golib \<Rightarrow> Service \<Rightarrow> store \<Rightarrow> bool" where
  "gateway_ready g service s \<longleftrightarrow>
     (ss_OriginType (svc_Spec service) = OriginTypeStatic \<longrightarrow> s (KDeployment, gateway_key service) = None) \<and>
     (ss_OriginType (svc_Spec service) = OriginTypeS3 \<longrightarrow>
       (\<exists>d h. wanted_gateway g service = Inr (d, h) \<and> ready s (KDeployment, gateway_key service) h))"

definition tls_ready :: "golib \<Rightarrow> Service \<Rightarrow> store \<Rightarrow> bool" where
  "tls_ready g service s \<longleftrightarrow> (has_certificate service \<longrightarrow>
     (\<exists>d h. wanted_tls g service = Inr (d, h) \<and> ready s (KSecret, tls_key service) h))"

definition ingress_ready :: "golib \<Rightarrow> string \<Rightarrow> Service \<Rightarrow> store \<Rightarrow> bool" where
  "ingress_ready g endpoint service s \<longleftrightarrow>
     (\<exists>d h. wanted_ingress g endpoint service = Inr (d, h) \<and> ready s (KIngress, ingress_key service) h)"

definition cache_ready :: "golib \<Rightarrow> string \<Rightarrow> Service \<Rightarrow> store \<Rightarrow> bool" where
  "cache_ready g endpoint service s \<longleftrightarrow> backend_ready g service s \<and> gateway_ready g service s \<and>
     tls_ready g service s \<and> ingress_ready g endpoint service s"

definition cache_ids :: "Service \<Rightarrow> obj_id set" where
  "cache_ids service = {(KCoreService, backend_key service), (KDeployment, gateway_key service),
     (KSecret, tls_key service), (KIngress, ingress_key service)}"

lemma ready_other:
  "only_at {(KIngress, key)} s s' \<Longrightarrow> backend_ready g service s \<Longrightarrow> backend_ready g service s'"
  "only_at {(KIngress, key)} s s' \<Longrightarrow> gateway_ready g service s \<Longrightarrow> gateway_ready g service s'"
  "only_at {(KIngress, key)} s s' \<Longrightarrow> tls_ready g service s \<Longrightarrow> tls_ready g service s'"
  by (auto simp: backend_ready_def gateway_ready_def tls_ready_def ready_def only_at_def)

text \<open>What a call does to a service that has a status and is not being deleted\<close>

definition cache_step :: "golib \<Rightarrow> string \<Rightarrow> NamespacedName \<Rightarrow> Service \<Rightarrow> store \<Rightarrow> store \<Rightarrow> bool" where
  "cache_step g endpoint key service s s' \<longleftrightarrow> (\<exists>s1. only_at (cache_ids service) s s1 \<and>
     (s' = s1 \<or> only_status (KService, key) s1 s' \<and> cache_ready g endpoint service s1))"

lemma cache_stepI: "only_at {i} s s' \<Longrightarrow> i \<in> cache_ids service \<Longrightarrow> cache_step g endpoint key service s s'"
  unfolding cache_step_def using only_at_mono [of "{i}"] by blast

locale operator_world = api_server c st + go_library g
  for c :: "'w client" and st :: "'w \<Rightarrow> store" and g :: golib
begin

lemma wanted_backend_object:
  assumes "wanted_backend g service = Inr (d, h)"
  shows "wanted_object c st coreServiceR g adopt_backend (backend_key service) d h"
proof
  have "id_of (OCoreService d) = (KCoreService, backend_key service) \<and> stamped h (OCoreService d)"
    using assms
    by (auto simp: wanted_backend_def CoreV1ServiceBuilderFactory_def NewDefaultCoreV1ServiceBuilder_def Let_def
        WithUpstream_def WithS3Gateway_def id_of_def key_of_def in_namespace_of_def new_ObjectMeta_def
        split: if_splits list.splits dest!: builds_stamped(4))
  then show "id_of (r_in coreServiceR d) = (r_kind coreServiceR, backend_key service)" "stamped h (r_in coreServiceR d)"
    by simp_all
qed (simp add: id_of_def key_of_def adopt_backend_def)

lemma wanted_gateway_object:
  assumes "wanted_gateway g service = Inr (d, h)"
  shows "wanted_object c st deploymentR g adopt_gateway (gateway_key service) d h"
proof
  have "dep_Meta (Deployment_WithService service b) = dep_Meta b" for b
    by (simp add: Deployment_WithService_def WithContainerName_def withS3GatewayDomainName_def WithSelectorLabels_def
        WithTemplateLabels_def withS3GatewayCredentials_def on_container_def map_pod_def split: list.split)
  then have "id_of (ODeployment d) = (KDeployment, gateway_key service) \<and> stamped h (ODeployment d)"
    using assms
    by (auto simp: wanted_gateway_def DeploymentBuilderFactory_def NewDeploymentBuilder_def WithPorts_def
        WithReadinessProbe_def WithLivenessProbe_def WithContainerImage_def WithReplicas_def on_container_def
        some_container_def map_pod_def id_of_def key_of_def in_namespace_of_def new_ObjectMeta_def dest!: builds_stamped(6))
  then show "id_of (r_in deploymentR d) = (r_kind deploymentR, gateway_key service)" "stamped h (r_in deploymentR d)"
    by simp_all
qed (simp add: id_of_def key_of_def adopt_gateway_def)

lemma wanted_tls_object:
  assumes "wanted_tls g service = Inr (d, h)"
  shows "wanted_object c st secretR g adopt_tls (tls_key service) d h"
proof
  have "id_of (OSecret d) = (KSecret, tls_key service) \<and> stamped h (OSecret d)"
    using assms
    by (auto simp: wanted_tls_def NewSecretBuilder_def WithDataEntry_def id_of_def key_of_def in_namespace_of_def
        new_ObjectMeta_def split: option.splits dest!: builds_stamped(3))
  then show "id_of (r_in secretR d) = (r_kind secretR, tls_key service)" "stamped h (r_in secretR d)" by simp_all
qed (simp add: id_of_def key_of_def adopt_tls_def)

lemma wanted_ingress_object:
  assumes "wanted_ingress g endpoint service = Inr (d, h)"
  shows "wanted_object c st ingressR g adopt_ingress (ingress_key service) d h"
proof
  have "id_of (OIngress d) = (KIngress, ingress_key service) \<and> stamped h (OIngress d)"
    using builds_stamped(7) [OF assms [unfolded wanted_ingress_def]]
    by (simp add: ingress_WithService_key) (simp add: NewCacheIngressBuilder_def id_of_def key_of_def
        in_namespace_of_def new_ObjectMeta_def)
  then show "id_of (r_in ingressR d) = (r_kind ingressR, ingress_key service)" "stamped h (r_in ingressR d)" by simp_all
qed (simp add: id_of_def key_of_def adopt_ingress_def)

section \<open>What a call does\<close>

text \<open>Each section changes at most its own object; when the reconciler goes on, the object is as wanted.\<close>

lemma ensure_section_wp:
  assumes "wanted_object c st r g adopt key desired hash" "r_kind r = k"
  shows "wp (do { x \<leftarrow> ensure g c r skip adopt owner key desired hash; State_Monad.return (map_sum id (\<lambda>_. ()) (settle x)) })
    (\<lambda>x w'. only_at {(k, key)} (st w) (st w') \<and> (x = Inr () \<longrightarrow> st w' = st w \<and> ready (st w) (k, key) hash)) w"
  by (intro wp_bind wp_mono [OF wanted_object.ensure_wp [OF assms(1)]] wp_return)
    (auto simp: assms(2) ready_def split: outcome.splits)

lemma sync_backend_wp:
  "wp (sync_backend g c service) (\<lambda>x w'. only_at {(KCoreService, backend_key service)} (st w) (st w') \<and>
     (x = Inr () \<longrightarrow> st w' = st w \<and> backend_ready g service (st w))) w"
  unfolding sync_backend_def
proof (intro wp_sum wp_prod wp_return, goal_cases)
  case (2 b d h)
  then have "wanted_object c st coreServiceR g adopt_backend (backend_key service) d h"
    by (intro wanted_backend_object) simp
  from ensure_section_wp [OF this] 2 show ?case by (fastforce simp: backend_ready_def elim!: wp_mono)
qed simp

lemma sync_gateway_wp:
  "wp (sync_gateway g c service) (\<lambda>x w'. only_at {(KDeployment, gateway_key service)} (st w) (st w') \<and>
     (x = Inr () \<longrightarrow> st w' = st w \<and> gateway_ready g service (st w))) w"
proof -
  have ne: "OriginTypeS3 \<noteq> OriginTypeStatic" by (simp add: OriginTypeS3_def OriginTypeStatic_def)
  have del: "only_at {(KDeployment, gateway_key service)} (st w) (st w')"
    if "deletes (st w) (ODeployment d) (st w')" "st w (KDeployment, gateway_key service) = Some (ODeployment d)" for w' d
    using writes_only_at(4) [OF that(1)] stored_id [OF that(2)] by simp
  show ?thesis
    unfolding sync_gateway_def
  proof (intro wp_if wp_bind deployments.Get_wp wp_sum deployments.Delete_wp wp_prod wp_return, goal_cases)
    case (1 x w1 err)
    then show ?case using ne by (auto simp: gateway_ready_def split: if_splits)
  next
    case (2 x w1 d u w2)
    then show ?case using del [of d w2] by auto
  next
    case (4 b d h)
    then have "wanted_object c st deploymentR g adopt_gateway (gateway_key service) d h"
      by (intro wanted_gateway_object) simp
    then show ?case
      by (intro wp_mono [OF wanted_object.ensure_wp] wp_return)
        (use 4 in \<open>auto simp: gateway_ready_def ready_def split: outcome.splits\<close>)
  qed (auto simp: gateway_ready_def)
qed

lemma sync_tls_wp:
  "wp (sync_tls g c service) (\<lambda>x w'. only_at {(KSecret, tls_key service)} (st w) (st w') \<and>
     (x = Inr () \<longrightarrow> st w' = st w \<and> tls_ready g service (st w))) w"
  unfolding sync_tls_def
proof (intro wp_if wp_sum wp_prod wp_return, goal_cases)
  case (2 b d h)
  then have "wanted_object c st secretR g adopt_tls (tls_key service) d h" by (intro wanted_tls_object) simp
  from ensure_section_wp [OF this] 2 show ?case by (fastforce simp: tls_ready_def elim!: wp_mono)
qed (auto simp: tls_ready_def)

lemma sync_ingress_wp:
  "wp (sync_ingress g endpoint c service) (\<lambda>x w'. only_at {(KIngress, ingress_key service)} (st w) (st w') \<and>
     (x = Inr () \<longrightarrow> ingress_ready g endpoint service (st w'))) w"
  unfolding sync_ingress_def
proof (intro wp_sum wp_prod wp_return, goal_cases)
  case (2 b d h)
  then have "wanted_object c st ingressR g adopt_ingress (ingress_key service) d h" by (intro wanted_ingress_object) simp
  then show ?case
    by (intro wp_bind wp_mono [OF wanted_object.ensure_wp] wp_return)
      (use 2 in \<open>auto simp: ingress_ready_def ready_def split: outcome.splits\<close>)
qed simp

lemma set_status_wp:
  assumes "st w (KService, key) = Some (OService s0)" "key_of (svc_Meta service) = key"
  shows "wp (set_status c service status) (\<lambda>_ w'. only_status (KService, key) (st w) (st w') \<and>
    (st w' = st w \<or> (\<exists>s'. st w' (KService, key) = Some (OService s') \<and> sst_Status (svc_Status s') = status))) w"
proof -
  let ?s = "service\<lparr>svc_Status := \<lparr>sst_Status = status\<rparr>\<rparr>"
  have i: "id_of (OService ?s) = (KService, key)" using assms(2) by (simp add: id_of_def)
  have "only_status (KService, key) (st w) (st w') \<and>
      (\<exists>s'. st w' (KService, key) = Some (OService s') \<and> sst_Status (svc_Status s') = status)"
    if u: "status_updates (st w) (OService ?s) (st w') ob" for w' ob
  proof -
    have "status_of ob = SService \<lparr>sst_Status = status\<rparr>" "st w' (KService, key) = Some ob"
      using u unfolding status_updates_def i by auto
    moreover from this(1) obtain s' where "ob = OService s'" by (cases ob) simp_all
    ultimately show ?thesis using status_updates_only_status [OF u] by (auto simp: i)
  qed
  then show ?thesis
    unfolding set_status_def by (intro wp_bind services.StatusUpdate_wp wp_return) auto
qed

lemma and_then_wp:
  assumes "wp m (\<lambda>x w'. case x of Inl e \<Rightarrow> Q (done_result, e) w' | Inr y \<Rightarrow> wp (k y) Q w') w"
  shows "wp (and_then m k) Q w"
  unfolding and_then_def
  by (rule wp_bind, rule wp_mono [OF assms]) (auto intro: wp_return split: sum.splits)

lemma cache_sync_wp:
  assumes service: "st w (KService, key) = Some (OService service)"
  shows "wp (and_then (sync_backend g c service) (\<lambda>_. and_then (sync_gateway g c service) (\<lambda>_.
      and_then (sync_tls g c service) (\<lambda>_. and_then (sync_ingress g endpoint c service) (\<lambda>_.
      set_status c service HealthStatusHealthy)))))
    (\<lambda>_ w'. cache_step g endpoint key service (st w) (st w')) w"
proof -
  have key: "key_of (svc_Meta service) = key" using stored_id [OF service] by (simp add: id_of_def)
  have step: "cache_step g endpoint key service (st w) (st w')" if "st w1 = st w" "only_at {i} (st w1) (st w')"
    "i \<in> cache_ids service" for i w1 w'
    using cache_stepI that by metis
  have final: "wp (set_status c service HealthStatusHealthy) (\<lambda>_ w'. cache_step g endpoint key service (st w) (st w')) w1"
    if i: "only_at {(KIngress, ingress_key service)} (st w) (st w1)" and "cache_ready g endpoint service (st w1)" for w1
  proof -
    have "st w1 (KService, key) = Some (OService service)" using i service by (simp add: only_at_def)
    moreover have "only_at (cache_ids service) (st w) (st w1)" by (rule only_at_mono [OF i]) (simp add: cache_ids_def)
    ultimately show ?thesis
      using that(2) by (auto simp: cache_step_def intro!: wp_mono [OF set_status_wp [OF _ key]])
  qed
  let ?Q = "\<lambda>_ w'. cache_step g endpoint key service (st w) (st w')"
  have ing: "wp (and_then (sync_ingress g endpoint c service) (\<lambda>_. set_status c service HealthStatusHealthy)) ?Q w1"
    if w1: "st w1 = st w" and "backend_ready g service (st w)" "gateway_ready g service (st w)" "tls_ready g service (st w)" for w1
    by (rule and_then_wp, rule wp_mono [OF sync_ingress_wp])
      (use that step [OF w1] ready_other in \<open>auto simp: cache_ids_def cache_ready_def split: sum.split intro!: final\<close>)
  have tls: "wp (and_then (sync_tls g c service) (\<lambda>_. and_then (sync_ingress g endpoint c service)
      (\<lambda>_. set_status c service HealthStatusHealthy))) ?Q w1"
    if w1: "st w1 = st w" and "backend_ready g service (st w)" "gateway_ready g service (st w)" for w1
    by (rule and_then_wp, rule wp_mono [OF sync_tls_wp])
      (use that step [OF w1] in \<open>auto simp: cache_ids_def split: sum.split intro!: ing\<close>)
  have gateway: "wp (and_then (sync_gateway g c service) (\<lambda>_. and_then (sync_tls g c service)
      (\<lambda>_. and_then (sync_ingress g endpoint c service) (\<lambda>_. set_status c service HealthStatusHealthy)))) ?Q w1"
    if w1: "st w1 = st w" and "backend_ready g service (st w)" for w1
    by (rule and_then_wp, rule wp_mono [OF sync_gateway_wp])
      (use that step [OF w1] in \<open>auto simp: cache_ids_def split: sum.split intro!: tls\<close>)
  show ?thesis
    by (rule and_then_wp, rule wp_mono [OF sync_backend_wp])
      (use step [of w] in \<open>auto simp: cache_ids_def split: sum.split intro!: gateway\<close>)
qed

lemma ServiceCache_Reconcile_wp:
  "wp (ServiceCache_Reconcile g endpoint c key) (\<lambda>_ w'. st w' = st w \<or>
     (\<exists>service. st w (KService, key) = Some (OService service) \<and> om_DeletionTimestamp (svc_Meta service) = None \<and>
        (if svc_Status service = zero_ServiceStatus
         then only_status (KService, key) (st w) (st w') \<and>
           (\<exists>s'. st w' (KService, key) = Some (OService s') \<and> sst_Status (svc_Status s') = HealthStatusProgressing)
         else cache_step g endpoint key service (st w) (st w')))) w"
  unfolding ServiceCache_Reconcile_def
proof (intro wp_bind services.Get_wp wp_sum wp_if, goal_cases)
  case (3 x w1 service)
  then have s: "st w1 (KService, key) = Some (OService service)" by simp
  show ?case by (rule wp_mono [OF cache_sync_wp [OF s]]) (use 3 in auto)
next
  case (4 x w1 service)
  then have s: "st w1 (KService, key) = Some (OService service)" by simp
  have k: "key_of (svc_Meta service) = key" using stored_id [OF s] by (simp add: id_of_def)
  show ?case by (rule wp_mono [OF set_status_wp [OF s k]]) (use 4 in auto)
qed (auto intro: wp_return)

end

lemma only_status_only_at: "only_status i s s' \<Longrightarrow> only_at {i} s s'"
  by (simp add: only_status_def only_at_def)

lemma cache_ready_status:
  assumes "only_status (KService, key) s s'" "cache_ready g endpoint service s"
  shows "cache_ready g endpoint service s'"
proof -
  have "s' (k, i) = s (k, i)" if "k \<noteq> KService" for k i using assms(1) that by (simp add: only_status_def)
  then show ?thesis
    using assms(2) by (simp add: cache_ready_def backend_ready_def gateway_ready_def tls_ready_def ingress_ready_def ready_def)
qed

lemma cache_ids_service: "only_at (cache_ids service) s s' \<Longrightarrow> s' (KService, key) = s (KService, key)"
  by (simp add: only_at_def cache_ids_def)

lemma only_status_service:
  assumes "only_status (KService, key) s s'" "s (KService, key) = Some (OService x)"
  shows "\<exists>x'. s' (KService, key) = Some (OService x') \<and> core (OService x') = core (OService x)"
proof -
  obtain ob where ob: "s' (KService, key) = Some ob" "core ob = core (OService x)"
    using assms by (auto simp: only_status_def)
  then have "kind_of ob = KService" using id_of_kind [OF core_id [OF ob(2)]] by simp
  with ob show ?thesis by (cases ob) simp_all
qed

text \<open>Example: a service without an origin needs a backend service and an ingress.\<close>

definition cached_service :: Service where
  "cached_service = zero_Service\<lparr>svc_Meta := (new_ObjectMeta ''cdn.a.com'' ''team-a'')\<lparr>om_UID := ''u''\<rparr>,
     svc_Spec := zero_ServiceSpec\<lparr>ss_Domain := ''cdn.a.com'', ss_Cache := ''disk''\<rparr>,
     svc_Status := \<lparr>sst_Status = HealthStatusProgressing\<rparr>\<rparr>"

definition cache_key :: NamespacedName where
  "cache_key = \<lparr>nn_Namespace = ''team-a'', nn_Name = ''cdn.a.com''\<rparr>"

definition cache_world :: "nat \<Rightarrow> kobject list" where
  "cache_world n = ((\<lambda>w. snd (run_state (ServiceCache_Reconcile reference_go [] ref_client cache_key) w)) ^^ n)
     [OService cached_service]"

lemma cache_runs:
  "ref_st (cache_world 1) (KService, cache_key) = Some (OService cached_service)"
  "ref_st (cache_world 2) (KService, cache_key) =
     Some (OService (cached_service\<lparr>svc_Status := \<lparr>sst_Status = HealthStatusHealthy\<rparr>\<rparr>))"
  by code_simp+

lemma cache_world_run: "\<exists>res err. run_state (ServiceCache_Reconcile reference_go [] ref_client cache_key) (cache_world 1) =
    ((res, err), cache_world 2)"
  by (auto simp: cache_world_def numeral_2_eq_2) (metis prod.collapse)

interpretation reference_operator: operator_world ref_client ref_st reference_go ..

definition cached_backend :: "CoreService \<times> string" where
  "cached_backend = projr (wanted_backend reference_go cached_service)"

interpretation cached_backend: wanted_object ref_client ref_st coreServiceR reference_go adopt_backend
  "backend_key cached_service" "fst cached_backend" "snd cached_backend"
proof (rule reference_operator.wanted_backend_object)
  show "wanted_backend reference_go cached_service = Inr (fst cached_backend, snd cached_backend)" by code_simp
qed

section \<open>Properties\<close>

text \<open>
  C33. The cache reconciler changes only the objects named after the service (its backend service, S3
  gateway, TLS secret and ingress, in its namespace) and the status of the service.
\<close>

theorem cache_touches_own_objects:
  assumes "operator_world c st g" and "run_state (ServiceCache_Reconcile g endpoint c key) w = ((res, err), w')"
    and "st w (KService, key) = Some (OService service)"
  shows "only_at (insert (KService, key) (cache_ids service)) (st w) (st w') \<and>
    (\<exists>service'. st w' (KService, key) = Some (OService service') \<and> core (OService service') = core (OService service))"
proof (cases "st w' = st w")
  case True
  with assms(3) show ?thesis by simp
next
  case False
  from wp_run [OF operator_world.ServiceCache_Reconcile_wp [OF assms(1)] assms(2)] False assms(3)
  have "only_status (KService, key) (st w) (st w') \<or> cache_step g endpoint key service (st w) (st w')"
    by (auto split: if_splits)
  then obtain s1 where s1: "only_at (cache_ids service) (st w) s1" "st w' = s1 \<or> only_status (KService, key) s1 (st w')"
    using only_at_refl unfolding cache_step_def by blast
  have "only_status (KService, key) s1 (st w')" using s1(2) by auto
  moreover have "s1 (KService, key) = Some (OService service)" using cache_ids_service [OF s1(1)] assms(3) by simp
  ultimately show ?thesis
    using only_status_service only_at_mono [OF only_status_only_at] only_at_mono [OF s1(1)] only_at_trans
    by (metis insert_is_Un subset_insertI sup_ge1)
qed

theorem cache_touches_own_objects_witness:
  "only_at (insert (KService, cache_key) (cache_ids cached_service)) (ref_st (cache_world 1)) (ref_st (cache_world 2))"
proof -
  obtain res err where "run_state (ServiceCache_Reconcile reference_go [] ref_client cache_key) (cache_world 1) =
    ((res, err), cache_world 2)" using cache_world_run by blast
  from cache_touches_own_objects [OF reference_operator.operator_world_axioms this cache_runs(1)] show ?thesis by blast
qed

text \<open>
  C9. A service is reported healthy only when everything it needs is there: when a call has set the
  status to healthy, the backend service, the ingress, the TLS secret of a service with
  a certificate and the gateway of an S3 service exist and carry the hash of what the spec of the
  service asks for, and a static service has no gateway left. This holds also when the call reports an error.
\<close>

theorem cache_healthy_means_ready:
  assumes "operator_world c st g" and "run_state (ServiceCache_Reconcile g endpoint c key) w = ((res, err), w')"
    and "st w (KService, key) = Some (OService service)" "sst_Status (svc_Status service) \<noteq> HealthStatusHealthy"
    and "st w' (KService, key) = Some (OService service')" "sst_Status (svc_Status service') = HealthStatusHealthy"
  shows "cache_ready g endpoint service (st w')"
proof -
  have changed: "st w' \<noteq> st w" using assms(3-6) by auto
  have "HealthStatusProgressing \<noteq> HealthStatusHealthy" by (simp add: HealthStatusProgressing_def HealthStatusHealthy_def)
  with wp_run [OF operator_world.ServiceCache_Reconcile_wp [OF assms(1)] assms(2)] changed assms(3,5,6)
  have "cache_step g endpoint key service (st w) (st w')" by (auto split: if_splits)
  then obtain s1 where s1: "only_at (cache_ids service) (st w) s1"
    "st w' = s1 \<or> only_status (KService, key) s1 (st w') \<and> cache_ready g endpoint service s1"
    unfolding cache_step_def by blast
  have "s1 (KService, key) = Some (OService service)" using cache_ids_service [OF s1(1)] assms(3) by simp
  then have "st w' \<noteq> s1" using assms(4-6) by auto
  with s1(2) cache_ready_status show ?thesis by blast
qed

theorem cache_healthy_means_ready_witness:
  "cache_ready reference_go [] cached_service (ref_st (cache_world 2))"
proof -
  obtain res err where run: "run_state (ServiceCache_Reconcile reference_go [] ref_client cache_key) (cache_world 1) =
    ((res, err), cache_world 2)" using cache_world_run by blast
  show ?thesis
    by (rule cache_healthy_means_ready [OF reference_operator.operator_world_axioms run cache_runs(1) _ cache_runs(2)])
      (simp_all add: cached_service_def HealthStatusProgressing_def HealthStatusHealthy_def)
qed

end
