(* ===== verification/Zone_Controller.thy ===== *)
theory Zone_Controller
  imports Kube_Programs
begin

text \<open>
  The zone reconciler (\<open>internal/controller/zone_controller.go\<close>): it guards a zone with a
  finalizer, marks it healthy, and on deletion removes the DNS records of the zone before it lets
  the zone go. The client's \<open>Update\<close> overwrites the object it is given with the server's answer.
\<close>

section \<open>The model\<close>

definition zoneCleanupFinalizer :: string where
  "zoneCleanupFinalizer = ''edgecdnx.com/zone-cleanup''"

definition refers_zone :: "string \<Rightarrow> DNSEndpoint \<Rightarrow> bool" where
  "refers_zone name e \<longleftrightarrow> (case des_Zone (de_Spec e) of None \<Rightarrow> False | Some z \<Rightarrow> lor_Name z = name)"

text \<open>The loop over the records of the namespace: an error, or whether a record was pending\<close>

fun delete_endpoints ::
  "'w client \<Rightarrow> string \<Rightarrow> DNSEndpoint list \<Rightarrow> bool \<Rightarrow> ('w, apierr + bool) state" where
  "delete_endpoints c name [] pending = State_Monad.return (Inr pending)"
| "delete_endpoints c name (e # es) pending =
     (if \<not> refers_zone name e then delete_endpoints c name es pending
      else if om_DeletionTimestamp (de_Meta e) = None then do {
        d \<leftarrow> Delete c dnsEndpointR e;
        case IgnoreNotFound (write_error d) of
          Some err \<Rightarrow> State_Monad.return (Inl err)
        | None \<Rightarrow> delete_endpoints c name es True
      }
      else delete_endpoints c name es True)"

text \<open>The branch for a zone that is being deleted\<close>

definition Zone_cleanup :: "'w client \<Rightarrow> Zone \<Rightarrow> ('w, Result \<times> apierr option) state" where
  "Zone_cleanup c zone =
     (if \<not> ContainsFinalizer (zone_Meta zone) zoneCleanupFinalizer then State_Monad.return (done_result, None)
      else do {
        l \<leftarrow> List c dnsEndpointR (om_Namespace (zone_Meta zone)) fmempty;
        case l of
          Inl err \<Rightarrow> State_Monad.return (done_result, Some err)
        | Inr items \<Rightarrow> do {
            d \<leftarrow> delete_endpoints c (om_Name (zone_Meta zone)) items False;
            case d of
              Inl err \<Rightarrow> State_Monad.return (done_result, Some err)
            | Inr pending \<Rightarrow>
                if pending then State_Monad.return (\<lparr>Requeue = False, RequeueAfter = 1000000000\<rparr>, None)
                else do {
                  u \<leftarrow> Update c zoneR (zone\<lparr>zone_Meta := RemoveFinalizer (zone_Meta zone) zoneCleanupFinalizer\<rparr>);
                  State_Monad.return (done_result, write_error u)
                }
          }
      })"

text \<open>The branch for a live zone\<close>

definition Zone_settle :: "'w client \<Rightarrow> Zone \<Rightarrow> ('w, Result \<times> apierr option) state" where
  "Zone_settle c zone = do {
     u \<leftarrow> (if ContainsFinalizer (zone_Meta zone) zoneCleanupFinalizer then State_Monad.return (Inr zone)
           else Update c zoneR (zone\<lparr>zone_Meta := AddFinalizer (zone_Meta zone) zoneCleanupFinalizer\<rparr>));
     case u of
       Inl err \<Rightarrow> State_Monad.return (done_result, Some err)
     | Inr zone' \<Rightarrow>
         if zonest_Status (zone_Status zone') \<noteq> HealthStatusHealthy then do {
           s \<leftarrow> StatusUpdate c zoneR (zone'\<lparr>zone_Status := \<lparr>zonest_Status = HealthStatusHealthy\<rparr>\<rparr>);
           State_Monad.return (done_result, write_error s)
         }
         else State_Monad.return (done_result, None)
   }"

definition Zone_Reconcile :: "'w client \<Rightarrow> NamespacedName \<Rightarrow> ('w, Result \<times> apierr option) state" where
  "Zone_Reconcile c key = do {
     got \<leftarrow> Get c zoneR key;
     case got of
       Inl err \<Rightarrow> State_Monad.return (done_result, IgnoreNotFound (Some err))
     | Inr zone \<Rightarrow>
         if om_DeletionTimestamp (zone_Meta zone) \<noteq> None then Zone_cleanup c zone else Zone_settle c zone
   }"

section \<open>What the loop over the records does\<close>

text \<open>The records of a zone are the DNSEndpoints of its namespace that name it.\<close>

definition zone_records :: "NamespacedName \<Rightarrow> store \<Rightarrow> DNSEndpoint set" where
  "zone_records key s = {e. s (id_of (ODNSEndpoint e)) = Some (ODNSEndpoint e) \<and>
     om_Namespace (de_Meta e) = nn_Namespace key \<and> refers_zone (nn_Name key) e}"

definition record_ids :: "NamespacedName \<Rightarrow> store \<Rightarrow> obj_id set" where
  "record_ids key s = (\<lambda>e. id_of (ODNSEndpoint e)) ` zone_records key s"

text \<open>No object appears, and what stays of an object keeps what a client decides of it.\<close>

definition shrinks :: "store \<Rightarrow> store \<Rightarrow> bool" where
  "shrinks s s' \<longleftrightarrow> (\<forall>i ob'. s' i = Some ob' \<longrightarrow> (\<exists>ob. s i = Some ob \<and> core ob' = core ob))"

lemma shrinks_refl [simp]: "shrinks s s"
  by (auto simp: shrinks_def)

lemma shrinks_trans: "shrinks s s' \<Longrightarrow> shrinks s' s'' \<Longrightarrow> shrinks s s''"
  unfolding shrinks_def by metis

lemma deletes_shrinks: "deletes s ob s' \<Longrightarrow> shrinks s s'"
  unfolding deletes_def shrinks_def by (auto split: if_splits)

lemma shrinks_None: "shrinks s s' \<Longrightarrow> s i = None \<Longrightarrow> s' i = None"
  unfolding shrinks_def by (metis option.exhaust option.distinct(1))

lemma core_finalizers: "core a = core b \<Longrightarrow> om_Finalizers (obj_meta a) = om_Finalizers (obj_meta b)"
  using core_meta(3) by blast

lemma deletes_gone:
  assumes "deletes s ob s'" and "shrinks s0 s" and "s0 (id_of ob) = Some ob" and "om_Finalizers (obj_meta ob) = []"
  shows "s' (id_of ob) = None"
proof -
  obtain old where "s (id_of ob) = Some old" and s': "om_Finalizers (obj_meta old) = [] \<Longrightarrow> s' = s(id_of ob := None)"
    using assms(1) unfolding deletes_def by metis
  moreover from this(1) have "core old = core ob" using assms(2,3) unfolding shrinks_def by fastforce
  from core_finalizers [OF this] assms(4) s' show ?thesis by simp
qed

text \<open>A record that the loop is done with\<close>

definition finished :: "string \<Rightarrow> store \<Rightarrow> DNSEndpoint \<Rightarrow> bool" where
  "finished name s e \<longleftrightarrow> (refers_zone name e \<and> om_DeletionTimestamp (de_Meta e) = None \<and>
     om_Finalizers (de_Meta e) = [] \<longrightarrow> s (id_of (ODNSEndpoint e)) = None)"

lemma selects_namespace: "ns \<noteq> [] \<Longrightarrow> selects ns fmempty ob \<longleftrightarrow> GetNamespace ob = ns"
  by (simp add: selects_def list_all_iff)

text \<open>
  A zone that is being deleted: either only its records change, or it has none and an update takes
  its finalizer off.
\<close>

definition records_only :: "NamespacedName \<Rightarrow> apierr option \<Rightarrow> store \<Rightarrow> store \<Rightarrow> bool" where
  "records_only key err s s' \<longleftrightarrow> shrinks s s' \<and> only_at (record_ids key s) s s' \<and>
     (err = None \<longrightarrow> zone_records key s \<noteq> {} \<and> (\<forall>e \<in> zone_records key s. finished (nn_Name key) s' e))"

definition lets_go :: "NamespacedName \<Rightarrow> Zone \<Rightarrow> store \<Rightarrow> store \<Rightarrow> bool" where
  "lets_go key zone s s' \<longleftrightarrow> zone_records key s = {} \<and>
     (\<exists>ob. updates s (OZone (zone\<lparr>zone_Meta := RemoveFinalizer (zone_Meta zone) zoneCleanupFinalizer\<rparr>)) s' ob)"

lemma records_only_error [simp]: "records_only key (Some e) s s"
  by (simp add: records_only_def)

lemma core_zone:
  assumes "core ob = core (OZone z)"
  shows "\<exists>z'. ob = OZone z' \<and> zone_Spec z' = zone_Spec z \<and> om_Finalizers (zone_Meta z') = om_Finalizers (zone_Meta z)"
proof -
  have "kind_of ob = KZone" using id_of_kind [OF core_id [OF assms]] by simp
  then obtain z' where ob: "ob = OZone z'" by (cases ob) simp_all
  have "z'\<lparr>zone_Status := zero_ZoneStatus, zone_Meta := server_meta (zone_Meta z')\<rparr> =
      z\<lparr>zone_Status := zero_ZoneStatus, zone_Meta := server_meta (zone_Meta z)\<rparr>"
    using assms [unfolded ob] by (simp add: core_def)
  from arg_cong [OF this, of zone_Spec] ob core_finalizers [OF assms] show ?thesis by simp
qed

lemma core_endpoint:
  assumes "core ob = core (ODNSEndpoint e)"
  shows "\<exists>e'. ob = ODNSEndpoint e' \<and> de_Spec e' = de_Spec e \<and> om_Namespace (de_Meta e') = om_Namespace (de_Meta e)"
proof -
  have "kind_of ob = KDNSEndpoint" using id_of_kind [OF core_id [OF assms]] by simp
  then obtain e' where ob: "ob = ODNSEndpoint e'" by (cases ob) simp_all
  have "e'\<lparr>de_Status := zero_DNSEndpointStatus, de_Meta := server_meta (de_Meta e')\<rparr> =
      e\<lparr>de_Status := zero_DNSEndpointStatus, de_Meta := server_meta (de_Meta e)\<rparr>"
    using assms [unfolded ob] by (simp add: core_def)
  from arg_cong [OF this, of de_Spec] ob core_meta(5) [OF assms] show ?thesis by simp
qed

text \<open>What is left of the records of a zone was a record of it before.\<close>

lemma shrinks_records:
  assumes "shrinks s s'" and "e \<in> zone_records key s'" and "\<And>i ob. s i = Some ob \<Longrightarrow> id_of ob = i"
  shows "\<exists>e0 \<in> zone_records key s. id_of (ODNSEndpoint e0) = id_of (ODNSEndpoint e)"
proof -
  have e: "s' (id_of (ODNSEndpoint e)) = Some (ODNSEndpoint e)" "om_Namespace (de_Meta e) = nn_Namespace key"
    "refers_zone (nn_Name key) e" using assms(2) by (auto simp: zone_records_def)
  then obtain ob where ob: "s (id_of (ODNSEndpoint e)) = Some ob" "core ob = core (ODNSEndpoint e)"
    using assms(1) unfolding shrinks_def by metis
  from core_endpoint [OF ob(2)] obtain e' where e': "ob = ODNSEndpoint e'" "de_Spec e' = de_Spec e"
    "om_Namespace (de_Meta e') = om_Namespace (de_Meta e)" by blast
  have "id_of (ODNSEndpoint e') = id_of (ODNSEndpoint e)" using assms(3) [OF ob(1)] e'(1) by simp
  moreover from this have "e' \<in> zone_records key s" using e e' ob(1) by (simp add: zone_records_def refers_zone_def)
  ultimately show ?thesis by blast
qed

text \<open>The writes to a live zone\<close>

lemma updates_zone:
  assumes "updates s (OZone z) s' ob" and "s (KZone, key) = Some (OZone old)" and "key_of (zone_Meta z) = key"
    and "om_DeletionTimestamp (zone_Meta old) = None"
  shows "\<exists>z'. ob = OZone z' \<and> s' = s((KZone, key) \<mapsto> OZone z') \<and> zone_Spec z' = zone_Spec z \<and>
    om_Finalizers (zone_Meta z') = om_Finalizers (zone_Meta z) \<and> om_DeletionTimestamp (zone_Meta z') = None"
proof -
  have "id_of (OZone z) = (KZone, key)" using assms(3) by (simp add: id_of_def)
  then have u: "core ob = core (OZone z)" "same_identity (OZone old) ob" "s' = s((KZone, key) \<mapsto> ob)"
    using assms(1,2,4) by (auto simp: updates_def)
  from core_zone [OF u(1)] u(2,3) assms(4) show ?thesis by (auto simp: same_identity_def)
qed

lemma status_updates_zone:
  assumes "status_updates s (OZone z) s' ob" and "s (KZone, key) = Some (OZone old)" and "key_of (zone_Meta z) = key"
  shows "\<exists>z'. ob = OZone z' \<and> s' = s((KZone, key) \<mapsto> OZone z') \<and> zone_Spec z' = zone_Spec old \<and>
    om_Finalizers (zone_Meta z') = om_Finalizers (zone_Meta old) \<and>
    om_DeletionTimestamp (zone_Meta z') = om_DeletionTimestamp (zone_Meta old) \<and> zone_Status z' = zone_Status z"
proof -
  have "id_of (OZone z) = (KZone, key)" using assms(3) by (simp add: id_of_def)
  then have u: "core ob = core (OZone old)" "same_identity (OZone old) ob" "s' = s((KZone, key) \<mapsto> ob)"
    "status_of ob = SZone (zone_Status z)" using assms(1,2) by (auto simp: status_updates_def)
  from core_zone [OF u(1)] u(2-) show ?thesis by (auto simp: same_identity_def)
qed

text \<open>What a call leaves of a live zone: \<open>fin\<close> and \<open>ok\<close> say that it has the finalizer and is healthy.\<close>

definition live_zone :: "NamespacedName \<Rightarrow> Zone \<Rightarrow> bool \<Rightarrow> bool \<Rightarrow> store \<Rightarrow> store \<Rightarrow> bool" where
  "live_zone key zone fin ok s s' \<longleftrightarrow> only_at {(KZone, key)} s s' \<and>
     (\<exists>zone'. s' (KZone, key) = Some (OZone zone') \<and> zone_Spec zone' = zone_Spec zone \<and>
        om_DeletionTimestamp (zone_Meta zone') = None \<and>
        (fin \<longrightarrow> ContainsFinalizer (zone_Meta zone') zoneCleanupFinalizer) \<and>
        (ok \<longrightarrow> zonest_Status (zone_Status zone') = HealthStatusHealthy))"

lemma live_zone_weaken:
  "live_zone key zone fin ok s s' \<Longrightarrow> (fin' \<Longrightarrow> fin) \<Longrightarrow> (ok' \<Longrightarrow> ok) \<Longrightarrow> live_zone key zone fin' ok' s s'"
  by (auto simp: live_zone_def)

context api_server
begin

lemma delete_endpoints_wp:
  assumes "shrinks s0 (st w)" and "\<forall>e \<in> set es. s0 (id_of (ODNSEndpoint e)) = Some (ODNSEndpoint e)"
  shows "wp (delete_endpoints c name es pending) (\<lambda>d w'. shrinks (st w) (st w') \<and>
    only_at {id_of (ODNSEndpoint e) | e. e \<in> set es \<and> refers_zone name e} (st w) (st w') \<and>
    (\<forall>p. d = Inr p \<longrightarrow> p = (pending \<or> (\<exists>e \<in> set es. refers_zone name e)) \<and> (\<forall>e \<in> set es. finished name (st w') e))) w"
  using assms
proof (induction es arbitrary: w pending)
  case Nil
  show ?case by (simp add: wp_def)
next
  case (Cons e es)
  let ?I = "{id_of (ODNSEndpoint e') | e'. e' \<in> set (e # es) \<and> refers_zone name e'}"
  have rest: "wp (delete_endpoints c name es p) (\<lambda>d w''. shrinks (st w) (st w'') \<and> only_at ?I (st w) (st w'') \<and>
      (\<forall>q. d = Inr q \<longrightarrow> q = (p \<or> (\<exists>e \<in> set es. refers_zone name e)) \<and>
         (\<forall>e' \<in> set (e # es). finished name (st w'') e'))) w'"
    if "shrinks (st w) (st w')" "only_at ?I (st w) (st w')" "finished name (st w') e" for p w'
  proof -
    have *: "finished name (st w'') e" if "shrinks (st w') (st w'')" for w''
      using \<open>finished name (st w') e\<close> shrinks_None [OF that] by (auto simp: finished_def)
    have **: "only_at {id_of (ODNSEndpoint e') | e'. e' \<in> set es \<and> refers_zone name e'} s s' \<Longrightarrow> only_at ?I s s'" for s s'
      by (rule only_at_mono) auto
    show ?thesis
      by (rule wp_mono [OF Cons.IH [OF shrinks_trans [OF Cons.prems(1) that(1)]]])
        (use Cons.prems(2) that(1,2) * ** in \<open>auto intro: shrinks_trans only_at_trans\<close>)
  qed
  show ?case
  proof (cases "refers_zone name e \<and> om_DeletionTimestamp (de_Meta e) = None")
    case True
    have I: "{id_of (ODNSEndpoint e)} \<subseteq> ?I" using True by auto
    have "wp (Delete c dnsEndpointR e) (\<lambda>d w'. shrinks (st w) (st w') \<and> only_at ?I (st w) (st w') \<and>
        (IgnoreNotFound (write_error d) = None \<longrightarrow> finished name (st w') e)) w"
    proof (rule endpoints.Delete_wp, goal_cases)
      case (1 x w')
      have "finished name (st w') e" if "IgnoreNotFound (write_error x) = None"
      proof (cases x)
        case (Inl a)
        with that 1(3) show ?thesis by (cases a) (simp_all add: write_error_def finished_def)
      next
        case (Inr b)
        with 1(2) have "deletes (st w) (ODNSEndpoint e) (st w')" by simp
        from deletes_gone [OF this Cons.prems(1)] Cons.prems(2) show ?thesis by (simp add: finished_def)
      qed
      with 1(1) show ?case using deletes_shrinks only_at_mono [OF writes_only_at(4) I] by force
    qed
    then have "wp (Delete c dnsEndpointR e) (\<lambda>d. wp (case IgnoreNotFound (write_error d) of
        Some err \<Rightarrow> State_Monad.return (Inl err) | None \<Rightarrow> delete_endpoints c name es True)
        (\<lambda>d w'. shrinks (st w) (st w') \<and> only_at ?I (st w) (st w') \<and> (\<forall>p. d = Inr p \<longrightarrow>
           p \<and> (\<forall>e' \<in> set (e # es). finished name (st w') e')))) w"
      by (rule wp_mono) (intro wp; auto intro: wp_mono [OF rest])
    with True show ?thesis by (auto simp: wp_bind)
  next
    case False
    then have "finished name (st w) e" by (auto simp: finished_def)
    with False rest [of w pending] rest [of w True] show ?thesis by auto
  qed
qed

lemma zone_at: "st w (KZone, key) = Some (OZone zone) \<Longrightarrow> key_of (zone_Meta zone) = key"
  using stored_id [of w "(KZone, key)"] by (simp add: id_of_def)

lemma Zone_cleanup_wp:
  assumes zone: "st w (KZone, key) = Some (OZone zone)" and ns: "nn_Namespace key \<noteq> []"
    and fin: "ContainsFinalizer (zone_Meta zone) zoneCleanupFinalizer"
  shows "wp (Zone_cleanup c zone) (\<lambda>(res, err) w'. records_only key err (st w) (st w') \<or>
    lets_go key zone (st w) (st w')) w"
proof -
  have key: "om_Namespace (zone_Meta zone) = nn_Namespace key" "om_Name (zone_Meta zone) = nn_Name key"
    using zone_at [OF zone] by (auto simp: key_of_def)
  have loop: "wp (delete_endpoints c (nn_Name key) es False) (\<lambda>d w''. shrinks (st w) (st w'') \<and>
      only_at (record_ids key (st w)) (st w) (st w'') \<and>
      (\<forall>p. d = Inr p \<longrightarrow> (p \<longleftrightarrow> zone_records key (st w) \<noteq> {}) \<and>
         (\<forall>e \<in> zone_records key (st w). finished (nn_Name key) (st w'') e))) w'"
    if "st w' = st w" and es: "set es = {e. st w (id_of (ODNSEndpoint e)) = Some (ODNSEndpoint e) \<and>
      selects (nn_Namespace key) fmempty (ODNSEndpoint e)}" for es w'
  proof -
    have r: "zone_records key (st w) = {e \<in> set es. refers_zone (nn_Name key) e}"
      using es selects_namespace [OF ns] by (auto simp: zone_records_def)
    have "record_ids key (st w) = {id_of (ODNSEndpoint e) | e. e \<in> set es \<and> refers_zone (nn_Name key) e}"
      unfolding record_ids_def r by blast
    with r show ?thesis
      using delete_endpoints_wp [of "st w" w' es "nn_Name key" False] es that(1) by (auto elim!: wp_mono)
  qed
  have go: "records_only key (write_error x) (st w) (st w2) \<or> lets_go key zone (st w) (st w2)"
    if "only_at (record_ids key (st w)) (st w) (st w1)" "zone_records key (st w) = {}"
      and u: "st w2 = st w1 \<or> (\<exists>ob. updates (st w1) (r_in zoneR
        (zone\<lparr>zone_Meta := RemoveFinalizer (zone_Meta zone) zoneCleanupFinalizer\<rparr>)) (st w2) ob)"
        "\<And>z. x = Inr z \<Longrightarrow> updates (st w1) (r_in zoneR
        (zone\<lparr>zone_Meta := RemoveFinalizer (zone_Meta zone) zoneCleanupFinalizer\<rparr>)) (st w2) (r_in zoneR z)" for x w1 w2
  proof -
    have "st w1 = st w" using that(1,2) by (auto simp: only_at_def record_ids_def fun_eq_iff)
    with that(2) u show ?thesis by (cases x) (auto simp: lets_go_def write_error_def)
  qed
  show ?thesis
    unfolding Zone_cleanup_def key
  proof (simp only: fin not_True_eq_False if_False, intro wp_bind endpoints.List_wp wp_sum, goal_cases)
    case (1 x w1 e)
    then show ?case by (simp add: wp_return)
  next
    case (2 x w1 items)
    have "set items = {e. st w (id_of (ODNSEndpoint e)) = Some (ODNSEndpoint e) \<and>
      selects (nn_Namespace key) fmempty (ODNSEndpoint e)}" using 2(2) [OF 2(3)] by simp
    then show ?case
    proof (rule wp_mono [OF loop [OF 2(1)]], intro wp, goal_cases)
      case (3 x w1 pending u w2)
      then show ?case using go [of w1 w2 u] by auto
    qed (auto simp: records_only_def)
  qed
qed

lemma add_finalizer_wp:
  assumes zone: "st w (KZone, key) = Some (OZone zone)" and live: "om_DeletionTimestamp (zone_Meta zone) = None"
  shows "wp (if ContainsFinalizer (zone_Meta zone) zoneCleanupFinalizer then State_Monad.return (Inr zone)
       else Update c zoneR (zone\<lparr>zone_Meta := AddFinalizer (zone_Meta zone) zoneCleanupFinalizer\<rparr>))
    (\<lambda>u w'. live_zone key zone (ContainsFinalizer (zone_Meta zone) zoneCleanupFinalizer) False (st w) (st w') \<and>
       (\<forall>z. u = Inr z \<longrightarrow> st w' (KZone, key) = Some (OZone z) \<and> live_zone key zone True False (st w) (st w'))) w"
proof (cases "ContainsFinalizer (zone_Meta zone) zoneCleanupFinalizer")
  case True
  with zone live show ?thesis by (simp add: wp_def live_zone_def)
next
  case False
  let ?z = "zone\<lparr>zone_Meta := AddFinalizer (zone_Meta zone) zoneCleanupFinalizer\<rparr>"
  have k: "key_of (zone_Meta ?z) = key" using zone_at [OF zone] by simp
  have same: "live_zone key zone False False (st w) (st w)" using zone live by (simp add: live_zone_def)
  have up: "\<exists>z'. ob = OZone z' \<and> st w' (KZone, key) = Some (OZone z') \<and> live_zone key zone True False (st w) (st w')"
    if "updates (st w) (OZone ?z) (st w') ob" for w' ob
  proof -
    have "om_Finalizers (zone_Meta ?z) = om_Finalizers (zone_Meta zone) @ [zoneCleanupFinalizer]"
      using False by (simp add: AddFinalizer_def)
    then show ?thesis
      using updates_zone [OF that zone k live] by (auto simp: live_zone_def only_at_def ContainsFinalizer_def)
  qed
  show ?thesis
    unfolding if_not_P [OF False]
  proof (rule zones.Update_wp, goal_cases)
    case (1 x w')
    have "live_zone key zone False False (st w) (st w')" if "updates (st w) (OZone ?z) (st w') ob" for ob
      using up [OF that] live_zone_weaken [of key zone True False] by blast
    with 1(1) same have "live_zone key zone False False (st w) (st w')" by auto
    with False 1(2) up [of w'] show ?case by fastforce
  qed
qed

lemma Zone_settle_wp:
  assumes zone: "st w (KZone, key) = Some (OZone zone)" and live: "om_DeletionTimestamp (zone_Meta zone) = None"
  shows "wp (Zone_settle c zone) (\<lambda>(res, err) w'. live_zone key zone
    (ContainsFinalizer (zone_Meta zone) zoneCleanupFinalizer \<or> err = None) (err = None) (st w) (st w')) w"
  unfolding Zone_settle_def
proof (rule wp_bind, rule wp_mono [OF add_finalizer_wp [OF assms]], goal_cases)
  case (1 u w1)
  have mark: "live_zone key zone True True (st w) (st w2)"
    if z: "st w1 (KZone, key) = Some (OZone z)" "live_zone key zone True False (st w) (st w1)"
      and s: "status_updates (st w1) (OZone (z\<lparr>zone_Status := \<lparr>zonest_Status = HealthStatusHealthy\<rparr>\<rparr>)) (st w2) ob" for z w2 ob
    using status_updates_zone [OF s z(1)] zone_at [OF z(1)] z(2) z(1)
    by (auto simp: live_zone_def only_at_def ContainsFinalizer_def)
  have healthy: "live_zone key zone True True (st w) (st w1)"
    if "st w1 (KZone, key) = Some (OZone z)" "live_zone key zone True False (st w) (st w1)"
      "zonest_Status (zone_Status z) = HealthStatusHealthy" for z
    using that by (auto simp: live_zone_def)
  show ?case
  proof (intro wp, goal_cases)
    case (1 e)
    with \<open>live_zone key zone _ False _ _ \<and> _\<close> show ?case by simp
  next
    case (2 z x w2)
    then have z: "st w1 (KZone, key) = Some (OZone z)" "live_zone key zone True False (st w) (st w1)"
      using 1 by simp_all
    show ?case
    proof (cases x)
      case (Inl a)
      have "live_zone key zone True False (st w) (st w2)"
        using 2(3) z(2) live_zone_weaken [OF mark [OF z]] by auto
      then show ?thesis using Inl live_zone_weaken [of key zone True False] by (simp add: write_error_def)
    next
      case (Inr b)
      with 2(4) mark [OF z] show ?thesis by (auto simp: write_error_def)
    qed
  next
    case (3 z)
    with 1 healthy show ?case by simp
  qed
qed

lemma Zone_Reconcile_wp:
  assumes ns: "nn_Namespace key \<noteq> []"
  shows "wp (Zone_Reconcile c key) (\<lambda>(res, err) w'.
    case st w (KZone, key) of
      Some (OZone zone) \<Rightarrow>
        if om_DeletionTimestamp (zone_Meta zone) = None then st w' = st w \<and> err \<noteq> None \<or>
          live_zone key zone (ContainsFinalizer (zone_Meta zone) zoneCleanupFinalizer \<or> err = None) (err = None) (st w) (st w')
        else if ContainsFinalizer (zone_Meta zone) zoneCleanupFinalizer
        then records_only key err (st w) (st w') \<or> lets_go key zone (st w) (st w')
        else st w' = st w
    | _ \<Rightarrow> st w' = st w) w"
  unfolding Zone_Reconcile_def
proof (intro wp_bind zones.Get_wp wp_sum wp_if, goal_cases)
  case (1 x w1 e)
  have "IgnoreNotFound (Some e) \<noteq> None" if "st w (KZone, key) \<noteq> None"
    using 1(3) 1(4) that by (cases e) auto
  with 1 show ?case by (intro wp_return) (auto split: option.split kobject.split)
next
  case (2 x w1 zone)
  then have "st w1 (KZone, key) = Some (OZone zone)" by simp
  from Zone_cleanup_wp [OF this ns] 2 show ?case
    by (cases "ContainsFinalizer (zone_Meta zone) zoneCleanupFinalizer") (auto simp: Zone_cleanup_def wp_def)
next
  case (3 x w1 zone)
  then have "st w1 (KZone, key) = Some (OZone zone)" "om_DeletionTimestamp (zone_Meta zone) = None" by simp_all
  from Zone_settle_wp [OF this] 3 show ?case by (auto elim!: wp_mono)
qed

end

lemma zone_not_record: "(KZone, key) \<notin> record_ids key' s"
  by (auto simp: record_ids_def id_of_def)

lemma only_zone_records:
  assumes "only_at {(KZone, key)} s s'"
  shows "zone_records key' s' = zone_records key' s"
proof -
  have "s' (id_of (ODNSEndpoint e)) = s (id_of (ODNSEndpoint e))" for e
    using assms by (simp add: only_at_def id_of_def)
  then show ?thesis by (simp add: zone_records_def)
qed

lemma lets_go_zone:
  assumes "lets_go key zone s s'" and "key_of (zone_Meta zone) = key"
  shows "zone_records key s = {}" "only_at {(KZone, key)} s s'"
    "s (KZone, key) = Some (OZone zone) \<Longrightarrow> om_DeletionTimestamp (zone_Meta zone) \<noteq> None \<Longrightarrow>
     om_Finalizers (zone_Meta zone) = [zoneCleanupFinalizer] \<Longrightarrow> s' (KZone, key) = None"
proof -
  let ?z = "zone\<lparr>zone_Meta := RemoveFinalizer (zone_Meta zone) zoneCleanupFinalizer\<rparr>"
  obtain ob where u: "updates s (OZone ?z) s' ob" and z: "zone_records key s = {}"
    using assms(1) by (auto simp: lets_go_def)
  have i: "id_of (OZone ?z) = (KZone, key)" using assms(2) by (simp add: id_of_def)
  show "zone_records key s = {}" by (fact z)
  show "only_at {(KZone, key)} s s'" using writes_only_at(2) [OF u] unfolding i .
  show "s' (KZone, key) = None" if "s (KZone, key) = Some (OZone zone)" "om_DeletionTimestamp (zone_Meta zone) \<noteq> None"
    "om_Finalizers (zone_Meta zone) = [zoneCleanupFinalizer]"
    using u that unfolding updates_def i by (auto simp: RemoveFinalizer_def)
qed

text \<open>Examples: a zone that is being deleted with one record, and a new zone\<close>

definition zone_key :: NamespacedName where
  "zone_key = \<lparr>nn_Namespace = ''team-a'', nn_Name = ''z''\<rparr>"

definition leaving_zone :: Zone where
  "leaving_zone = (example_zone ''team-a'' ''z'' ''team-a'' ''a.com'')
     \<lparr>zone_Meta := (new_ObjectMeta ''z'' ''team-a'')\<lparr>om_DeletionTimestamp := Some 1,
        om_Finalizers := [zoneCleanupFinalizer]\<rparr>\<rparr>"

definition zone_record :: DNSEndpoint where
  "zone_record = example_endpoint ''team-a'' ''www'' ''team-a'' ''z'' ''www.a.com''"

definition new_zone :: Zone where
  "new_zone = example_zone ''team-a'' ''z'' ''team-a'' ''a.com''"

definition settled_zone :: Zone where
  "settled_zone = new_zone\<lparr>zone_Meta := AddFinalizer (zone_Meta new_zone) zoneCleanupFinalizer,
     zone_Status := \<lparr>zonest_Status = HealthStatusHealthy\<rparr>\<rparr>"

lemma zone_runs:
  "run_state (Zone_Reconcile ref_client zone_key) [OZone leaving_zone, ODNSEndpoint zone_record] =
     ((\<lparr>Requeue = False, RequeueAfter = 1000000000\<rparr>, None), [OZone leaving_zone])"
  "run_state (Zone_Reconcile ref_client zone_key) [OZone leaving_zone] = ((done_result, None), [])"
  "run_state (Zone_Reconcile ref_client zone_key) [OZone new_zone] = ((done_result, None), [OZone settled_zone])"
  by code_simp+

lemma zone_stored:
  "ref_st [OZone leaving_zone, ODNSEndpoint zone_record] (KZone, zone_key) = Some (OZone leaving_zone)"
  "ref_st [OZone leaving_zone, ODNSEndpoint zone_record] (id_of (ODNSEndpoint zone_record)) = Some (ODNSEndpoint zone_record)"
  "ref_st [OZone new_zone] (KZone, zone_key) = Some (OZone new_zone)"
  "om_DeletionTimestamp (zone_Meta leaving_zone) = Some 1" "om_DeletionTimestamp (zone_Meta new_zone) = None"
  "om_Finalizers (zone_Meta leaving_zone) = [zoneCleanupFinalizer]"
  "ContainsFinalizer (zone_Meta leaving_zone) zoneCleanupFinalizer"
  "om_Namespace (de_Meta zone_record) = nn_Namespace zone_key" "refers_zone (nn_Name zone_key) zone_record"
  "nn_Namespace zone_key \<noteq> []" "om_DeletionTimestamp (de_Meta zone_record) = None" "om_Finalizers (de_Meta zone_record) = []"
  by code_simp+

section \<open>Properties\<close>

text \<open>
  C8. The zone reconciler changes nothing but the zone it is called for and the DNS records of its
  namespace that name the zone, and a zone that carries the cleanup finalizer keeps it as long as
  such a record exists: the zone cannot go before its records. Both hold also when calls fail.
\<close>

theorem zone_outlives_its_records:
  assumes "api_server c st" and "nn_Namespace key \<noteq> []"
    and "run_state (Zone_Reconcile c key) w = ((res, err), w')"
  shows "only_at (insert (KZone, key) (record_ids key (st w))) (st w) (st w') \<and>
    (\<forall>zone. st w (KZone, key) = Some (OZone zone) \<and> ContainsFinalizer (zone_Meta zone) zoneCleanupFinalizer \<and>
       zone_records key (st w) \<noteq> {} \<longrightarrow>
       (\<exists>zone'. st w' (KZone, key) = Some (OZone zone') \<and> ContainsFinalizer (zone_Meta zone') zoneCleanupFinalizer))"
proof (cases "\<exists>zone. st w (KZone, key) = Some (OZone zone)")
  case True
  then obtain zone where zone: "st w (KZone, key) = Some (OZone zone)" by blast
  note post = wp_run [OF api_server.Zone_Reconcile_wp [OF assms(1,2)] assms(3)]
  note k = api_server.zone_at [OF assms(1) zone]
  from post zone consider
    (same) "st w' = st w" | (live) f b where "live_zone key zone f b (st w) (st w')"
      "ContainsFinalizer (zone_Meta zone) zoneCleanupFinalizer \<longrightarrow> f"
    | (records) "records_only key err (st w) (st w')" | (go) "lets_go key zone (st w) (st w')"
    by (auto split: if_splits)
  then show ?thesis
  proof cases
    case same
    then show ?thesis by simp
  next
    case live
    then show ?thesis using zone by (auto simp: live_zone_def intro: only_at_mono)
  next
    case records
    then have r: "only_at (record_ids key (st w)) (st w) (st w')" by (simp add: records_only_def)
    then have "st w' (KZone, key) = st w (KZone, key)" by (simp add: only_at_def zone_not_record)
    with only_at_mono [OF r] show ?thesis by auto
  next
    case go
    from lets_go_zone(1,2) [OF go k] show ?thesis by (auto intro: only_at_mono)
  qed
next
  case False
  then have "st w' = st w"
    using wp_run [OF api_server.Zone_Reconcile_wp [OF assms(1,2)] assms(3)]
    by (auto split: option.splits kobject.splits)
  with False show ?thesis by simp
qed

theorem zone_outlives_its_records_witness:
  "\<exists>zone'. ref_st [OZone leaving_zone] (KZone, zone_key) = Some (OZone zone') \<and>
     ContainsFinalizer (zone_Meta zone') zoneCleanupFinalizer"
proof -
  have "zone_record \<in> zone_records zone_key (ref_st [OZone leaving_zone, ODNSEndpoint zone_record])"
    by (simp add: zone_records_def zone_stored)
  then show ?thesis
    using zone_outlives_its_records [OF reference_server.api_server_axioms zone_stored(10) zone_runs(1)]
      zone_stored(1,7) by blast
qed

text \<open>
  C28. The deletion of a zone completes: when a zone that is being deleted has no finalizer but the
  controller's, and its records are neither being deleted nor held by finalizers, two calls
  that return no error remove the records and the zone.
\<close>

theorem zone_deletion_completes:
  assumes api: "api_server c st" and ns: "nn_Namespace key \<noteq> []"
    and zone: "st w (KZone, key) = Some (OZone zone)" "om_DeletionTimestamp (zone_Meta zone) \<noteq> None"
      "om_Finalizers (zone_Meta zone) = [zoneCleanupFinalizer]"
    and free: "\<forall>e \<in> zone_records key (st w). om_DeletionTimestamp (de_Meta e) = None \<and> om_Finalizers (de_Meta e) = []"
    and runs: "run_state (Zone_Reconcile c key) w = ((res, None), w1)"
      "run_state (Zone_Reconcile c key) w1 = ((res', None), w2)"
  shows "st w2 (KZone, key) = None \<and> zone_records key (st w2) = {}"
proof -
  note k = api_server.zone_at [OF api zone(1)]
  note stored = api_server.stored_id [OF api, where w = w]
  have fin: "ContainsFinalizer (zone_Meta zone) zoneCleanupFinalizer" using zone(3) by (simp add: ContainsFinalizer_def)
  from wp_run [OF api_server.Zone_Reconcile_wp [OF api ns] runs(1)] zone fin
  have "records_only key None (st w) (st w1) \<or> lets_go key zone (st w) (st w1)" by simp
  then show ?thesis
  proof
    assume r: "records_only key None (st w) (st w1)"
    have none: "zone_records key (st w1) = {}"
    proof (rule ccontr)
      assume "zone_records key (st w1) \<noteq> {}"
      then obtain e where e: "e \<in> zone_records key (st w1)" by blast
      have "shrinks (st w) (st w1)" using r by (simp add: records_only_def)
      from shrinks_records [OF this e stored] obtain e0 where e0: "e0 \<in> zone_records key (st w)"
        "id_of (ODNSEndpoint e0) = id_of (ODNSEndpoint e)" by blast
      then have "finished (nn_Name key) (st w1) e0" "refers_zone (nn_Name key) e0"
        using r by (auto simp: records_only_def zone_records_def)
      with e0 e free show False by (auto simp: finished_def zone_records_def)
    qed
    have "st w1 (KZone, key) = Some (OZone zone)"
      using r zone(1) by (simp add: records_only_def only_at_def zone_not_record)
    moreover from wp_run [OF api_server.Zone_Reconcile_wp [OF api ns] runs(2)] this zone fin none
    have "lets_go key zone (st w1) (st w2)" by (simp add: records_only_def)
    ultimately show ?thesis using lets_go_zone [OF _ k] zone none only_zone_records by metis
  next
    assume g: "lets_go key zone (st w) (st w1)"
    then have "st w1 (KZone, key) = None" using lets_go_zone(3) [OF g k] zone by simp
    moreover from wp_run [OF api_server.Zone_Reconcile_wp [OF api ns] runs(2)] this have "st w2 = st w1" by simp
    ultimately show ?thesis using lets_go_zone(1,2) [OF g k] only_zone_records by metis
  qed
qed

theorem zone_deletion_completes_witness:
  "ref_st [] (KZone, zone_key) = None \<and> zone_records zone_key (ref_st []) = {}"
proof (rule zone_deletion_completes [OF reference_server.api_server_axioms zone_stored(10) zone_stored(1) _
      zone_stored(6) _ zone_runs(1,2)])
  let ?w = "[OZone leaving_zone, ODNSEndpoint zone_record]"
  have "e = zone_record" if "e \<in> zone_records zone_key (ref_st ?w)" for e
    using that ref_st_id [of ?w] by (fastforce simp: zone_records_def)
  then show "\<forall>e \<in> zone_records zone_key (ref_st ?w). om_DeletionTimestamp (de_Meta e) = None \<and> om_Finalizers (de_Meta e) = []"
    using zone_stored(11,12) by blast
qed (simp add: zone_stored(4))

text \<open>
  A call without error on a live zone leaves it with the cleanup finalizer, a healthy status
  and the same spec, and changes nothing else.
\<close>

theorem zone_settles:
  assumes "api_server c st" and "nn_Namespace key \<noteq> []"
    and "st w (KZone, key) = Some (OZone zone)" and "om_DeletionTimestamp (zone_Meta zone) = None"
    and "run_state (Zone_Reconcile c key) w = ((res, None), w')"
  shows "only_at {(KZone, key)} (st w) (st w') \<and> (\<exists>zone'. st w' (KZone, key) = Some (OZone zone') \<and>
    zone_Spec zone' = zone_Spec zone \<and> ContainsFinalizer (zone_Meta zone') zoneCleanupFinalizer \<and>
    zonest_Status (zone_Status zone') = HealthStatusHealthy)"
  using wp_run [OF api_server.Zone_Reconcile_wp [OF assms(1,2)] assms(5)] assms(3,4)
  by (auto simp: live_zone_def)

end
