(* ===== verification/Service_Routing.thy ===== *)
theory Service_Routing
  imports Service_Cache Zone_Controller Webhooks Tenancy
begin

text \<open>
  The DNS records of a service (\<open>internal/controller/service_routing_controller.go\<close>): an A and an
  AAAA record for the domain and every host alias, each in the longest zone of the service's
  project that covers the name; records of the service that are no longer wanted are deleted.
\<close>

section \<open>The model\<close>

text \<open>\<open>serviceName[:max]\<close> is only reached with \<open>max >= 0\<close> for the record types in use.\<close>

definition serviceDNSEndpointName :: "golib \<Rightarrow> string \<Rightarrow> string \<Rightarrow> string \<Rightarrow> string" where
  "serviceDNSEndpointName g serviceName dnsName recordType =
     (let dnsNameHash = g_md5 g (ToLower (TrimSuffix dnsName ''.''));
          suffix = ''-'' @ hex_bytes (take 6 dnsNameHash) @ ''-'' @ ToLower recordType;
          maxServiceNameLength = 253 - length suffix;
          name = (if length serviceName > maxServiceNameLength
                  then TrimRight (take maxServiceNameLength serviceName) ''-.'' else serviceName)
      in name @ suffix)"

text \<open>The loop over the zones: the name and the length of the best zone so far\<close>

definition covering_zone :: "dnslib \<Rightarrow> Service \<Rightarrow> Zone list \<Rightarrow> string \<Rightarrow> string \<times> nat" where
  "covering_zone dl service zones dnsName =
     fold (\<lambda>zone (zoneName, zoneLength).
         if SameProject (OService service) (OZone zone) \<and>
            IsSubDomain dl (Fqdn dl (zones_Zone (zone_Spec zone))) (Fqdn dl dnsName) \<and>
            length (zones_Zone (zone_Spec zone)) > zoneLength
         then (om_Name (zone_Meta zone), length (zones_Zone (zone_Spec zone))) else (zoneName, zoneLength))
       zones ([], 0)"

definition routed_names :: "Service \<Rightarrow> string list" where
  "routed_names service = ss_Domain (svc_Spec service) # map ha_Name (ss_HostAliases (svc_Spec service))"

definition record_name :: "golib \<Rightarrow> Service \<Rightarrow> string \<Rightarrow> string \<Rightarrow> string" where
  "record_name g service dnsName recordType = serviceDNSEndpointName g (om_Name (svc_Meta service)) dnsName recordType"

definition wanted_record :: "golib \<Rightarrow> Service \<Rightarrow> string \<Rightarrow> string \<Rightarrow> ctl_error + DNSEndpoint \<times> string" where
  "wanted_record g service dnsName recordType =
     (case DNSEndpointBuilderFactory ''Service'' (record_name g service dnsName recordType) (om_Namespace (svc_Meta service)) of
        Inl err \<Rightarrow> Inl err
      | Inr b \<Rightarrow> DNSEndpoint_Build g (DNSEndpoint_WithService service dnsName recordType b))"

text \<open>The body for one record; \<open>None\<close> goes on with the next\<close>

definition sync_record ::
  "golib \<Rightarrow> 'w client \<Rightarrow> Service \<Rightarrow> string \<Rightarrow> string \<Rightarrow> string \<Rightarrow> ('w, ctl_error option) state" where
  "sync_record g c service zoneName dnsName recordType =
     (case wanted_record g service dnsName recordType of
        Inl err \<Rightarrow> State_Monad.return (Some err)
      | Inr (built, hash) \<Rightarrow> do {
          let desired = built\<lparr>de_Spec := (de_Spec built)\<lparr>des_Zone := Some \<lparr>lor_Name = zoneName\<rparr>\<rparr>\<rparr>;
          got \<leftarrow> Get c dnsEndpointR (in_namespace_of service (record_name g service dnsName recordType));
          case got of
            Inl err \<Rightarrow>
              if err \<noteq> NotFound then State_Monad.return (Some (ApiError err))
              else (case g_SetControllerReference g (OService service) (ODNSEndpoint desired) of
                  Inl e \<Rightarrow> State_Monad.return (Some (ReferenceError e))
                | Inr owned \<Rightarrow> do {
                    created \<leftarrow> c_create c owned;
                    State_Monad.return (map_option ApiError (write_error created))
                  })
          | Inr current \<Rightarrow>
              if \<not> SameProject (OService service) (ODNSEndpoint current) then State_Monad.return (Some OtherProject)
              else if stamped hash (ODNSEndpoint current) \<and> IsControlledBy (de_Meta current) (svc_Meta service) \<and>
                  des_Zone (de_Spec current) = Some \<lparr>lor_Name = zoneName\<rparr>
              then State_Monad.return None
              else (case g_SetControllerReference g (OService service) (ODNSEndpoint (current\<lparr>
                    de_Spec := de_Spec desired,
                    de_Meta := (de_Meta current)\<lparr>om_Annotations := om_Annotations (de_Meta desired)\<rparr>\<rparr>)) of
                  Inl e \<Rightarrow> State_Monad.return (Some (ReferenceError e))
                | Inr owned \<Rightarrow> do {
                    updated \<leftarrow> c_update c owned;
                    State_Monad.return (map_option ApiError (write_error updated))
                  })
        })"

definition record_types :: "string list" where
  "record_types = [''A'', ''AAAA'']"

definition sync_name ::
  "golib \<Rightarrow> dnslib \<Rightarrow> 'w client \<Rightarrow> Service \<Rightarrow> Zone list \<Rightarrow> string \<Rightarrow> ('w, ctl_error option) state" where
  "sync_name g dl c service zones dnsName =
     (let zoneName = fst (covering_zone dl service zones dnsName)
      in if zoneName = [] then State_Monad.return (Some (NoZone dnsName))
         else each (sync_record g c service zoneName dnsName) record_types)"

definition desired_names :: "golib \<Rightarrow> Service \<Rightarrow> string list" where
  "desired_names g service = concat (map (\<lambda>dnsName. map (record_name g service dnsName) record_types) (routed_names service))"

definition delete_stale :: "golib \<Rightarrow> 'w client \<Rightarrow> Service \<Rightarrow> DNSEndpoint \<Rightarrow> ('w, ctl_error option) state" where
  "delete_stale g c service dnsEndpoint =
     (if \<not> IsControlledBy (de_Meta dnsEndpoint) (svc_Meta service) then State_Monad.return None
      else if om_Name (de_Meta dnsEndpoint) \<in> set (desired_names g service) then State_Monad.return None
      else do {
        d \<leftarrow> Delete c dnsEndpointR dnsEndpoint;
        State_Monad.return (map_option ApiError (IgnoreNotFound (write_error d)))
      })"

definition ServiceRouting_Reconcile ::
  "golib \<Rightarrow> dnslib \<Rightarrow> 'w client \<Rightarrow> NamespacedName \<Rightarrow> ('w, Result \<times> ctl_error option) state" where
  "ServiceRouting_Reconcile g dl c key = do {
     got \<leftarrow> Get c serviceR key;
     case got of
       Inl err \<Rightarrow> State_Monad.return (done_result, map_option ApiError (IgnoreNotFound (Some err)))
     | Inr service \<Rightarrow> do {
         l \<leftarrow> List c zoneR (om_Namespace (svc_Meta service)) fmempty;
         case l of
           Inl err \<Rightarrow> State_Monad.return (done_result, Some (ApiError err))
         | Inr zones \<Rightarrow> do {
             e \<leftarrow> each (sync_name g dl c service zones) (routed_names service);
             case e of
               Some err \<Rightarrow> State_Monad.return (done_result, Some err)
             | None \<Rightarrow> do {
                 l' \<leftarrow> List c dnsEndpointR (om_Namespace (svc_Meta service)) fmempty;
                 case l' of
                   Inl err \<Rightarrow> State_Monad.return (done_result, Some (ApiError err))
                 | Inr endpoints \<Rightarrow> do {
                     e' \<leftarrow> each (delete_stale g c service) endpoints;
                     State_Monad.return (done_result, e')
                   }
               }
           }
       }
   }"

section \<open>The name of a record\<close>

lemma length_TrimRight: "length (TrimRight s chars) \<le> length s"
  by (simp add: TrimRight_def TrimRightFunc_def) (metis length_dropWhile_le length_rev)

definition record_suffix :: "golib \<Rightarrow> string \<Rightarrow> string \<Rightarrow> string" where
  "record_suffix g dnsName recordType =
     ''-'' @ hex_bytes (take 6 (g_md5 g (ToLower (TrimSuffix dnsName ''.'')))) @ ''-'' @ ToLower recordType"

lemma serviceDNSEndpointName_parts:
  "\<exists>p. serviceDNSEndpointName g service dnsName t = p @ record_suffix g dnsName t \<and> length p \<le> 253 - length (record_suffix g dnsName t)"
proof -
  have "length (TrimRight (take n s) chars) \<le> n" for n and s chars :: string
    using length_TrimRight [of "take n s" chars] by simp
  then show ?thesis by (auto simp: serviceDNSEndpointName_def record_suffix_def Let_def)
qed

lemma ToLower_types [simp]: "ToLower ''A'' = ''a''" "ToLower ''AAAA'' = ''aaaa''"
  by code_simp+

section \<open>The zone of a name\<close>

definition covers_name :: "dnslib \<Rightarrow> Service \<Rightarrow> string \<Rightarrow> Zone \<Rightarrow> bool" where
  "covers_name dl service dnsName zone \<longleftrightarrow> SameProject (OService service) (OZone zone) \<and>
     IsSubDomain dl (Fqdn dl (zones_Zone (zone_Spec zone))) (Fqdn dl dnsName) \<and> zones_Zone (zone_Spec zone) \<noteq> []"

lemma covering_zone_best:
  "covering_zone dl service zones dnsName = (n, l) \<Longrightarrow>
   (if \<exists>z \<in> set zones. covers_name dl service dnsName z
    then \<exists>z \<in> set zones. covers_name dl service dnsName z \<and> n = om_Name (zone_Meta z) \<and> l = length (zones_Zone (zone_Spec z)) \<and>
      (\<forall>z' \<in> set zones. covers_name dl service dnsName z' \<longrightarrow> length (zones_Zone (zone_Spec z')) \<le> l)
    else (n, l) = ([], 0))"
proof (induction zones arbitrary: n l rule: rev_induct)
  case Nil
  then show ?case by (simp add: covering_zone_def)
next
  case (snoc z zones)
  obtain n0 l0 where p: "covering_zone dl service zones dnsName = (n0, l0)" by fastforce
  have step: "(n, l) = (if SameProject (OService service) (OZone z) \<and>
      IsSubDomain dl (Fqdn dl (zones_Zone (zone_Spec z))) (Fqdn dl dnsName) \<and> length (zones_Zone (zone_Spec z)) > l0
    then (om_Name (zone_Meta z), length (zones_Zone (zone_Spec z))) else (n0, l0))"
    using snoc.prems p by (simp add: covering_zone_def)
  show ?case
    using snoc.IH [OF p] step by (fastforce simp: covers_name_def split: if_splits)
qed

section \<open>One record\<close>

abbreviation record_id :: "golib \<Rightarrow> Service \<Rightarrow> string \<Rightarrow> string \<Rightarrow> obj_id" where
  "record_id g service dnsName recordType \<equiv> (KDNSEndpoint, in_namespace_of service (record_name g service dnsName recordType))"

text \<open>The spec of a record of a service, with the defaults of the builder\<close>

definition service_record :: "Service \<Rightarrow> string \<Rightarrow> string \<Rightarrow> string \<Rightarrow> DNSEndpointSpec" where
  "service_record service zoneName dnsName recordType =
     \<lparr>des_Project = ss_Project (svc_Spec service), des_DNSName = dnsName, des_RoutingPolicy = ''Geolocation'', des_RecordTTL = 10,
      des_RecordType = recordType, des_Targets = [], des_RouteSelector = ss_RouteSelector (svc_Spec service),
      des_Zone = Some \<lparr>lor_Name = zoneName\<rparr>\<rparr>"

text \<open>
  The record is there, is controlled by the service and carries the wanted hash. It has the spec of a record for the name, the type
  and the zone, or it was like this before, in the zone: the reconciler leaves a record with the wanted hash as it is,
  without a look at the rest of its spec.
\<close>

definition record_in_place :: "golib \<Rightarrow> Service \<Rightarrow> string \<Rightarrow> string \<Rightarrow> string \<Rightarrow> store \<Rightarrow> store \<Rightarrow> bool" where
  "record_in_place g service zoneName dnsName recordType s0 s \<longleftrightarrow>
     (\<exists>e d h. s (record_id g service dnsName recordType) = Some (ODNSEndpoint e) \<and>
        wanted_record g service dnsName recordType = Inr (d, h) \<and> stamped h (ODNSEndpoint e) \<and>
        IsControlledBy (de_Meta e) (svc_Meta service) \<and>
        (de_Spec e = service_record service zoneName dnsName recordType \<or>
         s0 (record_id g service dnsName recordType) = Some (ODNSEndpoint e) \<and> des_Zone (de_Spec e) = Some \<lparr>lor_Name = zoneName\<rparr>))"

definition live_at :: "store \<Rightarrow> obj_id \<Rightarrow> bool" where
  "live_at s i \<longleftrightarrow> (\<forall>ob. s i = Some ob \<longrightarrow> om_DeletionTimestamp (obj_meta ob) = None)"

definition untouched :: "store \<Rightarrow> store \<Rightarrow> obj_id \<Rightarrow> bool" where
  "untouched s0 s i \<longleftrightarrow> s i = s0 i \<and> live_at s i"

lemma wanted_record_object:
  assumes "wanted_record g service dnsName recordType = Inr (d, h)"
  shows "id_of (ODNSEndpoint d) = record_id g service dnsName recordType" "stamped h (ODNSEndpoint d)"
proof -
  have "id_of (ODNSEndpoint d) = record_id g service dnsName recordType \<and> stamped h (ODNSEndpoint d)"
    using assms
    by (auto simp: wanted_record_def DNSEndpointBuilderFactory_def ServiceBuilderType_def NewDefaultDNSEndpointBuilder_def
        DNSEndpoint_WithService_def WithRouteSelector_def WithRecordType_def WithDNSName_def id_of_def key_of_def
        in_namespace_of_def new_ObjectMeta_def split: option.splits dest!: builds_stamped(1))
  then show "id_of (ODNSEndpoint d) = record_id g service dnsName recordType" "stamped h (ODNSEndpoint d)" by blast+
qed

lemma wanted_record_spec:
  assumes "wanted_record g service dnsName recordType = Inr (d, h)"
  shows "(de_Spec d)\<lparr>des_Zone := Some \<lparr>lor_Name = zoneName\<rparr>\<rparr> = service_record service zoneName dnsName recordType"
  using assms
  by (auto simp: wanted_record_def DNSEndpointBuilderFactory_def ServiceBuilderType_def NewDefaultDNSEndpointBuilder_def
      DNSEndpoint_Build_def DNSEndpoint_WithService_def WithRouteSelector_def WithRecordType_def WithDNSName_def service_record_def
      zero_defs DNSRoutingPolicyGeolocation_def DefaultDNSRecordTTL_def Let_def split: option.splits)

lemma IsControlledBy_core: "core a = core b \<Longrightarrow> IsControlledBy (obj_meta a) m \<longleftrightarrow> IsControlledBy (obj_meta b) m"
proof -
  assume "core a = core b"
  then have "om_OwnerReferences (obj_meta a) = om_OwnerReferences (obj_meta b)"
    using core_meta(2) by blast
  then show ?thesis by (simp add: IsControlledBy_def GetControllerOf_def)
qed

text \<open>All records of a name are in place, in the zone that covers it best.\<close>

definition name_in_place :: "golib \<Rightarrow> dnslib \<Rightarrow> Service \<Rightarrow> Zone list \<Rightarrow> string \<Rightarrow> store \<Rightarrow> store \<Rightarrow> bool" where
  "name_in_place g dl service zones dnsName s0 s \<longleftrightarrow> fst (covering_zone dl service zones dnsName) \<noteq> [] \<and>
     (\<forall>recordType \<in> set record_types.
        record_in_place g service (fst (covering_zone dl service zones dnsName)) dnsName recordType s0 s)"

definition desired_ids :: "golib \<Rightarrow> Service \<Rightarrow> obj_id set" where
  "desired_ids g service = (\<lambda>name. (KDNSEndpoint, in_namespace_of service name)) ` set (desired_names g service)"

text \<open>A record of the service that is not wanted, and an object that is gone or being deleted\<close>

definition stale :: "golib \<Rightarrow> Service \<Rightarrow> DNSEndpoint \<Rightarrow> bool" where
  "stale g service e \<longleftrightarrow> IsControlledBy (de_Meta e) (svc_Meta service) \<and> om_Name (de_Meta e) \<notin> set (desired_names g service)"

definition leaving :: "store \<Rightarrow> obj_id \<Rightarrow> bool" where
  "leaving s i \<longleftrightarrow> (\<forall>ob. s i = Some ob \<longrightarrow> om_DeletionTimestamp (obj_meta ob) \<noteq> None)"

lemma distinct_concat_map:
  assumes "distinct (concat (map f xs))" and "\<And>x. f x \<noteq> []"
  shows "distinct xs \<and> (\<forall>x \<in> set xs. distinct (f x)) \<and>
    (\<forall>x \<in> set xs. \<forall>y \<in> set xs. x \<noteq> y \<longrightarrow> set (f x) \<inter> set (f y) = {})"
  using assms(1)
proof (induction xs)
  case (Cons a xs)
  have d: "set (f a) \<inter> (\<Union>x \<in> set xs. set (f x)) = {}" "distinct (f a)" "distinct (concat (map f xs))"
    using Cons.prems by auto
  have "a \<notin> set xs" using d(1) assms(2) [of a] by (metis UN_I disjoint_iff hd_in_set)
  then show ?case using Cons.IH [OF d(3)] d(1,2) by fastforce
qed simp

context operator_world
begin

text \<open>A record that was given a controller reference and written\<close>

lemma owned_record_in_place:
  assumes "wanted_record g service dnsName recordType = Inr (d, h)"
    and owned: "g_SetControllerReference g (OService service) (ODNSEndpoint e) = Inr owned"
    and e: "de_Spec e = (de_Spec d)\<lparr>des_Zone := Some \<lparr>lor_Name = zoneName\<rparr>\<rparr>"
      "om_Annotations (de_Meta e) = om_Annotations (de_Meta d)" "id_of (ODNSEndpoint e) = record_id g service dnsName recordType"
  shows "id_of owned = record_id g service dnsName recordType"
    and "core ob = core owned \<Longrightarrow> s (record_id g service dnsName recordType) = Some ob \<Longrightarrow>
      record_in_place g service zoneName dnsName recordType s0 s"
proof -
  note ref = reference_set [OF owned]
  define e' where "e' = e\<lparr>de_Meta := (de_Meta e)\<lparr>om_OwnerReferences := om_OwnerReferences (obj_meta owned)\<rparr>\<rparr>"
  have o: "owned = ODNSEndpoint e'" using conjunct2 [OF ref] by (simp add: e'_def)
  show "id_of owned = record_id g service dnsName recordType"
    using e(3) unfolding o by (simp add: e'_def id_of_def key_of_def)
  assume c: "core ob = core owned" and s: "s (record_id g service dnsName recordType) = Some ob"
  obtain x where x: "ob = ODNSEndpoint x" "de_Spec x = de_Spec e'" using core_endpoint [OF c [unfolded o]] by blast
  have "stamped h owned"
    using wanted_record_object(2) [OF assms(1)] e(2) unfolding o by (simp add: stamped_def e'_def)
  then have "stamped h ob" "IsControlledBy (obj_meta ob) (svc_Meta service)"
    using stamped_core [OF c] IsControlledBy_core [OF c] ref by simp_all
  moreover have "de_Spec x = service_record service zoneName dnsName recordType"
    using x(2) e(1) wanted_record_spec [OF assms(1)] by (simp add: e'_def)
  ultimately show "record_in_place g service zoneName dnsName recordType s0 s"
    using assms(1) s x(1) unfolding record_in_place_def by auto
qed

lemma sync_record_wp:
  assumes untouched: "untouched s0 (st w) (record_id g service dnsName recordType)"
  shows "wp (sync_record g c service zoneName dnsName recordType)
    (\<lambda>x w'. only_at {record_id g service dnsName recordType} (st w) (st w') \<and>
       (x = None \<longrightarrow> record_in_place g service zoneName dnsName recordType s0 (st w'))) w"
  unfolding sync_record_def
proof (intro wp_sum wp_prod wp_return, goal_cases)
  case (2 p built hash)
  then have wanted: "wanted_record g service dnsName recordType = Inr (built, hash)" by simp
  let ?i = "record_id g service dnsName recordType"
  let ?d = "built\<lparr>de_Spec := (de_Spec built)\<lparr>des_Zone := Some \<lparr>lor_Name = zoneName\<rparr>\<rparr>\<rparr>"
  have id: "id_of (ODNSEndpoint ?d) = ?i" using wanted_record_object(1) [OF wanted] by (simp add: id_of_def)
  have new: "only_at {?i} (st w) (st w') \<and> record_in_place g service zoneName dnsName recordType s0 (st w')"
    if "creates (st w) owned (st w') ob" "g_SetControllerReference g (OService service) (ODNSEndpoint ?d) = Inr owned" for w' owned ob
  proof -
    note o = owned_record_in_place [OF wanted that(2) _ _ id]
    show ?thesis using writes_only_at(1) [OF that(1)] that(1) o by (auto simp: creates_def)
  qed
  have old: "only_at {?i} (st w) (st w') \<and> record_in_place g service zoneName dnsName recordType s0 (st w')"
    if u: "updates (st w) owned (st w') ob"
      and owned: "g_SetControllerReference g (OService service) (ODNSEndpoint (current\<lparr>de_Spec := de_Spec ?d,
        de_Meta := (de_Meta current)\<lparr>om_Annotations := om_Annotations (de_Meta ?d)\<rparr>\<rparr>)) = Inr owned"
      and cur: "st w ?i = Some (ODNSEndpoint current)" for w' owned ob current
  proof -
    have "id_of (ODNSEndpoint current) = ?i" using stored_id [OF cur] .
    then have "id_of (ODNSEndpoint (current\<lparr>de_Spec := de_Spec ?d,
        de_Meta := (de_Meta current)\<lparr>om_Annotations := om_Annotations (de_Meta ?d)\<rparr>\<rparr>)) = ?i"
      by (simp add: id_of_def key_of_def)
    note o = owned_record_in_place [OF wanted owned _ _ this]
    have i: "id_of owned = ?i" by (rule o(1)) simp_all
    have "om_DeletionTimestamp (de_Meta current) = None" using untouched cur by (simp add: untouched_def live_at_def)
    then have "core ob = core owned" "st w' ?i = Some ob" using u cur unfolding updates_def i by auto
    then show ?thesis using writes_only_at(2) [OF u] o(2) i by auto
  qed
  show ?case
  proof (unfold Let_def, intro wp_bind endpoints.Get_wp wp_sum wp_if c_create_wp c_update_wp wp_return, goal_cases)
    case (3 x w1 err owned y w2)
    then show ?case using new [of owned w2] by (cases y) (auto simp: write_error_def)
  next
    case (5 x w1 current)
    then have "st w1 = st w" "st w ?i = Some (ODNSEndpoint current)" "s0 ?i = Some (ODNSEndpoint current)" "stamped hash (ODNSEndpoint current)"
      "IsControlledBy (de_Meta current) (svc_Meta service)" "des_Zone (de_Spec current) = Some \<lparr>lor_Name = zoneName\<rparr>"
      using untouched by (simp_all add: untouched_def)
    then show ?case using wanted unfolding record_in_place_def by auto
  next
    case (7 x w1 current owned y w2)
    then show ?case using old [of owned w2 _ current] by (cases y) (auto simp: write_error_def)
  qed auto
qed simp

text \<open>The records of one name\<close>

lemma record_in_place_local:
  "only_at J s s' \<Longrightarrow> record_id g service dnsName recordType \<notin> J \<Longrightarrow>
   record_in_place g service zoneName dnsName recordType s0 s \<Longrightarrow> record_in_place g service zoneName dnsName recordType s0 s'"
  unfolding record_in_place_def only_at_def by metis

lemma untouched_local: "only_at J s s' \<Longrightarrow> i \<notin> J \<Longrightarrow> untouched s0 s i \<Longrightarrow> untouched s0 s' i"
  unfolding untouched_def live_at_def only_at_def by metis

lemma sync_name_wp:
  assumes "distinct (map (record_name g service dnsName) record_types)"
    and "\<And>recordType. recordType \<in> set record_types \<Longrightarrow> untouched s0 (st w) (record_id g service dnsName recordType)"
  shows "wp (sync_name g dl c service zones dnsName)
    (\<lambda>x w'. only_at (record_id g service dnsName ` set record_types) (st w) (st w') \<and>
       (x = None \<longrightarrow> name_in_place g dl service zones dnsName s0 (st w'))) w"
proof -
  have inj: "inj_on (record_name g service dnsName) (set record_types)" "distinct record_types"
    using assms(1) by (simp_all add: distinct_map)
  have ne: "record_id g service dnsName a \<noteq> record_id g service dnsName b"
    if "a \<in> set record_types" "b \<in> set record_types" "a \<noteq> b" for a b
    using inj_onD [OF inj(1)] that by (auto simp: in_namespace_of_def)
  have "wp (each (sync_record g c service zoneName dnsName) record_types)
      (\<lambda>x w'. only_at (\<Union>t \<in> set record_types. {record_id g service dnsName t}) (st w) (st w') \<and>
       (x = None \<longrightarrow> (\<forall>t \<in> set record_types. record_in_place g service zoneName dnsName t s0 (st w')))) w" for zoneName
  proof (rule each_wp [where P = "\<lambda>t s. untouched s0 s (record_id g service dnsName t)"], goal_cases)
    case (1 t w)
    then show ?case by (intro sync_record_wp)
  next
    case (2 t J s s')
    then show ?case using record_in_place_local untouched_local by blast
  qed (use inj(2) ne assms(2) in auto)
  then show ?thesis
    unfolding sync_name_def Let_def
    by (intro wp_if wp_return) (simp_all add: name_in_place_def UNION_singleton_eq_range)
qed

lemma sync_names_wp:
  assumes "distinct (desired_names g service)"
    and "\<And>i. live_at (st w) (KDNSEndpoint, i)"
  shows "wp (each (sync_name g dl c service zones) (routed_names service))
    (\<lambda>x w'. only_at (desired_ids g service) (st w) (st w') \<and>
       (x = None \<longrightarrow> (\<forall>dnsName \<in> set (routed_names service). name_in_place g dl service zones dnsName (st w) (st w')))) w"
proof -
  let ?f = "\<lambda>dnsName. map (record_name g service dnsName) record_types"
  let ?I = "\<lambda>dnsName. record_id g service dnsName ` set record_types"
  have ne: "?f dnsName \<noteq> []" for dnsName by (simp add: record_types_def)
  note d = distinct_concat_map [OF assms(1) [unfolded desired_names_def] ne]
  have disj: "?I a \<inter> ?I b = {}" if "a \<in> set (routed_names service)" "b \<in> set (routed_names service)" "a \<noteq> b" for a b
  proof -
    have "set (?f a) \<inter> set (?f b) = {}" using d that by blast
    then show ?thesis by (auto simp: in_namespace_of_def)
  qed
  have "wp (each (sync_name g dl c service zones) (routed_names service))
    (\<lambda>x w'. only_at (\<Union>dnsName \<in> set (routed_names service). ?I dnsName) (st w) (st w') \<and>
       (x = None \<longrightarrow> (\<forall>dnsName \<in> set (routed_names service). name_in_place g dl service zones dnsName (st w) (st w')))) w"
  proof (rule each_wp [where P = "\<lambda>dnsName s. \<forall>i \<in> ?I dnsName. untouched (st w) s i"], goal_cases)
    case (1 dnsName w)
    then show ?case using d by (intro sync_name_wp) auto
  next
    case (2 dnsName J s s')
    then show ?case
      using record_in_place_local untouched_local unfolding name_in_place_def by blast
  qed (use d disj assms(2) in \<open>auto simp: untouched_def\<close>)
  moreover have "(\<Union>dnsName \<in> set (routed_names service). ?I dnsName) = desired_ids g service"
    by (auto simp: desired_ids_def desired_names_def)
  ultimately show ?thesis by simp
qed

text \<open>The deletion of stale records\<close>

lemma deletes_leaving: "deletes s ob s' \<Longrightarrow> (\<forall>j. leaving s j \<longrightarrow> leaving s' j) \<and> leaving s' (id_of ob)"
  unfolding deletes_def leaving_def by (auto split: if_splits)

lemma delete_stale_wp:
  "wp (each (delete_stale g c service) es) (\<lambda>x w'. (\<forall>j. leaving (st w) j \<longrightarrow> leaving (st w') j) \<and> shrinks (st w) (st w') \<and>
     only_at {id_of (ODNSEndpoint e) | e. e \<in> set es \<and> stale g service e} (st w) (st w') \<and>
     (x = None \<longrightarrow> (\<forall>e \<in> set es. stale g service e \<longrightarrow> leaving (st w') (id_of (ODNSEndpoint e))))) w"
proof (induction es arbitrary: w)
  case Nil
  show ?case by (simp add: wp_def)
next
  case (Cons e es)
  let ?I = "{id_of (ODNSEndpoint e') | e'. e' \<in> set (e # es) \<and> stale g service e'}"
  let ?Q = "\<lambda>x w'. (\<forall>j. leaving (st w) j \<longrightarrow> leaving (st w') j) \<and> shrinks (st w) (st w') \<and> only_at ?I (st w) (st w') \<and>
     (x = None \<longrightarrow> (\<forall>e \<in> set (e # es). stale g service e \<longrightarrow> leaving (st w') (id_of (ODNSEndpoint e))))"
  have sub: "only_at {id_of (ODNSEndpoint e) | e. e \<in> set es \<and> stale g service e} s s' \<Longrightarrow> only_at ?I s s'" for s s'
    by (erule only_at_mono) auto
  have rest: "wp (each (delete_stale g c service) es) ?Q w1"
    if "\<forall>j. leaving (st w) j \<longrightarrow> leaving (st w1) j" "shrinks (st w) (st w1)" "only_at ?I (st w) (st w1)"
      "stale g service e \<longrightarrow> leaving (st w1) (id_of (ODNSEndpoint e))" for w1
    by (rule wp_mono [OF Cons.IH [of w1]]) (use that sub in \<open>auto simp del: split_paired_All intro: shrinks_trans only_at_trans\<close>)
  show ?case
  proof (cases "stale g service e")
    case True
    have I: "{id_of (ODNSEndpoint e)} \<subseteq> ?I" using True by auto
    have del: "(\<forall>j. leaving (st w) j \<longrightarrow> leaving (st w1) j) \<and> shrinks (st w) (st w1) \<and> only_at ?I (st w) (st w1) \<and>
        leaving (st w1) (id_of (ODNSEndpoint e))" if "deletes (st w) (ODNSEndpoint e) (st w1)" for w1
      using deletes_leaving [OF that] deletes_shrinks [OF that] only_at_mono [OF writes_only_at(4) [OF that] I] by blast
    have "wp (delete_stale g c service e) (\<lambda>x w1. (\<forall>j. leaving (st w) j \<longrightarrow> leaving (st w1) j) \<and>
        shrinks (st w) (st w1) \<and> only_at ?I (st w) (st w1) \<and> (x = None \<longrightarrow> leaving (st w1) (id_of (ODNSEndpoint e)))) w"
    proof (unfold delete_stale_def, intro wp_if wp_bind endpoints.Delete_wp wp_return, goal_cases)
      case (3 x w1)
      have "leaving (st w1) (id_of (ODNSEndpoint e))" if "IgnoreNotFound (write_error x) = None"
      proof (cases x)
        case (Inl a)
        with that 3(5) show ?thesis by (cases a) (simp_all add: write_error_def leaving_def)
      next
        case (Inr b)
        with 3(4) del [of w1] show ?thesis by simp
      qed
      moreover have "(\<forall>j. leaving (st w) j \<longrightarrow> leaving (st w1) j) \<and> shrinks (st w) (st w1) \<and> only_at ?I (st w) (st w1)"
        using 3(3) del [of w1] by auto
      ultimately show ?case by simp
    qed (use True in \<open>simp_all add: stale_def\<close>)
    then show ?thesis
      unfolding each.simps by (intro wp_bind) (auto elim!: wp_mono intro!: wp_option wp_return rest [simplified])
  next
    case False
    then have "delete_stale g c service e = State_Monad.return None" by (auto simp: delete_stale_def stale_def)
    with rest [of w] False show ?thesis by (simp add: wp_bind wp_return)
  qed
qed

lemma stale_core:
  "core (ODNSEndpoint a) = core (ODNSEndpoint b) \<Longrightarrow> stale g service a \<longleftrightarrow> stale g service b"
  using IsControlledBy_core [of "ODNSEndpoint a" "ODNSEndpoint b"] core_meta(4) [of "ODNSEndpoint a" "ODNSEndpoint b"]
  by (simp add: stale_def)

abbreviation stale_ids :: "NamespacedName \<Rightarrow> Service \<Rightarrow> obj_id set" where
  "stale_ids key service \<equiv> {id_of (ODNSEndpoint e) | e. om_Namespace (de_Meta e) = nn_Namespace key \<and> stale g service e}"

lemma stale_not_desired:
  assumes "om_Namespace (svc_Meta service) = nn_Namespace key"
  shows "stale_ids key service \<inter> desired_ids g service = {}"
  using assms by (auto simp: desired_ids_def stale_def id_of_def key_of_def in_namespace_of_def)

text \<open>The last part of a call: the records of the namespace are listed and the stale ones deleted.\<close>

lemma cleanup_wp:
  assumes ns: "nn_Namespace key \<noteq> []" and es: "st w1 = st w" "set es = {e. st w (id_of (ODNSEndpoint e)) = Some (ODNSEndpoint e) \<and>
      selects (nn_Namespace key) fmempty (ODNSEndpoint e)}"
  shows "wp (each (delete_stale g c service) es) (\<lambda>x w'. only_at (stale_ids key service) (st w) (st w') \<and>
    (x = None \<longrightarrow> (\<forall>e. st w' (id_of (ODNSEndpoint e)) = Some (ODNSEndpoint e) \<and> om_Namespace (de_Meta e) = nn_Namespace key \<and>
       stale g service e \<longrightarrow> om_DeletionTimestamp (de_Meta e) \<noteq> None))) w1"
proof (rule wp_mono [OF delete_stale_wp], goal_cases)
  case (1 x w')
  have mem: "e \<in> set es \<longleftrightarrow> st w (id_of (ODNSEndpoint e)) = Some (ODNSEndpoint e) \<and> om_Namespace (de_Meta e) = nn_Namespace key" for e
    using es(2) selects_namespace [OF ns] by simp
  have "{id_of (ODNSEndpoint e) | e. e \<in> set es \<and> stale g service e} \<subseteq> stale_ids key service" using mem by blast
  from only_at_mono [OF _ this] 1 es(1) have only: "only_at (stale_ids key service) (st w) (st w')" by simp
  have "om_DeletionTimestamp (de_Meta e) \<noteq> None"
    if none: "x = None" and e: "st w' (id_of (ODNSEndpoint e)) = Some (ODNSEndpoint e)" "om_Namespace (de_Meta e) = nn_Namespace key"
      "stale g service e" for e
  proof -
    have "shrinks (st w) (st w')" using 1 es(1) by simp
    then obtain ob where ob: "st w (id_of (ODNSEndpoint e)) = Some ob" "core ob = core (ODNSEndpoint e)"
      using e(1) unfolding shrinks_def by metis
    obtain e0 where e0: "ob = ODNSEndpoint e0" "om_Namespace (de_Meta e0) = om_Namespace (de_Meta e)"
      using core_endpoint [OF ob(2)] by blast
    have id: "id_of (ODNSEndpoint e0) = id_of (ODNSEndpoint e)" using stored_id [OF ob(1)] e0(1) by simp
    then have "e0 \<in> set es" "stale g service e0"
      using mem ob e0 e(2,3) stale_core [of e0 e service] by auto
    with 1 none have "leaving (st w') (id_of (ODNSEndpoint e))" unfolding id [symmetric] by blast
    with e(1) show ?thesis by (simp add: leaving_def)
  qed
  with only show ?case by blast
qed

text \<open>The whole call\<close>

lemma ServiceRouting_Reconcile_wp:
  assumes service: "st w (KService, key) = Some (OService service)" and ns: "nn_Namespace key \<noteq> []"
    and names: "distinct (desired_names g service)" and live: "\<And>i. live_at (st w) (KDNSEndpoint, i)"
  shows "wp (ServiceRouting_Reconcile g dl c key) (\<lambda>(res, err) w'.
    only_at (desired_ids g service \<union> stale_ids key service) (st w) (st w') \<and>
    (err = None \<longrightarrow> (\<exists>zones. set zones = {z. st w (id_of (OZone z)) = Some (OZone z) \<and> om_Namespace (zone_Meta z) = nn_Namespace key} \<and>
       (\<forall>dnsName \<in> set (routed_names service). name_in_place g dl service zones dnsName (st w) (st w'))) \<and>
     (\<forall>e. st w' (id_of (ODNSEndpoint e)) = Some (ODNSEndpoint e) \<and> om_Namespace (de_Meta e) = nn_Namespace key \<and>
        stale g service e \<longrightarrow> om_DeletionTimestamp (de_Meta e) \<noteq> None))) w"
proof -
  have key: "om_Namespace (svc_Meta service) = nn_Namespace key"
    using stored_id [OF service] by (auto simp: id_of_def key_of_def)
  let ?I = "desired_ids g service \<union> stale_ids key service"
  have keep: "name_in_place g dl service zones dnsName s0 s'"
    if "name_in_place g dl service zones dnsName s0 s" "only_at (stale_ids key service) s s'" "dnsName \<in> set (routed_names service)" for s0 s s' zones dnsName
  proof -
    have "record_id g service dnsName t \<notin> stale_ids key service" if "t \<in> set record_types" for t
      using stale_not_desired [OF key] that \<open>dnsName \<in> _\<close> by (fastforce simp: desired_ids_def desired_names_def)
    with that(1,2) record_in_place_local show ?thesis unfolding name_in_place_def by blast
  qed
  have last: "wp (do { l' \<leftarrow> List c dnsEndpointR (nn_Namespace key) fmempty;
        case l' of Inl err \<Rightarrow> State_Monad.return (done_result, Some (ApiError err))
        | Inr endpoints \<Rightarrow> do { e' \<leftarrow> each (delete_stale g c service) endpoints; State_Monad.return (done_result, e') } })
      (\<lambda>(res, err) w'. only_at ?I (st w) (st w') \<and> (err = None \<longrightarrow>
         (\<forall>dnsName \<in> set (routed_names service). name_in_place g dl service zones dnsName (st w) (st w')) \<and>
         (\<forall>e. st w' (id_of (ODNSEndpoint e)) = Some (ODNSEndpoint e) \<and> om_Namespace (de_Meta e) = nn_Namespace key \<and>
            stale g service e \<longrightarrow> om_DeletionTimestamp (de_Meta e) \<noteq> None))) w1"
    if w1: "only_at (desired_ids g service) (st w) (st w1)"
      "\<forall>dnsName \<in> set (routed_names service). name_in_place g dl service zones dnsName (st w) (st w1)" for w1 zones
  proof (intro wp_bind endpoints.List_wp wp_sum, goal_cases)
    case (1 x w2 err)
    then show ?case using only_at_mono [OF w1(1)] by (intro wp_return) auto
  next
    case (2 x w2 es)
    have "only_at ?I (st w) (st w')" if "only_at (stale_ids key service) (st w1) (st w')" for w'
      by (rule only_at_trans [OF only_at_mono [OF w1(1)] only_at_mono [OF that]]) auto
    then show ?case
      by (intro wp_bind wp_mono [OF cleanup_wp [OF ns, of w2 w1 es]] wp_return)
        (use 2 w1(2) keep in auto)
  qed
  show ?thesis
    unfolding ServiceRouting_Reconcile_def
  proof (intro wp_bind services.Get_wp wp_sum zones.List_wp, goal_cases)
    case (1 x w1 err)
    then have "IgnoreNotFound (Some err) \<noteq> None" using service by (cases err) auto
    with 1 show ?case by (intro wp_return) auto
  next
    case (2 x w1 s y w2 err)
    then show ?case by (intro wp_return) auto
  next
    case (3 x w1 s y w2 zones)
    then have s: "s = service" and w2: "st w2 = st w" using service by simp_all
    have zs: "set zones = {z. st w (id_of (OZone z)) = Some (OZone z) \<and> om_Namespace (zone_Meta z) = nn_Namespace key}"
      using 3 selects_namespace [OF ns] key s by auto
    have l: "\<And>i. live_at (st w2) (KDNSEndpoint, i)" using live w2 by simp
    show ?case
      unfolding s key
    proof (rule wp_mono [OF sync_names_wp [OF names l]], rule wp_option, goal_cases)
      case (1 e w3)
      show ?case by (rule wp_mono [OF last [of w3 zones]]) (use 1 w2 zs in auto)
    next
      case (2 e w3 err)
      then show ?case using only_at_mono [of "desired_ids g service" "st w" "st w3"] w2 by (intro wp_return) auto
    qed
  qed
qed

end

section \<open>Properties\<close>

text \<open>Example: a service with one name in one zone\<close>

definition routed_service :: Service where
  "routed_service = zero_Service\<lparr>svc_Meta := (new_ObjectMeta ''s'' ''team-a'')\<lparr>om_UID := ''u''\<rparr>,
     svc_Spec := zero_ServiceSpec\<lparr>ss_Project := Some \<lparr>lor_Name = ''p''\<rparr>, ss_Domain := ''cdn.a.com''\<rparr>\<rparr>"

definition routing_world :: "kobject list" where
  "routing_world = [OService routed_service, OZone (example_zone ''team-a'' ''z'' ''p'' ''a.com'')]"

definition routing_key :: NamespacedName where
  "routing_key = \<lparr>nn_Namespace = ''team-a'', nn_Name = ''s''\<rparr>"

definition routed_world :: "kobject list" where
  "routed_world = snd (run_state (ServiceRouting_Reconcile reference_go reference_dns ref_client routing_key) routing_world)"

lemma routing_run:
  "run_state (ServiceRouting_Reconcile reference_go reference_dns ref_client routing_key) routing_world =
     ((done_result, None), routed_world)"
  by code_simp

lemma routing_facts:
  "ref_st routing_world (KService, routing_key) = Some (OService routed_service)" "nn_Namespace routing_key \<noteq> []"
  "distinct (desired_names reference_go routed_service)"
  by code_simp+

lemma routing_live: "live_at (ref_st routing_world) (KDNSEndpoint, i)"
  by (simp add: live_at_def ref_st_def routing_world_def id_of_def)

text \<open>
  C6. The records of a service after a call without error, when no record is being deleted and the
  names of its records differ (they are made from truncated hashes). Every name of
  the service, its domain and its aliases, has an A and an AAAA record that is controlled by the service, carries the wanted hash
  and lies in a zone of the service's project that covers the name, the longest such zone. The spec of the record is the one of a
  record for this name, type and zone with the project and the route selector of the service (\<open>service_record\<close>), unless the call found
  the record with this hash, controller and zone and left it as it was. No other record that the service controls is left in its namespace,
  unless it is being deleted. Nothing but these records has changed.
\<close>

theorem service_records_exact:
  assumes "operator_world c st g" and "run_state (ServiceRouting_Reconcile g dl c key) w = ((res, None), w')"
    and "st w (KService, key) = Some (OService service)" and "nn_Namespace key \<noteq> []"
    and "distinct (desired_names g service)" and "\<And>i. live_at (st w) (KDNSEndpoint, i)"
  shows "(\<forall>dnsName \<in> set (routed_names service). \<exists>zone. st w (id_of (OZone zone)) = Some (OZone zone) \<and>
      covers_name dl service dnsName zone \<and>
      (\<forall>zone'. st w (id_of (OZone zone')) = Some (OZone zone') \<and> covers_name dl service dnsName zone' \<longrightarrow>
         length (zones_Zone (zone_Spec zone')) \<le> length (zones_Zone (zone_Spec zone))) \<and>
      (\<forall>recordType \<in> {''A'', ''AAAA''}.
         record_in_place g service (om_Name (zone_Meta zone)) dnsName recordType (st w) (st w'))) \<and>
    (\<forall>e. st w' (id_of (ODNSEndpoint e)) = Some (ODNSEndpoint e) \<and> om_Namespace (de_Meta e) = nn_Namespace key \<and>
       stale g service e \<longrightarrow> om_DeletionTimestamp (de_Meta e) \<noteq> None) \<and>
    only_at (desired_ids g service \<union>
      {id_of (ODNSEndpoint e) | e. om_Namespace (de_Meta e) = nn_Namespace key \<and> stale g service e}) (st w) (st w')"
proof -
  from wp_run [OF operator_world.ServiceRouting_Reconcile_wp [OF assms(1,3-6)] assms(2)]
  obtain zones where zones: "set zones = {z. st w (id_of (OZone z)) = Some (OZone z) \<and> om_Namespace (zone_Meta z) = nn_Namespace key}"
    "\<forall>dnsName \<in> set (routed_names service). name_in_place g dl service zones dnsName (st w) (st w')"
    and rest: "\<forall>e. st w' (id_of (ODNSEndpoint e)) = Some (ODNSEndpoint e) \<and> om_Namespace (de_Meta e) = nn_Namespace key \<and>
       stale g service e \<longrightarrow> om_DeletionTimestamp (de_Meta e) \<noteq> None"
      "only_at (desired_ids g service \<union>
      {id_of (ODNSEndpoint e) | e. om_Namespace (de_Meta e) = nn_Namespace key \<and> stale g service e}) (st w) (st w')"
    by auto
  have key: "om_Namespace (svc_Meta service) = nn_Namespace key"
    using api_server.stored_id [OF operator_world.axioms(1) [OF assms(1)] assms(3)] by (auto simp: id_of_def key_of_def)
  have mem: "z \<in> set zones" if "st w (id_of (OZone z)) = Some (OZone z)" "covers_name dl service dnsName z" for z dnsName
    using that key unfolding zones(1) by (auto simp: covers_name_def SameProject_def)
  have "\<exists>zone. st w (id_of (OZone zone)) = Some (OZone zone) \<and> covers_name dl service dnsName zone \<and>
      (\<forall>zone'. st w (id_of (OZone zone')) = Some (OZone zone') \<and> covers_name dl service dnsName zone' \<longrightarrow>
         length (zones_Zone (zone_Spec zone')) \<le> length (zones_Zone (zone_Spec zone))) \<and>
      (\<forall>recordType \<in> {''A'', ''AAAA''}. record_in_place g service (om_Name (zone_Meta zone)) dnsName recordType (st w) (st w'))"
    if d: "dnsName \<in> set (routed_names service)" for dnsName
  proof -
    obtain n l where nl: "covering_zone dl service zones dnsName = (n, l)" by fastforce
    with zones(2) d have place: "n \<noteq> []" "\<forall>t \<in> {''A'', ''AAAA''}. record_in_place g service n dnsName t (st w) (st w')"
      by (auto simp: name_in_place_def record_types_def)
    with covering_zone_best [OF nl] obtain z where "z \<in> set zones" "covers_name dl service dnsName z" "n = om_Name (zone_Meta z)"
      "l = length (zones_Zone (zone_Spec z))"
      "\<forall>z' \<in> set zones. covers_name dl service dnsName z' \<longrightarrow> length (zones_Zone (zone_Spec z')) \<le> l"
      by (auto split: if_splits)
    with place(2) mem zones(1) show ?thesis by (intro exI [of _ z]) auto
  qed
  with rest show ?thesis by blast
qed

theorem service_records_exact_witness:
  "\<exists>zone. record_in_place reference_go routed_service (om_Name (zone_Meta zone)) ''cdn.a.com'' ''A'' (ref_st routing_world) (ref_st routed_world) \<and>
     covers_name reference_dns routed_service ''cdn.a.com'' zone"
proof -
  have "''cdn.a.com'' \<in> set (routed_names routed_service)" by (simp add: routed_names_def routed_service_def)
  then show ?thesis
    using service_records_exact [OF reference_operator.operator_world_axioms routing_run routing_facts routing_live] by blast
qed

text \<open>
  C34. The name of a record is a legal length for a Kubernetes object, whatever the service and the DNS
  name are called, and records of one service with the same name are for names with the same hash
  prefix and for the same record type.
\<close>

theorem serviceDNSEndpointName_bounded:
  assumes "go_library g" and "t \<in> {''A'', ''AAAA''}" "t' \<in> {''A'', ''AAAA''}"
  shows "length (serviceDNSEndpointName g service dnsName t) \<le> 253 \<and>
    (serviceDNSEndpointName g service dnsName t = serviceDNSEndpointName g service dnsName' t' \<longrightarrow>
       t = t' \<and> take 6 (g_md5 g (ToLower (TrimSuffix dnsName ''.''))) = take 6 (g_md5 g (ToLower (TrimSuffix dnsName' ''.''))))"
proof -
  let ?s = "record_suffix g"
  obtain p p' where p: "serviceDNSEndpointName g service dnsName t = p @ ?s dnsName t" "length p \<le> 253 - length (?s dnsName t)"
    and p': "serviceDNSEndpointName g service dnsName' t' = p' @ ?s dnsName' t'"
    using serviceDNSEndpointName_parts by meson
  have h: "length (hex_bytes (take 6 (g_md5 g s))) = 12" for s using go_library.md5_length [OF assms(1)] by simp
  have bound: "length (?s dnsName t) \<le> 18" using assms(2) h by (auto simp: record_suffix_def)
  have same: "t = t' \<and> ?s dnsName t = ?s dnsName' t'" if "p @ ?s dnsName t = p' @ ?s dnsName' t'"
  proof -
    have r: "take 2 (rev (p @ ?s dnsName t)) = (if t = ''A'' then ''a-'' else ''aa'')"
      "take 2 (rev (p' @ ?s dnsName' t')) = (if t' = ''A'' then ''a-'' else ''aa'')"
      using assms(2,3) by (auto simp: record_suffix_def)
    have "t = t'" using r that assms(2,3) by (auto split: if_splits)
    moreover from this have "length (?s dnsName t) = length (?s dnsName' t')" using h by (simp add: record_suffix_def)
    ultimately show ?thesis using that by simp
  qed
  show ?thesis
    unfolding p(1) p' using p(2) bound same by (auto simp: record_suffix_def)
qed

theorem serviceDNSEndpointName_bounded_witness:
  "length (serviceDNSEndpointName reference_go (replicate 300 CHR ''x'') ''cdn.a.com'' ''A'') \<le> 253"
  using serviceDNSEndpointName_bounded [OF reference_go.go_library_axioms, of "''A''" "''A''"] by blast

end
