(* ===== verification/Service_Controller.thy ===== *)
theory Service_Controller
  imports Service_Cache
begin

text \<open>
  The service reconciler of the control plane (\<open>internal/controller/service_controller.go\<close>): it keeps
  a certificate for the names of a service, copies the issued certificate into the resource that is
  handed down, and keeps the application set that installs this resource in the routing and caching
  clusters, where the cache reconciler takes it up.
\<close>

section \<open>The model\<close>

definition wanted_certificate :: "golib \<Rightarrow> string \<Rightarrow> Service \<Rightarrow> ctl_error + Certificate \<times> string" where
  "wanted_certificate g clusterIssuerName service =
     (case CertBuilderFactory ''Service'' (om_Name (svc_Meta service)) (om_Namespace (svc_Meta service))
         (ss_Domain (svc_Spec service))
         \<lparr>issuer_Name = clusterIssuerName, issuer_Kind = ''ClusterIssuer'', issuer_Group = ''cert-manager.io''\<rparr> of
        Inl err \<Rightarrow> Inl err
      | Inr b \<Rightarrow> Cert_Build g
          (if ss_HostAliases (svc_Spec service) \<noteq> []
           then WithDNSNames (ss_Domain (svc_Spec service) # map ha_Name (ss_HostAliases (svc_Spec service))) b
           else b))"

text \<open>\<open>controllerutil.HasControllerReference\<close>: some owner reference is a controller reference.\<close>

definition HasControllerReference :: "ObjectMeta \<Rightarrow> bool" where
  "HasControllerReference m \<longleftrightarrow> GetControllerOf m \<noteq> None"

text \<open>The certificate section: \<open>Inl\<close> is what the reconciler returns, \<open>Inr\<close> the current certificate.\<close>

definition sync_certificate ::
  "golib \<Rightarrow> string \<Rightarrow> 'w client \<Rightarrow> Service \<Rightarrow> ('w, (Result \<times> ctl_error option) + Certificate) state" where
  "sync_certificate g clusterIssuerName c service =
     (case wanted_certificate g clusterIssuerName service of
        Inl err \<Rightarrow> State_Monad.return (Inl (done_result, Some err))
      | Inr (desiredCert, hash) \<Rightarrow> do {
          got \<leftarrow> Get c certificateR (in_namespace_of service (om_Name (svc_Meta service)));
          case got of
            Inl err \<Rightarrow>
              if err = NotFound then do {
                x \<leftarrow> create_owned g c certificateR (OService service) desiredCert;
                State_Monad.return (Inl (done_result, case settle x of Inl e \<Rightarrow> e | Inr _ \<Rightarrow> None))
              }
              else State_Monad.return (Inl (done_result, Some (ApiError err)))
          | Inr currCert \<Rightarrow>
              if om_DeletionTimestamp (crt_Meta currCert) \<noteq> None then State_Monad.return (Inl (done_result, None))
              else if \<not> HasControllerReference (crt_Meta currCert) then
                (case g_SetControllerReference g (OService service) (OCertificate currCert) of
                   Inl e \<Rightarrow> State_Monad.return (Inl (\<lparr>Requeue = True, RequeueAfter = 0\<rparr>, Some (ReferenceError e)))
                 | Inr owned \<Rightarrow> do {
                     u \<leftarrow> c_update c owned;
                     State_Monad.return (Inl (done_result, map_option ApiError (write_error u)))
                   })
              else if \<not> stamped hash (OCertificate currCert) then do {
                u \<leftarrow> Update c certificateR (currCert\<lparr>crt_Spec := crt_Spec desiredCert,
                  crt_Meta := (crt_Meta currCert)\<lparr>om_Annotations := om_Annotations (crt_Meta desiredCert)\<rparr>\<rparr>);
                State_Monad.return (Inl (done_result, map_option ApiError (write_error u)))
              }
              else State_Monad.return (Inr currCert)
        })"

definition serviceRawResource :: "Service \<Rightarrow> Service" where
  "serviceRawResource service = zero_Service\<lparr>svc_TypeMeta := svc_TypeMeta service,
     svc_Meta := (new_ObjectMeta (om_Name (svc_Meta service)) [])\<lparr>om_Labels := om_Labels (svc_Meta service)\<rparr>,
     svc_Spec := svc_Spec service\<rparr>"

text \<open>A missing entry of a Go map is the zero value.\<close>

definition entry :: "strmap \<Rightarrow> string \<Rightarrow> string" where
  "entry m k = (case fmlookup m k of None \<Rightarrow> [] | Some v \<Rightarrow> v)"

definition with_secret :: "Secret \<Rightarrow> Service \<Rightarrow> Service" where
  "with_secret secret raw = raw\<lparr>svc_Spec := (svc_Spec raw)\<lparr>ss_Certificate :=
     \<lparr>cert_CertificateRef = [], cert_SecretRef = [],
      cert_Crt = base64_encode (entry (sec_Data secret) ''tls.crt''),
      cert_Key = base64_encode (entry (sec_Data secret) ''tls.key'')\<rparr>\<rparr>\<rparr>"

text \<open>The loop over the conditions of the certificate\<close>

fun pass_certificate ::
  "'w client \<Rightarrow> Service \<Rightarrow> Certificate \<Rightarrow> CertCondition list \<Rightarrow> Service \<Rightarrow> ('w, ctl_error option + Service) state" where
  "pass_certificate c service cert [] raw = State_Monad.return (Inr raw)"
| "pass_certificate c service cert (cc # ccs) raw =
     (if crtc_Type cc = ''Ready'' \<and> crtc_Status cc = ''True'' then do {
        got \<leftarrow> Get c secretR (in_namespace_of service (crts_SecretName (crt_Spec cert)));
        case got of
          Inl err \<Rightarrow> State_Monad.return (Inl (if err = NotFound then None else Some (ApiError err)))
        | Inr secret \<Rightarrow> pass_certificate c service cert ccs (with_secret secret raw)
      }
      else pass_certificate c service cert ccs raw)"

definition wanted_appset :: "golib \<Rightarrow> ThrowerOptions \<Rightarrow> Service \<Rightarrow> Service \<Rightarrow> ctl_error + ApplicationSet \<times> string" where
  "wanted_appset g throwerOptions service raw =
     (case AppsetBuilderFactory ''Service'' (om_Name (svc_Meta service)) (om_Namespace (svc_Meta service)) throwerOptions of
        Inl err \<Rightarrow> Inl err
      | Inr b \<Rightarrow> (case Appset_WithHelmValues g [HService raw] b of Inl err \<Rightarrow> Inl err | Inr b' \<Rightarrow> Appset_Build g b'))"

definition adopt_appset :: "ApplicationSet \<Rightarrow> ApplicationSet \<Rightarrow> ApplicationSet" where
  "adopt_appset desired current = current\<lparr>aset_Spec := aset_Spec desired,
     aset_Meta := (aset_Meta current)\<lparr>om_Annotations := om_Annotations (aset_Meta desired)\<rparr>\<rparr>"

definition sync_appset ::
  "golib \<Rightarrow> ThrowerOptions \<Rightarrow> 'w client \<Rightarrow> Service \<Rightarrow> Service \<Rightarrow> ('w, ctl_error option + unit) state" where
  "sync_appset g throwerOptions c service raw =
     (case wanted_appset g throwerOptions service raw of
        Inl err \<Rightarrow> State_Monad.return (Inl (Some err))
      | Inr (desired, hash) \<Rightarrow> do {
          x \<leftarrow> ensure g c applicationSetR True adopt_appset (OService service)
            (in_namespace_of service (om_Name (svc_Meta service))) desired hash;
          State_Monad.return (map_sum id (\<lambda>_. ()) (settle x))
        })"

definition Service_Reconcile ::
  "golib \<Rightarrow> string \<Rightarrow> ThrowerOptions \<Rightarrow> 'w client \<Rightarrow> NamespacedName \<Rightarrow> ('w, Result \<times> ctl_error option) state" where
  "Service_Reconcile g clusterIssuerName throwerOptions c key = do {
     got \<leftarrow> Get c serviceR key;
     case got of
       Inl err \<Rightarrow> State_Monad.return (done_result, map_option ApiError (IgnoreNotFound (Some err)))
     | Inr service \<Rightarrow>
         if svc_Status service \<noteq> zero_ServiceStatus then do {
           x \<leftarrow> sync_certificate g clusterIssuerName c service;
           case x of
             Inl ret \<Rightarrow> State_Monad.return ret
           | Inr cert \<Rightarrow>
               and_then (pass_certificate c service cert (crt_Conditions cert) (serviceRawResource service)) (\<lambda>raw.
               and_then (sync_appset g throwerOptions c service raw) (\<lambda>_.
               if sst_Status (svc_Status service) \<noteq> HealthStatusHealthy then set_status c service HealthStatusHealthy
               else State_Monad.return (done_result, None)))
         }
         else set_status c service HealthStatusProgressing
   }"

section \<open>The certificate on its way to the caches\<close>

context operator_world
begin

lemma pass_certificate_wp:
  "wp (pass_certificate c service cert ccs raw) (\<lambda>x w'. st w' = st w \<and> (\<forall>raw'. x = Inr raw' \<longrightarrow>
     (if \<exists>cc \<in> set ccs. crtc_Type cc = ''Ready'' \<and> crtc_Status cc = ''True''
      then \<exists>secret. st w (KSecret, in_namespace_of service (crts_SecretName (crt_Spec cert))) = Some (OSecret secret) \<and>
        raw' = with_secret secret raw
      else raw' = raw))) w"
proof (induction ccs arbitrary: raw w)
  case Nil
  show ?case by (simp add: wp_def)
next
  case (Cons cc ccs)
  have twice: "with_secret a (with_secret b x) = with_secret a x" for a b x by (simp add: with_secret_def)
  show ?case
  proof (cases "crtc_Type cc = ''Ready'' \<and> crtc_Status cc = ''True''")
    case True
    then show ?thesis
      unfolding pass_certificate.simps if_P [OF True]
    proof (intro wp_bind secrets.Get_wp wp_sum, goal_cases)
      case (1 x w1 err)
      then show ?case by (intro wp_return) auto
    next
      case (2 x w1 secret)
      then show ?case
        by (intro wp_mono [OF Cons.IH [where w = w1]]) (auto simp: twice split: if_splits)
    qed
  next
    case False
    show ?thesis unfolding pass_certificate.simps if_not_P [OF False]
      by (rule wp_mono [OF Cons.IH]) (use False in auto)
  qed
qed

end

section \<open>Properties\<close>

text \<open>
  C35. The certificate arrives: when the certificate of a service is ready, the resource that the service
  reconciler hands down carries the key pair of the issued secret such that the cache reconciler of a
  cluster that receives this resource wants a TLS secret with exactly the same bytes (if the pair is not
  empty); the encoding for transport loses nothing.
\<close>

theorem certificate_reaches_cache:
  assumes "operator_world c st g"
    and "run_state (pass_certificate c service cert (crt_Conditions cert) (serviceRawResource service)) w = (Inr raw, w')"
    and "cc \<in> set (crt_Conditions cert)" "crtc_Type cc = ''Ready''" "crtc_Status cc = ''True''"
    and "st w (KSecret, in_namespace_of service (crts_SecretName (crt_Spec cert))) = Some (OSecret secret)"
    and "svc_Spec cached = svc_Spec raw" "wanted_tls g cached \<noteq> Inl MarshalError"
  shows "(has_certificate cached \<longleftrightarrow> entry (sec_Data secret) ''tls.crt'' \<noteq> [] \<and> entry (sec_Data secret) ''tls.key'' \<noteq> []) \<and>
    (\<exists>d h. wanted_tls g cached = Inr (d, h) \<and>
       sec_Data d = fmap_of_list [(''tls.crt'', entry (sec_Data secret) ''tls.crt''), (''tls.key'', entry (sec_Data secret) ''tls.key'')])"
proof -
  have "raw = with_secret secret (serviceRawResource service)"
    using wp_run [OF operator_world.pass_certificate_wp [OF assms(1)] assms(2)] assms(3-6) by (auto split: if_splits)
  then have cert: "cert_Crt (ss_Certificate (svc_Spec cached)) = base64_encode (entry (sec_Data secret) ''tls.crt'')"
    "cert_Key (ss_Certificate (svc_Spec cached)) = base64_encode (entry (sec_Data secret) ''tls.key'')"
    using assms(7) by (simp_all add: with_secret_def)
  have pair: "fmupd ''tls.key'' b (fmupd ''tls.crt'' a fmempty) = fmap_of_list [(''tls.crt'', a), (''tls.key'', b)]" for a b :: string
    by (rule fmap_ext) (auto simp: fmlookup_of_list)
  show ?thesis
    using assms(8) cert
    by (auto simp: has_certificate_def base64_encode_Nil_iff wanted_tls_def Secret_Build_def Secret_WithAnnotations_def
        NewSecretBuilder_def WithDataEntry_def Let_def pair split: option.splits)
qed

text \<open>Example: an issued certificate\<close>

definition issued_certificate :: Certificate where
  "issued_certificate = (NewDefaultCertBuilder ''s'' ''team-a'' ''a.com'')\<lparr>crt_Conditions := [\<lparr>crtc_Type = ''Ready'', crtc_Status = ''True''\<rparr>]\<rparr>"

definition issued_secret :: Secret where
  "issued_secret = WithDataEntry ''tls.key'' ''KEY'' (WithDataEntry ''tls.crt'' ''CERT'' (NewSecretBuilder ''a.com-tls'' ''team-a''))"

definition certified_service :: Service where
  "certified_service = zero_Service\<lparr>svc_Meta := new_ObjectMeta ''s'' ''team-a'', svc_Spec := zero_ServiceSpec\<lparr>ss_Domain := ''a.com''\<rparr>\<rparr>"

definition handed_down :: Service where
  "handed_down = with_secret issued_secret (serviceRawResource certified_service)"

lemma certificate_run:
  "run_state (pass_certificate ref_client certified_service issued_certificate (crt_Conditions issued_certificate)
     (serviceRawResource certified_service)) [OSecret issued_secret] = (Inr handed_down, [OSecret issued_secret])"
  "ref_st [OSecret issued_secret] (KSecret, in_namespace_of certified_service (crts_SecretName (crt_Spec issued_certificate))) =
     Some (OSecret issued_secret)"
  by code_simp+

theorem certificate_reaches_cache_witness:
  "\<exists>d h. wanted_tls reference_go handed_down = Inr (d, h) \<and>
     sec_Data d = fmap_of_list [(''tls.crt'', entry (sec_Data issued_secret) ''tls.crt''), (''tls.key'', entry (sec_Data issued_secret) ''tls.key'')]"
proof -
  have "wanted_tls reference_go handed_down \<noteq> Inl MarshalError"
    by (simp add: wanted_tls_def handed_down_def with_secret_def Secret_Build_def reference_go_def Let_def)
  then show ?thesis
    using certificate_reaches_cache [OF reference_operator.operator_world_axioms certificate_run(1),
        of "\<lparr>crtc_Type = ''Ready'', crtc_Status = ''True''\<rparr>" issued_secret handed_down] certificate_run(2)
    by (simp add: issued_certificate_def)
qed

end
