(* ===== verification/Service_Safety.thy ===== *)
theory Service_Safety
  imports Service_Controller
begin

text \<open>
  What the service reconciler of the control plane may change, and what its report of a healthy
  service means.
\<close>

section \<open>The wanted objects\<close>

lemma appset_WithHelmValues_id: "Appset_WithHelmValues g values b = Inr b' \<Longrightarrow> id_of (OApplicationSet b') = id_of (OApplicationSet b)"
  by (auto simp: Appset_WithHelmValues_def map_template_def id_of_def split: list.splits option.splits)

lemma appset_factory_id:
  assumes "AppsetBuilderFactory builderType name namespace opts = Inr b"
  shows "id_of (OApplicationSet b) = (KApplicationSet, \<lparr>nn_Namespace = namespace, nn_Name = name\<rparr>)"
proof -
  have "id_of (OApplicationSet b) = (KApplicationSet, \<lparr>nn_Namespace = namespace, nn_Name = name\<rparr>)"
    if "throwable_appset prefix matchers name namespace opts = Inr b" for prefix matchers
    using that by (auto simp: throwable_appset_def Appset_WithHelmChartParams_def NewThrowableAppsetBuilder_def WithLabelMatchers_def
        WithAppsetMeta_def Appset_WithProject_def WithTargetAppMeta_def map_template_def id_of_def key_of_def)
  then show ?thesis using assms by (auto simp: AppsetBuilderFactory_def split: if_splits)
qed

abbreviation service_key :: "Service \<Rightarrow> NamespacedName" where
  "service_key service \<equiv> in_namespace_of service (om_Name (svc_Meta service))"

lemma service_key: "key_of (svc_Meta service) = service_key service"
  by (simp add: key_of_def in_namespace_of_def)

text \<open>The certificate and the application set are there with the hashes of what the service asks for.\<close>

definition certificate_ready :: "golib \<Rightarrow> string \<Rightarrow> Service \<Rightarrow> store \<Rightarrow> bool" where
  "certificate_ready g issuer service s \<longleftrightarrow>
     (\<exists>d h. wanted_certificate g issuer service = Inr (d, h) \<and> ready s (KCertificate, service_key service) h)"

definition installed :: "golib \<Rightarrow> string \<Rightarrow> ThrowerOptions \<Rightarrow> Service \<Rightarrow> store \<Rightarrow> bool" where
  "installed g issuer opts service s \<longleftrightarrow> certificate_ready g issuer service s \<and>
     (\<exists>raw d h. (raw = serviceRawResource service \<or>
          (\<exists>i secret. s (KSecret, i) = Some (OSecret secret) \<and> raw = with_secret secret (serviceRawResource service))) \<and>
        wanted_appset g opts service raw = Inr (d, h) \<and> ready s (KApplicationSet, service_key service) h)"

text \<open>What a call does to an existing service\<close>

definition service_step :: "golib \<Rightarrow> string \<Rightarrow> ThrowerOptions \<Rightarrow> NamespacedName \<Rightarrow> Service \<Rightarrow> store \<Rightarrow> store \<Rightarrow> bool" where
  "service_step g issuer opts key service s s' \<longleftrightarrow> only_at {(KCertificate, key)} s s' \<or> only_at {(KApplicationSet, key)} s s' \<or>
     only_status (KService, key) s s' \<and> (\<exists>service'. s' (KService, key) = Some (OService service') \<and>
       (sst_Status (svc_Status service') = HealthStatusHealthy \<longrightarrow> installed g issuer opts service s))"

context operator_world
begin

lemma wanted_appset_object:
  assumes "wanted_appset g opts service raw = Inr (d, h)"
  shows "wanted_object c st applicationSetR g adopt_appset (service_key service) d h"
proof
  have "id_of (OApplicationSet d) = (KApplicationSet, service_key service) \<and> stamped h (OApplicationSet d)"
    using assms
    by (auto simp: wanted_appset_def in_namespace_of_def split: sum.splits dest!: builds_stamped(5) appset_WithHelmValues_id appset_factory_id)
  then show "id_of (r_in applicationSetR d) = (r_kind applicationSetR, service_key service)" "stamped h (r_in applicationSetR d)"
    by simp_all
qed (simp add: id_of_def key_of_def adopt_appset_def)

lemma sync_appset_wp:
  "wp (sync_appset g opts c service raw) (\<lambda>x w'. only_at {(KApplicationSet, service_key service)} (st w) (st w') \<and>
     (x = Inr () \<longrightarrow> st w' = st w \<and>
       (\<exists>d h. wanted_appset g opts service raw = Inr (d, h) \<and> ready (st w) (KApplicationSet, service_key service) h))) w"
  unfolding sync_appset_def
proof (intro wp_sum wp_prod wp_return, goal_cases)
  case (2 b d h)
  then have "wanted_object c st applicationSetR g adopt_appset (service_key service) d h" by (intro wanted_appset_object) simp
  from ensure_section_wp [OF this] 2 show ?case by (fastforce elim!: wp_mono)
qed simp

lemma wanted_certificate_id:
  assumes "wanted_certificate g issuer service = Inr (d, h)"
  shows "id_of (OCertificate d) = (KCertificate, service_key service)" "stamped h (OCertificate d)"
  using assms
  by (auto simp: wanted_certificate_def CertBuilderFactory_def WithIssuerRef_def NewDefaultCertBuilder_def WithDNSNames_def
      id_of_def key_of_def in_namespace_of_def new_ObjectMeta_def split: sum.splits if_splits dest!: builds_stamped(2))

text \<open>Setting the controller reference keeps the address.\<close>

lemma reference_id:
  assumes "g_SetControllerReference g owner ob = Inr owned"
  shows "id_of owned = id_of ob"
proof -
  have "owned = map_meta (\<lambda>m. m\<lparr>om_OwnerReferences := om_OwnerReferences (obj_meta owned)\<rparr>) ob"
    using reference_set [OF assms] by blast
  then have "obj_meta owned = (obj_meta ob)\<lparr>om_OwnerReferences := om_OwnerReferences (obj_meta owned)\<rparr>" "kind_of owned = kind_of ob"
    by (metis obj_meta_map_meta, metis kind_of_map_meta)
  then show ?thesis by (simp add: id_of_def key_of_def) (metis ObjectMeta.ext_inject ObjectMeta.surjective ObjectMeta.update_convs(11))
qed

lemma sync_certificate_wp:
  "wp (sync_certificate g issuer c service) (\<lambda>x w'. only_at {(KCertificate, service_key service)} (st w) (st w') \<and>
     (\<forall>cert. x = Inr cert \<longrightarrow> st w' = st w \<and> certificate_ready g issuer service (st w))) w"
proof -
  let ?i = "(KCertificate, service_key service)"
  have cur: "id_of (OCertificate cur) = ?i" if "st w ?i = Some (OCertificate cur)" for cur using stored_id [OF that] .
  have new: "only_at {?i} (st w) s'" if "creates (st w) owned s' ob"
    "g_SetControllerReference g (OService service) (OCertificate d) = Inr owned" "wanted_certificate g issuer service = Inr (d, h)"
    for owned s' ob d h
    using writes_only_at(1) [OF that(1)] reference_id [OF that(2)] wanted_certificate_id [OF that(3)] by simp
  have adopt: "only_at {?i} (st w) s'" if "updates (st w) owned s' ob" "st w ?i = Some (OCertificate cur)"
    "g_SetControllerReference g (OService service) (OCertificate cur) = Inr owned" for owned s' ob cur
    using writes_only_at(2) [OF that(1)] reference_id [OF that(3)] cur [OF that(2)] by simp
  have upd: "only_at {?i} (st w) s'" if "updates (st w) (OCertificate (cur\<lparr>crt_Spec := sp, crt_Meta := (crt_Meta cur)\<lparr>om_Annotations := a\<rparr>\<rparr>)) s' ob"
    "st w ?i = Some (OCertificate cur)" for sp a s' ob cur
    using writes_only_at(2) [OF that(1)] cur [OF that(2)] by (simp add: id_of_def key_of_def)
  show ?thesis
    unfolding sync_certificate_def create_owned_def
    by (intro wp certificates.Get_wp certificates.Update_wp)
      (auto simp: certificate_ready_def ready_def intro: new adopt upd)
qed

lemma service_status_wp:
  assumes "st w = s" "s (KService, key) = Some (OService service)"
    and "status = HealthStatusHealthy \<Longrightarrow> installed g issuer opts service s"
  shows "wp (set_status c service status) (\<lambda>_ w'. service_step g issuer opts key service s (st w')) w"
proof -
  have w: "st w (KService, key) = Some (OService service)" using assms(1,2) by simp
  have "key_of (svc_Meta service) = key" using stored_id [OF w] by (simp add: id_of_def)
  from set_status_wp [OF w this, of status] show ?thesis
    by (rule wp_mono) (use assms(1,3) in \<open>auto simp: service_step_def\<close>)
qed

lemma service_install_wp:
  assumes w: "st w = s" "s (KService, key) = Some (OService service)" "certificate_ready g issuer service s"
  shows "wp (and_then (pass_certificate c service cert (crt_Conditions cert) (serviceRawResource service)) (\<lambda>raw.
      and_then (sync_appset g opts c service raw) (\<lambda>_.
      if sst_Status (svc_Status service) \<noteq> HealthStatusHealthy then set_status c service HealthStatusHealthy
      else State_Monad.return (done_result, None))))
    (\<lambda>_ w'. service_step g issuer opts key service s (st w')) w"
proof -
  let ?raw = "\<lambda>raw. raw = serviceRawResource service \<or>
    (\<exists>i secret. s (KSecret, i) = Some (OSecret secret) \<and> raw = with_secret secret (serviceRawResource service))"
  have "id_of (OService service) = (KService, key)" using stored_id [of w "(KService, key)"] w(1,2) by simp
  then have key: "service_key service = key" using service_key [of service] by (simp add: id_of_def)
  have final: "wp (if sst_Status (svc_Status service) \<noteq> HealthStatusHealthy then set_status c service HealthStatusHealthy
      else State_Monad.return (done_result, None)) (\<lambda>_ w'. service_step g issuer opts key service s (st w')) w2"
    if "st w2 = s" "installed g issuer opts service s" for w2
    by (intro wp_if wp_return service_status_wp) (use that w(2) in \<open>simp_all add: service_step_def\<close>)
  have rest: "wp (and_then (sync_appset g opts c service raw) (\<lambda>_.
      if sst_Status (svc_Status service) \<noteq> HealthStatusHealthy then set_status c service HealthStatusHealthy
      else State_Monad.return (done_result, None))) (\<lambda>_ w'. service_step g issuer opts key service s (st w')) w1"
    if w1: "st w1 = s" "?raw raw" for w1 raw
  proof (rule and_then_wp, rule wp_mono [OF sync_appset_wp], goal_cases)
    case (1 x w2)
    show ?case
    proof (cases x)
      case (Inl e)
      then show ?thesis using 1 w1(1) key by (auto simp: service_step_def)
    next
      case (Inr u)
      then have "st w2 = s" "\<exists>d h. wanted_appset g opts service raw = Inr (d, h) \<and> ready s (KApplicationSet, service_key service) h"
        using 1 w1(1) by auto
      moreover from this(2) have "installed g issuer opts service s" using w(3) w1(2) unfolding installed_def by blast
      ultimately show ?thesis using final [of w2] Inr by simp
    qed
  qed
  show ?thesis
  proof (rule and_then_wp, rule wp_mono [OF pass_certificate_wp], goal_cases)
    case (1 x w1)
    then have s: "st w1 = s" and raw: "\<And>raw. x = Inr raw \<Longrightarrow> ?raw raw" using w(1) by (auto split: if_splits)
    show ?case
    proof (cases x)
      case (Inl e)
      then show ?thesis using s by (simp add: service_step_def)
    next
      case (Inr y)
      from rest [OF s raw [OF Inr]] Inr show ?thesis by simp
    qed
  qed
qed

lemma Service_Reconcile_wp:
  "wp (Service_Reconcile g issuer opts c key) (\<lambda>_ w'. st w' = st w \<or> (\<exists>service. st w (KService, key) = Some (OService service) \<and>
     service_step g issuer opts key service (st w) (st w'))) w"
  unfolding Service_Reconcile_def
proof (intro wp_bind services.Get_wp wp_sum wp_if wp_return, goal_cases)
  case (2 x w1 service)
  then have s: "st w1 = st w" "st w (KService, key) = Some (OService service)" by simp_all
  have key: "service_key service = key" using stored_id [OF s(2)] service_key [of service] by (simp add: id_of_def)
  show ?case
  proof (rule wp_mono [OF sync_certificate_wp], intro wp_sum wp_return, goal_cases)
    case (1 y w2 ret)
    then show ?case using s key by (auto simp: service_step_def)
  next
    case (2 y w2 cert)
    then have "st w2 = st w" "certificate_ready g issuer service (st w)" using s by auto
    from service_install_wp [OF this(1) s(2) this(2)] show ?case by (rule wp_mono) (use s in auto)
  qed
next
  case (3 x w1 service)
  then have s: "st w1 = st w" "st w (KService, key) = Some (OService service)" by simp_all
  show ?case
    by (rule wp_mono [OF service_status_wp [OF s, where status = HealthStatusProgressing and issuer = issuer and opts = opts]])
      (use s(2) in \<open>auto simp: HealthStatusProgressing_def HealthStatusHealthy_def\<close>)
qed auto

end

text \<open>Example: the service of the cache example on the control plane, up to the call that reports it healthy\<close>

definition installed_thrower :: ThrowerOptions where
  "installed_thrower = \<lparr>to_ThrowerChartName = ''thrower'', to_ThrowerChartVersion = ''1.0.0'',
     to_ThrowerChartRepository = ''charts'', to_TargetNamespace = ''edgecdnx'', to_ApplicationSetProject = ''default''\<rparr>"

definition service_world :: "nat \<Rightarrow> kobject list" where
  "service_world n = ((\<lambda>w. snd (run_state (Service_Reconcile reference_go ''issuer'' installed_thrower ref_client cache_key) w)) ^^ n)
     [OService cached_service]"

lemma service_runs:
  "ref_st (service_world 2) (KService, cache_key) = Some (OService cached_service)"
  "ref_st (service_world 3) (KService, cache_key) =
     Some (OService (cached_service\<lparr>svc_Status := \<lparr>sst_Status = HealthStatusHealthy\<rparr>\<rparr>))"
  by code_simp+

lemma service_world_run: "\<exists>res err. run_state (Service_Reconcile reference_go ''issuer'' installed_thrower ref_client cache_key) (service_world 2) =
    ((res, err), service_world 3)"
  by (auto simp: service_world_def numeral_2_eq_2 numeral_3_eq_3) (metis prod.collapse)

section \<open>Properties\<close>

text \<open>
  C36. The service reconciler of the control plane changes only the certificate and the application set with the name of the service, and
  the status of the service.
\<close>

theorem service_touches_own_objects:
  assumes "operator_world c st g" and "run_state (Service_Reconcile g issuer opts c key) w = ((res, err), w')"
    and "st w (KService, key) = Some (OService service)"
  shows "only_at {(KService, key), (KCertificate, key), (KApplicationSet, key)} (st w) (st w') \<and>
    (\<exists>service'. st w' (KService, key) = Some (OService service') \<and> core (OService service') = core (OService service))"
proof -
  from wp_run [OF operator_world.Service_Reconcile_wp [OF assms(1)] assms(2)] assms(3)
  consider "only_at {(KCertificate, key)} (st w) (st w')" | "only_at {(KApplicationSet, key)} (st w) (st w')"
    | "only_status (KService, key) (st w) (st w')"
    unfolding service_step_def by fastforce
  then show ?thesis
  proof cases
    case 3
    from only_at_mono [OF only_status_only_at [OF 3]] only_status_service [OF 3 assms(3)] show ?thesis by simp
  qed (use assms(3) in \<open>auto simp: only_at_def\<close>)
qed

theorem service_touches_own_objects_witness:
  "only_at {(KService, cache_key), (KCertificate, cache_key), (KApplicationSet, cache_key)}
     (ref_st (service_world 2)) (ref_st (service_world 3))"
proof -
  obtain res err where "run_state (Service_Reconcile reference_go ''issuer'' installed_thrower ref_client cache_key) (service_world 2) =
    ((res, err), service_world 3)" using service_world_run by blast
  from service_touches_own_objects [OF reference_operator.operator_world_axioms this service_runs(1)] show ?thesis by blast
qed

text \<open>
  C10. The service reconciler reports a service healthy only when it is installed: when a call has set the status to healthy, the
  certificate and the application set with the name of the service exist and carry the hashes of what the service asks for,
  where the application set hands down the service as it is or with the key pair of a stored secret.
\<close>

theorem service_healthy_means_installed:
  assumes "operator_world c st g" and "run_state (Service_Reconcile g issuer opts c key) w = ((res, err), w')"
    and "st w (KService, key) = Some (OService service)" "sst_Status (svc_Status service) \<noteq> HealthStatusHealthy"
    and "st w' (KService, key) = Some (OService service')" "sst_Status (svc_Status service') = HealthStatusHealthy"
  shows "installed g issuer opts service (st w')"
proof -
  have changed: "st w' (KService, key) \<noteq> st w (KService, key)" using assms(3-6) by auto
  from wp_run [OF operator_world.Service_Reconcile_wp [OF assms(1)] assms(2)] assms(3) changed
  have "service_step g issuer opts key service (st w) (st w')" by auto
  then have s: "only_status (KService, key) (st w) (st w')" "installed g issuer opts service (st w)"
    using changed assms(5,6) by (auto simp: service_step_def only_at_def)
  have "st w' (k, i) = st w (k, i)" if "k \<noteq> KService" for k i using s(1) that by (simp add: only_status_def)
  then show ?thesis using s(2) by (simp add: installed_def certificate_ready_def ready_def)
qed

theorem service_healthy_means_installed_witness:
  "installed reference_go ''issuer'' installed_thrower cached_service (ref_st (service_world 3))"
proof -
  obtain res err where run: "run_state (Service_Reconcile reference_go ''issuer'' installed_thrower ref_client cache_key) (service_world 2) =
    ((res, err), service_world 3)" using service_world_run by blast
  show ?thesis
    by (rule service_healthy_means_installed [OF reference_operator.operator_world_axioms run service_runs(1) _ service_runs(2)])
      (simp_all add: cached_service_def HealthStatusProgressing_def HealthStatusHealthy_def)
qed

end
