(* ===== verification/Guarded_Cluster.thy ===== *)
theory Guarded_Cluster
  imports Admission Service_Routing Service_Safety Downstream
begin

text \<open>
  The reconcilers behind the webhooks: an API server that asks the webhooks before it stores what a client
  creates or updates. It keeps the laws of the API server, so that everything shown of a reconciler holds of it there, and the calls
  of any client of it are steps of the cluster, so that everything shown of an admitted cluster holds beside the reconcilers. What the two
  do together: a zone that is being deleted after its project never goes.
\<close>

section \<open>The guarded client\<close>

definition stored :: "store \<Rightarrow> kobject set" where
  "stored s = {ob. s (id_of ob) = Some ob}"

definition denied :: apierr where
  "denied = OtherError ''admission webhook denied the request''"

text \<open>\<open>rd w\<close> is what the webhooks read in the world \<open>w\<close>.\<close>

definition guarded :: "gatekeeper \<Rightarrow> ('w \<Rightarrow> api_reads) \<Rightarrow> ('w \<Rightarrow> store) \<Rightarrow> 'w client \<Rightarrow> 'w client" where
  "guarded gk rd st c = c\<lparr>
     c_create := (\<lambda>ob. State (\<lambda>w.
       if admission gk (rd w) (CreateRequest ob) = [] then run_state (c_create c ob) w else (Inl denied, w))),
     c_update := (\<lambda>ob. State (\<lambda>w. case st w (id_of ob) of
         None \<Rightarrow> run_state (c_update c ob) w
       | Some old \<Rightarrow>
           if admission gk (rd w) (UpdateRequest old ob) = [] then run_state (c_update c ob) w else (Inl denied, w)))\<rparr>"

lemma guarded_calls [simp]:
  "c_get (guarded gk rd st c) = c_get c" "c_list (guarded gk rd st c) = c_list c"
  "c_status (guarded gk rd st c) = c_status c" "c_delete (guarded gk rd st c) = c_delete c"
  by (simp_all add: guarded_def)

lemma guarded_create:
  assumes "run_state (c_create (guarded gk rd st c) ob) w = (r, w')"
  obtains "r = Inl denied" "w' = w" | "admission gk (rd w) (CreateRequest ob) = []" "run_state (c_create c ob) w = (r, w')"
  using assms by (auto simp: guarded_def split: if_splits)

lemma guarded_update:
  assumes "run_state (c_update (guarded gk rd st c) ob) w = (r, w')"
  obtains "r = Inl denied" "w' = w"
  | "run_state (c_update c ob) w = (r, w')" "\<And>old. st w (id_of ob) = Some old \<Longrightarrow> admission gk (rd w) (UpdateRequest old ob) = []"
  using assms by (auto simp: guarded_def split: if_splits option.splits)

lemma guarded_api_server:
  assumes "api_server c st"
  shows "api_server (guarded gk rd st c) st"
proof -
  note a = assms
  show ?thesis
  proof
    show "st w i = Some ob \<Longrightarrow> id_of ob = i" for w i ob by (rule api_server.stored_id [OF a])
    show "st w' = st w \<and> (case r of Inr ob \<Rightarrow> st w (k, key) = Some ob | Inl e \<Rightarrow> e = NotFound \<longrightarrow> st w (k, key) = None)"
      if "run_state (c_get (guarded gk rd st c) k key) w = (r, w')" for k key w r w'
      using api_server.get_law [OF a] that by simp
    show "st w' = st w \<and> (case rl of Inr obs \<Rightarrow> set obs = {ob. st w (id_of ob) = Some ob \<and> kind_of ob = k \<and> selects ns labels ob} | Inl e \<Rightarrow> True)"
      if "run_state (c_list (guarded gk rd st c) k ns labels) w = (rl, w')" for k ns labels w rl w'
      using api_server.list_law [OF a] that by simp
    show "write_law (\<lambda>s s' ob'. creates s ob s' ob') (st w) (st w') r \<and> (r = Inl AlreadyExists \<longrightarrow> st w (id_of ob) \<noteq> None)"
      if "run_state (c_create (guarded gk rd st c) ob) w = (r, w')" for ob w r w'
      using that by (rule guarded_create) (use api_server.create_law [OF a] in \<open>simp_all add: denied_def\<close>)
    show "write_law (\<lambda>s s' ob'. updates s ob s' ob') (st w) (st w') r"
      if "run_state (c_update (guarded gk rd st c) ob) w = (r, w')" for ob w r w'
      using that by (rule guarded_update) (use api_server.update_law [OF a] in \<open>simp_all add: denied_def\<close>)
    show "write_law (\<lambda>s s' ob'. status_updates s ob s' ob') (st w) (st w') r"
      if "run_state (c_status (guarded gk rd st c) ob) w = (r, w')" for ob w r w'
      using api_server.status_law [OF a] that by simp
    show "write_law (\<lambda>s s' u. deletes s ob s') (st w) (st w') rs \<and> (rs = Inl NotFound \<longrightarrow> st w (id_of ob) = None)"
      if "run_state (c_delete (guarded gk rd st c) ob) w = (rs, w')" for ob w rs w'
      using api_server.delete_law [OF a] that by simp
  qed
qed

section \<open>Invariants of a client\<close>

text \<open>A program keeps what all calls keep.\<close>

named_theorems keeps \<open>rules for programs that keep an invariant of the world\<close>

definition keeps :: "('w \<Rightarrow> bool) \<Rightarrow> ('w, 'a) state \<Rightarrow> bool" where
  "keeps I m \<longleftrightarrow> (\<forall>w. I w \<longrightarrow> I (snd (run_state m w)))"

lemma keeps_run: "keeps I m \<Longrightarrow> run_state m w = (x, w') \<Longrightarrow> I w \<Longrightarrow> I w'"
  by (metis keeps_def snd_conv)

lemma keepsI: "(\<And>w x w'. I w \<Longrightarrow> run_state m w = (x, w') \<Longrightarrow> I w') \<Longrightarrow> keeps I m"
  by (metis keeps_def prod.collapse)

lemma keeps_return [keeps]: "keeps I (State_Monad.return x)"
  by (simp add: keeps_def)

lemma keeps_bind [keeps]: "keeps I m \<Longrightarrow> (\<And>x. keeps I (f x)) \<Longrightarrow> keeps I (State_Monad.bind m f)"
  by (simp add: keeps_def run_state_bind split: prod.split) (metis snd_conv)

lemma keeps_cases [keeps]:
  "(b \<Longrightarrow> keeps I m) \<Longrightarrow> (\<not> b \<Longrightarrow> keeps I n) \<Longrightarrow> keeps I (if b then m else n)"
  "(\<And>a. keeps I (f1 a)) \<Longrightarrow> (\<And>a. keeps I (g1 a)) \<Longrightarrow> keeps I (case x1 of Inl a \<Rightarrow> f1 a | Inr a \<Rightarrow> g1 a)"
  "keeps I m \<Longrightarrow> (\<And>a. keeps I (f2 a)) \<Longrightarrow> keeps I (case x2 of None \<Rightarrow> m | Some a \<Rightarrow> f2 a)"
  "(\<And>a b. keeps I (f3 a b)) \<Longrightarrow> keeps I (case x3 of (a, b) \<Rightarrow> f3 a b)"
  "(\<And>y. keeps I (f4 y)) \<Longrightarrow> keeps I (let y = x4 in f4 y)"
  by (simp_all split: sum.split option.split prod.split)

lemma keeps_each [keeps]: "(\<And>x. keeps I (f x)) \<Longrightarrow> keeps I (each f xs)"
  by (induction xs) (simp_all add: keeps)

lemma keeps_and_then [keeps]: "keeps I m \<Longrightarrow> (\<And>x. keeps I (f x)) \<Longrightarrow> keeps I (and_then m f)"
  unfolding and_then_def by (intro keeps)

text \<open>The interface: the six calls keep the invariant. Then every reconciler does.\<close>

locale kept_by_calls =
  fixes c :: "'w client" and I :: "'w \<Rightarrow> bool"
  assumes keeps_get: "keeps I (c_get c k key)"
    and keeps_list: "keeps I (c_list c k ns labels)"
    and keeps_create: "keeps I (c_create c ob)"
    and keeps_update: "keeps I (c_update c ob)"
    and keeps_status: "keeps I (c_status c ob)"
    and keeps_delete: "keeps I (c_delete c ob)"
begin

lemmas keeps_calls [keeps] = keeps_get keeps_list keeps_create keeps_update keeps_status keeps_delete

lemma keeps_typed [keeps]:
  "keeps I (Get c r key)" "keeps I (List c r ns labels)" "keeps I (Create c r x)" "keeps I (Update c r x)"
  "keeps I (StatusUpdate c r x)" "keeps I (Delete c r x)"
  unfolding typed_defs by (intro keeps)+

lemma keeps_ensure [keeps]: "keeps I (ensure g c r skip adopt owner key desired hash)"
  unfolding ensure_def create_owned_def by (intro keeps)

lemma keeps_set_status [keeps]: "keeps I (set_status c service status)"
  unfolding set_status_def by (intro keeps)

lemma keeps_status_reconcilers:
  "keeps I (HealthCheckProfile_Reconcile c key)" "keeps I (Location_Reconcile c key)" "keeps I (PrefixList_Reconcile c key)"
  unfolding HealthCheckProfile_Reconcile_def Location_Reconcile_def PrefixList_Reconcile_def by (intro keeps)+

lemma keeps_delete_endpoints [keeps]: "keeps I (delete_endpoints c name es pending)"
  by (induction es arbitrary: pending) (auto intro!: keeps split: option.split)

lemma keeps_Zone_Reconcile: "keeps I (Zone_Reconcile c key)"
  unfolding Zone_Reconcile_def Zone_cleanup_def Zone_settle_def by (intro keeps)

lemma keeps_ServiceRouting_Reconcile: "keeps I (ServiceRouting_Reconcile g dl c key)"
  unfolding ServiceRouting_Reconcile_def sync_name_def sync_record_def delete_stale_def by (intro keeps)

lemma keeps_ServiceCache_Reconcile: "keeps I (ServiceCache_Reconcile g endpoint c key)"
  unfolding ServiceCache_Reconcile_def sync_backend_def sync_gateway_def sync_tls_def sync_ingress_def by (intro keeps)

lemma keeps_pass_certificate [keeps]: "keeps I (pass_certificate c service cert ccs raw)"
  by (induction ccs arbitrary: raw) (auto intro!: keeps split: sum.split)

lemma keeps_reconcileKey: "keeps I (reconcileKey c up r nss queued)"
  unfolding reconcileKey_def deleteMirror_def ensureNamespace_def upsert_def by (intro keeps)

lemma keeps_Service_Reconcile: "keeps I (Service_Reconcile g issuer opts c key)"
  unfolding Service_Reconcile_def sync_certificate_def sync_appset_def create_owned_def by (intro keeps)

end

section \<open>Calls are steps of the cluster\<close>

text \<open>A server behind webhooks that read what is stored, or fail\<close>

locale guarded_cluster = api_server c st
  for c :: "'w client" and st :: "'w \<Rightarrow> store" +
  fixes gk :: gatekeeper and rd :: "'w \<Rightarrow> api_reads"
  assumes reads: "honest (rd w) (stored (st w))"
begin

lemma stored_put:
  assumes "st w' = (st w)(id_of ob \<mapsto> ob')" "id_of ob' = id_of ob"
  shows "stored (st w') = put ob' (stored (st w))"
  using assms by (auto simp: stored_def put_def split: if_splits)

lemma stored_drop:
  assumes "st w' = (st w)(id_of ob := None)" "st w (id_of ob) = Some old"
  shows "stored (st w') = stored (st w) - {old}"
  using assms stored_id [OF assms(2)] by (auto simp: stored_def split: if_splits)

lemma in_stored: "st w (id_of ob) = Some old \<Longrightarrow> old \<in> stored (st w) \<and> id_of old = id_of ob"
  using stored_id [of w "id_of ob" old] by (simp add: stored_def)

text \<open>What a write that the webhooks allowed does\<close>

lemma creates_step:
  assumes "creates (st w) ob (st w') ob'" "admission gk (rd w) (CreateRequest ob) = []"
  shows "cluster_step gk (stored (st w)) (stored (st w'))"
proof -
  have "id_of ob \<notin> id_of ` stored (st w)" "core ob' = core ob" using assms(1) by (auto simp: creates_def stored_def image_iff)
  from cluster_step.create [OF reads assms(2) this] stored_put [of w' w ob ob'] core_id [OF this(2)] assms(1)
  show ?thesis by (simp add: creates_def)
qed

lemma drops_step: "st w' = (st w)(id_of ob := None) \<Longrightarrow> st w (id_of ob) = Some old \<Longrightarrow> cluster_step gk (stored (st w)) (stored (st w'))"
  using stored_drop [of w' w ob old] cluster_step.remove [of gk "rd w" old "stored (st w)"] by simp

lemma touches_step:
  assumes "st w (id_of ob) = Some old" "core ob' = core old" "st w' = (st w)(id_of ob \<mapsto> ob')"
  shows "cluster_step gk (stored (st w)) (stored (st w'))"
  using cluster_step.touch [of old "stored (st w)" ob' gk] in_stored [OF assms(1)] stored_put [OF assms(3)] core_id [OF assms(2)] assms(2)
  by simp

lemma updates_step:
  assumes "updates (st w) ob (st w') ob'" "\<And>old. st w (id_of ob) = Some old \<Longrightarrow> admission gk (rd w) (UpdateRequest old ob) = []"
  shows "cluster_step gk (stored (st w)) (stored (st w'))"
proof -
  obtain old where old: "st w (id_of ob) = Some old" "core ob' = core ob"
    "st w' = (st w)(id_of ob := None) \<or> st w' = (st w)(id_of ob \<mapsto> ob')"
    using assms(1) unfolding updates_def by metis
  from cluster_step.update [OF reads _ _ assms(2) [OF old(1)] old(2)] in_stored [OF old(1)]
  have "cluster_step gk (stored (st w)) (put ob' (stored (st w)))" by simp
  with old(3) drops_step [OF _ old(1)] stored_put [of w' w ob ob'] core_id [OF old(2)] show ?thesis by auto
qed

lemma status_updates_step: "status_updates (st w) ob (st w') ob' \<Longrightarrow> cluster_step gk (stored (st w)) (stored (st w'))"
  unfolding status_updates_def using touches_step by blast

lemma deletes_step: "deletes (st w) ob (st w') \<Longrightarrow> cluster_step gk (stored (st w)) (stored (st w'))"
  unfolding deletes_def using drops_step touches_step by (metis (no_types))

end

sublocale guarded_cluster \<subseteq> behind: api_server "guarded gk rd st c" st
  by (rule guarded_api_server) (fact api_server_axioms)

sublocale guarded_cluster \<subseteq> admitted: kept_by_calls "guarded gk rd st c" "\<lambda>w. admitted_cluster gk (stored (st w))"
proof
  fix k key ns labels ob
  note go = admitted_cluster.step
  show "keeps (\<lambda>w. admitted_cluster gk (stored (st w))) (c_get (guarded gk rd st c) k key)"
    by (rule keepsI) (metis behind.get_law)
  show "keeps (\<lambda>w. admitted_cluster gk (stored (st w))) (c_list (guarded gk rd st c) k ns labels)"
    by (rule keepsI) (metis behind.list_law)
  show "keeps (\<lambda>w. admitted_cluster gk (stored (st w))) (c_create (guarded gk rd st c) ob)"
    by (rule keepsI, erule guarded_create) (use write_law_cases [OF conjunct1 [OF create_law]] creates_step go in metis)+
  show "keeps (\<lambda>w. admitted_cluster gk (stored (st w))) (c_update (guarded gk rd st c) ob)"
    by (rule keepsI, erule guarded_update) (use write_law_cases [OF update_law] updates_step go in metis)+
  show "keeps (\<lambda>w. admitted_cluster gk (stored (st w))) (c_status (guarded gk rd st c) ob)"
    by (rule keepsI) (metis write_law_cases [OF behind.status_law] status_updates_step go)
  show "keeps (\<lambda>w. admitted_cluster gk (stored (st w))) (c_delete (guarded gk rd st c) ob)"
    by (rule keepsI) (metis write_law_cases [OF conjunct1 [OF behind.delete_law]] deletes_step go)
qed

section \<open>A zone without its project\<close>

definition project_dead :: "Zone \<Rightarrow> store \<Rightarrow> bool" where
  "project_dead zone s \<longleftrightarrow> (\<forall>p project. zones_Project (zone_Spec zone) = Some p \<and>
     s (KProject, \<lparr>nn_Namespace = om_Namespace (zone_Meta zone), nn_Name = lor_Name p\<rparr>) = Some project \<longrightarrow>
     om_DeletionTimestamp (obj_meta project) \<noteq> None)"

context guarded_cluster
begin

lemma zone_update_denied:
  assumes "project_dead zone (st w)" "st w (id_of (OZone z)) = Some old"
    and "zone_Spec z = zone_Spec zone" "om_Namespace (zone_Meta z) = om_Namespace (zone_Meta zone)"
  shows "run_state (c_update (guarded gk rd st c) (OZone z)) w = (Inl denied, w)"
proof -
  have "admission gk (rd w) (UpdateRequest old (OZone z)) \<noteq> []"
    by (rule update_needs_live_project [OF reads]) (use assms in \<open>auto simp: tenancy_resources_def project_dead_def stored_def\<close>)
  with assms(2) show ?thesis by (simp add: guarded_def)
qed

lemma Zone_cleanup_stuck:
  assumes zone: "st w (KZone, key) = Some (OZone zone)" and dead: "project_dead zone (st w)"
  shows "wp (Zone_cleanup (guarded gk rd st c) zone) (\<lambda>_ w'. st w' (KZone, key) = Some (OZone zone) \<and>
    (\<forall>k. st w' (KProject, k) = st w (KProject, k))) w"
proof -
  let ?z = "zone\<lparr>zone_Meta := RemoveFinalizer (zone_Meta zone) zoneCleanupFinalizer\<rparr>"
  let ?Q = "\<lambda>w'. st w' (KZone, key) = Some (OZone zone) \<and> (\<forall>k. st w' (KProject, k) = st w (KProject, k))"
  have id: "id_of (OZone ?z) = (KZone, key)" using zone_at [OF zone] by (simp add: id_of_def RemoveFinalizer_def key_of_def)
  have upd: "wp (Update (guarded gk rd st c) zoneR ?z) (\<lambda>_. ?Q) w1" if "?Q w1" for w1
  proof -
    have "project_dead zone (st w1)" using dead that by (simp add: project_dead_def)
    from zone_update_denied [OF this, of ?z] that id
    have "run_state (c_update (guarded gk rd st c) (OZone ?z)) w1 = (Inl denied, w1)" by (simp add: RemoveFinalizer_def)
    with that show ?thesis by (simp add: wp_def Update_def run_state_bind)
  qed
  have loop: "wp (delete_endpoints (guarded gk rd st c) name es False) (\<lambda>_. ?Q) w1"
    if "st w1 = st w" "set es \<subseteq> {e. st w (id_of (ODNSEndpoint e)) = Some (ODNSEndpoint e)}" for name es w1
    by (rule wp_mono [OF behind.delete_endpoints_wp [of "st w" w1 es name False]])
      (use that zone in \<open>auto simp: only_at_def id_of_def\<close>)
  show ?thesis
    unfolding Zone_cleanup_def
  proof (intro wp_if wp_bind behind.endpoints.List_wp wp_sum wp_return, goal_cases)
    case (3 x w1 items)
    then have "set items \<subseteq> {e. st w (id_of (ODNSEndpoint e)) = Some (ODNSEndpoint e)}" by auto
    from loop [OF 3(2) this] show ?case
    proof (rule wp_mono, goal_cases)
      case (1 d w2)
      then show ?case by (intro wp_sum wp_if wp_bind wp_return wp_mono [OF upd]) simp_all
    qed
  qed (use zone in simp_all)
qed

lemma Zone_Reconcile_stuck:
  assumes zone: "st w (KZone, key) = Some (OZone zone)" "om_DeletionTimestamp (zone_Meta zone) \<noteq> None" and dead: "project_dead zone (st w)"
  shows "wp (Zone_Reconcile (guarded gk rd st c) key) (\<lambda>_ w'. st w' (KZone, key) = Some (OZone zone) \<and> project_dead zone (st w')) w"
  unfolding Zone_Reconcile_def
proof (intro wp_bind behind.zones.Get_wp wp_sum wp_return wp_if, goal_cases)
  case (2 x w1 z)
  then have "z = zone" "st w1 (KZone, key) = Some (OZone zone)" "project_dead zone (st w1)" using zone(1) dead by simp_all
  from Zone_cleanup_stuck [OF this(2,3)] this(1,3) show ?case by (auto elim!: wp_mono simp: project_dead_def)
qed (use zone dead in simp_all)

end

section \<open>The reference server behind the webhooks\<close>

definition ref_reads :: "kobject list \<Rightarrow> api_reads" where
  "ref_reads w = reads_of (filter (\<lambda>ob. ref_st w (id_of ob) = Some ob) w)"

lemma stored_ref: "stored (ref_st w) = set (filter (\<lambda>ob. ref_st w (id_of ob) = Some ob) w)"
  by (auto simp: stored_def ref_st_def dest: map_of_SomeD)

interpretation guarded_reference: guarded_cluster ref_client ref_st gk ref_reads for gk
  by unfold_locales (unfold ref_reads_def stored_ref, rule honest_reads_of)

abbreviation example_client :: "kobject list client" where
  "example_client \<equiv> guarded example_gatekeeper ref_reads ref_st ref_client"

section \<open>Properties\<close>

text \<open>
  C38. A zone that outlives its project never goes: when a zone is being deleted and its project is gone or being deleted too, the webhooks
  deny the update by which the reconciler lets the zone go, however often it is called.
\<close>

theorem zone_without_project_never_goes:
  assumes "guarded_cluster c st rd"
    and "st w (KZone, key) = Some (OZone zone)" "om_DeletionTimestamp (zone_Meta zone) \<noteq> None" "project_dead zone (st w)"
  shows "st (((\<lambda>w. snd (run_state (Zone_Reconcile (guarded gk rd st c) key) w)) ^^ n) w) (KZone, key) = Some (OZone zone)"
proof -
  let ?call = "\<lambda>w. snd (run_state (Zone_Reconcile (guarded gk rd st c) key) w)"
  have step: "st (?call w') (KZone, key) = Some (OZone zone) \<and> project_dead zone (st (?call w'))"
    if "st w' (KZone, key) = Some (OZone zone)" "project_dead zone (st w')" for w'
    using wp_run [OF guarded_cluster.Zone_Reconcile_stuck [OF assms(1) that(1) assms(3) that(2)] surjective_pairing] .
  have "st ((?call ^^ n) w) (KZone, key) = Some (OZone zone) \<and> project_dead zone (st ((?call ^^ n) w))" for n
  proof (induction n)
    case (Suc n)
    then show ?case using step [of "(?call ^^ n) w"] by simp
  qed (use assms(2,4) in simp)
  then show ?thesis by blast
qed

theorem zone_without_project_never_goes_witness:
  "ref_st (((\<lambda>w. snd (run_state (Zone_Reconcile example_client zone_key) w)) ^^ 5) [OZone leaving_zone]) (KZone, zone_key) = Some (OZone leaving_zone)"
proof -
  have "ref_st [OZone leaving_zone] (KZone, zone_key) = Some (OZone leaving_zone)" by code_simp
  moreover have "project_dead leaving_zone (ref_st [OZone leaving_zone])" by (simp add: project_dead_def ref_st_def id_of_def)
  moreover have "om_DeletionTimestamp (zone_Meta leaving_zone) \<noteq> None" by (simp add: zone_stored(4))
  ultimately show ?thesis by (intro zone_without_project_never_goes [OF guarded_reference.guarded_cluster_axioms])
qed

end
