(* ===== verification/Challenge_Controller.thy ===== *)
theory Challenge_Controller
  imports Service_Controller
begin

text \<open>
  The challenge reconciler (\<open>internal/controller/challenge_controller.go\<close>): it follows the
  controller references of an ACME challenge up to the service it is for and keeps the application
  set that installs the solver (a pod, a service and an ingress) in the caching clusters. The walk up
  the references has no bound of its own, so it is a partial function.
\<close>

section \<open>The owner chain\<close>

text \<open>The kinds that the walk passes through\<close>

definition owner_kind :: "string \<Rightarrow> kind option" where
  "owner_kind k =
     (if k = ''Order'' then Some KOrder
      else if k = ''CertificateRequest'' then Some KCertificateRequest
      else if k = ''Certificate'' then Some KCertificate
      else if k = ''Service'' then Some KService
      else None)"

text \<open>
  The loop over the owner references up to its first API call: a reference to the target has no kind
  beside it, a reference to the next object has the kind to read.
\<close>

fun scan_owners :: "string \<Rightarrow> OwnerReference list \<Rightarrow> (OwnerReference \<times> kind option) option" where
  "scan_owners targetKind [] = None"
| "scan_owners targetKind (owner # owners) =
     (if or_Kind owner = targetKind \<and> or_Controller owner = Some True then Some (owner, None)
      else if or_Controller owner = Some True then
        (case owner_kind (or_Kind owner) of None \<Rightarrow> scan_owners targetKind owners | Some k \<Rightarrow> Some (owner, Some k))
      else scan_owners targetKind owners)"

abbreviation owners_of :: "kobject \<Rightarrow> OwnerReference list" where
  "owners_of ob \<equiv> om_OwnerReferences (obj_meta ob)"

definition owner_key :: "string \<Rightarrow> OwnerReference \<Rightarrow> NamespacedName" where
  "owner_key reqNamespace owner = \<lparr>nn_Namespace = reqNamespace, nn_Name = or_Name owner\<rparr>"

partial_function (option) GetOwnerInChain ::
  "'w client \<Rightarrow> 'a resource \<Rightarrow> string \<Rightarrow> string \<Rightarrow> kobject \<Rightarrow> 'w \<Rightarrow> ((ctl_error + 'a) \<times> 'w) option" where
  "GetOwnerInChain c r reqNamespace targetKind currObj w =
     (case scan_owners targetKind (owners_of currObj) of
        None \<Rightarrow> Some (Inl (NoOwner targetKind), w)
      | Some (owner, None) \<Rightarrow>
          (case run_state (Get c r (owner_key reqNamespace owner)) w of
             (Inl err, w') \<Rightarrow> Some (Inl (ApiError err), w')
           | (Inr targetObj, w') \<Rightarrow> Some (Inr targetObj, w'))
      | Some (owner, Some k) \<Rightarrow>
          (case run_state (c_get c k (owner_key reqNamespace owner)) w of
             (Inl err, w') \<Rightarrow> Some (Inl (ApiError err), w')
           | (Inr nextObj, w') \<Rightarrow> GetOwnerInChain c r reqNamespace targetKind nextObj w'))"

section \<open>The solver\<close>

definition solver_labels :: "string \<Rightarrow> string \<Rightarrow> strmap" where
  "solver_labels name hash = fmap_of_list [(''app'', name), (''hash'', hash)]"

definition solver_pod :: "ThrowerOptions \<Rightarrow> Challenge \<Rightarrow> string \<Rightarrow> Pod" where
  "solver_pod throwerOptions challenge hash =
     \<lparr>pod_TypeMeta = \<lparr>tm_APIVersion = ''v1'', tm_Kind = ''Pod''\<rparr>,
      pod_Meta = (new_ObjectMeta (om_Name (ch_Meta challenge)) (to_TargetNamespace throwerOptions))
        \<lparr>om_Annotations := fmap_of_list [(''cluster-autoscaler.kubernetes.io/safe-to-evict'', ''true''),
           (''sidecar.istio.io/inject'', ''false'')],
         om_Labels := solver_labels (om_Name (ch_Meta challenge)) hash\<rparr>,
      pod_Spec = \<lparr>pods_Containers = [zero_Container\<lparr>cn_Name := ''acmesolver'',
          cn_Image := ''quay.io/jetstack/cert-manager-acmesolver:v1.17.2'',
          cn_Args := [''--listen-port=8089'', ''--domain='' @ chs_DNSName (ch_Spec challenge),
            ''--token='' @ chs_Token (ch_Spec challenge), ''--key='' @ chs_Key (ch_Spec challenge)],
          cn_Ports := [\<lparr>cp_Name = ''http'', cp_ContainerPort = 8089, cp_Protocol = ''TCP''\<rparr>],
          cn_Limits := fmap_of_list [(''cpu'', ''100m''), (''memory'', ''64Mi'')],
          cn_Requests := fmap_of_list [(''cpu'', ''10m''), (''memory'', ''64Mi'')]\<rparr>],
        pods_NodeSelector = fmap_of_list [(''kubernetes.io/os'', ''linux'')]\<rparr>\<rparr>"

definition solver_service :: "ThrowerOptions \<Rightarrow> Challenge \<Rightarrow> string \<Rightarrow> CoreService" where
  "solver_service throwerOptions challenge hash =
     \<lparr>cs_TypeMeta = \<lparr>tm_APIVersion = ''v1'', tm_Kind = ''Service''\<rparr>,
      cs_Meta = (new_ObjectMeta (ReplaceAll (om_Name (ch_Meta challenge)) CHR ''.'' CHR ''-'') (to_TargetNamespace throwerOptions))
        \<lparr>om_Labels := solver_labels (om_Name (ch_Meta challenge)) hash\<rparr>,
      cs_Spec = zero_CoreServiceSpec\<lparr>css_Selector := solver_labels (om_Name (ch_Meta challenge)) hash,
        css_Ports := [\<lparr>sp_Name = ''http'', sp_Port = 8089, sp_Protocol = ''TCP'', sp_TargetPort = 8089\<rparr>],
        css_Type := ''NodePort''\<rparr>\<rparr>"

definition solver_ingress :: "ThrowerOptions \<Rightarrow> Challenge \<Rightarrow> Service \<Rightarrow> string \<Rightarrow> Ingress" where
  "solver_ingress throwerOptions challenge serviceOwner hash =
     \<lparr>ing_TypeMeta = \<lparr>tm_APIVersion = ''networking.k8s.io/v1'', tm_Kind = ''Ingress''\<rparr>,
      ing_Meta = (new_ObjectMeta (om_Name (ch_Meta challenge)) (to_TargetNamespace throwerOptions))
        \<lparr>om_Annotations := fmap_of_list [(''nginx.ingress.kubernetes.io/whitelist-source-range'', ''0.0.0.0/0,::/0'')],
         om_Labels := solver_labels (om_Name (ch_Meta challenge)) hash\<rparr>,
      ing_Spec = \<lparr>is_IngressClassName = Some (ss_Cache (svc_Spec serviceOwner)), is_TLS = [],
        is_Rules = [\<lparr>ir_Host = chs_DNSName (ch_Spec challenge),
          ir_Paths = [\<lparr>hip_Path = ''/.well-known/acme-challenge/'' @ chs_Token (ch_Spec challenge),
            hip_PathType = Some ''ImplementationSpecific'',
            hip_ServiceName = ReplaceAll (om_Name (ch_Meta challenge)) CHR ''.'' CHR ''-'', hip_ServicePort = 8089\<rparr>]\<rparr>]\<rparr>\<rparr>"

definition getChallengeResources ::
  "golib \<Rightarrow> ThrowerOptions \<Rightarrow> Challenge \<Rightarrow> Service \<Rightarrow> ctl_error + Pod \<times> CoreService \<times> Ingress" where
  "getChallengeResources g throwerOptions challenge serviceOwner =
     (case g_json_challenge g (ch_Spec challenge) of
        None \<Rightarrow> Inl MarshalError
      | Some challengeSpec \<Rightarrow>
          let hash = hex_bytes (g_md5 g challengeSpec)
          in Inr (solver_pod throwerOptions challenge hash, solver_service throwerOptions challenge hash,
               solver_ingress throwerOptions challenge serviceOwner hash))"

section \<open>The reconciler\<close>

definition wanted_solver ::
  "golib \<Rightarrow> ThrowerOptions \<Rightarrow> Challenge \<Rightarrow> string \<Rightarrow> Pod \<times> CoreService \<times> Ingress \<Rightarrow> ctl_error + ApplicationSet \<times> string" where
  "wanted_solver g throwerOptions challenge reqNamespace resources =
     (case AppsetBuilderFactory ''Challenge'' (om_Name (ch_Meta challenge)) reqNamespace throwerOptions of
        Inl err \<Rightarrow> Inl err
      | Inr b \<Rightarrow> (case resources of (pod, service, ingress) \<Rightarrow>
          (case Appset_WithHelmValues g [HPod pod, HCoreService service, HIngress ingress] b of
             Inl err \<Rightarrow> Inl err
           | Inr b' \<Rightarrow> Appset_Build g b')))"

definition sync_solver ::
  "golib \<Rightarrow> ThrowerOptions \<Rightarrow> 'w client \<Rightarrow> Challenge \<Rightarrow> string \<Rightarrow> Pod \<times> CoreService \<times> Ingress \<Rightarrow>
   ('w, Result \<times> ctl_error option) state" where
  "sync_solver g throwerOptions c challenge reqNamespace resources =
     (if ch_Presented challenge \<and> ch_Processing challenge then
        (case wanted_solver g throwerOptions challenge reqNamespace resources of
           Inl err \<Rightarrow> State_Monad.return (done_result, Some err)
         | Inr (desired, hash) \<Rightarrow> do {
             x \<leftarrow> ensure g c applicationSetR True adopt_appset (OChallenge challenge) (key_of (aset_Meta desired)) desired hash;
             State_Monad.return (done_result, case settle x of Inl err \<Rightarrow> err | Inr _ \<Rightarrow> None)
           })
      else State_Monad.return (done_result, None))"

definition Challenge_Reconcile ::
  "golib \<Rightarrow> ThrowerOptions \<Rightarrow> 'w client \<Rightarrow> NamespacedName \<Rightarrow> 'w \<Rightarrow> ((Result \<times> ctl_error option) \<times> 'w) option" where
  "Challenge_Reconcile g throwerOptions c key w =
     (case run_state (Get c challengeR key) w of
        (Inl err, w1) \<Rightarrow> Some ((done_result, map_option ApiError (IgnoreNotFound (Some err))), w1)
      | (Inr challenge, w1) \<Rightarrow>
          (case GetOwnerInChain c serviceR (nn_Namespace key) ''Service'' (OChallenge challenge) w1 of
             None \<Rightarrow> None
           | Some (Inl err, w2) \<Rightarrow> Some ((done_result, Some err), w2)
           | Some (Inr serviceOwner, w2) \<Rightarrow>
               (case getChallengeResources g throwerOptions challenge serviceOwner of
                  Inl err \<Rightarrow> Some ((done_result, Some err), w2)
                | Inr resources \<Rightarrow>
                    Some (run_state (sync_solver g throwerOptions c challenge (nn_Namespace key) resources) w2))))"

section \<open>The walk\<close>

text \<open>How far up the chain a kind is in the chains that cert-manager builds\<close>

definition owner_rank :: "kind \<Rightarrow> nat" where
  "owner_rank k = (if k = KService then 4 else if k = KCertificate then 3 else if k = KCertificateRequest then 2
     else if k = KOrder then 1 else 0)"

text \<open>One step up: the object that the walk reads next is stored.\<close>

definition owner_edge :: "string \<Rightarrow> string \<Rightarrow> store \<Rightarrow> kobject \<Rightarrow> kobject \<Rightarrow> bool" where
  "owner_edge reqNamespace targetKind s ob ob' \<longleftrightarrow> (\<exists>owner k. scan_owners targetKind (owners_of ob) = Some (owner, Some k) \<and>
     s (k, owner_key reqNamespace owner) = Some ob')"

definition owner_edges :: "string \<Rightarrow> string \<Rightarrow> store \<Rightarrow> (kobject \<times> kobject) set" where
  "owner_edges reqNamespace targetKind s = {(ob, ob'). ob \<in> ran s \<and> owner_edge reqNamespace targetKind s ob ob'}"

text \<open>How a walk may end\<close>

definition owner_result :: "'a resource \<Rightarrow> string \<Rightarrow> string \<Rightarrow> store \<Rightarrow> kobject \<Rightarrow> ctl_error + 'a \<Rightarrow> bool" where
  "owner_result r reqNamespace targetKind s ob x = (case x of
     Inr t \<Rightarrow> (\<exists>owner. scan_owners targetKind (owners_of ob) = Some (owner, None) \<and>
       s (r_kind r, owner_key reqNamespace owner) = Some (r_in r t))
   | Inl (ApiError err) \<Rightarrow> scan_owners targetKind (owners_of ob) \<noteq> None
   | Inl err \<Rightarrow> err = NoOwner targetKind \<and> scan_owners targetKind (owners_of ob) = None)"

text \<open>The challenge waits for its solver and belongs to a service.\<close>

definition solver_due :: "NamespacedName \<Rightarrow> store \<Rightarrow> bool" where
  "solver_due key s \<longleftrightarrow> (\<exists>challenge ob owner service. s (KChallenge, key) = Some (OChallenge challenge) \<and>
     ch_Presented challenge \<and> ch_Processing challenge \<and>
     (OChallenge challenge, ob) \<in> (owner_edges (nn_Namespace key) ''Service'' s)\<^sup>* \<and>
     owner \<in> set (owners_of ob) \<and> or_Controller owner = Some True \<and> or_Kind owner = ''Service'' \<and>
     s (KService, owner_key (nn_Namespace key) owner) = Some (OService service))"

lemma scan_owners_target:
  assumes "scan_owners targetKind owners = Some (owner, None)"
  shows "owner \<in> set owners \<and> or_Controller owner = Some True \<and> or_Kind owner = targetKind"
  using assms by (induction targetKind owners rule: scan_owners.induct) (auto split: if_splits option.split_asm)

context typed_client
begin

lemma GetOwnerInChain_stored:
  assumes "finite (dom s)" "acyclic (owner_edges ns tk s)" "ob \<in> ran s" "st w = s"
  shows "\<exists>x w' ob'. GetOwnerInChain c r ns tk ob w = Some (x, w') \<and> st w' = s \<and>
    (ob, ob') \<in> (owner_edges ns tk s)\<^sup>* \<and> owner_result r ns tk s ob' x"
proof -
  have "owner_edges ns tk s \<subseteq> ran s \<times> ran s" by (auto simp: owner_edges_def owner_edge_def ran_def)
  then have "wf ((owner_edges ns tk s)\<inverse>)"
    using assms(1,2) by (intro finite_acyclic_wf_converse) (auto intro: finite_subset simp: finite_ran)
  then show ?thesis
    using assms(3,4)
  proof (induction ob arbitrary: w rule: wf_induct_rule)
    case (less ob)
    note unfold = GetOwnerInChain.simps [of c r ns tk ob w]
    consider "scan_owners tk (owners_of ob) = None"
      | owner where "scan_owners tk (owners_of ob) = Some (owner, None)"
      | owner k where "scan_owners tk (owners_of ob) = Some (owner, Some k)" by (metis option.exhaust surj_pair)
    then show ?case
    proof cases
      case 1
      then show ?thesis using unfold less.prems by (auto simp: owner_result_def)
    next
      case 2
      obtain x w1 where got: "run_state (Get c r (owner_key ns owner)) w = (x, w1)" by fastforce
      from Get_law [OF got] show ?thesis
        using unfold less.prems 2 got by (cases x) (auto simp: owner_result_def intro!: exI [of _ ob])
    next
      case 3
      obtain x w1 where got: "run_state (c_get c k (owner_key ns owner)) w = (x, w1)" by fastforce
      note law = get_law [OF got]
      show ?thesis
      proof (cases x)
        case (Inl err)
        then show ?thesis using unfold less.prems 3 got law by (auto simp: owner_result_def intro!: exI [of _ ob])
      next
        case (Inr nxt)
        then have stored: "s (k, owner_key ns owner) = Some nxt" using law less.prems by simp
        then have edge: "(ob, nxt) \<in> owner_edges ns tk s" using less.prems 3 by (auto simp: owner_edges_def owner_edge_def)
        have "nxt \<in> ran s" "st w1 = s" using stored law less.prems by (auto intro: ranI)
        with less.IH [of nxt w1] edge show ?thesis
          using unfold 3 got Inr by (auto intro: converse_rtrancl_into_rtrancl)
      qed
    qed
  qed
qed

end

section \<open>The reconciler\<close>

context operator_world
begin

lemma wanted_solver_object:
  assumes "wanted_solver g opts challenge ns resources = Inr (d, h)"
  shows "key_of (aset_Meta d) = \<lparr>nn_Namespace = ns, nn_Name = om_Name (ch_Meta challenge)\<rparr>"
    and "wanted_object c st applicationSetR g adopt_appset (key_of (aset_Meta d)) d h"
proof -
  have "id_of (OApplicationSet d) = (KApplicationSet, \<lparr>nn_Namespace = ns, nn_Name = om_Name (ch_Meta challenge)\<rparr>) \<and>
      stamped h (OApplicationSet d)"
    using assms
    by (auto simp: wanted_solver_def AppsetBuilderFactory_def throwable_appset_def Appset_WithHelmChartParams_def
        Appset_WithHelmValues_def NewThrowableAppsetBuilder_def WithLabelMatchers_def WithAppsetMeta_def
        Appset_WithProject_def WithTargetAppMeta_def map_template_def id_of_def key_of_def new_ObjectMeta_def
        split: sum.splits prod.splits list.splits option.splits dest!: builds_stamped(5))
  then show "key_of (aset_Meta d) = \<lparr>nn_Namespace = ns, nn_Name = om_Name (ch_Meta challenge)\<rparr>"
    "wanted_object c st applicationSetR g adopt_appset (key_of (aset_Meta d)) d h"
    by (unfold_locales, auto simp: id_of_def adopt_appset_def key_of_def)
qed

lemma stored_kind: "st w (k, key) = Some ob \<Longrightarrow> kind_of ob = k"
  using stored_id [of w "(k, key)"] by (simp add: id_of_def)

lemma ranked_acyclic:
  assumes "\<And>ob owner k. ob \<in> ran (st w) \<Longrightarrow> scan_owners tk (owners_of ob) = Some (owner, Some k) \<Longrightarrow>
    (rank (kind_of ob) :: nat) < rank k"
  shows "acyclic (owner_edges ns tk (st w))"
proof -
  have "owner_edges ns tk (st w) \<subseteq> measure (rank \<circ> kind_of)"
    using assms by (auto simp: owner_edges_def owner_edge_def stored_kind)
  then show ?thesis by (meson acyclic_subset wf_acyclic wf_measure)
qed

lemma sync_solver_wp:
  "wp (sync_solver g opts c challenge ns resources) (\<lambda>_ w'.
     only_at {(KApplicationSet, \<lparr>nn_Namespace = ns, nn_Name = om_Name (ch_Meta challenge)\<rparr>)} (st w) (st w') \<and>
     (st w' \<noteq> st w \<longrightarrow> ch_Presented challenge \<and> ch_Processing challenge)) w"
  unfolding sync_solver_def
proof (intro wp_if wp_sum wp_prod wp_bind wp_return, goal_cases)
  case (2 b d h)
  note solver = wanted_solver_object [of opts challenge ns resources d h]
  show ?case
    by (rule wp_mono [OF wanted_object.ensure_wp [OF solver(2)]]) (use 2 solver(1) in \<open>auto intro!: wp_return\<close>)
qed auto

lemma Challenge_Reconcile_ends:
  assumes "finite (dom (st w))" "acyclic (owner_edges (nn_Namespace key) ''Service'' (st w))"
  shows "\<exists>res err w'. Challenge_Reconcile g opts c key w = Some ((res, err), w') \<and>
    only_at {(KApplicationSet, key)} (st w) (st w') \<and>
    (st w' \<noteq> st w \<longrightarrow> solver_due key (st w))"
proof -
  obtain x w1 where got: "run_state (Get c challengeR key) w = (x, w1)" by fastforce
  note law = challenges.Get_law [OF got]
  show ?thesis
  proof (cases x)
    case (Inl err)
    then show ?thesis using got law by (simp add: Challenge_Reconcile_def)
  next
    case (Inr challenge)
    have stored: "st w (KChallenge, key) = Some (OChallenge challenge)" using law(2) [OF Inr] by simp
    then have in_store: "OChallenge challenge \<in> ran (st w)" by (auto simp: ran_def)
    have key: "\<lparr>nn_Namespace = nn_Namespace key, nn_Name = om_Name (ch_Meta challenge)\<rparr> = key"
      using stored_id [OF stored] by (auto simp: id_of_def key_of_def)
    obtain y w2 ob where walk: "GetOwnerInChain c serviceR (nn_Namespace key) ''Service'' (OChallenge challenge) w1 = Some (y, w2)"
      "st w2 = st w" "(OChallenge challenge, ob) \<in> (owner_edges (nn_Namespace key) ''Service'' (st w))\<^sup>*"
      "owner_result serviceR (nn_Namespace key) ''Service'' (st w) ob y"
      using services.GetOwnerInChain_stored [OF assms in_store law(1)] by blast
    show ?thesis
    proof (cases y)
      case (Inl err)
      then show ?thesis using got walk Inr by (simp add: Challenge_Reconcile_def)
    next
      case service: (Inr service)
      then obtain owner where owner: "scan_owners ''Service'' (owners_of ob) = Some (owner, None)"
        "st w (KService, owner_key (nn_Namespace key) owner) = Some (OService service)"
        using walk(4) by (auto simp: owner_result_def)
      show ?thesis
      proof (cases "getChallengeResources g opts challenge service")
        case (Inl err)
        then show ?thesis using got walk Inr service by (simp add: Challenge_Reconcile_def)
      next
        case res: (Inr resources)
        obtain z w3 where run: "run_state (sync_solver g opts c challenge (nn_Namespace key) resources) w2 = (z, w3)" by fastforce
        with wp_run [OF sync_solver_wp run] key walk(2)
        have "only_at {(KApplicationSet, key)} (st w) (st w3)"
          "st w3 \<noteq> st w \<Longrightarrow> ch_Presented challenge \<and> ch_Processing challenge" by simp_all
        moreover have "Challenge_Reconcile g opts c key w = Some (z, w3)"
          using got walk Inr service res run by (simp add: Challenge_Reconcile_def)
        ultimately show ?thesis using stored walk(3) owner scan_owners_target [OF owner(1)] unfolding solver_due_def by (metis surj_pair)
      qed
    qed
  qed
qed

end

section \<open>Properties\<close>

text \<open>
  C37. A call of the challenge reconciler returns when the controller references of the stored objects have
  no cycle. It changes at most the application set with the name of the challenge, and only for a
  challenge that is presented and processing and whose chain of controller references leads to an
  object that is controlled by an existing service.
\<close>

theorem challenge_reconcile_ends:
  assumes "operator_world c st g" "finite (dom (st w))" "acyclic (owner_edges (nn_Namespace key) ''Service'' (st w))"
  shows "\<exists>res err w'. Challenge_Reconcile g opts c key w = Some ((res, err), w') \<and>
    only_at {(KApplicationSet, key)} (st w) (st w') \<and>
    (st w' \<noteq> st w \<longrightarrow> solver_due key (st w))"
  using operator_world.Challenge_Reconcile_ends [OF assms] .

text \<open>Example: a challenge below the order, request and certificate of a service\<close>

definition controlled_by :: "string \<Rightarrow> string \<Rightarrow> ObjectMeta" where
  "controlled_by kind name = (new_ObjectMeta name ''team-a'')\<lparr>om_OwnerReferences :=
     [\<lparr>or_APIVersion = [], or_Kind = kind, or_Name = name, or_UID = [], or_Controller = Some True\<rparr>]\<rparr>"

definition presented_challenge :: Challenge where
  "presented_challenge = \<lparr>ch_Meta = controlled_by ''Order'' ''s'',
     ch_Spec = \<lparr>chs_DNSName = ''a.com'', chs_Token = ''token'', chs_Key = ''key'', chs_Rest = []\<rparr>,
     ch_Presented = True, ch_Processing = True\<rparr>"

definition challenge_world :: "kobject list" where
  "challenge_world = [OChallenge presented_challenge,
     OOrder \<lparr>ord_Meta = controlled_by ''CertificateRequest'' ''s''\<rparr>,
     OCertificateRequest \<lparr>cr_Meta = controlled_by ''Certificate'' ''s''\<rparr>,
     OCertificate (issued_certificate\<lparr>crt_Meta := controlled_by ''Service'' ''s''\<rparr>),
     OService certified_service]"

definition example_thrower :: ThrowerOptions where
  "example_thrower = \<lparr>to_ThrowerChartName = ''thrower'', to_ThrowerChartVersion = ''1.0'',
     to_ThrowerChartRepository = ''https://charts'', to_TargetNamespace = ''edgecdnx'', to_ApplicationSetProject = ''default''\<rparr>"

definition challenge_key :: NamespacedName where
  "challenge_key = \<lparr>nn_Namespace = ''team-a'', nn_Name = ''s''\<rparr>"

lemma challenge_world_acyclic:
  "acyclic (owner_edges (nn_Namespace challenge_key) ''Service'' (ref_st challenge_world))"
proof (rule reference_operator.ranked_acyclic)
  fix ob owner k
  assume ob: "ob \<in> ran (ref_st challenge_world)" "scan_owners ''Service'' (owners_of ob) = Some (owner, Some k)"
  have "ob \<in> set challenge_world" using ob(1) map_of_SomeD by (fastforce simp: ref_st_def ran_def)
  with ob(2) show "owner_rank (kind_of ob) < owner_rank k"
    by (auto simp: challenge_world_def presented_challenge_def controlled_by_def owner_kind_def issued_certificate_def
        certified_service_def new_ObjectMeta_def owner_rank_def zero_Service_def)
qed

theorem challenge_reconcile_ends_witness:
  "\<exists>res err w'. Challenge_Reconcile reference_go example_thrower ref_client challenge_key challenge_world = Some ((res, err), w') \<and>
    only_at {(KApplicationSet, challenge_key)} (ref_st challenge_world) (ref_st w')"
  using challenge_reconcile_ends [OF reference_operator.operator_world_axioms _ challenge_world_acyclic]
  by (fastforce simp: ref_st_def finite_dom_map_of)

text \<open>
  The solver answers where the challenge is looked for: the ingress, in the class of the cache of the service,
  sends the well-known path of the token under the name of the challenge to a port of the solver
  service, which selects the solver pod and reaches the port on which the pod listens.
\<close>

theorem solver_is_reachable:
  assumes "getChallengeResources g opts challenge service = Inr (pod, svc, ing)"
  shows "\<exists>path port container. is_Rules (ing_Spec ing) = [\<lparr>ir_Host = chs_DNSName (ch_Spec challenge), ir_Paths = [path]\<rparr>] \<and>
    is_IngressClassName (ing_Spec ing) = Some (ss_Cache (svc_Spec service)) \<and>
    hip_Path path = ''/.well-known/acme-challenge/'' @ chs_Token (ch_Spec challenge) \<and>
    hip_ServiceName path = om_Name (cs_Meta svc) \<and> hip_ServicePort path = sp_Port port \<and>
    port \<in> set (css_Ports (cs_Spec svc)) \<and>
    fmlookup (css_Selector (cs_Spec svc)) \<subseteq>\<^sub>m fmlookup (om_Labels (pod_Meta pod)) \<and>
    om_Namespace (ing_Meta ing) = om_Namespace (cs_Meta svc) \<and> om_Namespace (cs_Meta svc) = om_Namespace (pod_Meta pod) \<and>
    pods_Containers (pod_Spec pod) = [container] \<and> sp_TargetPort port \<in> cp_ContainerPort ` set (cn_Ports container) \<and>
    set [''--domain='' @ chs_DNSName (ch_Spec challenge), ''--token='' @ chs_Token (ch_Spec challenge),
      ''--key='' @ chs_Key (ch_Spec challenge)] \<subseteq> set (cn_Args container)"
  using assms
  by (auto simp: getChallengeResources_def solver_pod_def solver_service_def solver_ingress_def Let_def new_ObjectMeta_def
      split: option.splits)

definition example_solver :: "Pod \<times> CoreService \<times> Ingress" where
  "example_solver = projr (getChallengeResources reference_go example_thrower presented_challenge certified_service)"

theorem solver_is_reachable_witness:
  "\<exists>path. is_Rules (ing_Spec (snd (snd example_solver))) = [\<lparr>ir_Host = ''a.com'', ir_Paths = [path]\<rparr>] \<and>
     hip_Path path = ''/.well-known/acme-challenge/token'' \<and> hip_ServiceName path = om_Name (cs_Meta (fst (snd example_solver)))"
proof -
  have "getChallengeResources reference_go example_thrower presented_challenge certified_service =
    Inr (fst example_solver, fst (snd example_solver), snd (snd example_solver))"
    by (simp add: example_solver_def getChallengeResources_def reference_go_def Let_def)
  from solver_is_reachable [OF this] show ?thesis by (auto simp: presented_challenge_def)
qed

text \<open>
  The hypothesis of no cycle is needed: a certificate that is its own controller keeps the walk, and with it the worker
  of the reconciler, going forever.
\<close>

definition cyclic_certificate :: Certificate where
  "cyclic_certificate = issued_certificate\<lparr>crt_Meta := controlled_by ''Certificate'' ''s''\<rparr>"

theorem owner_cycle_never_returns:
  "GetOwnerInChain ref_client serviceR ''team-a'' ''Service'' (OCertificate cyclic_certificate) [OCertificate cyclic_certificate] = None"
proof -
  define stuck where "stuck = OCertificate cyclic_certificate"
  obtain owner where scan: "scan_owners ''Service'' (owners_of stuck) = Some (owner, Some KCertificate)"
    and key: "owner_key ''team-a'' owner = \<lparr>nn_Namespace = ''team-a'', nn_Name = ''s''\<rparr>"
    by (simp add: stuck_def cyclic_certificate_def controlled_by_def owner_kind_def owner_key_def)
  have "run_state (c_get ref_client KCertificate \<lparr>nn_Namespace = ''team-a'', nn_Name = ''s''\<rparr>) [OCertificate cyclic_certificate] =
    (Inr (OCertificate cyclic_certificate), [OCertificate cyclic_certificate])" by code_simp
  then have get: "run_state (c_get ref_client KCertificate (owner_key ''team-a'' owner)) [stuck] = (Inr stuck, [stuck])"
    by (simp add: key stuck_def)
  have "\<not> (c = ref_client \<and> ns = ''team-a'' \<and> tk = ''Service'' \<and> ob = stuck \<and> w = [stuck])"
    if "GetOwnerInChain c r ns tk ob w = Some y" for c ns tk ob w and r :: "Service resource" and y
    by (rule GetOwnerInChain.raw_induct [where P = "\<lambda>c r ns tk ob w y.
        \<not> (c = ref_client \<and> ns = ''team-a'' \<and> tk = ''Service'' \<and> ob = stuck \<and> w = [stuck])", OF _ that])
      (use scan get in fastforce)
  then show ?thesis unfolding stuck_def [symmetric] by (metis option.exhaust)
qed

end
