(* ===== verification/Go_Memory.thy ===== *)
theory Go_Memory
  imports Go_Prelude "HOL-Library.Finite_Map" "HOL-Library.Sublist" "HOL-Library.Monad_Syntax"
begin

text \<open>
  The memory of a Go program, for code whose correctness depends on which parts of two values are shared. A
  struct, a number and a string are values; a pointer, a slice and a map refer to a cell of the memory. A type says what a value
  refers to. \<open>load\<close> reads a value with everything it refers to as a tree, \<open>foot\<close> is the set of cells it is made of. A function is a
  deep copy for a type when its result reads the same and is made of new cells only.
\<close>

section \<open>Values and cells\<close>

type_synonym addr = nat

datatype scalar = SText string | SNumber int | SFlag bool

datatype kind = Text | Number | Flag

fun kind_of :: "scalar \<Rightarrow> kind" where
  "kind_of (SText s) = Text"
| "kind_of (SNumber i) = Number"
| "kind_of (SFlag b) = Flag"

fun zero_scalar :: "kind \<Rightarrow> scalar" where
  "zero_scalar Text = SText []"
| "zero_scalar Number = SNumber 0"
| "zero_scalar Flag = SFlag False"

text \<open>A slice is the address of an array, an offset and a length. \<open>None\<close> is nil.\<close>

datatype gval =
    Scalar scalar
  | Struct "(string \<times> gval) list"
  | Pointer "addr option"
  | Slice "(addr \<times> nat \<times> nat) option"
  | GoMap "addr option"

datatype cell = Var gval | Array "gval list" | Entries "(string \<times> gval) list"

text \<open>The address of a cell is its position; a new cell is added at the end.\<close>

type_synonym memory = "cell list"

definition lookup :: "memory \<Rightarrow> addr \<Rightarrow> cell option" where
  "lookup h a = (if a < length h then Some (h ! a) else None)"

text \<open>Types, and the trees that values of a type stand for\<close>

datatype gotype =
    TScalar kind
  | TStruct "(string \<times> gotype) list"
  | TPointer gotype
  | TSlice gotype
  | TMap gotype

datatype tree =
    Leaf scalar
  | Fields "(string \<times> tree) list"
  | NilRef
  | PointsTo tree
  | Elems "tree list"
  | Dict "(string, tree) fmap"

section \<open>Reading\<close>

fun load_fields :: "(string \<times> (gval \<Rightarrow> tree option)) list \<Rightarrow> (string \<times> gval) list \<Rightarrow> (string \<times> tree) list option" where
  "load_fields [] [] = Some []"
| "load_fields ((n, l) # ls) ((m, v) # fs) =
     (if n = m then do { x \<leftarrow> l v; xs \<leftarrow> load_fields ls fs; Some ((n, x) # xs) } else None)"
| "load_fields _ _ = None"

fun load_all :: "(gval \<Rightarrow> tree option) \<Rightarrow> gval list \<Rightarrow> tree list option" where
  "load_all l [] = Some []"
| "load_all l (v # vs) = do { x \<leftarrow> l v; xs \<leftarrow> load_all l vs; Some (x # xs) }"

primrec load :: "gotype \<Rightarrow> memory \<Rightarrow> gval \<Rightarrow> tree option" where
  "load (TScalar k) = (\<lambda>h v. case v of Scalar s \<Rightarrow> if kind_of s = k then Some (Leaf s) else None | _ \<Rightarrow> None)"
| "load (TStruct ts) = (\<lambda>h v. case v of
     Struct fs \<Rightarrow> map_option Fields (load_fields (map (\<lambda>(n, l). (n, l h)) (map (map_prod id load) ts)) fs) | _ \<Rightarrow> None)"
| "load (TPointer t) = (\<lambda>h v. case v of
     Pointer None \<Rightarrow> Some NilRef
   | Pointer (Some a) \<Rightarrow> (case lookup h a of Some (Var u) \<Rightarrow> map_option PointsTo (load t h u) | _ \<Rightarrow> None)
   | _ \<Rightarrow> None)"
| "load (TSlice t) = (\<lambda>h v. case v of
     Slice None \<Rightarrow> Some NilRef
   | Slice (Some (a, off, n)) \<Rightarrow> (case lookup h a of
       Some (Array us) \<Rightarrow> if off + n \<le> length us then map_option Elems (load_all (load t h) (take n (drop off us))) else None
     | _ \<Rightarrow> None)
   | _ \<Rightarrow> None)"
| "load (TMap t) = (\<lambda>h v. case v of
     GoMap None \<Rightarrow> Some NilRef
   | GoMap (Some a) \<Rightarrow> (case lookup h a of
       Some (Entries es) \<Rightarrow> if distinct (map fst es)
         then map_option (\<lambda>xs. Dict (fmap_of_list (zip (map fst es) xs))) (load_all (load t h) (map snd es)) else None
     | _ \<Rightarrow> None)
   | _ \<Rightarrow> None)"

primrec foot :: "gotype \<Rightarrow> memory \<Rightarrow> gval \<Rightarrow> addr set" where
  "foot (TScalar k) = (\<lambda>h v. {})"
| "foot (TStruct ts) = (\<lambda>h v. case v of
     Struct fs \<Rightarrow> \<Union> (set (map2 (\<lambda>(n, f) (m, v). f h v) (map (map_prod id foot) ts) fs)) | _ \<Rightarrow> {})"
| "foot (TPointer t) = (\<lambda>h v. case v of
     Pointer (Some a) \<Rightarrow> insert a (case lookup h a of Some (Var u) \<Rightarrow> foot t h u | _ \<Rightarrow> {}) | _ \<Rightarrow> {})"
| "foot (TSlice t) = (\<lambda>h v. case v of
     Slice (Some (a, off, n)) \<Rightarrow> insert a (case lookup h a of
       Some (Array us) \<Rightarrow> \<Union> (foot t h ` set (take n (drop off us))) | _ \<Rightarrow> {})
   | _ \<Rightarrow> {})"
| "foot (TMap t) = (\<lambda>h v. case v of
     GoMap (Some a) \<Rightarrow> insert a (case lookup h a of Some (Entries es) \<Rightarrow> \<Union> (foot t h ` snd ` set es) | _ \<Rightarrow> {}) | _ \<Rightarrow> {})"

text \<open>Values that share no cell: no cell is reached twice.\<close>

fun apart :: "addr set list \<Rightarrow> bool" where
  "apart [] = True"
| "apart (A # As) = (A \<inter> \<Union> (set As) = {} \<and> apart As)"

primrec separate :: "gotype \<Rightarrow> memory \<Rightarrow> gval \<Rightarrow> bool" where
  "separate (TScalar k) = (\<lambda>h v. True)"
| "separate (TStruct ts) = (\<lambda>h v. case v of
     Struct fs \<Rightarrow> list_all id (map2 (\<lambda>(n, s) (m, v). s h v) (map (map_prod id separate) ts) fs) \<and>
       apart (map2 (\<lambda>nt mv. foot (snd nt) h (snd mv)) ts fs) | _ \<Rightarrow> True)"
| "separate (TPointer t) = (\<lambda>h v. case v of
     Pointer (Some a) \<Rightarrow> (case lookup h a of Some (Var u) \<Rightarrow> a \<notin> foot t h u \<and> separate t h u | _ \<Rightarrow> True) | _ \<Rightarrow> True)"
| "separate (TSlice t) = (\<lambda>h v. case v of
     Slice (Some (a, off, n)) \<Rightarrow> (case lookup h a of
       Some (Array us) \<Rightarrow> apart ({a} # map (foot t h) (take n (drop off us))) \<and> list_all (separate t h) (take n (drop off us))
     | _ \<Rightarrow> True)
   | _ \<Rightarrow> True)"
| "separate (TMap t) = (\<lambda>h v. case v of
     GoMap (Some a) \<Rightarrow> (case lookup h a of
       Some (Entries es) \<Rightarrow> apart ({a} # map (foot t h) (map snd es)) \<and> list_all (separate t h) (map snd es) | _ \<Rightarrow> True)
   | _ \<Rightarrow> True)"

abbreviation loaders :: "memory \<Rightarrow> (string \<times> gotype) list \<Rightarrow> (string \<times> (gval \<Rightarrow> tree option)) list" where
  "loaders h ts \<equiv> map (\<lambda>nt. (fst nt, load (snd nt) h)) ts"

abbreviation feet :: "memory \<Rightarrow> (string \<times> gotype) list \<Rightarrow> (string \<times> gval) list \<Rightarrow> addr set list" where
  "feet h ts fs \<equiv> map2 (\<lambda>nt mv. foot (snd nt) h (snd mv)) ts fs"

lemma load_struct: "load (TStruct ts) h v = (case v of Struct fs \<Rightarrow> map_option Fields (load_fields (loaders h ts) fs) | _ \<Rightarrow> None)"
  by (cases v) (simp_all add: comp_def case_prod_beta)

lemma foot_struct: "foot (TStruct ts) h v = (case v of Struct fs \<Rightarrow> \<Union> (set (feet h ts fs)) | _ \<Rightarrow> {})"
  by (cases v) (simp_all add: zip_map1 comp_def case_prod_beta)

lemma separate_struct: "separate (TStruct ts) h v \<longleftrightarrow> (case v of
     Struct fs \<Rightarrow> list_all id (map2 (\<lambda>nt mv. separate (snd nt) h (snd mv)) ts fs) \<and> apart (feet h ts fs) | _ \<Rightarrow> True)"
  by (cases v) (simp_all add: zip_map1 comp_def split_beta')

declare load.simps(2) [simp del] foot.simps(2) [simp del] separate.simps(2) [simp del]

text \<open>A type without references\<close>

primrec flat :: "gotype \<Rightarrow> bool" where
  "flat (TScalar k) = True"
| "flat (TStruct ts) = list_all snd (map (map_prod id flat) ts)"
| "flat (TPointer t) = False"
| "flat (TSlice t) = False"
| "flat (TMap t) = False"

section \<open>The frame\<close>

text \<open>A tree depends only on the cells that the value is made of.\<close>

lemma load_all_cong: "(\<And>v. v \<in> set vs \<Longrightarrow> l v = l' v) \<Longrightarrow> load_all l vs = load_all l' vs"
  by (induction vs) simp_all

lemma load_all_Some: "load_all l vs = Some xs \<Longrightarrow> v \<in> set vs \<Longrightarrow> \<exists>x. l v = Some x"
  by (induction vs arbitrary: xs) (auto split: bind_splits)

definition same_on :: "addr set \<Rightarrow> memory \<Rightarrow> memory \<Rightarrow> bool" where
  "same_on A h h' \<longleftrightarrow> (\<forall>a \<in> A. \<forall>c. lookup h a = Some c \<longrightarrow> lookup h' a = Some c)"

lemma same_on_subset: "same_on A h h' \<Longrightarrow> B \<subseteq> A \<Longrightarrow> same_on B h h'"
  by (auto simp: same_on_def)

lemma struct_frame:
  assumes "\<And>t v x. t \<in> snd ` set ts \<Longrightarrow> load t h v = Some x \<Longrightarrow> same_on (foot t h v) h h' \<Longrightarrow> load t h' v = Some x \<and> foot t h' v = foot t h v \<and> separate t h' v = separate t h v"
    and "load_fields (loaders h ts) fs = Some xs"
    and "same_on (\<Union> (set (feet h ts fs))) h h'"
  shows "load_fields (loaders h' ts) fs = Some xs \<and> feet h' ts fs = feet h ts fs \<and>
    map2 (\<lambda>nt mv. separate (snd nt) h' (snd mv)) ts fs = map2 (\<lambda>nt mv. separate (snd nt) h (snd mv)) ts fs"
  using assms
proof (induction ts arbitrary: fs xs)
  case Nil
  then show ?case by (cases fs) simp_all
next
  case (Cons nt ts)
  obtain n t where nt: "nt = (n, t)" by fastforce
  obtain v fs' x xs' where fs: "fs = (n, v) # fs'" "load t h v = Some x"
    "load_fields (loaders h ts) fs' = Some xs'" "xs = (n, x) # xs'"
    using Cons.prems(2) nt by (cases fs) (auto split: if_splits bind_splits)
  have "same_on (foot t h v) h h'" by (rule same_on_subset [OF Cons.prems(3)]) (simp add: nt fs(1))
  note head = Cons.prems(1) [of t, OF _ fs(2) this]
  have "same_on (\<Union> (set (feet h ts fs'))) h h'"
    by (rule same_on_subset [OF Cons.prems(3)]) (auto simp: nt fs(1))
  then have "load_fields (loaders h' ts) fs' = Some xs' \<and> feet h' ts fs' = feet h ts fs' \<and>
      map2 (\<lambda>nt mv. separate (snd nt) h' (snd mv)) ts fs' = map2 (\<lambda>nt mv. separate (snd nt) h (snd mv)) ts fs'"
    by (rule Cons.IH [OF _ fs(3), rotated]) (rule Cons.prems(1), simp)
  with head show ?case by (simp add: nt fs)
qed

lemma load_frame:
  "load t h v = Some x \<Longrightarrow> same_on (foot t h v) h h' \<Longrightarrow> load t h' v = Some x \<and> foot t h' v = foot t h v \<and> separate t h' v = separate t h v"
proof (induction t arbitrary: v x)
  case (TScalar k)
  then show ?case by simp
next
  case (TStruct ts)
  then obtain fs xs where fs: "v = Struct fs" "load_fields (loaders h ts) fs = Some xs" "x = Fields xs"
    by (auto simp: load_struct split: gval.splits)
  have "same_on (\<Union> (set (feet h ts fs))) h h'" using TStruct.prems(2) by (simp add: foot_struct fs(1))
  have "load t h' v = Some x \<and> foot t h' v = foot t h v \<and> separate t h' v = separate t h v"
    if "t \<in> snd ` set ts" "load t h v = Some x" "same_on (foot t h v) h h'" for t v x
    using that TStruct.IH by (metis imageE snds.intros surjective_pairing)
  from struct_frame [OF this fs(2) \<open>same_on (\<Union> (set (feet h ts fs))) h h'\<close>] show ?case
    by (simp add: fs(1,3) load_struct foot_struct separate_struct del: map_eq_conv)
next
  case (TPointer t)
  show ?case
  proof (cases "v = Pointer None")
    case False
    then obtain a u y where v: "v = Pointer (Some a)" "lookup h a = Some (Var u)" "load t h u = Some y" "x = PointsTo y"
      using TPointer.prems(1) by (auto split: gval.splits option.splits cell.splits)
    have "same_on (foot t h u) h h'" by (rule same_on_subset [OF TPointer.prems(2)]) (use v in auto)
    moreover have "lookup h' a = lookup h a" using TPointer.prems(2) v by (simp add: same_on_def)
    ultimately show ?thesis using v TPointer.IH [OF v(3)] by simp
  qed (use TPointer in simp)
next
  case (TSlice t)
  show ?case
  proof (cases "v = Slice None")
    case False
    then obtain a off n us xs where v: "v = Slice (Some (a, off, n))" "lookup h a = Some (Array us)" "off + n \<le> length us"
      "load_all (load t h) (take n (drop off us)) = Some xs" "x = Elems xs"
      using TSlice.prems(1) by (auto split: gval.splits option.splits cell.splits if_splits)
    have "load t h' u = load t h u \<and> foot t h' u = foot t h u \<and> separate t h' u = separate t h u" if u: "u \<in> set (take n (drop off us))" for u
    proof -
      obtain y where "load t h u = Some y" using load_all_Some [OF v(4) u] by blast
      moreover have "same_on (foot t h u) h h'" by (rule same_on_subset [OF TSlice.prems(2)]) (use v u in auto)
      ultimately show ?thesis using TSlice.IH by simp
    qed
    moreover have "lookup h' a = lookup h a" using TSlice.prems(2) v by (simp add: same_on_def)
    ultimately show ?thesis using v load_all_cong [of "take n (drop off us)" "load t h" "load t h'"]
      by (simp add: list_all_iff cong: map_cong)
  qed (use TSlice in simp)
next
  case (TMap t)
  show ?case
  proof (cases "v = GoMap None")
    case False
    then obtain a es xs where v: "v = GoMap (Some a)" "lookup h a = Some (Entries es)" "distinct (map fst es)"
      "load_all (load t h) (map snd es) = Some xs" "x = Dict (fmap_of_list (zip (map fst es) xs))"
      using TMap.prems(1) by (auto split: gval.splits option.splits cell.splits if_splits)
    have "load t h' u = load t h u \<and> foot t h' u = foot t h u \<and> separate t h' u = separate t h u" if u: "u \<in> set (map snd es)" for u
    proof -
      obtain y where "load t h u = Some y" using load_all_Some [OF v(4) u] by blast
      moreover have "same_on (foot t h u) h h'" by (rule same_on_subset [OF TMap.prems(2)]) (use v u in auto)
      ultimately show ?thesis using TMap.IH by simp
    qed
    moreover have "lookup h' a = lookup h a" using TMap.prems(2) v by (simp add: same_on_def)
    moreover from calculation(1) have "load_all (load t h') (map snd es) = Some xs"
      using load_all_cong [of "map snd es" "load t h" "load t h'"] v(4) by simp
    ultimately show ?thesis using v by (simp add: list_all_iff cong: map_cong)
  qed (use TMap in simp)
qed

lemma same_on_prefix: "prefix h h' \<Longrightarrow> same_on A h h'"
  by (auto simp: same_on_def lookup_def prefix_def nth_append split: if_splits)

lemma same_on_store: "b \<notin> A \<Longrightarrow> same_on A h (h[b := c])"
  by (auto simp: same_on_def lookup_def intro!: nth_list_update_neq)

lemmas load_prefix = load_frame [OF _ same_on_prefix]
lemmas load_store = load_frame [OF _ same_on_store]

text \<open>The names of the fields of a struct are distinct, so that its fields can be read by name.\<close>

lemma names_differ: "distinct (map fst (nt # ts)) \<Longrightarrow> nt' \<in> set ts \<Longrightarrow> fst nt' \<noteq> fst nt"
  by (metis distinct.simps(2) imageI list.set_map list.simps(9))

lemma load_fields_iff:
  "distinct (map fst ts) \<Longrightarrow> load_fields (loaders h ts) fs = Some xs \<longleftrightarrow>
     map fst fs = map fst ts \<and> map fst xs = map fst ts \<and>
     (\<forall>nt \<in> set ts. \<exists>v x. map_of fs (fst nt) = Some v \<and> map_of xs (fst nt) = Some x \<and> load (snd nt) h v = Some x)"
proof (induction ts arbitrary: fs xs)
  case Nil
  then show ?case by (cases fs) auto
next
  case (Cons nt ts)
  show ?case
  proof (cases "\<exists>v fs' x xs'. fs = (fst nt, v) # fs' \<and> xs = (fst nt, x) # xs'")
    case True
    then obtain v fs' x xs' where fs: "fs = (fst nt, v) # fs'" "xs = (fst nt, x) # xs'" by blast
    have "load_fields (loaders h (nt # ts)) fs = Some xs \<longleftrightarrow> load (snd nt) h v = Some x \<and> load_fields (loaders h ts) fs' = Some xs'"
      by (auto simp: fs split: bind_splits)
    moreover have "(\<forall>nt' \<in> set ts. \<exists>v x. map_of fs (fst nt') = Some v \<and> map_of xs (fst nt') = Some x \<and> load (snd nt') h v = Some x) \<longleftrightarrow>
        (\<forall>nt' \<in> set ts. \<exists>v x. map_of fs' (fst nt') = Some v \<and> map_of xs' (fst nt') = Some x \<and> load (snd nt') h v = Some x)"
      using names_differ [OF Cons.prems] by (intro ball_cong) (simp_all add: fs)
    moreover note Cons.IH [of fs' xs']
    ultimately show ?thesis using Cons.prems by (simp add: fs) blast
  next
    case False
    then show ?thesis
      by (cases nt; cases fs; cases xs) (auto split: if_splits bind_splits)
  qed
qed

abbreviation field :: "(string \<times> gval) list \<Rightarrow> string \<Rightarrow> gval" where
  "field fs n \<equiv> the (map_of fs n)"

lemma fields_by_name:
  "distinct (map fst ts) \<Longrightarrow> map fst fs = map fst ts \<Longrightarrow> fs = map (\<lambda>nt. (fst nt, field fs (fst nt))) ts"
proof (induction ts arbitrary: fs)
  case (Cons nt ts)
  obtain v fs' where fs: "fs = (fst nt, v) # fs'" "map fst fs' = map fst ts" using Cons.prems(2) by (cases fs) auto
  have "field fs (fst nt') = field fs' (fst nt')" if "nt' \<in> set ts" for nt'
    using names_differ [OF Cons.prems(1) that] by (simp add: fs(1))
  then have "map (\<lambda>nt. (fst nt, field fs (fst nt))) ts = fs'" using Cons.IH [OF _ fs(2)] Cons.prems(1) by (simp cong: map_cong)
  then show ?case by (simp add: fs(1))
qed simp

lemma map2_fields: "map2 f ts (map (\<lambda>nt. (fst nt, g nt)) ts) = map (\<lambda>nt. f nt (fst nt, g nt)) ts"
  by (induction ts) simp_all

lemma apart_map:
  "distinct (map fst ts) \<Longrightarrow>
     apart (map F ts) \<longleftrightarrow> (\<forall>nt \<in> set ts. \<forall>mt \<in> set ts. fst nt \<noteq> fst mt \<longrightarrow> F nt \<inter> F mt = {})"
proof (induction ts)
  case (Cons nt ts)
  have differ: "fst nt \<noteq> fst mt" if "mt \<in> set ts" for mt by (rule names_differ [OF Cons.prems that, THEN not_sym])
  define P where "P n m \<longleftrightarrow> F n \<inter> F m = {}" for n m
  have sym: "P n m \<longleftrightarrow> P m n" for n m by (auto simp: P_def)
  have "apart (map F (nt # ts)) \<longleftrightarrow> (\<forall>m \<in> set ts. P nt m) \<and> apart (map F ts)" by (auto simp: P_def)
  also have "\<dots> \<longleftrightarrow> (\<forall>m \<in> set ts. P nt m) \<and> (\<forall>n \<in> set ts. \<forall>m \<in> set ts. fst n \<noteq> fst m \<longrightarrow> P n m)"
    using Cons by (simp add: P_def)
  also have "\<dots> \<longleftrightarrow> (\<forall>n \<in> set (nt # ts). \<forall>m \<in> set (nt # ts). fst n \<noteq> fst m \<longrightarrow> P n m)"
    using differ by (auto dest: sym [THEN iffD1])
  finally show ?case by (simp add: P_def)
qed simp

lemma struct_by_name:
  assumes "distinct (map fst ts)" "map fst fs = map fst ts"
  shows "\<Union> (set (feet h ts fs)) = (\<Union>nt \<in> set ts. foot (snd nt) h (field fs (fst nt)))"
    and "separate (TStruct ts) h (Struct fs) \<longleftrightarrow> (\<forall>nt \<in> set ts. separate (snd nt) h (field fs (fst nt))) \<and>
      (\<forall>nt \<in> set ts. \<forall>mt \<in> set ts. fst nt \<noteq> fst mt \<longrightarrow>
        foot (snd nt) h (field fs (fst nt)) \<inter> foot (snd mt) h (field fs (fst mt)) = {})"
proof -
  have feet: "feet h ts fs = map (\<lambda>nt. foot (snd nt) h (field fs (fst nt))) ts"
    and seps: "map2 (\<lambda>nt mv. separate (snd nt) h (snd mv)) ts fs = map (\<lambda>nt. separate (snd nt) h (field fs (fst nt))) ts"
    by (subst fields_by_name [OF assms], simp add: map2_fields)+
  show "\<Union> (set (feet h ts fs)) = (\<Union>nt \<in> set ts. foot (snd nt) h (field fs (fst nt)))" by (simp add: feet)
  show "separate (TStruct ts) h (Struct fs) \<longleftrightarrow> (\<forall>nt \<in> set ts. separate (snd nt) h (field fs (fst nt))) \<and>
      (\<forall>nt \<in> set ts. \<forall>mt \<in> set ts. fst nt \<noteq> fst mt \<longrightarrow>
        foot (snd nt) h (field fs (fst nt)) \<inter> foot (snd mt) h (field fs (fst mt)) = {})"
    unfolding separate_struct gval.case feet seps apart_map [OF assms(1)] by (simp add: list_all_iff)
qed

text \<open>A value that can be read is made of cells of the memory.\<close>

lemma lookup_less: "lookup h a = Some c \<Longrightarrow> a < length h"
  by (simp add: lookup_def split: if_splits)

lemma struct_cells:
  assumes "\<And>t v x. t \<in> snd ` set ts \<Longrightarrow> load t h v = Some x \<Longrightarrow> foot t h v \<subseteq> {..<length h}"
    and "load_fields (loaders h ts) fs = Some xs"
  shows "\<Union> (set (feet h ts fs)) \<subseteq> {..<length h}"
  using assms
proof (induction ts arbitrary: fs xs)
  case (Cons nt ts)
  then obtain v fs' x xs' where fs: "fs = (fst nt, v) # fs'" "load (snd nt) h v = Some x" "load_fields (loaders h ts) fs' = Some xs'"
    by (cases fs) (auto split: if_splits bind_splits)
  have "foot (snd nt) h v \<subseteq> {..<length h}" by (rule Cons.prems(1) [OF _ fs(2)]) simp
  moreover have "\<Union> (set (feet h ts fs')) \<subseteq> {..<length h}"
    by (rule Cons.IH [OF _ fs(3)]) (rule Cons.prems(1), simp_all)
  ultimately show ?case by (simp add: fs(1))
qed simp

lemma load_cells: "load t h v = Some x \<Longrightarrow> foot t h v \<subseteq> {..<length h}"
proof (induction t arbitrary: v x)
  case (TStruct ts)
  then obtain fs xs where fs: "v = Struct fs" "load_fields (loaders h ts) fs = Some xs"
    by (auto simp: load_struct split: gval.splits)
  have "\<Union> (set (feet h ts fs)) \<subseteq> {..<length h}"
    by (rule struct_cells [OF _ fs(2)]) (use TStruct.IH in fastforce)
  then show ?case by (simp add: fs(1) foot_struct)
next
  case (TPointer t)
  then show ?case by (fastforce split: gval.splits option.splits cell.splits simp: lookup_less)
next
  case (TSlice t)
  then show ?case
    by (fastforce split: gval.splits option.splits cell.splits if_splits simp: lookup_less dest: load_all_Some)
next
  case (TMap t)
  then show ?case
    by (fastforce split: gval.splits option.splits cell.splits if_splits simp: lookup_less dest: load_all_Some)
qed simp

end
