(* ===== verification/Go_Copy.thy ===== *)
theory Go_Copy
  imports Go_Memory "HOL-Library.AList"
begin

text \<open>
  The statements that the generated deep copy functions are made of, as functions on the memory, and the contract of a deep copy.
  A copier gets the value \<open>*in\<close> and returns the value that \<open>*out\<close> has afterwards; \<open>None\<close> is a run-time panic.
\<close>

type_synonym copier = "gval \<Rightarrow> memory \<Rightarrow> (gval \<times> memory) option"

section \<open>Statements\<close>

text \<open>\<open>for x := range xs\<close>\<close>

primrec for_each :: "('a \<Rightarrow> 's \<Rightarrow> 's option) \<Rightarrow> 'a list \<Rightarrow> 's \<Rightarrow> 's option" where
  "for_each f [] s = Some s"
| "for_each f (x # xs) s = Option.bind (f x s) (for_each f xs)"

text \<open>The zero value of a type, which \<open>new\<close> and \<open>make\<close> fill a cell with\<close>

primrec zero :: "gotype \<Rightarrow> gval" where
  "zero (TScalar k) = Scalar (zero_scalar k)"
| "zero (TStruct ts) = Struct (map (map_prod id zero) ts)"
| "zero (TPointer t) = Pointer None"
| "zero (TSlice t) = Slice None"
| "zero (TMap t) = GoMap None"

definition read_var :: "addr \<Rightarrow> memory \<Rightarrow> gval option" where
  "read_var a h = (case lookup h a of Some (Var v) \<Rightarrow> Some v | _ \<Rightarrow> None)"

definition read_array :: "addr \<Rightarrow> memory \<Rightarrow> gval list option" where
  "read_array a h = (case lookup h a of Some (Array vs) \<Rightarrow> Some vs | _ \<Rightarrow> None)"

definition read_entries :: "addr \<Rightarrow> memory \<Rightarrow> (string \<times> gval) list option" where
  "read_entries a h = (case lookup h a of Some (Entries es) \<Rightarrow> Some es | _ \<Rightarrow> None)"

text \<open>\<open>vs[i]\<close>; an index out of range panics.\<close>

definition index :: "gval list \<Rightarrow> nat \<Rightarrow> gval option" where
  "index vs i = (if i < length vs then Some (vs ! i) else None)"

text \<open>\<open>(*out)[i] = w\<close> and \<open>(*out)[key] = w\<close>\<close>

definition set_index :: "addr \<Rightarrow> nat \<Rightarrow> gval \<Rightarrow> memory \<Rightarrow> memory option" where
  "set_index a i w h = do {
     vs \<leftarrow> read_array a h;
     (if i < length vs then Some (h[a := Array (vs[i := w])]) else None) }"

definition set_key :: "addr \<Rightarrow> string \<Rightarrow> gval \<Rightarrow> memory \<Rightarrow> memory option" where
  "set_key a k w h = do { es \<leftarrow> read_entries a h; Some (h[a := Entries (AList.update k w es)]) }"

text \<open>\<open>*out = *in\<close>, and nothing else\<close>

definition assign :: copier where
  "assign v h = Some (v, h)"

text \<open>\<open>out := new(T); in.DeepCopyInto(out)\<close> for a pointer that is not nil\<close>

definition copy_pointer :: "gotype \<Rightarrow> copier \<Rightarrow> copier" where
  "copy_pointer t f v h = (case v of
     Pointer None \<Rightarrow> Some (Pointer None, h)
   | Pointer (Some a) \<Rightarrow> do {
       u \<leftarrow> read_var a h;
       (w, h') \<leftarrow> f u (h @ [Var (zero t)]);
       Some (Pointer (Some (length h)), h'[length h := Var w]) }
   | _ \<Rightarrow> None)"

text \<open>\<open>*val.DeepCopy()\<close>: the copy is read from a new variable that nothing refers to afterwards.\<close>

definition copy_value :: "gotype \<Rightarrow> copier \<Rightarrow> copier" where
  "copy_value t f v h = do {
     (w, h') \<leftarrow> f v (h @ [Var (zero t)]);
     Some (w, h'[length h := Var w]) }"

text \<open>\<open>*out = make([]T, len(*in))\<close> and the loop over the elements\<close>

definition copy_slice :: "gotype \<Rightarrow> copier \<Rightarrow> copier" where
  "copy_slice t f v h = (case v of
     Slice None \<Rightarrow> Some (Slice None, h)
   | Slice (Some (a, off, n)) \<Rightarrow> do {
       h' \<leftarrow> for_each (\<lambda>i h'. do {
           us \<leftarrow> read_array a h';
           u \<leftarrow> index us (off + i);
           (w, h'') \<leftarrow> f u h';
           set_index (length h) i w h'' })
         [0..<n] (h @ [Array (replicate n (zero t))]);
       Some (Slice (Some (length h, 0, n)), h') }
   | _ \<Rightarrow> None)"

text \<open>\<open>copy(*out, *in)\<close>\<close>

definition copy_flat_slice :: "gotype \<Rightarrow> copier" where
  "copy_flat_slice t v h = (case v of
     Slice None \<Rightarrow> Some (Slice None, h)
   | Slice (Some (a, off, n)) \<Rightarrow> do {
       us \<leftarrow> read_array a h;
       (if off + n \<le> length us
        then Some (Slice (Some (length h, 0, n)), h @ [Array (take n (drop off us))]) else None) }
   | _ \<Rightarrow> None)"

text \<open>
  \<open>*out = make(map[string]T, len(*in))\<close> and the loop over the entries, in the order that the first argument gives for the keys; Go
  leaves it open.
\<close>

definition copy_map :: "(string list \<Rightarrow> string list) \<Rightarrow> copier \<Rightarrow> copier" where
  "copy_map ord f v h = (case v of
     GoMap None \<Rightarrow> Some (GoMap None, h)
   | GoMap (Some a) \<Rightarrow> do {
       es \<leftarrow> read_entries a h;
       h' \<leftarrow> for_each (\<lambda>k h'. do {
           es' \<leftarrow> read_entries a h';
           u \<leftarrow> map_of es' k;
           (w, h'') \<leftarrow> f u h';
           set_key (length h) k w h'' })
         (ord (map fst es)) (h @ [Entries []]);
       Some (GoMap (Some (length h)), h') }
   | _ \<Rightarrow> None)"

text \<open>\<open>*out = *in\<close>, and then the listed fields are copied one after the other.\<close>

definition set_field :: "string \<Rightarrow> 'a \<Rightarrow> (string \<times> 'a) list \<Rightarrow> (string \<times> 'a) list" where
  "set_field n w fs = map (\<lambda>f. if fst f = n then (n, w) else f) fs"

definition copy_fields :: "(string \<times> copier) list \<Rightarrow> copier" where
  "copy_fields cs v h = (case v of
     Struct fs \<Rightarrow> do {
       (out, h') \<leftarrow> for_each (\<lambda>(n, f) (out, h'). do {
           u \<leftarrow> map_of fs n;
           (w, h'') \<leftarrow> f u h';
           Some (set_field n w out, h'') })
         cs (fs, h);
       Some (Struct out, h') }
   | _ \<Rightarrow> None)"

section \<open>The contract\<close>

text \<open>
  The copy exists, leaves every cell that was there as it was, reads the same as the original, is made of new cells only, and no two
  parts of it share a cell.
\<close>

definition copied :: "gotype \<Rightarrow> memory \<Rightarrow> tree \<Rightarrow> gval \<Rightarrow> memory \<Rightarrow> bool" where
  "copied t h x w h' \<longleftrightarrow> prefix h h' \<and> load t h' w = Some x \<and> foot t h' w \<subseteq> {length h..} \<and> separate t h' w"

definition deep_copy :: "gotype \<Rightarrow> copier \<Rightarrow> bool" where
  "deep_copy t f \<longleftrightarrow> (\<forall>h v x. load t h v = Some x \<longrightarrow> (\<exists>w h'. f v h = Some (w, h') \<and> copied t h x w h'))"

lemma deep_copyI [intro?]:
  "(\<And>h v x. load t h v = Some x \<Longrightarrow> \<exists>w h'. f v h = Some (w, h') \<and> copied t h x w h') \<Longrightarrow> deep_copy t f"
  by (simp add: deep_copy_def)

lemma deep_copyD:
  assumes "deep_copy t f" "load t h v = Some x"
  obtains w h' where "f v h = Some (w, h')" "copied t h x w h'"
  using assms unfolding deep_copy_def by blast

lemma copied_prefix:
  assumes "copied t h x w h'" "prefix h' h''"
  shows "copied t h x w h''"
  using assms load_prefix [OF _ assms(2), of t w x] by (auto simp: copied_def intro: prefix_order.trans)

lemma prefix_store: "prefix h h' \<Longrightarrow> length h \<le> b \<Longrightarrow> prefix h (h'[b := c])"
  by (auto simp: prefix_def list_update_append)

lemma for_each_inv:
  assumes "P [] s" and "\<And>ys y zs s. xs = ys @ y # zs \<Longrightarrow> P ys s \<Longrightarrow> \<exists>s'. f y s = Some s' \<and> P (ys @ [y]) s'"
  shows "\<exists>s'. for_each f xs s = Some s' \<and> P xs s'"
proof -
  have "\<exists>s'. for_each f zs s = Some s' \<and> P xs s'" if "xs = ys @ zs" "P ys s" for ys zs s
    using that
  proof (induction zs arbitrary: ys s)
    case (Cons z zs)
    from assms(2) [OF Cons.prems] obtain s' where s': "f z s = Some s'" "P (ys @ [z]) s'" by blast
    from Cons.IH [of "ys @ [z]" s'] s' Cons.prems(1) show ?case by simp
  qed simp
  from this [of "[]" xs s] assms(1) show ?thesis by simp
qed

lemma flat_foot: "flat t \<Longrightarrow> foot t h v = {}"
proof (induction t arbitrary: v)
  case (TStruct ts)
  have "foot (snd nt) h u = {}" if "nt \<in> set ts" for nt u
    using that TStruct.prems by (intro TStruct.IH [of nt "snd nt"]) (auto simp: list_all_iff snds.simps)
  then have "A = {}" if "A \<in> set (feet h ts fs)" for A fs
    using that by (auto dest: set_zip_leftD)
  then show ?case by (auto simp: foot_struct split: gval.splits)
qed simp_all

lemma apart_empty: "(\<And>A. A \<in> set As \<Longrightarrow> A = {}) \<Longrightarrow> apart As"
  by (induction As) auto

lemma flat_separate: "flat t \<Longrightarrow> separate t h v"
proof (induction t arbitrary: v)
  case (TStruct ts)
  have flat: "flat (snd nt)" if "nt \<in> set ts" for nt using that TStruct.prems by (auto simp: list_all_iff)
  then have "separate (snd nt) h u" if "nt \<in> set ts" for nt u
    using that by (intro TStruct.IH [of nt "snd nt"]) (auto simp: snds.simps)
  moreover have "apart (feet h ts fs)" for fs
    by (rule apart_empty) (auto dest!: set_zip_leftD simp: flat_foot dest: flat)
  ultimately show ?case by (auto simp: separate_struct list_all_iff dest!: set_zip_leftD split: gval.splits)
qed simp_all

lemma apart_snoc: "apart (As @ [A]) \<longleftrightarrow> apart As \<and> \<Union> (set As) \<inter> A = {}"
  by (induction As) auto

lemma deep_copy_assign: "flat t \<Longrightarrow> deep_copy t assign"
  by (rule deep_copyI) (simp add: assign_def copied_def flat_foot flat_separate)

section \<open>The rules\<close>

text \<open>The loops fill a new cell: the parts built so far stay as they are when the next part is copied and the cell is written.\<close>

definition built :: "gotype \<Rightarrow> addr \<Rightarrow> memory \<Rightarrow> gval \<Rightarrow> tree \<Rightarrow> bool" where
  "built t b s w x \<longleftrightarrow> load t s w = Some x \<and> foot t s w \<subseteq> {Suc b..} \<and> separate t s w"

lemma built_step:
  assumes "built t b s w x" "prefix s s'"
  shows "built t b (s'[b := c]) w x \<and> foot t (s'[b := c]) w = foot t s w"
proof -
  have "load t s' w = Some x \<and> foot t s' w = foot t s w \<and> separate t s' w = separate t s w"
    by (rule load_prefix) (use assms in \<open>auto simp: built_def\<close>)
  moreover have "b \<notin> foot t s w" using assms(1) by (auto simp: built_def)
  ultimately show ?thesis using load_store [of t s' w x b c] assms(1) by (simp add: built_def)
qed

lemma built_foot: "built t b s w x \<Longrightarrow> load t s w = Some x \<and> foot t s w \<subseteq> {b..} \<and> b \<notin> foot t s w \<and> separate t s w"
  by (auto simp: built_def)

text \<open>A new part is apart from the parts that were there before.\<close>

lemma built_apart:
  assumes "list_all2 (built t b s) ws xs" "apart (map (foot t s) ws)" "prefix s s'" "foot t (s'[b := c]) w \<subseteq> {length s..}"
  shows "apart (map (foot t (s'[b := c])) (ws @ [w]))"
proof -
  have old: "foot t (s'[b := c]) u = foot t s u" "foot t s u \<subseteq> {..<length s}" if u: "u \<in> set ws" for u
  proof -
    obtain x where x: "built t b s u x" using u assms(1) by (auto simp: list_all2_conv_all_nth in_set_conv_nth)
    show "foot t (s'[b := c]) u = foot t s u" using built_step [OF x assms(3)] by blast
    show "foot t s u \<subseteq> {..<length s}" by (rule load_cells [of _ _ _ x]) (use x in \<open>simp add: built_def\<close>)
  qed
  then have same: "map (foot t (s'[b := c])) ws = map (foot t s) ws" by simp
  have "\<Union> (set (map (foot t s) ws)) \<subseteq> {..<length s}" using old(2) by auto
  with assms(4) have "\<Union> (set (map (foot t s) ws)) \<inter> foot t (s'[b := c]) w = {}" by fastforce
  then show ?thesis using assms(2) same by (simp add: apart_snoc del: map_eq_conv)
qed

lemma load_all_built: "list_all2 (built t b s) ws xs \<Longrightarrow> load_all (load t s) ws = Some xs"
  by (induction rule: list_all2_induct) (simp_all add: built_def)

lemma all_built_step: "list_all2 (built t b s) ws xs \<Longrightarrow> prefix s s' \<Longrightarrow> list_all2 (built t b (s'[b := c])) ws xs"
  by (erule list_all2_mono) (simp add: built_step)

text \<open>What is known of the parts in the end\<close>

lemma all_built:
  assumes "list_all2 (built t b s) ws xs" "apart (map (foot t s) ws)"
  shows "load_all (load t s) ws = Some xs" "\<Union> (foot t s ` set ws) \<subseteq> {b..}" "apart ({b} # map (foot t s) ws)"
    "list_all (separate t s) ws"
proof -
  have "foot t s w \<subseteq> {Suc b..} \<and> separate t s w" if "w \<in> set ws" for w
    using that assms(1) by (auto simp: list_all2_conv_all_nth in_set_conv_nth built_def)
  then show "\<Union> (foot t s ` set ws) \<subseteq> {b..}" "apart ({b} # map (foot t s) ws)" "list_all (separate t s) ws"
    using assms(2) by (fastforce simp: list_all_iff)+
qed (rule load_all_built [OF assms(1)])

lemma part_copied:
  assumes "deep_copy t f" "load t h u = Some x" "prefix h s" "length h < length s"
  obtains w s' where "f u s = Some (w, s')" "prefix s s'" "lookup s' (length h) = lookup s (length h)"
    "\<And>c. prefix h (s'[length h := c])" "\<And>c. length h < length (s'[length h := c])"
    "\<And>c. lookup (s'[length h := c]) (length h) = Some c" "\<And>c. built t (length h) (s'[length h := c]) w x"
    "\<And>c. foot t (s'[length h := c]) w \<subseteq> {length s..}"
proof -
  have "load t s u = Some x" using load_prefix [OF assms(2,3)] by simp
  from deep_copyD [OF assms(1) this] obtain w s' where w: "f u s = Some (w, s')" "copied t s x w s'" .
  then have s': "prefix s s'" by (simp add: copied_def)
  then have len: "length h < length s'" using assms(4) prefix_length_le [of s s'] by linarith
  have "built t (length h) s' w x" using w(2) assms(4) by (auto simp: built_def copied_def subset_iff)
  from built_step [OF this, of s'] have "built t (length h) (s'[length h := c]) w x" "foot t (s'[length h := c]) w = foot t s' w" for c
    by blast+
  moreover have "foot t s' w \<subseteq> {length s..}" using w(2) by (simp add: copied_def)
  moreover have "prefix h (s'[length h := c])" for c using assms(3) s' by (intro prefix_store) (auto intro: prefix_order.trans)
  moreover have "lookup s' (length h) = lookup s (length h)"
    using s' assms(4) by (auto simp: lookup_def prefix_def nth_append)
  moreover have "lookup (s'[length h := c]) (length h) = Some c" for c using len by (simp add: lookup_def)
  ultimately show thesis using that w(1) s' len by auto
qed

lemma prefix_read: "prefix h s \<Longrightarrow> lookup h a = Some c \<Longrightarrow> lookup s a = Some c"
  using same_on_prefix [of h s UNIV] by (auto simp: same_on_def)

lemma lookup_new [simp]: "lookup (h @ [c]) (length h) = Some c"
  by (simp add: lookup_def)

lemma deep_copy_pointer:
  assumes "deep_copy t f"
  shows "deep_copy (TPointer t) (copy_pointer t f)"
proof
  fix h v x
  assume load: "load (TPointer t) h v = Some x"
  show "\<exists>w h'. copy_pointer t f v h = Some (w, h') \<and> copied (TPointer t) h x w h'"
  proof (cases "v = Pointer None")
    case True
    with load show ?thesis by (simp add: copy_pointer_def copied_def)
  next
    case False
    then obtain a u y where v: "v = Pointer (Some a)" "lookup h a = Some (Var u)" "load t h u = Some y" "x = PointsTo y"
      using load by (auto split: gval.splits option.splits cell.splits)
    obtain w s where w: "f u (h @ [Var (zero t)]) = Some (w, s)" "\<And>c. prefix h (s[length h := c])"
      "\<And>c. lookup (s[length h := c]) (length h) = Some c" "\<And>c. built t (length h) (s[length h := c]) w y"
      by (rule part_copied [OF assms v(3), of "h @ [Var (zero t)]"]) auto
    with built_foot [OF w(4)] v show ?thesis by (simp add: copy_pointer_def read_var_def copied_def)
  qed
qed

lemma deep_copy_value:
  assumes "deep_copy t f"
  shows "deep_copy t (copy_value t f)"
proof
  fix h v x
  assume load: "load t h v = Some x"
  obtain w s where w: "f v (h @ [Var (zero t)]) = Some (w, s)" "\<And>c. prefix h (s[length h := c])"
    "\<And>c. built t (length h) (s[length h := c]) w x"
    by (rule part_copied [OF assms load, of "h @ [Var (zero t)]"]) auto
  with built_foot [OF w(3)] show "\<exists>w h'. copy_value t f v h = Some (w, h') \<and> copied t h x w h'"
    by (simp add: copy_value_def copied_def)
qed

lemma load_all_nth: "load_all l vs = Some xs \<longleftrightarrow> length xs = length vs \<and> (\<forall>i < length vs. l (vs ! i) = Some (xs ! i))"
proof (induction vs arbitrary: xs)
  case (Cons v vs)
  have "load_all l (v # vs) = Some xs \<longleftrightarrow> (\<exists>y ys. xs = y # ys \<and> l v = Some y \<and> load_all l vs = Some ys)"
    by (auto split: bind_splits)
  then show ?case unfolding Cons.IH by (cases xs) (auto simp: All_less_Suc2)
qed auto

lemma upt_position: "[0..<n] = ys @ y # zs \<Longrightarrow> ys = [0..<length ys] \<and> y = length ys \<and> length ys < n"
  by (metis add.left_neutral length_append length_upt less_add_same_cancel1 list.size(4) minus_nat.diff_0 nth_append_length nth_upt
      take_upt append_eq_conv_conj less_imp_le zero_less_Suc add_Suc_right)

lemma deep_copy_slice:
  assumes "deep_copy t f"
  shows "deep_copy (TSlice t) (copy_slice t f)"
proof
  fix h v x
  assume load: "load (TSlice t) h v = Some x"
  show "\<exists>w h'. copy_slice t f v h = Some (w, h') \<and> copied (TSlice t) h x w h'"
  proof (cases "v = Slice None")
    case True
    with load show ?thesis by (simp add: copy_slice_def copied_def)
  next
    case False
    then obtain a off n us xs where v: "v = Slice (Some (a, off, n))" "lookup h a = Some (Array us)" "off + n \<le> length us"
      "load_all (load t h) (take n (drop off us)) = Some xs" "x = Elems xs"
      using load by (auto split: gval.splits option.splits cell.splits if_splits)
    have xs: "length xs = n" "\<And>i. i < n \<Longrightarrow> load t h (us ! (off + i)) = Some (xs ! i)"
      using v(3,4) by (auto simp: load_all_nth)
    let ?b = "length h"
    let ?step = "\<lambda>i h'. do {
           us \<leftarrow> read_array a h'; u \<leftarrow> index us (off + i); (w, h'') \<leftarrow> f u h'; set_index ?b i w h'' }"
    let ?P = "\<lambda>ys s. prefix h s \<and> ?b < length s \<and> (\<exists>ws. lookup s ?b = Some (Array ws) \<and> length ws = n \<and>
        list_all2 (built t ?b s) (take (length ys) ws) (take (length ys) xs) \<and> apart (map (foot t s) (take (length ys) ws)))"
    have "\<exists>s. for_each ?step [0..<n] (h @ [Array (replicate n (zero t))]) = Some s \<and> ?P [0..<n] s"
    proof (rule for_each_inv)
      fix ys y zs s
      assume "[0..<n] = ys @ y # zs" and P: "?P ys s"
      then have y: "y = length ys" "y < n" using upt_position [of n ys y zs] by simp_all
      from P obtain ws where ws: "prefix h s" "?b < length s" "lookup s ?b = Some (Array ws)" "length ws = n"
        "list_all2 (built t ?b s) (take y ws) (take y xs)" "apart (map (foot t s) (take y ws))" by (auto simp: y(1))
      obtain w s' where w: "f (us ! (off + y)) s = Some (w, s')" "prefix s s'" "lookup s' ?b = lookup s ?b"
        "\<And>c. prefix h (s'[?b := c])" "\<And>c. ?b < length (s'[?b := c])" "\<And>c. lookup (s'[?b := c]) ?b = Some c"
        "\<And>c. built t ?b (s'[?b := c]) w (xs ! y)" "\<And>c. foot t (s'[?b := c]) w \<subseteq> {length s..}"
        by (rule part_copied [OF assms xs(2) [OF y(2)] ws(1,2)]) (rule that)
      let ?s = "s'[?b := Array (ws[y := w])]"
      have "?step y s = Some ?s"
        using w(1,3) prefix_read [OF ws(1) v(2)] v(3) y(2) ws(3,4)
        by (simp add: read_array_def index_def set_index_def)
      moreover have parts: "take (Suc y) (ws[y := w]) = take y ws @ [w]" "take (Suc y) xs = take y xs @ [xs ! y]"
        using y(2) ws(4) xs(1) by (simp_all add: take_Suc_conv_app_nth)
      have "list_all2 (built t ?b ?s) (take (Suc y) (ws[y := w])) (take (Suc y) xs)"
        using all_built_step [OF ws(5) w(2)] w(7) unfolding parts by (simp add: list_all2_appendI)
      moreover have "apart (map (foot t ?s) (take (Suc y) (ws[y := w])))"
        unfolding parts by (rule built_apart [OF ws(5,6) w(2,8)])
      ultimately show "\<exists>s'. ?step y s = Some s' \<and> ?P (ys @ [y]) s'"
        using w(4-6) ws(4) y(1) by auto
    qed auto
    then obtain s ws where s: "for_each ?step [0..<n] (h @ [Array (replicate n (zero t))]) = Some s" "prefix h s"
      "lookup s ?b = Some (Array ws)" "length ws = n" "list_all2 (built t ?b s) ws xs" "apart (map (foot t s) ws)"
      by (auto simp: xs(1))
    with all_built [OF s(5,6)] v show ?thesis by (simp add: copy_slice_def copied_def)
  qed
qed

lemma deep_copy_flat_slice:
  assumes "flat t"
  shows "deep_copy (TSlice t) (copy_flat_slice t)"
proof
  fix h v x
  assume load: "load (TSlice t) h v = Some x"
  show "\<exists>w h'. copy_flat_slice t v h = Some (w, h') \<and> copied (TSlice t) h x w h'"
  proof (cases "v = Slice None")
    case True
    with load show ?thesis by (simp add: copy_flat_slice_def copied_def)
  next
    case False
    then obtain a off n us xs where v: "v = Slice (Some (a, off, n))" "lookup h a = Some (Array us)" "off + n \<le> length us"
      "load_all (load t h) (take n (drop off us)) = Some xs" "x = Elems xs"
      using load by (auto split: gval.splits option.splits cell.splits if_splits)
    let ?h = "h @ [Array (take n (drop off us))]"
    have "load_all (load t ?h) (take n (drop off us)) = load_all (load t h) (take n (drop off us))"
      by (rule load_all_cong) (use load_all_Some [OF v(4)] load_prefix [of t h _ _ ?h] in fastforce)
    moreover have "apart (map (foot t ?h) (take n (drop off us)))" by (rule apart_empty) (auto simp: flat_foot [OF assms])
    ultimately show ?thesis using v
      by (simp add: copy_flat_slice_def read_array_def copied_def flat_foot [OF assms] flat_separate [OF assms] list_all_iff)
  qed
qed

text \<open>A map is read by key, whatever the order of its entries.\<close>

lemma load_map_iff:
  assumes "lookup h a = Some (Entries es)"
  shows "load (TMap t) h (GoMap (Some a)) = Some x \<longleftrightarrow> distinct (map fst es) \<and>
    (\<exists>m. x = Dict m \<and> (\<forall>k. map_of es k = None \<longrightarrow> fmlookup m k = None) \<and>
      (\<forall>k v. map_of es k = Some v \<longrightarrow> (\<exists>y. load t h v = Some y \<and> fmlookup m k = Some y)))"
  (is "?L \<longleftrightarrow> distinct (map fst es) \<and> ?R")
proof (cases "distinct (map fst es)")
  case True
  have key: "map_of (zip (map fst es) xs) k = (case map_of es k of None \<Rightarrow> None | Some v \<Rightarrow> load t h v)"
    if "load_all (load t h) (map snd es) = Some xs" for xs k
    using that True by (induction es arbitrary: xs) (auto simp del: map_of_eq_Some_iff split: bind_splits)
  show ?thesis
  proof
    assume ?L
    then obtain xs where xs: "load_all (load t h) (map snd es) = Some xs" "x = Dict (fmap_of_list (zip (map fst es) xs))"
      using assms by (auto split: if_splits)
    have "\<exists>y. load t h v = Some y" if "map_of es k = Some v" for k v
      using load_all_Some [OF xs(1), of v] map_of_SomeD [OF that] by force
    with True xs(2) show "distinct (map fst es) \<and> ?R" by (force simp: fmlookup_of_list key [OF xs(1)] split: option.splits)
  next
    assume "distinct (map fst es) \<and> ?R"
    then obtain m where m: "x = Dict m" "\<And>k. map_of es k = None \<Longrightarrow> fmlookup m k = None"
      "\<And>k v. map_of es k = Some v \<Longrightarrow> \<exists>y. load t h v = Some y \<and> fmlookup m k = Some y" by blast
    have "\<forall>i < length es. \<exists>y. load t h (snd (es ! i)) = Some y"
      using m(3) True by (metis map_of_is_SomeI nth_mem prod.collapse)
    then have xs: "load_all (load t h) (map snd es) = Some (map (\<lambda>e. the (load t h (snd e))) es)"
      by (auto simp: load_all_nth)
    have "fmap_of_list (zip (map fst es) (map (\<lambda>e. the (load t h (snd e))) es)) = m"
      by (rule fmap_ext) (use m(2,3) in \<open>force simp: fmlookup_of_list key [OF xs] split: option.splits\<close>)
    with True xs m(1) assms show ?L by simp
  qed
qed (use assms in simp)

text \<open>\<open>range\<close> visits every key once.\<close>

definition range_order :: "(string list \<Rightarrow> string list) \<Rightarrow> bool" where
  "range_order ord \<longleftrightarrow> (\<forall>ks. distinct ks \<longrightarrow> distinct (ord ks) \<and> set (ord ks) = set ks)"

lemma update_new_key: "k \<notin> fst ` set ds \<Longrightarrow> AList.update k w ds = ds @ [(k, w)]"
  by (induction ds) auto

lemma deep_copy_map:
  assumes "deep_copy t f" "range_order ord"
  shows "deep_copy (TMap t) (copy_map ord f)"
proof
  fix h v x
  assume load: "load (TMap t) h v = Some x"
  show "\<exists>w h'. copy_map ord f v h = Some (w, h') \<and> copied (TMap t) h x w h'"
  proof (cases "v = GoMap None")
    case True
    with load show ?thesis by (simp add: copy_map_def copied_def)
  next
    case False
    then obtain a es where v: "v = GoMap (Some a)" "lookup h a = Some (Entries es)"
      using load by (auto split: gval.splits option.splits cell.splits)
    with load load_map_iff [OF v(2), of t x] obtain m where m: "distinct (map fst es)" "x = Dict m"
      "\<And>k. map_of es k = None \<Longrightarrow> fmlookup m k = None"
      "\<And>k u. map_of es k = Some u \<Longrightarrow> \<exists>y. load t h u = Some y \<and> fmlookup m k = Some y" by auto
    let ?ks = "ord (map fst es)" and ?b = "length h"
    have ks: "set ?ks = set (map fst es)" "distinct ?ks"
      using assms(2) m(1) by (simp_all add: range_order_def)
    let ?step = "\<lambda>k h'. do {
           es' \<leftarrow> read_entries a h'; u \<leftarrow> map_of es' k; (w, h'') \<leftarrow> f u h'; set_key ?b k w h'' }"
    let ?val = "\<lambda>k. the (fmlookup m k)"
    let ?P = "\<lambda>ys s. prefix h s \<and> ?b < length s \<and> (\<exists>ds. lookup s ?b = Some (Entries ds) \<and> map fst ds = ys \<and>
        list_all2 (built t ?b s) (map snd ds) (map ?val ys) \<and> apart (map (foot t s) (map snd ds)))"
    have "\<exists>s. for_each ?step ?ks (h @ [Entries []]) = Some s \<and> ?P ?ks s"
    proof (rule for_each_inv)
      fix ys k zs s
      assume split: "?ks = ys @ k # zs" and P: "?P ys s"
      then have "k \<in> fst ` set es" using ks(1) by auto
      then obtain u y where u: "map_of es k = Some u" "load t h u = Some y" "fmlookup m k = Some y"
        using m(4) by (metis map_of_eq_None_iff not_None_eq)
      from P obtain ds where ds: "prefix h s" "?b < length s" "lookup s ?b = Some (Entries ds)" "map fst ds = ys"
        "list_all2 (built t ?b s) (map snd ds) (map ?val ys)" "apart (map (foot t s) (map snd ds))" by blast
      obtain w s' where w: "f u s = Some (w, s')" "prefix s s'" "lookup s' ?b = lookup s ?b"
        "\<And>c. prefix h (s'[?b := c])" "\<And>c. ?b < length (s'[?b := c])" "\<And>c. lookup (s'[?b := c]) ?b = Some c"
        "\<And>c. built t ?b (s'[?b := c]) w y" "\<And>c. foot t (s'[?b := c]) w \<subseteq> {length s..}"
        by (rule part_copied [OF assms(1) u(2) ds(1,2)]) (rule that)
      have new: "AList.update k w ds = ds @ [(k, w)]"
        by (rule update_new_key) (use ds(4) ks(2) split in \<open>auto simp flip: set_map\<close>)
      let ?s = "s'[?b := Entries (ds @ [(k, w)])]"
      have "?step k s = Some ?s"
        using w(1,3) prefix_read [OF ds(1) v(2)] u(1) ds(3) new by (simp add: read_entries_def set_key_def)
      moreover have "list_all2 (built t ?b ?s) (map snd (ds @ [(k, w)])) (map ?val (ys @ [k]))"
        using all_built_step [OF ds(5) w(2)] w(7) u(3) by (simp add: list_all2_appendI)
      moreover have "apart (map (foot t ?s) (map snd ds @ [w]))" by (rule built_apart [OF ds(5,6) w(2,8)])
      ultimately show "\<exists>s'. ?step k s = Some s' \<and> ?P (ys @ [k]) s'"
        using w(4-6) ds(4) by auto
    qed auto
    then obtain s ds where s: "for_each ?step ?ks (h @ [Entries []]) = Some s" "prefix h s"
      "lookup s ?b = Some (Entries ds)" "map fst ds = ?ks" "list_all2 (built t ?b s) (map snd ds) (map ?val ?ks)"
      "apart (map (foot t s) (map snd ds))" by blast
    have "fmap_of_list (zip ?ks (map ?val ?ks)) = m"
    proof (rule fmap_ext)
      fix k
      have "k \<in> set ?ks \<longleftrightarrow> map_of es k \<noteq> None" using ks(1) by (simp add: map_of_eq_None_iff)
      moreover have "fmlookup m k = (if map_of es k = None then None else Some (?val k))"
        using m(3,4) [of k] by (cases "map_of es k") auto
      ultimately show "fmlookup (fmap_of_list (zip ?ks (map ?val ?ks))) k = fmlookup m k"
        by (cases "map_of es k") (simp_all add: fmlookup_of_list map_of_zip_map)
    qed
    with all_built [OF s(5,6)] s v m(2) ks(2) show ?thesis
      by (simp add: copy_map_def read_entries_def copied_def image_image del: map_map)
  qed
qed

text \<open>A struct: every field either has a copier or holds no reference.\<close>

lemma set_field_names [simp]: "map fst (set_field n w fs) = map fst fs"
  by (induction fs) (simp_all add: set_field_def)

lemma map_of_set_field: "map_of (set_field n w fs) m = (if m = n \<and> map_of fs n \<noteq> None then Some w else map_of fs m)"
  by (induction fs) (auto simp: set_field_def)

definition copies_fields :: "(string \<times> gotype) list \<Rightarrow> (string \<times> copier) list \<Rightarrow> bool" where
  "copies_fields ts cs \<longleftrightarrow> distinct (map fst ts) \<and> distinct (map fst cs) \<and> fst ` set cs \<subseteq> fst ` set ts \<and>
     (\<forall>nt \<in> set ts. case map_of cs (fst nt) of None \<Rightarrow> flat (snd nt) | Some f \<Rightarrow> deep_copy (snd nt) f)"

text \<open>The fields \<open>N\<close> of the struct \<open>fs\<close>, which reads as \<open>xs\<close>, have been copied, and the copies share no cell.\<close>

definition fields_copied :: "(string \<times> gotype) list \<Rightarrow> memory \<Rightarrow> (string \<times> gval) list \<Rightarrow> (string \<times> tree) list \<Rightarrow> string set \<Rightarrow>
    (string \<times> gval) list \<Rightarrow> memory \<Rightarrow> bool" where
  "fields_copied ts h fs xs N out s \<longleftrightarrow> prefix h s \<and> map fst out = map fst ts \<and>
     (\<forall>n. n \<notin> N \<longrightarrow> map_of out n = map_of fs n) \<and>
     (\<forall>nt \<in> set ts. fst nt \<in> N \<longrightarrow>
       (\<exists>w y. map_of out (fst nt) = Some w \<and> map_of xs (fst nt) = Some y \<and> copied (snd nt) h y w s)) \<and>
     (\<forall>nt \<in> set ts. \<forall>mt \<in> set ts. fst nt \<in> N \<longrightarrow> fst mt \<in> N \<longrightarrow> fst nt \<noteq> fst mt \<longrightarrow>
       foot (snd nt) s (field out (fst nt)) \<inter> foot (snd mt) s (field out (fst mt)) = {})"

lemma copied_later: "copied t s y w s' \<Longrightarrow> prefix h s \<Longrightarrow> copied t h y w s'"
  using prefix_length_le [of h s] by (auto simp: copied_def intro: prefix_order.trans)

lemma fields_copied_step:
  assumes "fields_copied ts h fs xs N out s" "distinct (map fst ts)" "(n, t) \<in> set ts" "map_of xs n = Some y" "copied t s y w s'"
    "n \<notin> N"
  shows "fields_copied ts h fs xs (insert n N) (set_field n w out) s'"
proof -
  let ?out = "set_field n w out"
  note P = assms(1) [unfolded fields_copied_def]
  have s': "prefix s s'" using assms(5) by (simp add: copied_def)
  have t: "snd nt = t" if "nt \<in> set ts" "fst nt = n" for nt
    using that assms(2,3) by (metis eq_key_imp_eq_value prod.collapse)
  have dom: "map_of out n \<noteq> None" using P assms(3) by (metis map_of_eq_None_iff fst_conv image_eqI list.set_map)
  have new: "map_of ?out n = Some w" "foot t s' (field ?out n) \<subseteq> {length s..}" "copied t h y w s'"
    using assms(5) dom P copied_later [OF assms(5), of h] by (simp_all add: map_of_set_field copied_def)
  have old: "\<exists>v y. map_of ?out (fst nt) = Some v \<and> map_of xs (fst nt) = Some y \<and> copied (snd nt) h y v s' \<and>
      foot (snd nt) s' (field ?out (fst nt)) = foot (snd nt) s (field out (fst nt)) \<and>
      foot (snd nt) s' (field ?out (fst nt)) \<subseteq> {..<length s}"
    if nt: "nt \<in> set ts" "fst nt \<in> N" for nt
  proof -
    obtain v y where v: "map_of out (fst nt) = Some v" "map_of xs (fst nt) = Some y" "copied (snd nt) h y v s"
      using P nt by blast
    then have "load (snd nt) s v = Some y" by (simp add: copied_def)
    with v nt(2) assms(6) show ?thesis
      using load_prefix [OF _ s'] load_cells copied_prefix [OF v(3) s'] by (fastforce simp: map_of_set_field)
  qed
  have "foot (snd nt) s' (field ?out (fst nt)) \<inter> foot (snd mt) s' (field ?out (fst mt)) = {}"
    if nm: "nt \<in> set ts" "mt \<in> set ts" "fst nt \<in> insert n N" "fst mt \<in> insert n N" "fst nt \<noteq> fst mt" for nt mt
  proof -
    have mixed: "foot t s' (field ?out n) \<inter> foot (snd pt) s' (field ?out (fst pt)) = {}" if "pt \<in> set ts" "fst pt \<in> N" for pt
      using old [OF that] new(2) by fastforce
    consider "fst nt = n" "fst mt \<in> N" | "fst mt = n" "fst nt \<in> N" | "fst nt \<in> N" "fst mt \<in> N" using nm by auto
    then show ?thesis
    proof cases
      case 3
      have "foot (snd nt) s (field out (fst nt)) \<inter> foot (snd mt) s (field out (fst mt)) = {}" using P nm(1,2,5) 3 by blast
      with old [OF nm(1) 3(1)] old [OF nm(2) 3(2)] show ?thesis by metis
    qed (use mixed nm t in \<open>simp_all add: Int_commute\<close>)
  qed
  moreover have "\<exists>w y. map_of ?out (fst nt) = Some w \<and> map_of xs (fst nt) = Some y \<and> copied (snd nt) h y w s'"
    if "nt \<in> set ts" "fst nt \<in> insert n N" for nt
    using that old [of nt] new t [of nt] assms(4) by (cases "fst nt = n") auto
  ultimately show ?thesis using P prefix_order.trans [OF _ s'] by (simp add: fields_copied_def map_of_set_field)
qed

text \<open>When the fields that are left hold no references, the whole struct has been copied.\<close>

lemma fields_copied_struct:
  assumes "fields_copied ts h fs xs N out s" "distinct (map fst ts)" "load_fields (loaders h ts) fs = Some xs"
    and plain: "\<And>nt. nt \<in> set ts \<Longrightarrow> fst nt \<notin> N \<Longrightarrow> flat (snd nt)"
  shows "copied (TStruct ts) h (Fields xs) (Struct out) s"
proof -
  note P = assms(1) [unfolded fields_copied_def]
  have names: "map fst out = map fst ts" using P by blast
  have fs: "map fst xs = map fst ts"
    "\<And>nt. nt \<in> set ts \<Longrightarrow> \<exists>u y. map_of fs (fst nt) = Some u \<and> map_of xs (fst nt) = Some y \<and> load (snd nt) h u = Some y"
    using assms(3) unfolding load_fields_iff [OF assms(2)] by blast+
  have one: "\<exists>w y. map_of out (fst nt) = Some w \<and> map_of xs (fst nt) = Some y \<and> copied (snd nt) h y w s" if nt: "nt \<in> set ts" for nt
  proof (cases "fst nt \<in> N")
    case False
    then show ?thesis
      using plain [OF nt] P fs(2) [OF nt] load_prefix [of "snd nt" h _ _ s] by (auto simp: copied_def flat_foot flat_separate)
  qed (use P nt in blast)
  have "foot (snd nt) s (field out (fst nt)) \<inter> foot (snd mt) s (field out (fst mt)) = {}"
    if "nt \<in> set ts" "mt \<in> set ts" "fst nt \<noteq> fst mt" for nt mt
    using that P plain [of nt] plain [of mt] by (cases "fst nt \<in> N"; cases "fst mt \<in> N") (simp_all add: flat_foot)
  moreover have part: "foot (snd nt) s (field out (fst nt)) \<subseteq> {length h..}" "separate (snd nt) s (field out (fst nt))"
    "\<exists>w y. map_of out (fst nt) = Some w \<and> map_of xs (fst nt) = Some y \<and> load (snd nt) s w = Some y" if "nt \<in> set ts" for nt
    using one [OF that] by (auto simp: copied_def)
  ultimately have "separate (TStruct ts) s (Struct out)" unfolding struct_by_name(2) [OF assms(2) names] by blast
  moreover have "foot (TStruct ts) s (Struct out) \<subseteq> {length h..}"
    unfolding foot_struct gval.case struct_by_name(1) [OF assms(2) names] using part(1) by (simp add: UN_subset_iff)
  moreover have "load_fields (loaders s ts) out = Some xs"
    unfolding load_fields_iff [OF assms(2)] using names fs(1) part(3) by blast
  ultimately show ?thesis using P by (simp add: copied_def load_struct)
qed

lemma deep_copy_fields:
  assumes "copies_fields ts cs"
  shows "deep_copy (TStruct ts) (copy_fields cs)"
proof
  fix h v x
  assume load: "load (TStruct ts) h v = Some x"
  note cs = assms [unfolded copies_fields_def]
  obtain fs xs where v: "v = Struct fs" "load_fields (loaders h ts) fs = Some xs" "x = Fields xs"
    using load by (auto simp: load_struct split: gval.splits)
  have names: "distinct (map fst ts)" using cs by blast
  let ?step = "\<lambda>(n, f) (out, h'). do { u \<leftarrow> map_of fs n; (w, h'') \<leftarrow> f u h'; Some (set_field n w out, h'') }"
  let ?P = "\<lambda>ys (out, s). fields_copied ts h fs xs (fst ` set ys) out s"
  have "\<exists>s. for_each ?step cs (fs, h) = Some s \<and> ?P cs s"
  proof (rule for_each_inv)
    show "?P [] (fs, h)" using v(2) unfolding load_fields_iff [OF names] by (simp add: fields_copied_def)
  next
    fix ys nf zs os
    assume split: "cs = ys @ nf # zs" and "?P ys os"
    obtain n f out s where nf: "nf = (n, f)" and os: "os = (out, s)" by fastforce
    have P: "fields_copied ts h fs xs (fst ` set ys) out s" using \<open>?P ys os\<close> by (simp add: os)
    obtain t where t: "(n, t) \<in> set ts" using cs split nf by force
    then obtain u y where u: "map_of fs n = Some u" "map_of xs n = Some y" "load t h u = Some y"
      using v(2) unfolding load_fields_iff [OF names] by fastforce
    have "map_of cs n = Some f" using cs split nf by (intro map_of_is_SomeI) auto
    then have "deep_copy t f" using cs t by fastforce
    moreover have "load t s u = Some y" using load_prefix [OF u(3)] P by (simp add: fields_copied_def)
    ultimately obtain w s' where w: "f u s = Some (w, s')" "copied t s y w s'" by (rule deep_copyD)
    have "fields_copied ts h fs xs (insert n (fst ` set ys)) (set_field n w out) s'"
      by (rule fields_copied_step [OF P names t u(2) w(2)]) (use cs split nf in auto)
    then show "\<exists>os'. ?step nf os = Some os' \<and> ?P (ys @ [nf]) os'"
      using w(1) u(1) by (auto simp: nf os)
  qed
  then obtain out s where s: "for_each ?step cs (fs, h) = Some (out, s)" "fields_copied ts h fs xs (fst ` set cs) out s" by auto
  have "flat (snd nt)" if "nt \<in> set ts" "fst nt \<notin> fst ` set cs" for nt
    using cs that by (auto simp: map_of_eq_None_iff [symmetric] split: option.splits)
  from fields_copied_struct [OF s(2) names v(2) this] show "\<exists>w h'. copy_fields cs v h = Some (w, h') \<and> copied (TStruct ts) h x w h'"
    using s(1) v(1,3) by (auto simp: copy_fields_def)
qed

section \<open>A reference copy of any type\<close>

text \<open>The copy that the type itself prescribes, for the types of the library\<close>

primrec copy_of :: "gotype \<Rightarrow> copier" where
  "copy_of (TScalar k) = assign"
| "copy_of (TStruct ts) = copy_fields (map (map_prod id copy_of) ts)"
| "copy_of (TPointer t) = copy_pointer t (copy_of t)"
| "copy_of (TSlice t) = copy_slice t (copy_of t)"
| "copy_of (TMap t) = copy_map id (copy_of t)"

primrec well_named :: "gotype \<Rightarrow> bool" where
  "well_named (TScalar k) = True"
| "well_named (TStruct ts) = (distinct (map fst ts) \<and> list_all snd (map (map_prod id well_named) ts))"
| "well_named (TPointer t) = well_named t"
| "well_named (TSlice t) = well_named t"
| "well_named (TMap t) = well_named t"

lemma map_of_map_snd: "map_of (map (map_prod id f) ts) n = map_option f (map_of ts n)"
  by (induction ts) auto

lemma copy_of_copies: "well_named t \<Longrightarrow> deep_copy t (copy_of t)"
proof (induction t)
  case (TStruct ts)
  have "deep_copy (snd nt) (copy_of (snd nt))" if "nt \<in> set ts" for nt
    using that TStruct.prems by (intro TStruct.IH [of nt "snd nt"]) (auto simp: list_all_iff snds.simps)
  moreover have "map_of ts (fst nt) = Some (snd nt)" if "nt \<in> set ts" for nt
    using that TStruct.prems by simp
  moreover have "map fst (map (map_prod id copy_of) ts) = map fst ts" by simp
  ultimately have "copies_fields ts (map (map_prod id copy_of) ts)"
    using TStruct.prems by (auto simp: copies_fields_def map_of_map_snd image_image)
  then show ?case by (simp add: deep_copy_fields)
qed (simp_all add: deep_copy_assign deep_copy_pointer deep_copy_slice deep_copy_map range_order_def)

section \<open>Independence\<close>

text \<open>
  Nothing that was there shares a cell with the copy, so whatever is written to the cells of the copy, what was there reads the
  same.
\<close>

lemma copied_disjoint:
  assumes "copied t h x w h'" "load t' h v = Some y"
  shows "load t' h' v = Some y" "foot t' h' v \<inter> foot t h' w = {}"
proof -
  from assms(1) have "prefix h h'" and w: "foot t h' w \<subseteq> {length h..}" by (simp_all add: copied_def)
  from load_prefix [OF assms(2) this(1)] have v: "load t' h' v = Some y" "foot t' h' v = foot t' h v" by simp_all
  from v(1) show "load t' h' v = Some y" .
  show "foot t' h' v \<inter> foot t h' w = {}" using load_cells [OF assms(2)] v(2) w by fastforce
qed

definition writes_only :: "addr set \<Rightarrow> memory \<Rightarrow> memory \<Rightarrow> bool" where
  "writes_only A h h' \<longleftrightarrow> length h \<le> length h' \<and> (\<forall>a < length h. a \<notin> A \<longrightarrow> h' ! a = h ! a)"

lemma writes_only_trans: "writes_only A h h' \<Longrightarrow> writes_only (A \<union> {length h..}) h' h'' \<Longrightarrow> writes_only A h h''"
  by (auto simp: writes_only_def)

lemma writes_only_same: "writes_only A h h' \<Longrightarrow> B \<inter> A = {} \<Longrightarrow> same_on B h h'"
  by (auto simp: same_on_def lookup_def writes_only_def)

lemma copy_independent:
  assumes "copied t h x w h'" "writes_only (foot t h' w) h' h''" "load t' h v = Some y"
  shows "load t' h'' v = Some y"
  using load_frame [OF copied_disjoint(1) [OF assms(1,3)]] writes_only_same [OF assms(2)] copied_disjoint(2) [OF assms(1,3)] by blast

section \<open>The zero value of a type\<close>

primrec zero_tree :: "gotype \<Rightarrow> tree" where
  "zero_tree (TScalar k) = Leaf (zero_scalar k)"
| "zero_tree (TStruct ts) = Fields (map (map_prod id zero_tree) ts)"
| "zero_tree (TPointer t) = NilRef"
| "zero_tree (TSlice t) = NilRef"
| "zero_tree (TMap t) = NilRef"

lemma zero_reads: "load t h (zero t) = Some (zero_tree t) \<and> foot t h (zero t) = {} \<and> separate t h (zero t)"
proof (induction t)
  case (TScalar k)
  then show ?case by (cases k) simp_all
next
  case (TStruct ts)
  then have IH: "load (snd nt) h (zero (snd nt)) = Some (zero_tree (snd nt))" "foot (snd nt) h (zero (snd nt)) = {}"
    "separate (snd nt) h (zero (snd nt))" if "nt \<in> set ts" for nt
    using that by (auto simp: snds.simps)
  let ?fs = "map (\<lambda>nt. (fst nt, zero (snd nt))) ts"
  have z: "zero (TStruct ts) = Struct ?fs" "zero_tree (TStruct ts) = Fields (map (\<lambda>nt. (fst nt, zero_tree (snd nt))) ts)"
    by (simp_all add: map_prod_def split_beta')
  have "load_fields (loaders h ts) ?fs = Some (map (\<lambda>nt. (fst nt, zero_tree (snd nt))) ts)"
    using IH(1) by (induction ts) auto
  moreover have "feet h ts ?fs = map (\<lambda>nt. {}) ts" unfolding map2_fields using IH(2) by simp
  moreover have "apart (map (\<lambda>nt. {}) ts)" by (rule apart_empty) auto
  moreover have "map2 (\<lambda>nt mv. separate (snd nt) h (snd mv)) ts ?fs = map (\<lambda>nt. True) ts" unfolding map2_fields using IH(3) by simp
  ultimately show ?case unfolding z by (simp add: load_struct foot_struct separate_struct list_all_iff)
qed simp_all

end
