(* ===== verification/Deep_Copy.thy ===== *)
theory Deep_Copy
  imports Go_Copy
begin

text \<open>
  The deep copy functions of the API types (\<open>api/v1alpha1/zz_generated.deepcopy.go\<close>). For every struct \<open>X\<close> of the
  \<open>*_types.go\<close> files, \<open>X_type\<close> is its declaration, \<open>X_DeepCopyInto\<close> the statements that copy its fields, \<open>X_DeepCopy\<close> the copy
  behind a pointer and, for objects and lists of objects, \<open>X_DeepCopyObject\<close> the copy as a \<open>runtime.Object\<close>. The types of the
  Kubernetes library and their own copy functions are a record of parameters; the locale states what the generated code relies on.
\<close>

section \<open>What the generated code takes from the Kubernetes library\<close>

record copy_library =
  TypeMeta_t :: gotype
  ObjectMeta_t :: gotype
  ListMeta_t :: gotype
  Time_t :: gotype
  Duration_t :: gotype
  LabelSelector_t :: gotype
  LocalObjectReference_t :: gotype
  ObjectMeta_DeepCopyInto :: copier
  ListMeta_DeepCopyInto :: copier
  Time_DeepCopyInto :: copier
  Time_DeepCopy :: copier
  LabelSelector_DeepCopyInto :: copier
  map_range :: "string list \<Rightarrow> string list"

text \<open>
  Type names, references and durations hold no pointers, the copy functions of the library are deep copies, and \<open>range\<close> visits every
  key of a map once.
\<close>

locale go_copy_library =
  fixes L :: copy_library
  assumes flat_TypeMeta: "flat (TypeMeta_t L)"
    and flat_LocalObjectReference: "flat (LocalObjectReference_t L)"
    and flat_Duration: "flat (Duration_t L)"
    and ObjectMeta_copied: "deep_copy (ObjectMeta_t L) (ObjectMeta_DeepCopyInto L)"
    and ListMeta_copied: "deep_copy (ListMeta_t L) (ListMeta_DeepCopyInto L)"
    and Time_copied: "deep_copy (Time_t L) (Time_DeepCopyInto L)"
    and Time_copied_pointer: "deep_copy (TPointer (Time_t L)) (Time_DeepCopy L)"
    and LabelSelector_copied: "deep_copy (LabelSelector_t L) (LabelSelector_DeepCopyInto L)"
    and any_order: "range_order (map_range L)"

section \<open>Objects as interface values\<close>

text \<open>A \<open>runtime.Object\<close> is nil or a type name with a pointer. A nil pointer becomes the nil interface, not an interface that holds nil.\<close>

type_synonym runtime_object = "(string \<times> gval) option"
type_synonym object_copier = "gval \<Rightarrow> memory \<Rightarrow> (runtime_object \<times> memory) option"

definition as_object :: "string \<Rightarrow> copier \<Rightarrow> object_copier" where
  "as_object name f v h = do {
     (c, h') \<leftarrow> f v h;
     Some (if c \<noteq> Pointer None then Some (name, c) else None, h') }"

text \<open>\<open>CredentialSpec\<close> (\<open>api/v1alpha1/apikey_types.go\<close>)\<close>

definition CredentialSpec_type :: "copy_library \<Rightarrow> gotype" where
  "CredentialSpec_type L = TStruct
    [(''FormatVersion'', TScalar Text), (''Algorithm'', TScalar Text), (''Digest'', TScalar Text)]"
definition CredentialSpec_DeepCopyInto :: "copy_library \<Rightarrow> copier" where
  "CredentialSpec_DeepCopyInto L = assign"
definition CredentialSpec_DeepCopy :: "copy_library \<Rightarrow> copier" where
  "CredentialSpec_DeepCopy L = copy_pointer (CredentialSpec_type L) (CredentialSpec_DeepCopyInto L)"

text \<open>\<open>APIKeySpec\<close> (\<open>api/v1alpha1/apikey_types.go\<close>)\<close>

definition APIKeySpec_type :: "copy_library \<Rightarrow> gotype" where
  "APIKeySpec_type L = TStruct
    [(''DisplayName'', TScalar Text), (''Project'', TPointer (LocalObjectReference_t L)),
     (''Credential'', CredentialSpec_type L), (''ExpiresAt'', TPointer (Time_t L))]"
definition APIKeySpec_DeepCopyInto :: "copy_library \<Rightarrow> copier" where
  "APIKeySpec_DeepCopyInto L = copy_fields
    [(''Project'', copy_pointer (LocalObjectReference_t L) assign), (''Credential'', assign), (''ExpiresAt'', Time_DeepCopy L)]"
definition APIKeySpec_DeepCopy :: "copy_library \<Rightarrow> copier" where
  "APIKeySpec_DeepCopy L = copy_pointer (APIKeySpec_type L) (APIKeySpec_DeepCopyInto L)"

text \<open>\<open>APIKeyStatus\<close> (\<open>api/v1alpha1/apikey_types.go\<close>)\<close>

definition APIKeyStatus_type :: "copy_library \<Rightarrow> gotype" where
  "APIKeyStatus_type L = TStruct
    []"
definition APIKeyStatus_DeepCopyInto :: "copy_library \<Rightarrow> copier" where
  "APIKeyStatus_DeepCopyInto L = assign"
definition APIKeyStatus_DeepCopy :: "copy_library \<Rightarrow> copier" where
  "APIKeyStatus_DeepCopy L = copy_pointer (APIKeyStatus_type L) (APIKeyStatus_DeepCopyInto L)"

text \<open>\<open>APIKey\<close> (\<open>api/v1alpha1/apikey_types.go\<close>)\<close>

definition APIKey_type :: "copy_library \<Rightarrow> gotype" where
  "APIKey_type L = TStruct
    [(''TypeMeta'', TypeMeta_t L), (''ObjectMeta'', ObjectMeta_t L), (''Spec'', APIKeySpec_type L),
     (''Status'', APIKeyStatus_type L)]"
definition APIKey_DeepCopyInto :: "copy_library \<Rightarrow> copier" where
  "APIKey_DeepCopyInto L = copy_fields
    [(''TypeMeta'', assign), (''ObjectMeta'', ObjectMeta_DeepCopyInto L), (''Spec'', APIKeySpec_DeepCopyInto L),
     (''Status'', assign)]"
definition APIKey_DeepCopy :: "copy_library \<Rightarrow> copier" where
  "APIKey_DeepCopy L = copy_pointer (APIKey_type L) (APIKey_DeepCopyInto L)"
definition APIKey_DeepCopyObject :: "copy_library \<Rightarrow> object_copier" where
  "APIKey_DeepCopyObject L = as_object ''APIKey'' (APIKey_DeepCopy L)"

text \<open>\<open>APIKeyList\<close> (\<open>api/v1alpha1/apikey_types.go\<close>)\<close>

definition APIKeyList_type :: "copy_library \<Rightarrow> gotype" where
  "APIKeyList_type L = TStruct
    [(''TypeMeta'', TypeMeta_t L), (''ListMeta'', ListMeta_t L), (''Items'', TSlice (APIKey_type L))]"
definition APIKeyList_DeepCopyInto :: "copy_library \<Rightarrow> copier" where
  "APIKeyList_DeepCopyInto L = copy_fields
    [(''TypeMeta'', assign), (''ListMeta'', ListMeta_DeepCopyInto L),
     (''Items'', copy_slice (APIKey_type L) (APIKey_DeepCopyInto L))]"
definition APIKeyList_DeepCopy :: "copy_library \<Rightarrow> copier" where
  "APIKeyList_DeepCopy L = copy_pointer (APIKeyList_type L) (APIKeyList_DeepCopyInto L)"
definition APIKeyList_DeepCopyObject :: "copy_library \<Rightarrow> object_copier" where
  "APIKeyList_DeepCopyObject L = as_object ''APIKeyList'' (APIKeyList_DeepCopy L)"

text \<open>\<open>AssumeHealthCheckProbeSpec\<close> (\<open>api/v1alpha1/healthcheckprofile_types.go\<close>)\<close>

definition AssumeHealthCheckProbeSpec_type :: "copy_library \<Rightarrow> gotype" where
  "AssumeHealthCheckProbeSpec_type L = TStruct
    [(''Status'', TScalar Text), (''Stack'', TScalar Text)]"
definition AssumeHealthCheckProbeSpec_DeepCopyInto :: "copy_library \<Rightarrow> copier" where
  "AssumeHealthCheckProbeSpec_DeepCopyInto L = assign"
definition AssumeHealthCheckProbeSpec_DeepCopy :: "copy_library \<Rightarrow> copier" where
  "AssumeHealthCheckProbeSpec_DeepCopy L = copy_pointer (AssumeHealthCheckProbeSpec_type L) (AssumeHealthCheckProbeSpec_DeepCopyInto L)"

text \<open>\<open>CacheConfigSpec\<close> (\<open>api/v1alpha1/location_types.go\<close>)\<close>

definition CacheConfigSpec_type :: "copy_library \<Rightarrow> gotype" where
  "CacheConfigSpec_type L = TStruct
    [(''Name'', TScalar Text), (''Path'', TScalar Text), (''KeysZone'', TScalar Text), (''Inactive'', TScalar Text),
     (''MaxSize'', TScalar Text)]"
definition CacheConfigSpec_DeepCopyInto :: "copy_library \<Rightarrow> copier" where
  "CacheConfigSpec_DeepCopyInto L = assign"
definition CacheConfigSpec_DeepCopy :: "copy_library \<Rightarrow> copier" where
  "CacheConfigSpec_DeepCopy L = copy_pointer (CacheConfigSpec_type L) (CacheConfigSpec_DeepCopyInto L)"

text \<open>\<open>CacheKeySpec\<close> (\<open>api/v1alpha1/service_types.go\<close>)\<close>

definition CacheKeySpec_type :: "copy_library \<Rightarrow> gotype" where
  "CacheKeySpec_type L = TStruct
    [(''QueryParams'', TSlice (TScalar Text)), (''Headers'', TSlice (TScalar Text))]"
definition CacheKeySpec_DeepCopyInto :: "copy_library \<Rightarrow> copier" where
  "CacheKeySpec_DeepCopyInto L = copy_fields
    [(''QueryParams'', copy_flat_slice (TScalar Text)), (''Headers'', copy_flat_slice (TScalar Text))]"
definition CacheKeySpec_DeepCopy :: "copy_library \<Rightarrow> copier" where
  "CacheKeySpec_DeepCopy L = copy_pointer (CacheKeySpec_type L) (CacheKeySpec_DeepCopyInto L)"

text \<open>\<open>CertificateSpec\<close> (\<open>api/v1alpha1/service_types.go\<close>)\<close>

definition CertificateSpec_type :: "copy_library \<Rightarrow> gotype" where
  "CertificateSpec_type L = TStruct
    [(''CertificateRef'', TScalar Text), (''SecretRef'', TScalar Text), (''Crt'', TScalar Text), (''Key'', TScalar Text)]"
definition CertificateSpec_DeepCopyInto :: "copy_library \<Rightarrow> copier" where
  "CertificateSpec_DeepCopyInto L = assign"
definition CertificateSpec_DeepCopy :: "copy_library \<Rightarrow> copier" where
  "CertificateSpec_DeepCopy L = copy_pointer (CertificateSpec_type L) (CertificateSpec_DeepCopyInto L)"

text \<open>\<open>CorsSpec\<close> (\<open>api/v1alpha1/service_types.go\<close>)\<close>

definition CorsSpec_type :: "copy_library \<Rightarrow> gotype" where
  "CorsSpec_type L = TStruct
    [(''AllowMethods'', TScalar Text), (''AllowOrigin'', TScalar Text), (''AllowCredentials'', TScalar Flag)]"
definition CorsSpec_DeepCopyInto :: "copy_library \<Rightarrow> copier" where
  "CorsSpec_DeepCopyInto L = assign"
definition CorsSpec_DeepCopy :: "copy_library \<Rightarrow> copier" where
  "CorsSpec_DeepCopy L = copy_pointer (CorsSpec_type L) (CorsSpec_DeepCopyInto L)"

text \<open>\<open>CustomerSpec\<close> (\<open>api/v1alpha1/service_types.go\<close>)\<close>

definition CustomerSpec_type :: "copy_library \<Rightarrow> gotype" where
  "CustomerSpec_type L = TStruct
    [(''Name'', TScalar Text), (''Id'', TScalar Number)]"
definition CustomerSpec_DeepCopyInto :: "copy_library \<Rightarrow> copier" where
  "CustomerSpec_DeepCopyInto L = assign"
definition CustomerSpec_DeepCopy :: "copy_library \<Rightarrow> copier" where
  "CustomerSpec_DeepCopy L = copy_pointer (CustomerSpec_type L) (CustomerSpec_DeepCopyInto L)"

text \<open>\<open>DNSEndpointSpec\<close> (\<open>api/v1alpha1/dnsendpoint_types.go\<close>)\<close>

definition DNSEndpointSpec_type :: "copy_library \<Rightarrow> gotype" where
  "DNSEndpointSpec_type L = TStruct
    [(''Project'', TPointer (LocalObjectReference_t L)), (''DNSName'', TScalar Text), (''RoutingPolicy'', TScalar Text),
     (''RecordTTL'', TScalar Number), (''RecordType'', TScalar Text), (''Targets'', TSlice (TScalar Text)),
     (''RouteSelector'', TPointer (LabelSelector_t L)), (''Zone'', TPointer (LocalObjectReference_t L))]"
definition DNSEndpointSpec_DeepCopyInto :: "copy_library \<Rightarrow> copier" where
  "DNSEndpointSpec_DeepCopyInto L = copy_fields
    [(''Project'', copy_pointer (LocalObjectReference_t L) assign), (''Targets'', copy_flat_slice (TScalar Text)),
     (''RouteSelector'', copy_pointer (LabelSelector_t L) (LabelSelector_DeepCopyInto L)),
     (''Zone'', copy_pointer (LocalObjectReference_t L) assign)]"
definition DNSEndpointSpec_DeepCopy :: "copy_library \<Rightarrow> copier" where
  "DNSEndpointSpec_DeepCopy L = copy_pointer (DNSEndpointSpec_type L) (DNSEndpointSpec_DeepCopyInto L)"

text \<open>\<open>DNSEndpointStatus\<close> (\<open>api/v1alpha1/dnsendpoint_types.go\<close>)\<close>

definition DNSEndpointStatus_type :: "copy_library \<Rightarrow> gotype" where
  "DNSEndpointStatus_type L = TStruct
    [(''Status'', TScalar Text)]"
definition DNSEndpointStatus_DeepCopyInto :: "copy_library \<Rightarrow> copier" where
  "DNSEndpointStatus_DeepCopyInto L = assign"
definition DNSEndpointStatus_DeepCopy :: "copy_library \<Rightarrow> copier" where
  "DNSEndpointStatus_DeepCopy L = copy_pointer (DNSEndpointStatus_type L) (DNSEndpointStatus_DeepCopyInto L)"

text \<open>\<open>DNSEndpoint\<close> (\<open>api/v1alpha1/dnsendpoint_types.go\<close>)\<close>

definition DNSEndpoint_type :: "copy_library \<Rightarrow> gotype" where
  "DNSEndpoint_type L = TStruct
    [(''TypeMeta'', TypeMeta_t L), (''ObjectMeta'', ObjectMeta_t L), (''Spec'', DNSEndpointSpec_type L),
     (''Status'', DNSEndpointStatus_type L)]"
definition DNSEndpoint_DeepCopyInto :: "copy_library \<Rightarrow> copier" where
  "DNSEndpoint_DeepCopyInto L = copy_fields
    [(''TypeMeta'', assign), (''ObjectMeta'', ObjectMeta_DeepCopyInto L), (''Spec'', DNSEndpointSpec_DeepCopyInto L),
     (''Status'', assign)]"
definition DNSEndpoint_DeepCopy :: "copy_library \<Rightarrow> copier" where
  "DNSEndpoint_DeepCopy L = copy_pointer (DNSEndpoint_type L) (DNSEndpoint_DeepCopyInto L)"
definition DNSEndpoint_DeepCopyObject :: "copy_library \<Rightarrow> object_copier" where
  "DNSEndpoint_DeepCopyObject L = as_object ''DNSEndpoint'' (DNSEndpoint_DeepCopy L)"

text \<open>\<open>DNSEndpointList\<close> (\<open>api/v1alpha1/dnsendpoint_types.go\<close>)\<close>

definition DNSEndpointList_type :: "copy_library \<Rightarrow> gotype" where
  "DNSEndpointList_type L = TStruct
    [(''TypeMeta'', TypeMeta_t L), (''ListMeta'', ListMeta_t L), (''Items'', TSlice (DNSEndpoint_type L))]"
definition DNSEndpointList_DeepCopyInto :: "copy_library \<Rightarrow> copier" where
  "DNSEndpointList_DeepCopyInto L = copy_fields
    [(''TypeMeta'', assign), (''ListMeta'', ListMeta_DeepCopyInto L),
     (''Items'', copy_slice (DNSEndpoint_type L) (DNSEndpoint_DeepCopyInto L))]"
definition DNSEndpointList_DeepCopy :: "copy_library \<Rightarrow> copier" where
  "DNSEndpointList_DeepCopy L = copy_pointer (DNSEndpointList_type L) (DNSEndpointList_DeepCopyInto L)"
definition DNSEndpointList_DeepCopyObject :: "copy_library \<Rightarrow> object_copier" where
  "DNSEndpointList_DeepCopyObject L = as_object ''DNSEndpointList'' (DNSEndpointList_DeepCopy L)"

text \<open>\<open>GeoLookupAttributeValuesSpec\<close> (\<open>api/v1alpha1/location_types.go\<close>)\<close>

definition GeoLookupAttributeValuesSpec_type :: "copy_library \<Rightarrow> gotype" where
  "GeoLookupAttributeValuesSpec_type L = TStruct
    [(''Value'', TScalar Text), (''Weight'', TScalar Number)]"
definition GeoLookupAttributeValuesSpec_DeepCopyInto :: "copy_library \<Rightarrow> copier" where
  "GeoLookupAttributeValuesSpec_DeepCopyInto L = assign"
definition GeoLookupAttributeValuesSpec_DeepCopy :: "copy_library \<Rightarrow> copier" where
  "GeoLookupAttributeValuesSpec_DeepCopy L = copy_pointer (GeoLookupAttributeValuesSpec_type L) (GeoLookupAttributeValuesSpec_DeepCopyInto L)"

text \<open>\<open>GeoLookupAttributeSpec\<close> (\<open>api/v1alpha1/location_types.go\<close>)\<close>

definition GeoLookupAttributeSpec_type :: "copy_library \<Rightarrow> gotype" where
  "GeoLookupAttributeSpec_type L = TStruct
    [(''Weight'', TScalar Number), (''Values'', TSlice (GeoLookupAttributeValuesSpec_type L))]"
definition GeoLookupAttributeSpec_DeepCopyInto :: "copy_library \<Rightarrow> copier" where
  "GeoLookupAttributeSpec_DeepCopyInto L = copy_fields
    [(''Values'', copy_flat_slice (GeoLookupAttributeValuesSpec_type L))]"
definition GeoLookupAttributeSpec_DeepCopy :: "copy_library \<Rightarrow> copier" where
  "GeoLookupAttributeSpec_DeepCopy L = copy_pointer (GeoLookupAttributeSpec_type L) (GeoLookupAttributeSpec_DeepCopyInto L)"

text \<open>\<open>GeoLookupSpec\<close> (\<open>api/v1alpha1/location_types.go\<close>)\<close>

definition GeoLookupSpec_type :: "copy_library \<Rightarrow> gotype" where
  "GeoLookupSpec_type L = TStruct
    [(''Weight'', TScalar Number), (''Attributes'', TMap (GeoLookupAttributeSpec_type L))]"
definition GeoLookupSpec_DeepCopyInto :: "copy_library \<Rightarrow> copier" where
  "GeoLookupSpec_DeepCopyInto L = copy_fields
    [(''Attributes'', copy_map (map_range L) (copy_value (GeoLookupAttributeSpec_type L) (GeoLookupAttributeSpec_DeepCopyInto L)))]"
definition GeoLookupSpec_DeepCopy :: "copy_library \<Rightarrow> copier" where
  "GeoLookupSpec_DeepCopy L = copy_pointer (GeoLookupSpec_type L) (GeoLookupSpec_DeepCopyInto L)"

text \<open>\<open>HTTPHealthCheckProbeSpec\<close> (\<open>api/v1alpha1/healthcheckprofile_types.go\<close>)\<close>

definition HTTPHealthCheckProbeSpec_type :: "copy_library \<Rightarrow> gotype" where
  "HTTPHealthCheckProbeSpec_type L = TStruct
    [(''Protocol'', TScalar Text), (''Port'', TScalar Number), (''Target'', TScalar Text), (''Path'', TScalar Text),
     (''Host'', TScalar Text), (''Stack'', TScalar Text)]"
definition HTTPHealthCheckProbeSpec_DeepCopyInto :: "copy_library \<Rightarrow> copier" where
  "HTTPHealthCheckProbeSpec_DeepCopyInto L = assign"
definition HTTPHealthCheckProbeSpec_DeepCopy :: "copy_library \<Rightarrow> copier" where
  "HTTPHealthCheckProbeSpec_DeepCopy L = copy_pointer (HTTPHealthCheckProbeSpec_type L) (HTTPHealthCheckProbeSpec_DeepCopyInto L)"

text \<open>\<open>TCPHealthCheckProbeSpec\<close> (\<open>api/v1alpha1/healthcheckprofile_types.go\<close>)\<close>

definition TCPHealthCheckProbeSpec_type :: "copy_library \<Rightarrow> gotype" where
  "TCPHealthCheckProbeSpec_type L = TStruct
    [(''Port'', TScalar Number), (''Target'', TScalar Text), (''Stack'', TScalar Text)]"
definition TCPHealthCheckProbeSpec_DeepCopyInto :: "copy_library \<Rightarrow> copier" where
  "TCPHealthCheckProbeSpec_DeepCopyInto L = assign"
definition TCPHealthCheckProbeSpec_DeepCopy :: "copy_library \<Rightarrow> copier" where
  "TCPHealthCheckProbeSpec_DeepCopy L = copy_pointer (TCPHealthCheckProbeSpec_type L) (TCPHealthCheckProbeSpec_DeepCopyInto L)"

text \<open>\<open>HealthCheckProbeSpec\<close> (\<open>api/v1alpha1/healthcheckprofile_types.go\<close>)\<close>

definition HealthCheckProbeSpec_type :: "copy_library \<Rightarrow> gotype" where
  "HealthCheckProbeSpec_type L = TStruct
    [(''Name'', TScalar Text), (''Type'', TScalar Text), (''Interval'', Duration_t L), (''Timeout'', Duration_t L),
     (''TCP'', TPointer (TCPHealthCheckProbeSpec_type L)), (''HTTP'', TPointer (HTTPHealthCheckProbeSpec_type L)),
     (''Assume'', TPointer (AssumeHealthCheckProbeSpec_type L))]"
definition HealthCheckProbeSpec_DeepCopyInto :: "copy_library \<Rightarrow> copier" where
  "HealthCheckProbeSpec_DeepCopyInto L = copy_fields
    [(''Interval'', assign), (''Timeout'', assign), (''TCP'', copy_pointer (TCPHealthCheckProbeSpec_type L) assign),
     (''HTTP'', copy_pointer (HTTPHealthCheckProbeSpec_type L) assign),
     (''Assume'', copy_pointer (AssumeHealthCheckProbeSpec_type L) assign)]"
definition HealthCheckProbeSpec_DeepCopy :: "copy_library \<Rightarrow> copier" where
  "HealthCheckProbeSpec_DeepCopy L = copy_pointer (HealthCheckProbeSpec_type L) (HealthCheckProbeSpec_DeepCopyInto L)"

text \<open>\<open>HealthCheckProfileSpec\<close> (\<open>api/v1alpha1/healthcheckprofile_types.go\<close>)\<close>

definition HealthCheckProfileSpec_type :: "copy_library \<Rightarrow> gotype" where
  "HealthCheckProfileSpec_type L = TStruct
    [(''Project'', TPointer (LocalObjectReference_t L)), (''Probes'', TSlice (HealthCheckProbeSpec_type L))]"
definition HealthCheckProfileSpec_DeepCopyInto :: "copy_library \<Rightarrow> copier" where
  "HealthCheckProfileSpec_DeepCopyInto L = copy_fields
    [(''Project'', copy_pointer (LocalObjectReference_t L) assign),
     (''Probes'', copy_slice (HealthCheckProbeSpec_type L) (HealthCheckProbeSpec_DeepCopyInto L))]"
definition HealthCheckProfileSpec_DeepCopy :: "copy_library \<Rightarrow> copier" where
  "HealthCheckProfileSpec_DeepCopy L = copy_pointer (HealthCheckProfileSpec_type L) (HealthCheckProfileSpec_DeepCopyInto L)"

text \<open>\<open>HealthCheckProfileStatus\<close> (\<open>api/v1alpha1/healthcheckprofile_types.go\<close>)\<close>

definition HealthCheckProfileStatus_type :: "copy_library \<Rightarrow> gotype" where
  "HealthCheckProfileStatus_type L = TStruct
    [(''Status'', TScalar Text)]"
definition HealthCheckProfileStatus_DeepCopyInto :: "copy_library \<Rightarrow> copier" where
  "HealthCheckProfileStatus_DeepCopyInto L = assign"
definition HealthCheckProfileStatus_DeepCopy :: "copy_library \<Rightarrow> copier" where
  "HealthCheckProfileStatus_DeepCopy L = copy_pointer (HealthCheckProfileStatus_type L) (HealthCheckProfileStatus_DeepCopyInto L)"

text \<open>\<open>HealthCheckProfile\<close> (\<open>api/v1alpha1/healthcheckprofile_types.go\<close>)\<close>

definition HealthCheckProfile_type :: "copy_library \<Rightarrow> gotype" where
  "HealthCheckProfile_type L = TStruct
    [(''TypeMeta'', TypeMeta_t L), (''ObjectMeta'', ObjectMeta_t L), (''Spec'', HealthCheckProfileSpec_type L),
     (''Status'', HealthCheckProfileStatus_type L)]"
definition HealthCheckProfile_DeepCopyInto :: "copy_library \<Rightarrow> copier" where
  "HealthCheckProfile_DeepCopyInto L = copy_fields
    [(''TypeMeta'', assign), (''ObjectMeta'', ObjectMeta_DeepCopyInto L), (''Spec'', HealthCheckProfileSpec_DeepCopyInto L),
     (''Status'', assign)]"
definition HealthCheckProfile_DeepCopy :: "copy_library \<Rightarrow> copier" where
  "HealthCheckProfile_DeepCopy L = copy_pointer (HealthCheckProfile_type L) (HealthCheckProfile_DeepCopyInto L)"
definition HealthCheckProfile_DeepCopyObject :: "copy_library \<Rightarrow> object_copier" where
  "HealthCheckProfile_DeepCopyObject L = as_object ''HealthCheckProfile'' (HealthCheckProfile_DeepCopy L)"

text \<open>\<open>HealthCheckProfileList\<close> (\<open>api/v1alpha1/healthcheckprofile_types.go\<close>)\<close>

definition HealthCheckProfileList_type :: "copy_library \<Rightarrow> gotype" where
  "HealthCheckProfileList_type L = TStruct
    [(''TypeMeta'', TypeMeta_t L), (''ListMeta'', ListMeta_t L), (''Items'', TSlice (HealthCheckProfile_type L))]"
definition HealthCheckProfileList_DeepCopyInto :: "copy_library \<Rightarrow> copier" where
  "HealthCheckProfileList_DeepCopyInto L = copy_fields
    [(''TypeMeta'', assign), (''ListMeta'', ListMeta_DeepCopyInto L),
     (''Items'', copy_slice (HealthCheckProfile_type L) (HealthCheckProfile_DeepCopyInto L))]"
definition HealthCheckProfileList_DeepCopy :: "copy_library \<Rightarrow> copier" where
  "HealthCheckProfileList_DeepCopy L = copy_pointer (HealthCheckProfileList_type L) (HealthCheckProfileList_DeepCopyInto L)"
definition HealthCheckProfileList_DeepCopyObject :: "copy_library \<Rightarrow> object_copier" where
  "HealthCheckProfileList_DeepCopyObject L = as_object ''HealthCheckProfileList'' (HealthCheckProfileList_DeepCopy L)"

text \<open>\<open>HostAliasSpec\<close> (\<open>api/v1alpha1/service_types.go\<close>)\<close>

definition HostAliasSpec_type :: "copy_library \<Rightarrow> gotype" where
  "HostAliasSpec_type L = TStruct
    [(''Name'', TScalar Text), (''Certificate'', CertificateSpec_type L)]"
definition HostAliasSpec_DeepCopyInto :: "copy_library \<Rightarrow> copier" where
  "HostAliasSpec_DeepCopyInto L = copy_fields
    [(''Certificate'', assign)]"
definition HostAliasSpec_DeepCopy :: "copy_library \<Rightarrow> copier" where
  "HostAliasSpec_DeepCopy L = copy_pointer (HostAliasSpec_type L) (HostAliasSpec_DeepCopyInto L)"

text \<open>\<open>PrometheusAlertMatcherSpec\<close> (\<open>api/v1alpha1/location_types.go\<close>)\<close>

definition PrometheusAlertMatcherSpec_type :: "copy_library \<Rightarrow> gotype" where
  "PrometheusAlertMatcherSpec_type L = TStruct
    [(''AlertName'', TScalar Text), (''Labels'', TMap (TScalar Text))]"
definition PrometheusAlertMatcherSpec_DeepCopyInto :: "copy_library \<Rightarrow> copier" where
  "PrometheusAlertMatcherSpec_DeepCopyInto L = copy_fields
    [(''Labels'', copy_map (map_range L) assign)]"
definition PrometheusAlertMatcherSpec_DeepCopy :: "copy_library \<Rightarrow> copier" where
  "PrometheusAlertMatcherSpec_DeepCopy L = copy_pointer (PrometheusAlertMatcherSpec_type L) (PrometheusAlertMatcherSpec_DeepCopyInto L)"

text \<open>\<open>NodeSpec\<close> (\<open>api/v1alpha1/location_types.go\<close>)\<close>

definition NodeSpec_type :: "copy_library \<Rightarrow> gotype" where
  "NodeSpec_type L = TStruct
    [(''Name'', TScalar Text), (''Ipv4'', TScalar Text), (''Ipv6'', TScalar Text), (''Caches'', TSlice (TScalar Text)),
     (''MaintenanceMode'', TScalar Flag), (''Alerts'', TSlice (PrometheusAlertMatcherSpec_type L)),
     (''HealthCheck'', TPointer (LocalObjectReference_t L))]"
definition NodeSpec_DeepCopyInto :: "copy_library \<Rightarrow> copier" where
  "NodeSpec_DeepCopyInto L = copy_fields
    [(''Caches'', copy_flat_slice (TScalar Text)),
     (''Alerts'', copy_slice (PrometheusAlertMatcherSpec_type L) (PrometheusAlertMatcherSpec_DeepCopyInto L)),
     (''HealthCheck'', copy_pointer (LocalObjectReference_t L) assign)]"
definition NodeSpec_DeepCopy :: "copy_library \<Rightarrow> copier" where
  "NodeSpec_DeepCopy L = copy_pointer (NodeSpec_type L) (NodeSpec_DeepCopyInto L)"

text \<open>\<open>NodeGroupSpec\<close> (\<open>api/v1alpha1/location_types.go\<close>)\<close>

definition NodeGroupSpec_type :: "copy_library \<Rightarrow> gotype" where
  "NodeGroupSpec_type L = TStruct
    [(''Name'', TScalar Text), (''Flavor'', TScalar Text), (''Nodes'', TSlice (NodeSpec_type L)),
     (''CacheConfig'', CacheConfigSpec_type L), (''Metadata'', TMap (TScalar Text)), (''NodeSelector'', TMap (TScalar Text)),
     (''HealthCheck'', TPointer (LocalObjectReference_t L)), (''Labels'', TMap (TScalar Text))]"
definition NodeGroupSpec_DeepCopyInto :: "copy_library \<Rightarrow> copier" where
  "NodeGroupSpec_DeepCopyInto L = copy_fields
    [(''Nodes'', copy_slice (NodeSpec_type L) (NodeSpec_DeepCopyInto L)), (''CacheConfig'', assign),
     (''Metadata'', copy_map (map_range L) assign), (''NodeSelector'', copy_map (map_range L) assign),
     (''HealthCheck'', copy_pointer (LocalObjectReference_t L) assign), (''Labels'', copy_map (map_range L) assign)]"
definition NodeGroupSpec_DeepCopy :: "copy_library \<Rightarrow> copier" where
  "NodeGroupSpec_DeepCopy L = copy_pointer (NodeGroupSpec_type L) (NodeGroupSpec_DeepCopyInto L)"

text \<open>\<open>LocationSpec\<close> (\<open>api/v1alpha1/location_types.go\<close>)\<close>

definition LocationSpec_type :: "copy_library \<Rightarrow> gotype" where
  "LocationSpec_type L = TStruct
    [(''Project'', TPointer (LocalObjectReference_t L)), (''FallbackLocations'', TSlice (TScalar Text)),
     (''Nodes'', TSlice (NodeSpec_type L)), (''GeoLookup'', GeoLookupSpec_type L), (''Weight'', TScalar Number),
     (''MaintenanceMode'', TScalar Flag), (''NodeGroups'', TSlice (NodeGroupSpec_type L)),
     (''Alerts'', TSlice (PrometheusAlertMatcherSpec_type L)), (''Parent'', TScalar Text)]"
definition LocationSpec_DeepCopyInto :: "copy_library \<Rightarrow> copier" where
  "LocationSpec_DeepCopyInto L = copy_fields
    [(''Project'', copy_pointer (LocalObjectReference_t L) assign), (''FallbackLocations'', copy_flat_slice (TScalar Text)),
     (''Nodes'', copy_slice (NodeSpec_type L) (NodeSpec_DeepCopyInto L)), (''GeoLookup'', GeoLookupSpec_DeepCopyInto L),
     (''NodeGroups'', copy_slice (NodeGroupSpec_type L) (NodeGroupSpec_DeepCopyInto L)),
     (''Alerts'', copy_slice (PrometheusAlertMatcherSpec_type L) (PrometheusAlertMatcherSpec_DeepCopyInto L))]"
definition LocationSpec_DeepCopy :: "copy_library \<Rightarrow> copier" where
  "LocationSpec_DeepCopy L = copy_pointer (LocationSpec_type L) (LocationSpec_DeepCopyInto L)"

text \<open>\<open>PrometheusAlertStatus\<close> (\<open>api/v1alpha1/location_types.go\<close>)\<close>

definition PrometheusAlertStatus_type :: "copy_library \<Rightarrow> gotype" where
  "PrometheusAlertStatus_type L = TStruct
    [(''AlertName'', TScalar Text), (''State'', TScalar Text), (''Labels'', TMap (TScalar Text)),
     (''LastTransitionTime'', Time_t L)]"
definition PrometheusAlertStatus_DeepCopyInto :: "copy_library \<Rightarrow> copier" where
  "PrometheusAlertStatus_DeepCopyInto L = copy_fields
    [(''Labels'', copy_map (map_range L) assign), (''LastTransitionTime'', Time_DeepCopyInto L)]"
definition PrometheusAlertStatus_DeepCopy :: "copy_library \<Rightarrow> copier" where
  "PrometheusAlertStatus_DeepCopy L = copy_pointer (PrometheusAlertStatus_type L) (PrometheusAlertStatus_DeepCopyInto L)"

text \<open>\<open>NodeCondition\<close> (\<open>api/v1alpha1/location_types.go\<close>)\<close>

definition NodeCondition_type :: "copy_library \<Rightarrow> gotype" where
  "NodeCondition_type L = TStruct
    [(''Type'', TScalar Text), (''Stack'', TScalar Text), (''HealthCheckKey'', TScalar Text), (''Status'', TScalar Flag),
     (''LastTransitionTime'', Time_t L), (''Reason'', TScalar Text), (''ObservedGeneration'', TScalar Number)]"
definition NodeCondition_DeepCopyInto :: "copy_library \<Rightarrow> copier" where
  "NodeCondition_DeepCopyInto L = copy_fields
    [(''LastTransitionTime'', Time_DeepCopyInto L)]"
definition NodeCondition_DeepCopy :: "copy_library \<Rightarrow> copier" where
  "NodeCondition_DeepCopy L = copy_pointer (NodeCondition_type L) (NodeCondition_DeepCopyInto L)"

text \<open>\<open>NodeInstanceStatus\<close> (\<open>api/v1alpha1/location_types.go\<close>)\<close>

definition NodeInstanceStatus_type :: "copy_library \<Rightarrow> gotype" where
  "NodeInstanceStatus_type L = TStruct
    [(''Conditions'', TSlice (NodeCondition_type L)), (''Alerts'', TSlice (PrometheusAlertStatus_type L))]"
definition NodeInstanceStatus_DeepCopyInto :: "copy_library \<Rightarrow> copier" where
  "NodeInstanceStatus_DeepCopyInto L = copy_fields
    [(''Conditions'', copy_slice (NodeCondition_type L) (NodeCondition_DeepCopyInto L)),
     (''Alerts'', copy_slice (PrometheusAlertStatus_type L) (PrometheusAlertStatus_DeepCopyInto L))]"
definition NodeInstanceStatus_DeepCopy :: "copy_library \<Rightarrow> copier" where
  "NodeInstanceStatus_DeepCopy L = copy_pointer (NodeInstanceStatus_type L) (NodeInstanceStatus_DeepCopyInto L)"

text \<open>\<open>LocationStatus\<close> (\<open>api/v1alpha1/location_types.go\<close>)\<close>

definition LocationStatus_type :: "copy_library \<Rightarrow> gotype" where
  "LocationStatus_type L = TStruct
    [(''Status'', TScalar Text), (''Alerts'', TSlice (PrometheusAlertStatus_type L)),
     (''NodeStatus'', TMap (NodeInstanceStatus_type L))]"
definition LocationStatus_DeepCopyInto :: "copy_library \<Rightarrow> copier" where
  "LocationStatus_DeepCopyInto L = copy_fields
    [(''Alerts'', copy_slice (PrometheusAlertStatus_type L) (PrometheusAlertStatus_DeepCopyInto L)),
     (''NodeStatus'', copy_map (map_range L) (copy_value (NodeInstanceStatus_type L) (NodeInstanceStatus_DeepCopyInto L)))]"
definition LocationStatus_DeepCopy :: "copy_library \<Rightarrow> copier" where
  "LocationStatus_DeepCopy L = copy_pointer (LocationStatus_type L) (LocationStatus_DeepCopyInto L)"

text \<open>\<open>Location\<close> (\<open>api/v1alpha1/location_types.go\<close>)\<close>

definition Location_type :: "copy_library \<Rightarrow> gotype" where
  "Location_type L = TStruct
    [(''TypeMeta'', TypeMeta_t L), (''ObjectMeta'', ObjectMeta_t L), (''Spec'', LocationSpec_type L),
     (''Status'', LocationStatus_type L)]"
definition Location_DeepCopyInto :: "copy_library \<Rightarrow> copier" where
  "Location_DeepCopyInto L = copy_fields
    [(''TypeMeta'', assign), (''ObjectMeta'', ObjectMeta_DeepCopyInto L), (''Spec'', LocationSpec_DeepCopyInto L),
     (''Status'', LocationStatus_DeepCopyInto L)]"
definition Location_DeepCopy :: "copy_library \<Rightarrow> copier" where
  "Location_DeepCopy L = copy_pointer (Location_type L) (Location_DeepCopyInto L)"
definition Location_DeepCopyObject :: "copy_library \<Rightarrow> object_copier" where
  "Location_DeepCopyObject L = as_object ''Location'' (Location_DeepCopy L)"

text \<open>\<open>LocationList\<close> (\<open>api/v1alpha1/location_types.go\<close>)\<close>

definition LocationList_type :: "copy_library \<Rightarrow> gotype" where
  "LocationList_type L = TStruct
    [(''TypeMeta'', TypeMeta_t L), (''ListMeta'', ListMeta_t L), (''Items'', TSlice (Location_type L))]"
definition LocationList_DeepCopyInto :: "copy_library \<Rightarrow> copier" where
  "LocationList_DeepCopyInto L = copy_fields
    [(''TypeMeta'', assign), (''ListMeta'', ListMeta_DeepCopyInto L),
     (''Items'', copy_slice (Location_type L) (Location_DeepCopyInto L))]"
definition LocationList_DeepCopy :: "copy_library \<Rightarrow> copier" where
  "LocationList_DeepCopy L = copy_pointer (LocationList_type L) (LocationList_DeepCopyInto L)"
definition LocationList_DeepCopyObject :: "copy_library \<Rightarrow> object_copier" where
  "LocationList_DeepCopyObject L = as_object ''LocationList'' (LocationList_DeepCopy L)"

text \<open>\<open>MirrorSpec\<close> (\<open>api/v1alpha1/service_types.go\<close>)\<close>

definition MirrorSpec_type :: "copy_library \<Rightarrow> gotype" where
  "MirrorSpec_type L = TStruct
    [(''URL'', TScalar Text), (''HostHeader'', TScalar Text)]"
definition MirrorSpec_DeepCopyInto :: "copy_library \<Rightarrow> copier" where
  "MirrorSpec_DeepCopyInto L = assign"
definition MirrorSpec_DeepCopy :: "copy_library \<Rightarrow> copier" where
  "MirrorSpec_DeepCopy L = copy_pointer (MirrorSpec_type L) (MirrorSpec_DeepCopyInto L)"

text \<open>\<open>PathSpec\<close> (\<open>api/v1alpha1/service_types.go\<close>)\<close>

definition PathSpec_type :: "copy_library \<Rightarrow> gotype" where
  "PathSpec_type L = TStruct
    [(''Paths'', TSlice (TScalar Text)), (''Rewrite'', TScalar Text)]"
definition PathSpec_DeepCopyInto :: "copy_library \<Rightarrow> copier" where
  "PathSpec_DeepCopyInto L = copy_fields
    [(''Paths'', copy_flat_slice (TScalar Text))]"
definition PathSpec_DeepCopy :: "copy_library \<Rightarrow> copier" where
  "PathSpec_DeepCopy L = copy_pointer (PathSpec_type L) (PathSpec_DeepCopyInto L)"

text \<open>\<open>V4PrefixSpec\<close> (\<open>api/v1alpha1/prefixlist_types.go\<close>)\<close>

definition V4PrefixSpec_type :: "copy_library \<Rightarrow> gotype" where
  "V4PrefixSpec_type L = TStruct
    [(''Address'', TScalar Text), (''Size'', TScalar Number)]"
definition V4PrefixSpec_DeepCopyInto :: "copy_library \<Rightarrow> copier" where
  "V4PrefixSpec_DeepCopyInto L = assign"
definition V4PrefixSpec_DeepCopy :: "copy_library \<Rightarrow> copier" where
  "V4PrefixSpec_DeepCopy L = copy_pointer (V4PrefixSpec_type L) (V4PrefixSpec_DeepCopyInto L)"

text \<open>\<open>V6PrefixSpec\<close> (\<open>api/v1alpha1/prefixlist_types.go\<close>)\<close>

definition V6PrefixSpec_type :: "copy_library \<Rightarrow> gotype" where
  "V6PrefixSpec_type L = TStruct
    [(''Address'', TScalar Text), (''Size'', TScalar Number)]"
definition V6PrefixSpec_DeepCopyInto :: "copy_library \<Rightarrow> copier" where
  "V6PrefixSpec_DeepCopyInto L = assign"
definition V6PrefixSpec_DeepCopy :: "copy_library \<Rightarrow> copier" where
  "V6PrefixSpec_DeepCopy L = copy_pointer (V6PrefixSpec_type L) (V6PrefixSpec_DeepCopyInto L)"

text \<open>\<open>PrefixSpec\<close> (\<open>api/v1alpha1/prefixlist_types.go\<close>)\<close>

definition PrefixSpec_type :: "copy_library \<Rightarrow> gotype" where
  "PrefixSpec_type L = TStruct
    [(''V4'', TSlice (V4PrefixSpec_type L)), (''V6'', TSlice (V6PrefixSpec_type L))]"
definition PrefixSpec_DeepCopyInto :: "copy_library \<Rightarrow> copier" where
  "PrefixSpec_DeepCopyInto L = copy_fields
    [(''V4'', copy_flat_slice (V4PrefixSpec_type L)), (''V6'', copy_flat_slice (V6PrefixSpec_type L))]"
definition PrefixSpec_DeepCopy :: "copy_library \<Rightarrow> copier" where
  "PrefixSpec_DeepCopy L = copy_pointer (PrefixSpec_type L) (PrefixSpec_DeepCopyInto L)"

text \<open>\<open>PrefixListSpec\<close> (\<open>api/v1alpha1/prefixlist_types.go\<close>)\<close>

definition PrefixListSpec_type :: "copy_library \<Rightarrow> gotype" where
  "PrefixListSpec_type L = TStruct
    [(''Project'', TPointer (LocalObjectReference_t L)), (''Source'', TScalar Text), (''Prefix'', PrefixSpec_type L),
     (''Destination'', TScalar Text)]"
definition PrefixListSpec_DeepCopyInto :: "copy_library \<Rightarrow> copier" where
  "PrefixListSpec_DeepCopyInto L = copy_fields
    [(''Project'', copy_pointer (LocalObjectReference_t L) assign), (''Prefix'', PrefixSpec_DeepCopyInto L)]"
definition PrefixListSpec_DeepCopy :: "copy_library \<Rightarrow> copier" where
  "PrefixListSpec_DeepCopy L = copy_pointer (PrefixListSpec_type L) (PrefixListSpec_DeepCopyInto L)"

text \<open>\<open>PrefixListStatus\<close> (\<open>api/v1alpha1/prefixlist_types.go\<close>)\<close>

definition PrefixListStatus_type :: "copy_library \<Rightarrow> gotype" where
  "PrefixListStatus_type L = TStruct
    [(''Status'', TScalar Text), (''ConsoliadtionStatus'', TScalar Text)]"
definition PrefixListStatus_DeepCopyInto :: "copy_library \<Rightarrow> copier" where
  "PrefixListStatus_DeepCopyInto L = assign"
definition PrefixListStatus_DeepCopy :: "copy_library \<Rightarrow> copier" where
  "PrefixListStatus_DeepCopy L = copy_pointer (PrefixListStatus_type L) (PrefixListStatus_DeepCopyInto L)"

text \<open>\<open>PrefixList\<close> (\<open>api/v1alpha1/prefixlist_types.go\<close>)\<close>

definition PrefixList_type :: "copy_library \<Rightarrow> gotype" where
  "PrefixList_type L = TStruct
    [(''TypeMeta'', TypeMeta_t L), (''ObjectMeta'', ObjectMeta_t L), (''Spec'', PrefixListSpec_type L),
     (''Status'', PrefixListStatus_type L)]"
definition PrefixList_DeepCopyInto :: "copy_library \<Rightarrow> copier" where
  "PrefixList_DeepCopyInto L = copy_fields
    [(''TypeMeta'', assign), (''ObjectMeta'', ObjectMeta_DeepCopyInto L), (''Spec'', PrefixListSpec_DeepCopyInto L),
     (''Status'', assign)]"
definition PrefixList_DeepCopy :: "copy_library \<Rightarrow> copier" where
  "PrefixList_DeepCopy L = copy_pointer (PrefixList_type L) (PrefixList_DeepCopyInto L)"
definition PrefixList_DeepCopyObject :: "copy_library \<Rightarrow> object_copier" where
  "PrefixList_DeepCopyObject L = as_object ''PrefixList'' (PrefixList_DeepCopy L)"

text \<open>\<open>PrefixListList\<close> (\<open>api/v1alpha1/prefixlist_types.go\<close>)\<close>

definition PrefixListList_type :: "copy_library \<Rightarrow> gotype" where
  "PrefixListList_type L = TStruct
    [(''TypeMeta'', TypeMeta_t L), (''ListMeta'', ListMeta_t L), (''Items'', TSlice (PrefixList_type L))]"
definition PrefixListList_DeepCopyInto :: "copy_library \<Rightarrow> copier" where
  "PrefixListList_DeepCopyInto L = copy_fields
    [(''TypeMeta'', assign), (''ListMeta'', ListMeta_DeepCopyInto L),
     (''Items'', copy_slice (PrefixList_type L) (PrefixList_DeepCopyInto L))]"
definition PrefixListList_DeepCopy :: "copy_library \<Rightarrow> copier" where
  "PrefixListList_DeepCopy L = copy_pointer (PrefixListList_type L) (PrefixListList_DeepCopyInto L)"
definition PrefixListList_DeepCopyObject :: "copy_library \<Rightarrow> object_copier" where
  "PrefixListList_DeepCopyObject L = as_object ''PrefixListList'' (PrefixListList_DeepCopy L)"

text \<open>\<open>RuleSpec\<close> (\<open>api/v1alpha1/project_types.go\<close>)\<close>

definition RuleSpec_type :: "copy_library \<Rightarrow> gotype" where
  "RuleSpec_type L = TStruct
    [(''PType'', TScalar Text), (''V0'', TScalar Text), (''V1'', TScalar Text), (''V2'', TScalar Text),
     (''V3'', TScalar Text), (''V4'', TScalar Text), (''V5'', TScalar Text)]"
definition RuleSpec_DeepCopyInto :: "copy_library \<Rightarrow> copier" where
  "RuleSpec_DeepCopyInto L = assign"
definition RuleSpec_DeepCopy :: "copy_library \<Rightarrow> copier" where
  "RuleSpec_DeepCopy L = copy_pointer (RuleSpec_type L) (RuleSpec_DeepCopyInto L)"

text \<open>\<open>RBACSpec\<close> (\<open>api/v1alpha1/project_types.go\<close>)\<close>

definition RBACSpec_type :: "copy_library \<Rightarrow> gotype" where
  "RBACSpec_type L = TStruct
    [(''Groups'', TSlice (RuleSpec_type L)), (''Rules'', TSlice (RuleSpec_type L))]"
definition RBACSpec_DeepCopyInto :: "copy_library \<Rightarrow> copier" where
  "RBACSpec_DeepCopyInto L = copy_fields
    [(''Groups'', copy_flat_slice (RuleSpec_type L)), (''Rules'', copy_flat_slice (RuleSpec_type L))]"
definition RBACSpec_DeepCopy :: "copy_library \<Rightarrow> copier" where
  "RBACSpec_DeepCopy L = copy_pointer (RBACSpec_type L) (RBACSpec_DeepCopyInto L)"

text \<open>\<open>ProjectSpec\<close> (\<open>api/v1alpha1/project_types.go\<close>)\<close>

definition ProjectSpec_type :: "copy_library \<Rightarrow> gotype" where
  "ProjectSpec_type L = TStruct
    [(''Name'', TScalar Text), (''Description'', TScalar Text), (''Rbac'', RBACSpec_type L)]"
definition ProjectSpec_DeepCopyInto :: "copy_library \<Rightarrow> copier" where
  "ProjectSpec_DeepCopyInto L = copy_fields
    [(''Rbac'', RBACSpec_DeepCopyInto L)]"
definition ProjectSpec_DeepCopy :: "copy_library \<Rightarrow> copier" where
  "ProjectSpec_DeepCopy L = copy_pointer (ProjectSpec_type L) (ProjectSpec_DeepCopyInto L)"

text \<open>\<open>ProjectStatus\<close> (\<open>api/v1alpha1/project_types.go\<close>)\<close>

definition ProjectStatus_type :: "copy_library \<Rightarrow> gotype" where
  "ProjectStatus_type L = TStruct
    []"
definition ProjectStatus_DeepCopyInto :: "copy_library \<Rightarrow> copier" where
  "ProjectStatus_DeepCopyInto L = assign"
definition ProjectStatus_DeepCopy :: "copy_library \<Rightarrow> copier" where
  "ProjectStatus_DeepCopy L = copy_pointer (ProjectStatus_type L) (ProjectStatus_DeepCopyInto L)"

text \<open>\<open>Project\<close> (\<open>api/v1alpha1/project_types.go\<close>)\<close>

definition Project_type :: "copy_library \<Rightarrow> gotype" where
  "Project_type L = TStruct
    [(''TypeMeta'', TypeMeta_t L), (''ObjectMeta'', ObjectMeta_t L), (''Spec'', ProjectSpec_type L),
     (''Status'', ProjectStatus_type L)]"
definition Project_DeepCopyInto :: "copy_library \<Rightarrow> copier" where
  "Project_DeepCopyInto L = copy_fields
    [(''TypeMeta'', assign), (''ObjectMeta'', ObjectMeta_DeepCopyInto L), (''Spec'', ProjectSpec_DeepCopyInto L),
     (''Status'', assign)]"
definition Project_DeepCopy :: "copy_library \<Rightarrow> copier" where
  "Project_DeepCopy L = copy_pointer (Project_type L) (Project_DeepCopyInto L)"
definition Project_DeepCopyObject :: "copy_library \<Rightarrow> object_copier" where
  "Project_DeepCopyObject L = as_object ''Project'' (Project_DeepCopy L)"

text \<open>\<open>ProjectList\<close> (\<open>api/v1alpha1/project_types.go\<close>)\<close>

definition ProjectList_type :: "copy_library \<Rightarrow> gotype" where
  "ProjectList_type L = TStruct
    [(''TypeMeta'', TypeMeta_t L), (''ListMeta'', ListMeta_t L), (''Items'', TSlice (Project_type L))]"
definition ProjectList_DeepCopyInto :: "copy_library \<Rightarrow> copier" where
  "ProjectList_DeepCopyInto L = copy_fields
    [(''TypeMeta'', assign), (''ListMeta'', ListMeta_DeepCopyInto L),
     (''Items'', copy_slice (Project_type L) (Project_DeepCopyInto L))]"
definition ProjectList_DeepCopy :: "copy_library \<Rightarrow> copier" where
  "ProjectList_DeepCopy L = copy_pointer (ProjectList_type L) (ProjectList_DeepCopyInto L)"
definition ProjectList_DeepCopyObject :: "copy_library \<Rightarrow> object_copier" where
  "ProjectList_DeepCopyObject L = as_object ''ProjectList'' (ProjectList_DeepCopy L)"

text \<open>\<open>S3OriginSpec\<close> (\<open>api/v1alpha1/service_types.go\<close>)\<close>

definition S3OriginSpec_type :: "copy_library \<Rightarrow> gotype" where
  "S3OriginSpec_type L = TStruct
    [(''AwsSigsVersion'', TScalar Number), (''S3AccessKeyId'', TScalar Text), (''S3SecretKey'', TScalar Text),
     (''S3BucketName'', TScalar Text), (''S3Region'', TScalar Text), (''S3Server'', TScalar Text),
     (''S3ServerProto'', TScalar Text), (''S3ServerPort'', TScalar Number), (''S3Style'', TScalar Text)]"
definition S3OriginSpec_DeepCopyInto :: "copy_library \<Rightarrow> copier" where
  "S3OriginSpec_DeepCopyInto L = assign"
definition S3OriginSpec_DeepCopy :: "copy_library \<Rightarrow> copier" where
  "S3OriginSpec_DeepCopy L = copy_pointer (S3OriginSpec_type L) (S3OriginSpec_DeepCopyInto L)"

text \<open>\<open>SecureKeySpec\<close> (\<open>api/v1alpha1/service_types.go\<close>)\<close>

definition SecureKeySpec_type :: "copy_library \<Rightarrow> gotype" where
  "SecureKeySpec_type L = TStruct
    [(''Name'', TScalar Text), (''Value'', TScalar Text), (''CreatedAt'', Time_t L)]"
definition SecureKeySpec_DeepCopyInto :: "copy_library \<Rightarrow> copier" where
  "SecureKeySpec_DeepCopyInto L = copy_fields
    [(''CreatedAt'', Time_DeepCopyInto L)]"
definition SecureKeySpec_DeepCopy :: "copy_library \<Rightarrow> copier" where
  "SecureKeySpec_DeepCopy L = copy_pointer (SecureKeySpec_type L) (SecureKeySpec_DeepCopyInto L)"

text \<open>\<open>StaticOriginSpec\<close> (\<open>api/v1alpha1/service_types.go\<close>)\<close>

definition StaticOriginSpec_type :: "copy_library \<Rightarrow> gotype" where
  "StaticOriginSpec_type L = TStruct
    [(''Upstream'', TScalar Text), (''Port'', TScalar Number), (''HostHeader'', TScalar Text), (''Scheme'', TScalar Text)]"
definition StaticOriginSpec_DeepCopyInto :: "copy_library \<Rightarrow> copier" where
  "StaticOriginSpec_DeepCopyInto L = assign"
definition StaticOriginSpec_DeepCopy :: "copy_library \<Rightarrow> copier" where
  "StaticOriginSpec_DeepCopy L = copy_pointer (StaticOriginSpec_type L) (StaticOriginSpec_DeepCopyInto L)"

text \<open>\<open>WafSpec\<close> (\<open>api/v1alpha1/service_types.go\<close>)\<close>

definition WafSpec_type :: "copy_library \<Rightarrow> gotype" where
  "WafSpec_type L = TStruct
    [(''Enabled'', TScalar Flag)]"
definition WafSpec_DeepCopyInto :: "copy_library \<Rightarrow> copier" where
  "WafSpec_DeepCopyInto L = assign"
definition WafSpec_DeepCopy :: "copy_library \<Rightarrow> copier" where
  "WafSpec_DeepCopy L = copy_pointer (WafSpec_type L) (WafSpec_DeepCopyInto L)"

text \<open>\<open>ServiceSpec\<close> (\<open>api/v1alpha1/service_types.go\<close>)\<close>

definition ServiceSpec_type :: "copy_library \<Rightarrow> gotype" where
  "ServiceSpec_type L = TStruct
    [(''Project'', TPointer (LocalObjectReference_t L)), (''Name'', TScalar Text), (''Domain'', TScalar Text),
     (''Certificate'', CertificateSpec_type L), (''OriginType'', TScalar Text),
     (''StaticOrigins'', TSlice (StaticOriginSpec_type L)), (''S3OriginSpec'', TSlice (S3OriginSpec_type L)),
     (''SecureKeys'', TSlice (SecureKeySpec_type L)), (''Customer'', CustomerSpec_type L), (''Cache'', TScalar Text),
     (''CacheKeySpec'', CacheKeySpec_type L), (''MirrorSpec'', MirrorSpec_type L),
     (''HostAliases'', TSlice (HostAliasSpec_type L)), (''Waf'', WafSpec_type L), (''Cors'', CorsSpec_type L),
     (''Path'', PathSpec_type L), (''RouteSelector'', TPointer (LabelSelector_t L))]"
definition ServiceSpec_DeepCopyInto :: "copy_library \<Rightarrow> copier" where
  "ServiceSpec_DeepCopyInto L = copy_fields
    [(''Project'', copy_pointer (LocalObjectReference_t L) assign), (''Certificate'', assign),
     (''StaticOrigins'', copy_flat_slice (StaticOriginSpec_type L)),
     (''S3OriginSpec'', copy_flat_slice (S3OriginSpec_type L)),
     (''SecureKeys'', copy_slice (SecureKeySpec_type L) (SecureKeySpec_DeepCopyInto L)), (''Customer'', assign),
     (''CacheKeySpec'', CacheKeySpec_DeepCopyInto L), (''MirrorSpec'', assign),
     (''HostAliases'', copy_flat_slice (HostAliasSpec_type L)), (''Waf'', assign), (''Cors'', assign),
     (''Path'', PathSpec_DeepCopyInto L), (''RouteSelector'', copy_pointer (LabelSelector_t L) (LabelSelector_DeepCopyInto L))]"
definition ServiceSpec_DeepCopy :: "copy_library \<Rightarrow> copier" where
  "ServiceSpec_DeepCopy L = copy_pointer (ServiceSpec_type L) (ServiceSpec_DeepCopyInto L)"

text \<open>\<open>ServiceStatus\<close> (\<open>api/v1alpha1/service_types.go\<close>)\<close>

definition ServiceStatus_type :: "copy_library \<Rightarrow> gotype" where
  "ServiceStatus_type L = TStruct
    [(''Status'', TScalar Text)]"
definition ServiceStatus_DeepCopyInto :: "copy_library \<Rightarrow> copier" where
  "ServiceStatus_DeepCopyInto L = assign"
definition ServiceStatus_DeepCopy :: "copy_library \<Rightarrow> copier" where
  "ServiceStatus_DeepCopy L = copy_pointer (ServiceStatus_type L) (ServiceStatus_DeepCopyInto L)"

text \<open>\<open>Service\<close> (\<open>api/v1alpha1/service_types.go\<close>)\<close>

definition Service_type :: "copy_library \<Rightarrow> gotype" where
  "Service_type L = TStruct
    [(''TypeMeta'', TypeMeta_t L), (''ObjectMeta'', ObjectMeta_t L), (''Spec'', ServiceSpec_type L),
     (''Status'', ServiceStatus_type L)]"
definition Service_DeepCopyInto :: "copy_library \<Rightarrow> copier" where
  "Service_DeepCopyInto L = copy_fields
    [(''TypeMeta'', assign), (''ObjectMeta'', ObjectMeta_DeepCopyInto L), (''Spec'', ServiceSpec_DeepCopyInto L),
     (''Status'', assign)]"
definition Service_DeepCopy :: "copy_library \<Rightarrow> copier" where
  "Service_DeepCopy L = copy_pointer (Service_type L) (Service_DeepCopyInto L)"
definition Service_DeepCopyObject :: "copy_library \<Rightarrow> object_copier" where
  "Service_DeepCopyObject L = as_object ''Service'' (Service_DeepCopy L)"

text \<open>\<open>ServiceList\<close> (\<open>api/v1alpha1/service_types.go\<close>)\<close>

definition ServiceList_type :: "copy_library \<Rightarrow> gotype" where
  "ServiceList_type L = TStruct
    [(''TypeMeta'', TypeMeta_t L), (''ListMeta'', ListMeta_t L), (''Items'', TSlice (Service_type L))]"
definition ServiceList_DeepCopyInto :: "copy_library \<Rightarrow> copier" where
  "ServiceList_DeepCopyInto L = copy_fields
    [(''TypeMeta'', assign), (''ListMeta'', ListMeta_DeepCopyInto L),
     (''Items'', copy_slice (Service_type L) (Service_DeepCopyInto L))]"
definition ServiceList_DeepCopy :: "copy_library \<Rightarrow> copier" where
  "ServiceList_DeepCopy L = copy_pointer (ServiceList_type L) (ServiceList_DeepCopyInto L)"
definition ServiceList_DeepCopyObject :: "copy_library \<Rightarrow> object_copier" where
  "ServiceList_DeepCopyObject L = as_object ''ServiceList'' (ServiceList_DeepCopy L)"

text \<open>\<open>ZoneSpec\<close> (\<open>api/v1alpha1/zone_types.go\<close>)\<close>

definition ZoneSpec_type :: "copy_library \<Rightarrow> gotype" where
  "ZoneSpec_type L = TStruct
    [(''Project'', TPointer (LocalObjectReference_t L)), (''Zone'', TScalar Text), (''Email'', TScalar Text)]"
definition ZoneSpec_DeepCopyInto :: "copy_library \<Rightarrow> copier" where
  "ZoneSpec_DeepCopyInto L = copy_fields
    [(''Project'', copy_pointer (LocalObjectReference_t L) assign)]"
definition ZoneSpec_DeepCopy :: "copy_library \<Rightarrow> copier" where
  "ZoneSpec_DeepCopy L = copy_pointer (ZoneSpec_type L) (ZoneSpec_DeepCopyInto L)"

text \<open>\<open>ZoneStatus\<close> (\<open>api/v1alpha1/zone_types.go\<close>)\<close>

definition ZoneStatus_type :: "copy_library \<Rightarrow> gotype" where
  "ZoneStatus_type L = TStruct
    [(''Status'', TScalar Text)]"
definition ZoneStatus_DeepCopyInto :: "copy_library \<Rightarrow> copier" where
  "ZoneStatus_DeepCopyInto L = assign"
definition ZoneStatus_DeepCopy :: "copy_library \<Rightarrow> copier" where
  "ZoneStatus_DeepCopy L = copy_pointer (ZoneStatus_type L) (ZoneStatus_DeepCopyInto L)"

text \<open>\<open>Zone\<close> (\<open>api/v1alpha1/zone_types.go\<close>)\<close>

definition Zone_type :: "copy_library \<Rightarrow> gotype" where
  "Zone_type L = TStruct
    [(''TypeMeta'', TypeMeta_t L), (''ObjectMeta'', ObjectMeta_t L), (''Spec'', ZoneSpec_type L),
     (''Status'', ZoneStatus_type L)]"
definition Zone_DeepCopyInto :: "copy_library \<Rightarrow> copier" where
  "Zone_DeepCopyInto L = copy_fields
    [(''TypeMeta'', assign), (''ObjectMeta'', ObjectMeta_DeepCopyInto L), (''Spec'', ZoneSpec_DeepCopyInto L),
     (''Status'', assign)]"
definition Zone_DeepCopy :: "copy_library \<Rightarrow> copier" where
  "Zone_DeepCopy L = copy_pointer (Zone_type L) (Zone_DeepCopyInto L)"
definition Zone_DeepCopyObject :: "copy_library \<Rightarrow> object_copier" where
  "Zone_DeepCopyObject L = as_object ''Zone'' (Zone_DeepCopy L)"

text \<open>\<open>ZoneList\<close> (\<open>api/v1alpha1/zone_types.go\<close>)\<close>

definition ZoneList_type :: "copy_library \<Rightarrow> gotype" where
  "ZoneList_type L = TStruct
    [(''TypeMeta'', TypeMeta_t L), (''ListMeta'', ListMeta_t L), (''Items'', TSlice (Zone_type L))]"
definition ZoneList_DeepCopyInto :: "copy_library \<Rightarrow> copier" where
  "ZoneList_DeepCopyInto L = copy_fields
    [(''TypeMeta'', assign), (''ListMeta'', ListMeta_DeepCopyInto L),
     (''Items'', copy_slice (Zone_type L) (Zone_DeepCopyInto L))]"
definition ZoneList_DeepCopy :: "copy_library \<Rightarrow> copier" where
  "ZoneList_DeepCopy L = copy_pointer (ZoneList_type L) (ZoneList_DeepCopyInto L)"
definition ZoneList_DeepCopyObject :: "copy_library \<Rightarrow> object_copier" where
  "ZoneList_DeepCopyObject L = as_object ''ZoneList'' (ZoneList_DeepCopy L)"

text \<open>What a copy as an interface value promises\<close>

definition object_copied :: "string \<Rightarrow> gotype \<Rightarrow> object_copier \<Rightarrow> bool" where
  "object_copied name t f \<longleftrightarrow> (\<forall>h. f (Pointer None) h = Some (None, h)) \<and>
     (\<forall>h a x. load (TPointer t) h (Pointer (Some a)) = Some x \<longrightarrow>
       (\<exists>b h'. f (Pointer (Some a)) h = Some (Some (name, Pointer (Some b)), h') \<and>
         copied (TPointer t) h x (Pointer (Some b)) h'))"

lemma as_object_copied:
  assumes "deep_copy t f"
  shows "object_copied name t (as_object name (copy_pointer t f))"
proof -
  have "\<exists>b h'. as_object name (copy_pointer t f) (Pointer (Some a)) h = Some (Some (name, Pointer (Some b)), h') \<and>
      copied (TPointer t) h x (Pointer (Some b)) h'"
    if load: "load (TPointer t) h (Pointer (Some a)) = Some x" for h a x
  proof -
    obtain w h' where w: "copy_pointer t f (Pointer (Some a)) h = Some (w, h')" "copied (TPointer t) h x w h'"
      by (rule deep_copyD [OF deep_copy_pointer [OF assms] load])
    then have "w = Pointer (Some (length h))" by (auto simp: copy_pointer_def split: bind_splits)
    with w show ?thesis by (auto simp: as_object_def)
  qed
  then show ?thesis by (simp add: object_copied_def as_object_def copy_pointer_def)
qed

section \<open>The structs and the objects of the API group\<close>

definition api_structs :: "copy_library \<Rightarrow> (gotype \<times> copier \<times> copier) list" where
  "api_structs L =
    [(CredentialSpec_type L, CredentialSpec_DeepCopyInto L, CredentialSpec_DeepCopy L),
     (APIKeySpec_type L, APIKeySpec_DeepCopyInto L, APIKeySpec_DeepCopy L),
     (APIKeyStatus_type L, APIKeyStatus_DeepCopyInto L, APIKeyStatus_DeepCopy L),
     (APIKey_type L, APIKey_DeepCopyInto L, APIKey_DeepCopy L),
     (APIKeyList_type L, APIKeyList_DeepCopyInto L, APIKeyList_DeepCopy L),
     (AssumeHealthCheckProbeSpec_type L, AssumeHealthCheckProbeSpec_DeepCopyInto L, AssumeHealthCheckProbeSpec_DeepCopy L),
     (CacheConfigSpec_type L, CacheConfigSpec_DeepCopyInto L, CacheConfigSpec_DeepCopy L),
     (CacheKeySpec_type L, CacheKeySpec_DeepCopyInto L, CacheKeySpec_DeepCopy L),
     (CertificateSpec_type L, CertificateSpec_DeepCopyInto L, CertificateSpec_DeepCopy L),
     (CorsSpec_type L, CorsSpec_DeepCopyInto L, CorsSpec_DeepCopy L),
     (CustomerSpec_type L, CustomerSpec_DeepCopyInto L, CustomerSpec_DeepCopy L),
     (DNSEndpointSpec_type L, DNSEndpointSpec_DeepCopyInto L, DNSEndpointSpec_DeepCopy L),
     (DNSEndpointStatus_type L, DNSEndpointStatus_DeepCopyInto L, DNSEndpointStatus_DeepCopy L),
     (DNSEndpoint_type L, DNSEndpoint_DeepCopyInto L, DNSEndpoint_DeepCopy L),
     (DNSEndpointList_type L, DNSEndpointList_DeepCopyInto L, DNSEndpointList_DeepCopy L),
     (GeoLookupAttributeValuesSpec_type L, GeoLookupAttributeValuesSpec_DeepCopyInto L, GeoLookupAttributeValuesSpec_DeepCopy L),
     (GeoLookupAttributeSpec_type L, GeoLookupAttributeSpec_DeepCopyInto L, GeoLookupAttributeSpec_DeepCopy L),
     (GeoLookupSpec_type L, GeoLookupSpec_DeepCopyInto L, GeoLookupSpec_DeepCopy L),
     (HTTPHealthCheckProbeSpec_type L, HTTPHealthCheckProbeSpec_DeepCopyInto L, HTTPHealthCheckProbeSpec_DeepCopy L),
     (TCPHealthCheckProbeSpec_type L, TCPHealthCheckProbeSpec_DeepCopyInto L, TCPHealthCheckProbeSpec_DeepCopy L),
     (HealthCheckProbeSpec_type L, HealthCheckProbeSpec_DeepCopyInto L, HealthCheckProbeSpec_DeepCopy L),
     (HealthCheckProfileSpec_type L, HealthCheckProfileSpec_DeepCopyInto L, HealthCheckProfileSpec_DeepCopy L),
     (HealthCheckProfileStatus_type L, HealthCheckProfileStatus_DeepCopyInto L, HealthCheckProfileStatus_DeepCopy L),
     (HealthCheckProfile_type L, HealthCheckProfile_DeepCopyInto L, HealthCheckProfile_DeepCopy L),
     (HealthCheckProfileList_type L, HealthCheckProfileList_DeepCopyInto L, HealthCheckProfileList_DeepCopy L),
     (HostAliasSpec_type L, HostAliasSpec_DeepCopyInto L, HostAliasSpec_DeepCopy L),
     (PrometheusAlertMatcherSpec_type L, PrometheusAlertMatcherSpec_DeepCopyInto L, PrometheusAlertMatcherSpec_DeepCopy L),
     (NodeSpec_type L, NodeSpec_DeepCopyInto L, NodeSpec_DeepCopy L),
     (NodeGroupSpec_type L, NodeGroupSpec_DeepCopyInto L, NodeGroupSpec_DeepCopy L),
     (LocationSpec_type L, LocationSpec_DeepCopyInto L, LocationSpec_DeepCopy L),
     (PrometheusAlertStatus_type L, PrometheusAlertStatus_DeepCopyInto L, PrometheusAlertStatus_DeepCopy L),
     (NodeCondition_type L, NodeCondition_DeepCopyInto L, NodeCondition_DeepCopy L),
     (NodeInstanceStatus_type L, NodeInstanceStatus_DeepCopyInto L, NodeInstanceStatus_DeepCopy L),
     (LocationStatus_type L, LocationStatus_DeepCopyInto L, LocationStatus_DeepCopy L),
     (Location_type L, Location_DeepCopyInto L, Location_DeepCopy L),
     (LocationList_type L, LocationList_DeepCopyInto L, LocationList_DeepCopy L),
     (MirrorSpec_type L, MirrorSpec_DeepCopyInto L, MirrorSpec_DeepCopy L),
     (PathSpec_type L, PathSpec_DeepCopyInto L, PathSpec_DeepCopy L),
     (V4PrefixSpec_type L, V4PrefixSpec_DeepCopyInto L, V4PrefixSpec_DeepCopy L),
     (V6PrefixSpec_type L, V6PrefixSpec_DeepCopyInto L, V6PrefixSpec_DeepCopy L),
     (PrefixSpec_type L, PrefixSpec_DeepCopyInto L, PrefixSpec_DeepCopy L),
     (PrefixListSpec_type L, PrefixListSpec_DeepCopyInto L, PrefixListSpec_DeepCopy L),
     (PrefixListStatus_type L, PrefixListStatus_DeepCopyInto L, PrefixListStatus_DeepCopy L),
     (PrefixList_type L, PrefixList_DeepCopyInto L, PrefixList_DeepCopy L),
     (PrefixListList_type L, PrefixListList_DeepCopyInto L, PrefixListList_DeepCopy L),
     (RuleSpec_type L, RuleSpec_DeepCopyInto L, RuleSpec_DeepCopy L),
     (RBACSpec_type L, RBACSpec_DeepCopyInto L, RBACSpec_DeepCopy L),
     (ProjectSpec_type L, ProjectSpec_DeepCopyInto L, ProjectSpec_DeepCopy L),
     (ProjectStatus_type L, ProjectStatus_DeepCopyInto L, ProjectStatus_DeepCopy L),
     (Project_type L, Project_DeepCopyInto L, Project_DeepCopy L),
     (ProjectList_type L, ProjectList_DeepCopyInto L, ProjectList_DeepCopy L),
     (S3OriginSpec_type L, S3OriginSpec_DeepCopyInto L, S3OriginSpec_DeepCopy L),
     (SecureKeySpec_type L, SecureKeySpec_DeepCopyInto L, SecureKeySpec_DeepCopy L),
     (StaticOriginSpec_type L, StaticOriginSpec_DeepCopyInto L, StaticOriginSpec_DeepCopy L),
     (WafSpec_type L, WafSpec_DeepCopyInto L, WafSpec_DeepCopy L),
     (ServiceSpec_type L, ServiceSpec_DeepCopyInto L, ServiceSpec_DeepCopy L),
     (ServiceStatus_type L, ServiceStatus_DeepCopyInto L, ServiceStatus_DeepCopy L),
     (Service_type L, Service_DeepCopyInto L, Service_DeepCopy L),
     (ServiceList_type L, ServiceList_DeepCopyInto L, ServiceList_DeepCopy L),
     (ZoneSpec_type L, ZoneSpec_DeepCopyInto L, ZoneSpec_DeepCopy L),
     (ZoneStatus_type L, ZoneStatus_DeepCopyInto L, ZoneStatus_DeepCopy L),
     (Zone_type L, Zone_DeepCopyInto L, Zone_DeepCopy L), (ZoneList_type L, ZoneList_DeepCopyInto L, ZoneList_DeepCopy L)]"

definition api_objects :: "copy_library \<Rightarrow> (string \<times> gotype \<times> object_copier) list" where
  "api_objects L =
    [(''APIKey'', APIKey_type L, APIKey_DeepCopyObject L), (''APIKeyList'', APIKeyList_type L, APIKeyList_DeepCopyObject L),
     (''DNSEndpoint'', DNSEndpoint_type L, DNSEndpoint_DeepCopyObject L),
     (''DNSEndpointList'', DNSEndpointList_type L, DNSEndpointList_DeepCopyObject L),
     (''HealthCheckProfile'', HealthCheckProfile_type L, HealthCheckProfile_DeepCopyObject L),
     (''HealthCheckProfileList'', HealthCheckProfileList_type L, HealthCheckProfileList_DeepCopyObject L),
     (''Location'', Location_type L, Location_DeepCopyObject L),
     (''LocationList'', LocationList_type L, LocationList_DeepCopyObject L),
     (''PrefixList'', PrefixList_type L, PrefixList_DeepCopyObject L),
     (''PrefixListList'', PrefixListList_type L, PrefixListList_DeepCopyObject L),
     (''Project'', Project_type L, Project_DeepCopyObject L),
     (''ProjectList'', ProjectList_type L, ProjectList_DeepCopyObject L),
     (''Service'', Service_type L, Service_DeepCopyObject L),
     (''ServiceList'', ServiceList_type L, ServiceList_DeepCopyObject L), (''Zone'', Zone_type L, Zone_DeepCopyObject L),
     (''ZoneList'', ZoneList_type L, ZoneList_DeepCopyObject L)]"

section \<open>Every copy function is a deep copy\<close>

named_theorems deep_copies \<open>flat types and deep copies\<close>

declare deep_copy_assign [deep_copies] deep_copy_pointer [deep_copies] deep_copy_value [deep_copies] deep_copy_slice [deep_copies]
  deep_copy_flat_slice [deep_copies] deep_copy_map [deep_copies] deep_copy_fields [deep_copies]

context go_copy_library
begin

declare flat_TypeMeta [deep_copies] flat_LocalObjectReference [deep_copies] flat_Duration [deep_copies]
  ObjectMeta_copied [deep_copies] ListMeta_copied [deep_copies] Time_copied [deep_copies] Time_copied_pointer [deep_copies]
  LabelSelector_copied [deep_copies] any_order [deep_copies]

lemma flat_CredentialSpec [deep_copies]: "flat (CredentialSpec_type L)"
  by (simp add: CredentialSpec_type_def deep_copies)

lemma CredentialSpec_copied [deep_copies]: "deep_copy (CredentialSpec_type L) (CredentialSpec_DeepCopyInto L)"
  by (simp add: CredentialSpec_DeepCopyInto_def deep_copies)

lemma APIKeySpec_copied [deep_copies]: "deep_copy (APIKeySpec_type L) (APIKeySpec_DeepCopyInto L)"
  by (simp add: APIKeySpec_type_def APIKeySpec_DeepCopyInto_def copies_fields_def deep_copies)

lemma flat_APIKeyStatus [deep_copies]: "flat (APIKeyStatus_type L)"
  by (simp add: APIKeyStatus_type_def deep_copies)

lemma APIKeyStatus_copied [deep_copies]: "deep_copy (APIKeyStatus_type L) (APIKeyStatus_DeepCopyInto L)"
  by (simp add: APIKeyStatus_DeepCopyInto_def deep_copies)

lemma APIKey_copied [deep_copies]: "deep_copy (APIKey_type L) (APIKey_DeepCopyInto L)"
  by (simp add: APIKey_type_def APIKey_DeepCopyInto_def copies_fields_def deep_copies)

lemma APIKeyList_copied [deep_copies]: "deep_copy (APIKeyList_type L) (APIKeyList_DeepCopyInto L)"
  by (simp add: APIKeyList_type_def APIKeyList_DeepCopyInto_def copies_fields_def deep_copies)

lemma flat_AssumeHealthCheckProbeSpec [deep_copies]: "flat (AssumeHealthCheckProbeSpec_type L)"
  by (simp add: AssumeHealthCheckProbeSpec_type_def deep_copies)

lemma AssumeHealthCheckProbeSpec_copied [deep_copies]: "deep_copy (AssumeHealthCheckProbeSpec_type L) (AssumeHealthCheckProbeSpec_DeepCopyInto L)"
  by (simp add: AssumeHealthCheckProbeSpec_DeepCopyInto_def deep_copies)

lemma flat_CacheConfigSpec [deep_copies]: "flat (CacheConfigSpec_type L)"
  by (simp add: CacheConfigSpec_type_def deep_copies)

lemma CacheConfigSpec_copied [deep_copies]: "deep_copy (CacheConfigSpec_type L) (CacheConfigSpec_DeepCopyInto L)"
  by (simp add: CacheConfigSpec_DeepCopyInto_def deep_copies)

lemma CacheKeySpec_copied [deep_copies]: "deep_copy (CacheKeySpec_type L) (CacheKeySpec_DeepCopyInto L)"
  by (simp add: CacheKeySpec_type_def CacheKeySpec_DeepCopyInto_def copies_fields_def deep_copies)

lemma flat_CertificateSpec [deep_copies]: "flat (CertificateSpec_type L)"
  by (simp add: CertificateSpec_type_def deep_copies)

lemma CertificateSpec_copied [deep_copies]: "deep_copy (CertificateSpec_type L) (CertificateSpec_DeepCopyInto L)"
  by (simp add: CertificateSpec_DeepCopyInto_def deep_copies)

lemma flat_CorsSpec [deep_copies]: "flat (CorsSpec_type L)"
  by (simp add: CorsSpec_type_def deep_copies)

lemma CorsSpec_copied [deep_copies]: "deep_copy (CorsSpec_type L) (CorsSpec_DeepCopyInto L)"
  by (simp add: CorsSpec_DeepCopyInto_def deep_copies)

lemma flat_CustomerSpec [deep_copies]: "flat (CustomerSpec_type L)"
  by (simp add: CustomerSpec_type_def deep_copies)

lemma CustomerSpec_copied [deep_copies]: "deep_copy (CustomerSpec_type L) (CustomerSpec_DeepCopyInto L)"
  by (simp add: CustomerSpec_DeepCopyInto_def deep_copies)

lemma DNSEndpointSpec_copied [deep_copies]: "deep_copy (DNSEndpointSpec_type L) (DNSEndpointSpec_DeepCopyInto L)"
  by (simp add: DNSEndpointSpec_type_def DNSEndpointSpec_DeepCopyInto_def copies_fields_def deep_copies)

lemma flat_DNSEndpointStatus [deep_copies]: "flat (DNSEndpointStatus_type L)"
  by (simp add: DNSEndpointStatus_type_def deep_copies)

lemma DNSEndpointStatus_copied [deep_copies]: "deep_copy (DNSEndpointStatus_type L) (DNSEndpointStatus_DeepCopyInto L)"
  by (simp add: DNSEndpointStatus_DeepCopyInto_def deep_copies)

lemma DNSEndpoint_copied [deep_copies]: "deep_copy (DNSEndpoint_type L) (DNSEndpoint_DeepCopyInto L)"
  by (simp add: DNSEndpoint_type_def DNSEndpoint_DeepCopyInto_def copies_fields_def deep_copies)

lemma DNSEndpointList_copied [deep_copies]: "deep_copy (DNSEndpointList_type L) (DNSEndpointList_DeepCopyInto L)"
  by (simp add: DNSEndpointList_type_def DNSEndpointList_DeepCopyInto_def copies_fields_def deep_copies)

lemma flat_GeoLookupAttributeValuesSpec [deep_copies]: "flat (GeoLookupAttributeValuesSpec_type L)"
  by (simp add: GeoLookupAttributeValuesSpec_type_def deep_copies)

lemma GeoLookupAttributeValuesSpec_copied [deep_copies]: "deep_copy (GeoLookupAttributeValuesSpec_type L) (GeoLookupAttributeValuesSpec_DeepCopyInto L)"
  by (simp add: GeoLookupAttributeValuesSpec_DeepCopyInto_def deep_copies)

lemma GeoLookupAttributeSpec_copied [deep_copies]: "deep_copy (GeoLookupAttributeSpec_type L) (GeoLookupAttributeSpec_DeepCopyInto L)"
  by (simp add: GeoLookupAttributeSpec_type_def GeoLookupAttributeSpec_DeepCopyInto_def copies_fields_def deep_copies)

lemma GeoLookupSpec_copied [deep_copies]: "deep_copy (GeoLookupSpec_type L) (GeoLookupSpec_DeepCopyInto L)"
  by (simp add: GeoLookupSpec_type_def GeoLookupSpec_DeepCopyInto_def copies_fields_def deep_copies)

lemma flat_HTTPHealthCheckProbeSpec [deep_copies]: "flat (HTTPHealthCheckProbeSpec_type L)"
  by (simp add: HTTPHealthCheckProbeSpec_type_def deep_copies)

lemma HTTPHealthCheckProbeSpec_copied [deep_copies]: "deep_copy (HTTPHealthCheckProbeSpec_type L) (HTTPHealthCheckProbeSpec_DeepCopyInto L)"
  by (simp add: HTTPHealthCheckProbeSpec_DeepCopyInto_def deep_copies)

lemma flat_TCPHealthCheckProbeSpec [deep_copies]: "flat (TCPHealthCheckProbeSpec_type L)"
  by (simp add: TCPHealthCheckProbeSpec_type_def deep_copies)

lemma TCPHealthCheckProbeSpec_copied [deep_copies]: "deep_copy (TCPHealthCheckProbeSpec_type L) (TCPHealthCheckProbeSpec_DeepCopyInto L)"
  by (simp add: TCPHealthCheckProbeSpec_DeepCopyInto_def deep_copies)

lemma HealthCheckProbeSpec_copied [deep_copies]: "deep_copy (HealthCheckProbeSpec_type L) (HealthCheckProbeSpec_DeepCopyInto L)"
  by (simp add: HealthCheckProbeSpec_type_def HealthCheckProbeSpec_DeepCopyInto_def copies_fields_def deep_copies)

lemma HealthCheckProfileSpec_copied [deep_copies]: "deep_copy (HealthCheckProfileSpec_type L) (HealthCheckProfileSpec_DeepCopyInto L)"
  by (simp add: HealthCheckProfileSpec_type_def HealthCheckProfileSpec_DeepCopyInto_def copies_fields_def deep_copies)

lemma flat_HealthCheckProfileStatus [deep_copies]: "flat (HealthCheckProfileStatus_type L)"
  by (simp add: HealthCheckProfileStatus_type_def deep_copies)

lemma HealthCheckProfileStatus_copied [deep_copies]: "deep_copy (HealthCheckProfileStatus_type L) (HealthCheckProfileStatus_DeepCopyInto L)"
  by (simp add: HealthCheckProfileStatus_DeepCopyInto_def deep_copies)

lemma HealthCheckProfile_copied [deep_copies]: "deep_copy (HealthCheckProfile_type L) (HealthCheckProfile_DeepCopyInto L)"
  by (simp add: HealthCheckProfile_type_def HealthCheckProfile_DeepCopyInto_def copies_fields_def deep_copies)

lemma HealthCheckProfileList_copied [deep_copies]: "deep_copy (HealthCheckProfileList_type L) (HealthCheckProfileList_DeepCopyInto L)"
  by (simp add: HealthCheckProfileList_type_def HealthCheckProfileList_DeepCopyInto_def copies_fields_def deep_copies)

lemma flat_HostAliasSpec [deep_copies]: "flat (HostAliasSpec_type L)"
  by (simp add: HostAliasSpec_type_def deep_copies)

lemma HostAliasSpec_copied [deep_copies]: "deep_copy (HostAliasSpec_type L) (HostAliasSpec_DeepCopyInto L)"
  by (simp add: HostAliasSpec_type_def HostAliasSpec_DeepCopyInto_def copies_fields_def deep_copies)

lemma PrometheusAlertMatcherSpec_copied [deep_copies]: "deep_copy (PrometheusAlertMatcherSpec_type L) (PrometheusAlertMatcherSpec_DeepCopyInto L)"
  by (simp add: PrometheusAlertMatcherSpec_type_def PrometheusAlertMatcherSpec_DeepCopyInto_def copies_fields_def deep_copies)

lemma NodeSpec_copied [deep_copies]: "deep_copy (NodeSpec_type L) (NodeSpec_DeepCopyInto L)"
  by (simp add: NodeSpec_type_def NodeSpec_DeepCopyInto_def copies_fields_def deep_copies)

lemma NodeGroupSpec_copied [deep_copies]: "deep_copy (NodeGroupSpec_type L) (NodeGroupSpec_DeepCopyInto L)"
  by (simp add: NodeGroupSpec_type_def NodeGroupSpec_DeepCopyInto_def copies_fields_def deep_copies)

lemma LocationSpec_copied [deep_copies]: "deep_copy (LocationSpec_type L) (LocationSpec_DeepCopyInto L)"
  by (simp add: LocationSpec_type_def LocationSpec_DeepCopyInto_def copies_fields_def deep_copies)

lemma PrometheusAlertStatus_copied [deep_copies]: "deep_copy (PrometheusAlertStatus_type L) (PrometheusAlertStatus_DeepCopyInto L)"
  by (simp add: PrometheusAlertStatus_type_def PrometheusAlertStatus_DeepCopyInto_def copies_fields_def deep_copies)

lemma NodeCondition_copied [deep_copies]: "deep_copy (NodeCondition_type L) (NodeCondition_DeepCopyInto L)"
  by (simp add: NodeCondition_type_def NodeCondition_DeepCopyInto_def copies_fields_def deep_copies)

lemma NodeInstanceStatus_copied [deep_copies]: "deep_copy (NodeInstanceStatus_type L) (NodeInstanceStatus_DeepCopyInto L)"
  by (simp add: NodeInstanceStatus_type_def NodeInstanceStatus_DeepCopyInto_def copies_fields_def deep_copies)

lemma LocationStatus_copied [deep_copies]: "deep_copy (LocationStatus_type L) (LocationStatus_DeepCopyInto L)"
  by (simp add: LocationStatus_type_def LocationStatus_DeepCopyInto_def copies_fields_def deep_copies)

lemma Location_copied [deep_copies]: "deep_copy (Location_type L) (Location_DeepCopyInto L)"
  by (simp add: Location_type_def Location_DeepCopyInto_def copies_fields_def deep_copies)

lemma LocationList_copied [deep_copies]: "deep_copy (LocationList_type L) (LocationList_DeepCopyInto L)"
  by (simp add: LocationList_type_def LocationList_DeepCopyInto_def copies_fields_def deep_copies)

lemma flat_MirrorSpec [deep_copies]: "flat (MirrorSpec_type L)"
  by (simp add: MirrorSpec_type_def deep_copies)

lemma MirrorSpec_copied [deep_copies]: "deep_copy (MirrorSpec_type L) (MirrorSpec_DeepCopyInto L)"
  by (simp add: MirrorSpec_DeepCopyInto_def deep_copies)

lemma PathSpec_copied [deep_copies]: "deep_copy (PathSpec_type L) (PathSpec_DeepCopyInto L)"
  by (simp add: PathSpec_type_def PathSpec_DeepCopyInto_def copies_fields_def deep_copies)

lemma flat_V4PrefixSpec [deep_copies]: "flat (V4PrefixSpec_type L)"
  by (simp add: V4PrefixSpec_type_def deep_copies)

lemma V4PrefixSpec_copied [deep_copies]: "deep_copy (V4PrefixSpec_type L) (V4PrefixSpec_DeepCopyInto L)"
  by (simp add: V4PrefixSpec_DeepCopyInto_def deep_copies)

lemma flat_V6PrefixSpec [deep_copies]: "flat (V6PrefixSpec_type L)"
  by (simp add: V6PrefixSpec_type_def deep_copies)

lemma V6PrefixSpec_copied [deep_copies]: "deep_copy (V6PrefixSpec_type L) (V6PrefixSpec_DeepCopyInto L)"
  by (simp add: V6PrefixSpec_DeepCopyInto_def deep_copies)

lemma PrefixSpec_copied [deep_copies]: "deep_copy (PrefixSpec_type L) (PrefixSpec_DeepCopyInto L)"
  by (simp add: PrefixSpec_type_def PrefixSpec_DeepCopyInto_def copies_fields_def deep_copies)

lemma PrefixListSpec_copied [deep_copies]: "deep_copy (PrefixListSpec_type L) (PrefixListSpec_DeepCopyInto L)"
  by (simp add: PrefixListSpec_type_def PrefixListSpec_DeepCopyInto_def copies_fields_def deep_copies)

lemma flat_PrefixListStatus [deep_copies]: "flat (PrefixListStatus_type L)"
  by (simp add: PrefixListStatus_type_def deep_copies)

lemma PrefixListStatus_copied [deep_copies]: "deep_copy (PrefixListStatus_type L) (PrefixListStatus_DeepCopyInto L)"
  by (simp add: PrefixListStatus_DeepCopyInto_def deep_copies)

lemma PrefixList_copied [deep_copies]: "deep_copy (PrefixList_type L) (PrefixList_DeepCopyInto L)"
  by (simp add: PrefixList_type_def PrefixList_DeepCopyInto_def copies_fields_def deep_copies)

lemma PrefixListList_copied [deep_copies]: "deep_copy (PrefixListList_type L) (PrefixListList_DeepCopyInto L)"
  by (simp add: PrefixListList_type_def PrefixListList_DeepCopyInto_def copies_fields_def deep_copies)

lemma flat_RuleSpec [deep_copies]: "flat (RuleSpec_type L)"
  by (simp add: RuleSpec_type_def deep_copies)

lemma RuleSpec_copied [deep_copies]: "deep_copy (RuleSpec_type L) (RuleSpec_DeepCopyInto L)"
  by (simp add: RuleSpec_DeepCopyInto_def deep_copies)

lemma RBACSpec_copied [deep_copies]: "deep_copy (RBACSpec_type L) (RBACSpec_DeepCopyInto L)"
  by (simp add: RBACSpec_type_def RBACSpec_DeepCopyInto_def copies_fields_def deep_copies)

lemma ProjectSpec_copied [deep_copies]: "deep_copy (ProjectSpec_type L) (ProjectSpec_DeepCopyInto L)"
  by (simp add: ProjectSpec_type_def ProjectSpec_DeepCopyInto_def copies_fields_def deep_copies)

lemma flat_ProjectStatus [deep_copies]: "flat (ProjectStatus_type L)"
  by (simp add: ProjectStatus_type_def deep_copies)

lemma ProjectStatus_copied [deep_copies]: "deep_copy (ProjectStatus_type L) (ProjectStatus_DeepCopyInto L)"
  by (simp add: ProjectStatus_DeepCopyInto_def deep_copies)

lemma Project_copied [deep_copies]: "deep_copy (Project_type L) (Project_DeepCopyInto L)"
  by (simp add: Project_type_def Project_DeepCopyInto_def copies_fields_def deep_copies)

lemma ProjectList_copied [deep_copies]: "deep_copy (ProjectList_type L) (ProjectList_DeepCopyInto L)"
  by (simp add: ProjectList_type_def ProjectList_DeepCopyInto_def copies_fields_def deep_copies)

lemma flat_S3OriginSpec [deep_copies]: "flat (S3OriginSpec_type L)"
  by (simp add: S3OriginSpec_type_def deep_copies)

lemma S3OriginSpec_copied [deep_copies]: "deep_copy (S3OriginSpec_type L) (S3OriginSpec_DeepCopyInto L)"
  by (simp add: S3OriginSpec_DeepCopyInto_def deep_copies)

lemma SecureKeySpec_copied [deep_copies]: "deep_copy (SecureKeySpec_type L) (SecureKeySpec_DeepCopyInto L)"
  by (simp add: SecureKeySpec_type_def SecureKeySpec_DeepCopyInto_def copies_fields_def deep_copies)

lemma flat_StaticOriginSpec [deep_copies]: "flat (StaticOriginSpec_type L)"
  by (simp add: StaticOriginSpec_type_def deep_copies)

lemma StaticOriginSpec_copied [deep_copies]: "deep_copy (StaticOriginSpec_type L) (StaticOriginSpec_DeepCopyInto L)"
  by (simp add: StaticOriginSpec_DeepCopyInto_def deep_copies)

lemma flat_WafSpec [deep_copies]: "flat (WafSpec_type L)"
  by (simp add: WafSpec_type_def deep_copies)

lemma WafSpec_copied [deep_copies]: "deep_copy (WafSpec_type L) (WafSpec_DeepCopyInto L)"
  by (simp add: WafSpec_DeepCopyInto_def deep_copies)

lemma ServiceSpec_copied [deep_copies]: "deep_copy (ServiceSpec_type L) (ServiceSpec_DeepCopyInto L)"
  by (simp add: ServiceSpec_type_def ServiceSpec_DeepCopyInto_def copies_fields_def deep_copies)

lemma flat_ServiceStatus [deep_copies]: "flat (ServiceStatus_type L)"
  by (simp add: ServiceStatus_type_def deep_copies)

lemma ServiceStatus_copied [deep_copies]: "deep_copy (ServiceStatus_type L) (ServiceStatus_DeepCopyInto L)"
  by (simp add: ServiceStatus_DeepCopyInto_def deep_copies)

lemma Service_copied [deep_copies]: "deep_copy (Service_type L) (Service_DeepCopyInto L)"
  by (simp add: Service_type_def Service_DeepCopyInto_def copies_fields_def deep_copies)

lemma ServiceList_copied [deep_copies]: "deep_copy (ServiceList_type L) (ServiceList_DeepCopyInto L)"
  by (simp add: ServiceList_type_def ServiceList_DeepCopyInto_def copies_fields_def deep_copies)

lemma ZoneSpec_copied [deep_copies]: "deep_copy (ZoneSpec_type L) (ZoneSpec_DeepCopyInto L)"
  by (simp add: ZoneSpec_type_def ZoneSpec_DeepCopyInto_def copies_fields_def deep_copies)

lemma flat_ZoneStatus [deep_copies]: "flat (ZoneStatus_type L)"
  by (simp add: ZoneStatus_type_def deep_copies)

lemma ZoneStatus_copied [deep_copies]: "deep_copy (ZoneStatus_type L) (ZoneStatus_DeepCopyInto L)"
  by (simp add: ZoneStatus_DeepCopyInto_def deep_copies)

lemma Zone_copied [deep_copies]: "deep_copy (Zone_type L) (Zone_DeepCopyInto L)"
  by (simp add: Zone_type_def Zone_DeepCopyInto_def copies_fields_def deep_copies)

lemma ZoneList_copied [deep_copies]: "deep_copy (ZoneList_type L) (ZoneList_DeepCopyInto L)"
  by (simp add: ZoneList_type_def ZoneList_DeepCopyInto_def copies_fields_def deep_copies)

lemmas DeepCopy_defs =
  CredentialSpec_DeepCopy_def APIKeySpec_DeepCopy_def APIKeyStatus_DeepCopy_def APIKey_DeepCopy_def APIKeyList_DeepCopy_def
  AssumeHealthCheckProbeSpec_DeepCopy_def CacheConfigSpec_DeepCopy_def CacheKeySpec_DeepCopy_def CertificateSpec_DeepCopy_def
  CorsSpec_DeepCopy_def CustomerSpec_DeepCopy_def DNSEndpointSpec_DeepCopy_def DNSEndpointStatus_DeepCopy_def
  DNSEndpoint_DeepCopy_def DNSEndpointList_DeepCopy_def GeoLookupAttributeValuesSpec_DeepCopy_def
  GeoLookupAttributeSpec_DeepCopy_def GeoLookupSpec_DeepCopy_def HTTPHealthCheckProbeSpec_DeepCopy_def
  TCPHealthCheckProbeSpec_DeepCopy_def HealthCheckProbeSpec_DeepCopy_def HealthCheckProfileSpec_DeepCopy_def
  HealthCheckProfileStatus_DeepCopy_def HealthCheckProfile_DeepCopy_def HealthCheckProfileList_DeepCopy_def
  HostAliasSpec_DeepCopy_def PrometheusAlertMatcherSpec_DeepCopy_def NodeSpec_DeepCopy_def NodeGroupSpec_DeepCopy_def
  LocationSpec_DeepCopy_def PrometheusAlertStatus_DeepCopy_def NodeCondition_DeepCopy_def NodeInstanceStatus_DeepCopy_def
  LocationStatus_DeepCopy_def Location_DeepCopy_def LocationList_DeepCopy_def MirrorSpec_DeepCopy_def PathSpec_DeepCopy_def
  V4PrefixSpec_DeepCopy_def V6PrefixSpec_DeepCopy_def PrefixSpec_DeepCopy_def PrefixListSpec_DeepCopy_def
  PrefixListStatus_DeepCopy_def PrefixList_DeepCopy_def PrefixListList_DeepCopy_def RuleSpec_DeepCopy_def
  RBACSpec_DeepCopy_def ProjectSpec_DeepCopy_def ProjectStatus_DeepCopy_def Project_DeepCopy_def ProjectList_DeepCopy_def
  S3OriginSpec_DeepCopy_def SecureKeySpec_DeepCopy_def StaticOriginSpec_DeepCopy_def WafSpec_DeepCopy_def
  ServiceSpec_DeepCopy_def ServiceStatus_DeepCopy_def Service_DeepCopy_def ServiceList_DeepCopy_def ZoneSpec_DeepCopy_def
  ZoneStatus_DeepCopy_def Zone_DeepCopy_def ZoneList_DeepCopy_def

lemmas DeepCopyObject_defs =
  APIKey_DeepCopyObject_def APIKeyList_DeepCopyObject_def DNSEndpoint_DeepCopyObject_def DNSEndpointList_DeepCopyObject_def
  HealthCheckProfile_DeepCopyObject_def HealthCheckProfileList_DeepCopyObject_def Location_DeepCopyObject_def
  LocationList_DeepCopyObject_def PrefixList_DeepCopyObject_def PrefixListList_DeepCopyObject_def Project_DeepCopyObject_def
  ProjectList_DeepCopyObject_def Service_DeepCopyObject_def ServiceList_DeepCopyObject_def Zone_DeepCopyObject_def
  ZoneList_DeepCopyObject_def

lemma structs_copied: "list_all (\<lambda>(t, into, copy). deep_copy t into \<and> deep_copy (TPointer t) copy) (api_structs L)"
  by (simp add: api_structs_def DeepCopy_defs deep_copies)

text \<open>The copy of an object as an interface value\<close>

lemma objects_copied: "list_all (\<lambda>(name, t, f). object_copied name t f) (api_objects L)"
  by (simp add: api_objects_def DeepCopyObject_defs DeepCopy_defs deep_copies as_object_copied)

end

section \<open>The library as its documentation has it\<close>

text \<open>
  The fields that the Kubernetes API documents for its types, copied as the types say; a time is a number, and \<open>range\<close> visits the
  keys in the order they were added.
\<close>

definition reference_Time :: gotype where
  "reference_Time = TStruct [(''Time'', TScalar Number)]"

definition reference_OwnerReference :: gotype where
  "reference_OwnerReference = TStruct
    [(''APIVersion'', TScalar Text), (''Kind'', TScalar Text), (''Name'', TScalar Text), (''UID'', TScalar Text),
     (''Controller'', TPointer (TScalar Flag)), (''BlockOwnerDeletion'', TPointer (TScalar Flag))]"

definition reference_ManagedFieldsEntry :: gotype where
  "reference_ManagedFieldsEntry = TStruct
    [(''Manager'', TScalar Text), (''Operation'', TScalar Text), (''APIVersion'', TScalar Text), (''Time'', TPointer reference_Time),
     (''FieldsType'', TScalar Text), (''FieldsV1'', TPointer (TStruct [(''Raw'', TSlice (TScalar Number))])),
     (''Subresource'', TScalar Text)]"

definition reference_meta_fields :: "(string \<times> gotype) list" where
  "reference_meta_fields =
    [(''Name'', TScalar Text), (''GenerateName'', TScalar Text), (''Namespace'', TScalar Text), (''SelfLink'', TScalar Text),
     (''UID'', TScalar Text), (''ResourceVersion'', TScalar Text), (''Generation'', TScalar Number),
     (''CreationTimestamp'', reference_Time), (''DeletionTimestamp'', TPointer reference_Time),
     (''DeletionGracePeriodSeconds'', TPointer (TScalar Number)), (''Labels'', TMap (TScalar Text)),
     (''Annotations'', TMap (TScalar Text)), (''OwnerReferences'', TSlice reference_OwnerReference),
     (''Finalizers'', TSlice (TScalar Text)), (''ManagedFields'', TSlice reference_ManagedFieldsEntry)]"

definition reference_ObjectMeta :: gotype where
  "reference_ObjectMeta = TStruct reference_meta_fields"

definition reference_ListMeta :: gotype where
  "reference_ListMeta = TStruct
    [(''SelfLink'', TScalar Text), (''ResourceVersion'', TScalar Text), (''Continue'', TScalar Text),
     (''RemainingItemCount'', TPointer (TScalar Number))]"

definition reference_LabelSelector :: gotype where
  "reference_LabelSelector = TStruct
    [(''MatchLabels'', TMap (TScalar Text)),
     (''MatchExpressions'', TSlice (TStruct
       [(''Key'', TScalar Text), (''Operator'', TScalar Text), (''Values'', TSlice (TScalar Text))]))]"

definition reference_library :: copy_library where
  "reference_library = \<lparr>
     TypeMeta_t = TStruct [(''Kind'', TScalar Text), (''APIVersion'', TScalar Text)],
     ObjectMeta_t = reference_ObjectMeta,
     ListMeta_t = reference_ListMeta,
     Time_t = reference_Time,
     Duration_t = TStruct [(''Duration'', TScalar Number)],
     LabelSelector_t = reference_LabelSelector,
     LocalObjectReference_t = TStruct [(''Name'', TScalar Text)],
     ObjectMeta_DeepCopyInto = copy_of reference_ObjectMeta,
     ListMeta_DeepCopyInto = copy_of reference_ListMeta,
     Time_DeepCopyInto = copy_of reference_Time,
     Time_DeepCopy = copy_of (TPointer reference_Time),
     LabelSelector_DeepCopyInto = copy_of reference_LabelSelector,
     map_range = id \<rparr>"

lemma reference_well_named:
  "well_named reference_Time" "well_named reference_ObjectMeta" "well_named reference_ListMeta" "well_named reference_LabelSelector"
  by (simp_all add: reference_Time_def reference_ObjectMeta_def reference_meta_fields_def reference_OwnerReference_def reference_ManagedFieldsEntry_def
      reference_ListMeta_def reference_LabelSelector_def)

interpretation reference: go_copy_library reference_library
  by unfold_locales (simp_all add: reference_library_def range_order_def copy_of_copies reference_well_named deep_copy_pointer)

section \<open>Properties\<close>

text \<open>
  C11. The copy functions of all structs and objects of the API group are deep copies: for every value that the memory holds, \<open>DeepCopyInto\<close>
  returns without a panic, leaves the memory that was there as it was, and the value it writes reads the same as the original, is
  made of cells that did not exist before, and no two parts of it share a cell. \<open>DeepCopy\<close> does the same behind a pointer and maps
  nil to nil. \<open>DeepCopyObject\<close> of nil is the nil interface, and of an object an interface value that holds its own type
  and a pointer to a deep copy.
\<close>

theorem copies_are_deep:
  "go_copy_library L \<Longrightarrow>
   list_all (\<lambda>(t, into, copy). deep_copy t into \<and> deep_copy (TPointer t) copy) (api_structs L) \<and>
   list_all (\<lambda>(name, t, f). object_copied name t f) (api_objects L)"
  using go_copy_library.structs_copied go_copy_library.objects_copied by blast

theorem copies_are_deep_witness:
  "go_copy_library reference_library \<and>
   list_all (\<lambda>(t, into, copy). deep_copy t into \<and> deep_copy (TPointer t) copy) (api_structs reference_library) \<and>
   list_all (\<lambda>(name, t, f). object_copied name t f) (api_objects reference_library)"
  using copies_are_deep [OF reference.go_copy_library_axioms] reference.go_copy_library_axioms by blast

end
