(* ===== verification/Go_Objects.thy ===== *)
theory Go_Objects
  imports Go_Copy
begin

text \<open>
  Objects that are changed in place: what a write to a field, to a field of a struct within the object, or to the map or slice
  of a field does to the tree that the object stands for.
\<close>

section \<open>Changes of a copy\<close>

text \<open>
  A value is replaced by another after a change of the memory at cells of the old value only. The new value is made of cells of the old
  one, of new cells, and of the cells \<open>A\<close> of values that it takes over. \<open>changes\<close> is the case in which it takes over none.
\<close>

definition changes_with :: "addr set \<Rightarrow> gotype \<Rightarrow> memory \<Rightarrow> gval \<Rightarrow> memory \<Rightarrow> gval \<Rightarrow> tree \<Rightarrow> bool" where
  "changes_with A t s v s' w y \<longleftrightarrow> writes_only (foot t s v \<union> A) s s' \<and> load t s' w = Some y \<and> separate t s' w \<and>
     foot t s' w \<subseteq> foot t s v \<union> A \<union> {length s..}"

abbreviation changes :: "gotype \<Rightarrow> memory \<Rightarrow> gval \<Rightarrow> memory \<Rightarrow> gval \<Rightarrow> tree \<Rightarrow> bool" where
  "changes \<equiv> changes_with {}"

lemma struct_change:
  assumes "load (TStruct ts) s (Struct fs) = Some (Fields xs)" "separate (TStruct ts) s (Struct fs)" "distinct (map fst ts)"
    and n: "(n, t) \<in> set ts" and change: "changes_with A t s (field fs n) s' w y"
    and A: "A \<inter> foot (TStruct ts) s (Struct fs) = {}"
  shows "changes_with A (TStruct ts) s (Struct fs) s' (Struct (set_field n w fs)) (Fields (set_field n y xs))"
proof -
  let ?fs = "set_field n w fs" and ?xs = "set_field n y xs"
  have fs: "map fst fs = map fst ts" "map fst xs = map fst ts"
    "\<And>nt. nt \<in> set ts \<Longrightarrow> \<exists>v x. map_of fs (fst nt) = Some v \<and> map_of xs (fst nt) = Some x \<and> load (snd nt) s v = Some x"
    using assms(1) by (auto simp: load_struct load_fields_iff [OF assms(3)])
  note by_name = struct_by_name [OF assms(3)]
  have sep: "\<And>nt. nt \<in> set ts \<Longrightarrow> separate (snd nt) s (field fs (fst nt))"
    "\<And>nt mt. nt \<in> set ts \<Longrightarrow> mt \<in> set ts \<Longrightarrow> fst nt \<noteq> fst mt \<Longrightarrow>
      foot (snd nt) s (field fs (fst nt)) \<inter> foot (snd mt) s (field fs (fst mt)) = {}"
    using assms(2) unfolding by_name(2) [OF fs(1)] by blast+
  have foot: "foot (TStruct ts) s (Struct fs) = (\<Union>nt \<in> set ts. foot (snd nt) s (field fs (fst nt)))"
    unfolding foot_struct gval.case by_name(1) [OF fs(1)] by simp
  have t: "snd nt = t" if "nt \<in> set ts" "fst nt = n" for nt using that n assms(3) by (metis eq_key_imp_eq_value prod.collapse)
  obtain v x where v: "map_of fs n = Some v" "map_of xs n = Some x" using fs(3) [OF n] by auto
  have new: "map_of ?fs n = Some w" "map_of ?xs n = Some y" by (simp_all add: map_of_set_field v)
  have other: "\<exists>v x. map_of ?fs (fst nt) = Some v \<and> map_of ?xs (fst nt) = Some x \<and> load (snd nt) s' v = Some x \<and>
      separate (snd nt) s' v \<and> foot (snd nt) s' v = foot (snd nt) s (field fs (fst nt)) \<and> foot (snd nt) s' v \<inter> foot t s' w = {}"
    if nt: "nt \<in> set ts" "fst nt \<noteq> n" for nt
  proof -
    obtain v x where v: "map_of fs (fst nt) = Some v" "map_of xs (fst nt) = Some x" "load (snd nt) s v = Some x"
      using fs(3) [OF nt(1)] by blast
    have "foot (snd nt) s v \<inter> A = {}" using A nt(1) v(1) unfolding foot by fastforce
    then have apart: "foot (snd nt) s v \<inter> (foot t s (field fs n) \<union> A) = {}" using sep(2) [OF nt(1) n] nt(2) v(1) by auto
    have "same_on (foot (snd nt) s v) s s'"
      by (rule writes_only_same [OF _ apart]) (use change in \<open>simp add: changes_with_def\<close>)
    from load_frame [OF v(3) this] have frame: "load (snd nt) s' v = Some x" "foot (snd nt) s' v = foot (snd nt) s v"
      "separate (snd nt) s' v" using sep(1) [OF nt(1)] v(1) by simp_all
    moreover have "foot (snd nt) s v \<inter> foot t s' w = {}"
      using apart load_cells [OF v(3)] change by (fastforce simp: changes_with_def)
    ultimately show ?thesis using nt(2) v by (simp add: map_of_set_field)
  qed
  have one: "\<exists>v x. map_of ?fs (fst nt) = Some v \<and> map_of ?xs (fst nt) = Some x \<and> load (snd nt) s' v = Some x"
    "separate (snd nt) s' (field ?fs (fst nt))"
    "foot (snd nt) s' (field ?fs (fst nt)) \<subseteq> foot (TStruct ts) s (Struct fs) \<union> A \<union> {length s..}" if nt: "nt \<in> set ts" for nt
    using other [OF nt] new t [OF nt] change nt foot by (cases "fst nt = n"; force simp: changes_with_def)+
  have "foot (snd nt) s' (field ?fs (fst nt)) \<inter> foot (snd mt) s' (field ?fs (fst mt)) = {}"
    if nm: "nt \<in> set ts" "mt \<in> set ts" "fst nt \<noteq> fst mt" for nt mt
    using other [OF nm(1)] other [OF nm(2)] new t [OF nm(1)] t [OF nm(2)] nm(3) sep(2) [OF nm]
    by (cases "fst nt = n"; cases "fst mt = n") (auto simp: Int_commute)
  then have "separate (TStruct ts) s' (Struct ?fs)" using one(2) fs(1) by (simp add: by_name(2))
  moreover have "load_fields (loaders s' ts) ?fs = Some ?xs" using one(1) fs by (simp add: load_fields_iff [OF assms(3)])
  moreover have "foot (TStruct ts) s' (Struct ?fs) \<subseteq> foot (TStruct ts) s (Struct fs) \<union> A \<union> {length s..}"
    unfolding foot_struct [of ts s' "Struct ?fs"] gval.case by_name(1) [OF trans [OF set_field_names fs(1)]]
    using one(3) by (simp add: UN_subset_iff)
  moreover have "writes_only (foot (TStruct ts) s (Struct fs) \<union> A) s s'"
    using change n foot by (fastforce simp: changes_with_def writes_only_def)
  ultimately show ?thesis by (simp add: changes_with_def load_struct)
qed

lemma pointer_change:
  assumes "load (TPointer t) s (Pointer (Some b)) = Some x" "separate (TPointer t) s (Pointer (Some b))"
    and v: "read_var b s = Some v" and change: "changes_with A t s v s' w y" and A: "b \<notin> A"
  shows "changes_with A (TPointer t) s (Pointer (Some b)) (s'[b := Var w]) (Pointer (Some b)) (PointsTo y)"
proof -
  have cell: "lookup s b = Some (Var v)" "b < length s"
    using v by (auto simp: read_var_def lookup_def split: option.splits cell.splits if_splits)
  have "b \<notin> foot t s v" using assms(2) cell(1) by simp
  then have b: "b \<notin> foot t s' w" using change cell(2) A by (auto simp: changes_with_def)
  have "length s \<le> length s'" using change by (simp add: changes_with_def writes_only_def)
  then have "lookup (s'[b := Var w]) b = Some (Var w)" using cell(2) by (simp add: lookup_def)
  moreover have "load t (s'[b := Var w]) w = Some y \<and> foot t (s'[b := Var w]) w = foot t s' w \<and>
      separate t (s'[b := Var w]) w = separate t s' w"
    by (rule load_store) (use change b in \<open>simp_all add: changes_with_def\<close>)
  moreover have "writes_only (insert b (foot t s v \<union> A)) s (s'[b := Var w])"
    using change by (auto simp: changes_with_def writes_only_def)
  ultimately show ?thesis using change b cell(1) by (auto simp: changes_with_def)
qed

lemma changes_with_trans:
  assumes "changes_with A t s v s' w x" "changes_with B t s' w s'' u y"
  shows "changes_with (A \<union> B) t s v s'' u y"
proof -
  have one: "length s \<le> length s'" "foot t s' w \<subseteq> foot t s v \<union> A \<union> {length s..}"
    "\<And>a. a < length s \<Longrightarrow> a \<notin> foot t s v \<union> A \<Longrightarrow> s' ! a = s ! a"
    using assms(1) by (simp_all add: changes_with_def writes_only_def)
  have two: "length s' \<le> length s''" "foot t s'' u \<subseteq> foot t s' w \<union> B \<union> {length s'..}"
    "\<And>a. a < length s' \<Longrightarrow> a \<notin> foot t s' w \<union> B \<Longrightarrow> s'' ! a = s' ! a"
    using assms(2) by (simp_all add: changes_with_def writes_only_def)
  have "s'' ! a = s ! a" if a: "a < length s" "a \<notin> foot t s v \<union> (A \<union> B)" for a
  proof -
    have "a \<notin> foot t s' w \<union> B" using one(2) a by auto
    with two(3) [of a] one(1,3) a show ?thesis by simp
  qed
  moreover have "foot t s'' u \<subseteq> foot t s v \<union> (A \<union> B) \<union> {length s..}" using one(1,2) two(2) by fastforce
  ultimately show ?thesis using assms(2) one(1) two(1) by (simp add: changes_with_def writes_only_def)
qed

lemmas changes_trans = changes_with_trans [of "{}" _ _ _ _ _ _ "{}", simplified Un_empty_right]

text \<open>A changed copy is still a copy, of the changed tree, and another copy does not notice.\<close>

lemma copied_changes:
  assumes "copied t h x v s" "changes t s v s' w y"
  shows "copied t h y w s'"
proof -
  have h: "prefix h s" "foot t s v \<subseteq> {length h..}" using assms(1) by (simp_all add: copied_def)
  moreover have "prefix h s'"
  proof -
    have len: "length h \<le> length s" using h(1) by (rule prefix_length_le)
    moreover have "s' ! a = s ! a" if a: "a < length h" for a
    proof -
      have "a \<notin> foot t s v" using h(2) a by auto
      with assms(2) a len show ?thesis by (simp add: changes_with_def writes_only_def)
    qed
    moreover have "s ! a = h ! a" if a: "a < length h" for a using h(1) a by (auto simp: prefix_def nth_append)
    moreover have "length s \<le> length s'" using assms(2) by (simp add: changes_with_def writes_only_def)
    ultimately have "take (length h) s' = h" by (intro nth_equalityI) auto
    then show ?thesis by (metis take_is_prefix)
  qed
  moreover have "foot t s' w \<subseteq> {length h..}"
    using assms(2) h prefix_length_le [OF h(1)] by (fastforce simp: changes_with_def)
  ultimately show ?thesis using assms(2) by (simp add: copied_def changes_with_def)
qed

lemma other_copy:
  assumes "copied t' h x u s" "changes t s v s' w y" "foot t' s u \<inter> foot t s v = {}" "prefix h s'"
  shows "copied t' h x u s'" "foot t' s' u \<inter> foot t s' w = {}" "foot t' s' u = foot t' s u"
proof -
  have load: "load t' s u = Some x" using assms(1) by (simp add: copied_def)
  have "same_on (foot t' s u) s s'"
    by (rule writes_only_same [OF _ assms(3)]) (use assms(2) in \<open>simp add: changes_with_def\<close>)
  from load_frame [OF load this] have u: "load t' s' u = Some x" "foot t' s' u = foot t' s u" "separate t' s' u"
    using assms(1) by (simp_all add: copied_def)
  then show "copied t' h x u s'" "foot t' s' u = foot t' s u" using assms(1,4) by (simp_all add: copied_def)
  show "foot t' s' u \<inter> foot t s' w = {}"
    using u(2) assms(2,3) load_cells [OF load] by (fastforce simp: changes_with_def)
qed

section \<open>Objects behind a pointer\<close>

definition read_struct :: "addr \<Rightarrow> memory \<Rightarrow> (string \<times> gval) list option" where
  "read_struct b h = (case read_var b h of Some (Struct fs) \<Rightarrow> Some fs | _ \<Rightarrow> None)"

text \<open>\<open>b.n = w\<close>, and \<open>b.m.n = w\<close> for a struct \<open>m\<close> within the object\<close>

definition set_top :: "string \<Rightarrow> gval \<Rightarrow> addr \<Rightarrow> memory \<Rightarrow> memory option" where
  "set_top n w b h = do {
     fs \<leftarrow> read_struct b h;
     Some (h[b := Var (Struct (set_field n w fs))]) }"

definition get_inner :: "string \<Rightarrow> string \<Rightarrow> addr \<Rightarrow> memory \<Rightarrow> gval option" where
  "get_inner m n b h = do {
     fs \<leftarrow> read_struct b h;
     v \<leftarrow> map_of fs m;
     (case v of Struct ms \<Rightarrow> map_of ms n | _ \<Rightarrow> None) }"

definition set_inner :: "string \<Rightarrow> string \<Rightarrow> gval \<Rightarrow> addr \<Rightarrow> memory \<Rightarrow> memory option" where
  "set_inner m n w b h = do {
     fs \<leftarrow> read_struct b h;
     v \<leftarrow> map_of fs m;
     (case v of
        Struct ms \<Rightarrow> Some (h[b := Var (Struct (set_field m (Struct (set_field n w ms)) fs))])
      | _ \<Rightarrow> None) }"

text \<open>The change of a struct within an object, on trees\<close>

definition on_inner :: "string \<Rightarrow> ((string \<times> tree) list \<Rightarrow> (string \<times> tree) list) \<Rightarrow> (string \<times> tree) list \<Rightarrow> (string \<times> tree) list" where
  "on_inner m g xs = (case map_of xs m of Some (Fields ys) \<Rightarrow> set_field m (Fields (g ys)) xs | _ \<Rightarrow> xs)"

lemma zero_change: "changes t s v s (zero t) (zero_tree t)"
  using zero_reads [of t s] by (simp add: changes_with_def writes_only_def)

text \<open>An object that can be read and shares no cell; \<open>fs\<close> are its fields.\<close>

definition object :: "(string \<times> gotype) list \<Rightarrow> memory \<Rightarrow> addr \<Rightarrow> (string \<times> tree) list \<Rightarrow> bool" where
  "object ts s b xs \<longleftrightarrow> distinct (map fst ts) \<and> load (TPointer (TStruct ts)) s (Pointer (Some b)) = Some (PointsTo (Fields xs)) \<and>
     separate (TPointer (TStruct ts)) s (Pointer (Some b))"

lemma objectE:
  assumes "object ts s b xs"
  obtains fs where "read_var b s = Some (Struct fs)" "load (TStruct ts) s (Struct fs) = Some (Fields xs)"
    "separate (TStruct ts) s (Struct fs)" "b \<notin> foot (TStruct ts) s (Struct fs)" "distinct (map fst ts)" "b < length s"
proof -
  obtain v where v: "lookup s b = Some (Var v)" "load (TStruct ts) s v = Some (Fields xs)" "separate (TStruct ts) s v"
    "b \<notin> foot (TStruct ts) s v"
    using assms by (auto simp: object_def split: option.splits cell.splits)
  then obtain fs where "v = Struct fs" by (auto simp: load_struct split: gval.splits)
  with v that assms show thesis by (simp add: read_var_def object_def lookup_less)
qed

text \<open>A change of a field of the object, after a change of the memory that belongs to it\<close>

lemma object_change:
  assumes "object ts s b xs" "read_var b s = Some (Struct fs)" "(n, t) \<in> set ts" "changes_with A t s (field fs n) s' w y"
    and A: "A \<inter> foot (TPointer (TStruct ts)) s (Pointer (Some b)) = {}"
  shows "read_var b s' = Some (Struct fs)"
    and "changes_with A (TPointer (TStruct ts)) s (Pointer (Some b)) (s'[b := Var (Struct (set_field n w fs))]) (Pointer (Some b))
      (PointsTo (Fields (set_field n y xs)))"
proof -
  obtain fs' where ob: "read_var b s = Some (Struct fs')" "load (TStruct ts) s (Struct fs') = Some (Fields xs)"
    "separate (TStruct ts) s (Struct fs')" "b \<notin> foot (TStruct ts) s (Struct fs')" "distinct (map fst ts)" "b < length s"
    by (rule objectE [OF assms(1)])
  then have [simp]: "fs' = fs" using assms(2) by simp
  have apart: "b \<notin> A" "A \<inter> foot (TStruct ts) s (Struct fs) = {}"
    using A ob(1) by (auto simp: read_var_def split: option.splits cell.splits)
  have struct: "changes_with A (TStruct ts) s (Struct fs) s' (Struct (set_field n w fs)) (Fields (set_field n y xs))"
    by (rule struct_change [OF _ _ ob(5) assms(3,4) apart(2)]) (use ob in simp_all)
  then have "lookup s' b = lookup s b" using ob(4,6) apart(1) by (simp add: changes_with_def writes_only_def lookup_def)
  then show "read_var b s' = Some (Struct fs)" using assms(2) by (simp add: read_var_def)
  show "changes_with A (TPointer (TStruct ts)) s (Pointer (Some b)) (s'[b := Var (Struct (set_field n w fs))]) (Pointer (Some b))
      (PointsTo (Fields (set_field n y xs)))"
    by (rule pointer_change [OF _ _ assms(2) struct apart(1)]) (use assms(1) in \<open>simp_all add: object_def\<close>)
qed

lemma object_changed:
  "object ts s b xs \<Longrightarrow> changes_with A (TPointer (TStruct ts)) s (Pointer (Some b)) s' (Pointer (Some b)) (PointsTo (Fields ys)) \<Longrightarrow>
     object ts s' b ys"
  by (simp add: object_def changes_with_def)

abbreviation at_object :: "(string \<times> gotype) list \<Rightarrow> addr \<Rightarrow> memory \<Rightarrow> memory \<Rightarrow> (string \<times> tree) list \<Rightarrow> bool" where
  "at_object ts b s s' xs \<equiv> changes (TPointer (TStruct ts)) s (Pointer (Some b)) s' (Pointer (Some b)) (PointsTo (Fields xs))"

lemma set_top_changes:
  assumes "object ts s b xs" "(n, t) \<in> set ts"
  shows "\<exists>s'. set_top n (zero t) b s = Some s' \<and> at_object ts b s s' (set_field n (zero_tree t) xs)"
proof -
  obtain fs where "read_var b s = Some (Struct fs)" by (rule objectE [OF assms(1)])
  with object_change(2) [OF assms(1) this assms(2) zero_change] show ?thesis by (simp add: set_top_def read_struct_def)
qed

text \<open>The fields of the object and of a struct within it\<close>

lemma object_inner:
  assumes "object ts s b xs" "(m, TStruct ms) \<in> set ts" "distinct (map fst ms)"
  obtains fs gs ys where "read_var b s = Some (Struct fs)" "map_of fs m = Some (Struct gs)"
    "map_of xs m = Some (Fields ys)" "load (TStruct ms) s (Struct gs) = Some (Fields ys)"
    "separate (TStruct ms) s (Struct gs)" "b \<notin> foot (TStruct ms) s (Struct gs)"
    "\<And>n t. (n, t) \<in> set ms \<Longrightarrow> \<exists>v y. map_of gs n = Some v \<and> map_of ys n = Some y \<and> load t s v = Some y"
proof -
  obtain fs where fs: "read_var b s = Some (Struct fs)" "load (TStruct ts) s (Struct fs) = Some (Fields xs)"
    "separate (TStruct ts) s (Struct fs)" "b \<notin> foot (TStruct ts) s (Struct fs)" "distinct (map fst ts)"
    by (rule objectE [OF assms(1)])
  then have names: "map fst fs = map fst ts" by (auto simp: load_struct load_fields_iff)
  obtain v y where v: "map_of fs m = Some v" "map_of xs m = Some y" "load (TStruct ms) s v = Some y"
    using fs(2) assms(2) by (fastforce simp: load_struct load_fields_iff [OF fs(5)])
  then obtain gs ys where g: "v = Struct gs" "y = Fields ys" by (auto simp: load_struct split: gval.splits)
  have "separate (TStruct ms) s (Struct gs)" "b \<notin> foot (TStruct ms) s (Struct gs)"
    using struct_by_name [OF fs(5) names, of s] fs(3,4) assms(2) v(1) g(1) by (fastforce simp: foot_struct)+
  moreover have "\<exists>v y. map_of gs n = Some v \<and> map_of ys n = Some y \<and> load t s v = Some y" if "(n, t) \<in> set ms" for n t
    using v(3) g that by (fastforce simp: load_struct load_fields_iff [OF assms(3)])
  ultimately show thesis using that fs(1) v g by blast
qed

lemma set_inner_changes:
  assumes "object ts s b xs" "(m, TStruct ms) \<in> set ts" "distinct (map fst ms)" "(n, t) \<in> set ms"
    and v: "get_inner m n b s = Some v" and change: "changes t s v s' w y"
  shows "\<exists>s''. set_inner m n w b s' = Some s'' \<and> at_object ts b s s'' (on_inner m (set_field n y) xs)"
proof -
  obtain fs gs ys where ob: "read_var b s = Some (Struct fs)" "map_of fs m = Some (Struct gs)"
    "map_of xs m = Some (Fields ys)" "load (TStruct ms) s (Struct gs) = Some (Fields ys)"
    "separate (TStruct ms) s (Struct gs)" by (rule object_inner [OF assms(1-3)])
  have "map_of gs n = Some v" using v ob(1,2) by (simp add: get_inner_def read_struct_def)
  then have "changes (TStruct ms) s (Struct gs) s' (Struct (set_field n w gs)) (Fields (set_field n y ys))"
    by (intro struct_change [OF ob(4,5) assms(3,4)]) (simp_all add: change)
  then have "changes (TStruct ms) s (field fs m) s' (Struct (set_field n w gs)) (Fields (set_field n y ys))"
    using ob(2) by simp
  from object_change [OF assms(1) ob(1) assms(2) this] ob(2,3) show ?thesis
    by (simp add: set_inner_def read_struct_def on_inner_def)
qed

lemma object_unchanged: "object ts s b xs \<Longrightarrow> at_object ts b s s xs"
  unfolding object_def changes_with_def writes_only_def by blast

end
