(* ===== verification/Downstream_Memory.thy ===== *)
theory Downstream_Memory
  imports Deep_Copy Go_Objects Downstream
begin

text \<open>
  The downstream mirror on the memory (\<open>internal/controller/downstream_controller.go\<close>). The objects that the handlers
  get belong to the informer cache, those of \<open>upsert\<close> are read from it, and Go changes objects in place. Here \<open>downstreamSourceEqual\<close> and the start of \<open>upsert\<close> run on
  cells: the deep copy, the setters on its metadata, the new status, the label written into the copy's own map. The lemmas say
  that the cache is left as it was, and which value the copy has in the end.
\<close>

section \<open>Objects behind a pointer\<close>

text \<open>A method call on an interface value; on the nil interface it panics.\<close>

definition DeepCopyObject :: "copy_library \<Rightarrow> runtime_object \<Rightarrow> memory \<Rightarrow> (runtime_object \<times> memory) option" where
  "DeepCopyObject L ob h = do {
     (name, p) \<leftarrow> ob;
     (t, f) \<leftarrow> map_of (api_objects L) name;
     f p h }"

text \<open>The struct that an object's pointer refers to; the assertion \<open>.(client.Object)\<close> on the nil interface panics.\<close>

definition address :: "runtime_object \<Rightarrow> addr option" where
  "address ob = (case ob of Some (name, Pointer a) \<Rightarrow> a | _ \<Rightarrow> None)"

text \<open>A setter of the metadata (\<open>SetUID\<close>, \<open>SetLabels\<close> and so on) writes a field of the embedded \<open>ObjectMeta\<close>.\<close>

abbreviation get_meta :: "string \<Rightarrow> addr \<Rightarrow> memory \<Rightarrow> gval option" where
  "get_meta \<equiv> get_inner ''ObjectMeta''"

abbreviation set_meta :: "string \<Rightarrow> gval \<Rightarrow> addr \<Rightarrow> memory \<Rightarrow> memory option" where
  "set_meta \<equiv> set_inner ''ObjectMeta''"

text \<open>\<open>clearRemoteMetadata\<close>\<close>

definition clearRemoteMetadata_at :: "copy_library \<Rightarrow> addr \<Rightarrow> memory \<Rightarrow> memory option" where
  "clearRemoteMetadata_at L b = for_each (\<lambda>(n, w). set_meta n w b)
     [(''UID'', Scalar (SText [])), (''ResourceVersion'', Scalar (SText [])), (''Generation'', Scalar (SNumber 0)),
      (''CreationTimestamp'', zero (Time_t L)), (''DeletionTimestamp'', Pointer None),
      (''DeletionGracePeriodSeconds'', Pointer None), (''ManagedFields'', Slice None), (''OwnerReferences'', Slice None),
      (''Finalizers'', Slice None)]"

text \<open>\<open>setEmptyStatus\<close>: a switch on the type of the object\<close>

definition status_type :: "copy_library \<Rightarrow> string \<Rightarrow> gotype option" where
  "status_type L name =
     (if name = ''Location'' then Some (LocationStatus_type L)
      else if name = ''HealthCheckProfile'' then Some (HealthCheckProfileStatus_type L)
      else if name = ''Zone'' then Some (ZoneStatus_type L)
      else if name = ''PrefixList'' then Some (PrefixListStatus_type L)
      else if name = ''DNSEndpoint'' then Some (DNSEndpointStatus_type L)
      else if name = ''Service'' then Some (ServiceStatus_type L)
      else None)"

definition setEmptyStatus_at :: "copy_library \<Rightarrow> runtime_object \<Rightarrow> memory \<Rightarrow> memory option" where
  "setEmptyStatus_at L ob h = do {
     (name, p) \<leftarrow> ob;
     b \<leftarrow> address ob;
     (case status_type L name of Some t \<Rightarrow> set_top ''Status'' (zero t) b h | None \<Rightarrow> Some h) }"

text \<open>\<open>labels[key] = value\<close>, after \<open>make\<close> when \<open>labels\<close> is nil\<close>

definition make_labels :: "gval \<Rightarrow> memory \<Rightarrow> (gval \<times> memory)" where
  "make_labels labels h = (if labels = GoMap None then (GoMap (Some (length h)), h @ [Entries []]) else (labels, h))"

definition set_label :: "gval \<Rightarrow> string \<Rightarrow> string \<Rightarrow> memory \<Rightarrow> memory option" where
  "set_label labels k s h = (case labels of GoMap (Some c) \<Rightarrow> set_key c k (Scalar (SText s)) h | _ \<Rightarrow> None)"

section \<open>The two callers\<close>

text \<open>The mirror that \<open>upsert\<close> prepares, up to \<open>desired.SetLabels(labels)\<close>\<close>

definition desired_copy :: "copy_library \<Rightarrow> string \<Rightarrow> runtime_object \<Rightarrow> memory \<Rightarrow> (runtime_object \<times> memory) option" where
  "desired_copy L sourceID source h = do {
     (desired, h) \<leftarrow> DeepCopyObject L source h;
     b \<leftarrow> address desired;
     h \<leftarrow> clearRemoteMetadata_at L b h;
     h \<leftarrow> setEmptyStatus_at L desired h;
     labels \<leftarrow> get_meta ''Labels'' b h;
     let (labels, h) = make_labels labels h;
     h \<leftarrow> set_label labels DownstreamManagedLabel sourceID h;
     h \<leftarrow> set_meta ''Labels'' labels b h;
     Some (desired, h) }"

text \<open>
  \<open>reflect.DeepEqual\<close> on two objects: the same type, and what the pointers refer to reads the same. It distinguishes a nil map or slice from
  an empty one, as trees do.
\<close>

definition DeepEqual :: "copy_library \<Rightarrow> runtime_object \<Rightarrow> runtime_object \<Rightarrow> memory \<Rightarrow> bool option" where
  "DeepEqual L x y h = do {
     (m, p) \<leftarrow> x;
     (n, q) \<leftarrow> y;
     (if m \<noteq> n then Some False
      else do {
        (t, f) \<leftarrow> map_of (api_objects L) m;
        u \<leftarrow> load (TPointer t) h p;
        v \<leftarrow> load (TPointer t) h q;
        Some (u = v) }) }"

definition downstreamSourceEqual_at ::
  "copy_library \<Rightarrow> runtime_object \<Rightarrow> runtime_object \<Rightarrow> memory \<Rightarrow> (bool \<times> memory) option" where
  "downstreamSourceEqual_at L oldObject newObject h = do {
     (oldCopy, h) \<leftarrow> DeepCopyObject L oldObject h;
     a \<leftarrow> address oldCopy;
     (newCopy, h) \<leftarrow> DeepCopyObject L newObject h;
     b \<leftarrow> address newCopy;
     h \<leftarrow> clearRemoteMetadata_at L a h;
     h \<leftarrow> clearRemoteMetadata_at L b h;
     h \<leftarrow> setEmptyStatus_at L oldCopy h;
     h \<leftarrow> setEmptyStatus_at L newCopy h;
     equal \<leftarrow> DeepEqual L oldCopy newCopy h;
     Some (equal, h) }"

section \<open>The same on trees\<close>

abbreviation on_meta :: "((string \<times> tree) list \<Rightarrow> (string \<times> tree) list) \<Rightarrow> (string \<times> tree) list \<Rightarrow> (string \<times> tree) list" where
  "on_meta \<equiv> on_inner ''ObjectMeta''"

definition cleared :: "copy_library \<Rightarrow> (string \<times> tree) list \<Rightarrow> (string \<times> tree) list" where
  "cleared L = fold (\<lambda>(n, y). on_meta (set_field n y))
     [(''UID'', Leaf (SText [])), (''ResourceVersion'', Leaf (SText [])), (''Generation'', Leaf (SNumber 0)),
      (''CreationTimestamp'', zero_tree (Time_t L)), (''DeletionTimestamp'', NilRef),
      (''DeletionGracePeriodSeconds'', NilRef), (''ManagedFields'', NilRef), (''OwnerReferences'', NilRef), (''Finalizers'', NilRef)]"

definition emptied :: "copy_library \<Rightarrow> string \<Rightarrow> (string \<times> tree) list \<Rightarrow> (string \<times> tree) list" where
  "emptied L name xs = (case status_type L name of Some t \<Rightarrow> set_field ''Status'' (zero_tree t) xs | None \<Rightarrow> xs)"

definition labelled :: "string \<Rightarrow> (string \<times> tree) list \<Rightarrow> (string \<times> tree) list" where
  "labelled s ys = set_field ''Labels''
     (Dict (fmupd DownstreamManagedLabel (Leaf (SText s)) (case map_of ys ''Labels'' of Some (Dict m) \<Rightarrow> m | _ \<Rightarrow> fmempty))) ys"

definition mirror_tree :: "copy_library \<Rightarrow> string \<Rightarrow> string \<Rightarrow> (string \<times> tree) list \<Rightarrow> (string \<times> tree) list" where
  "mirror_tree L sourceID name xs = on_meta (labelled sourceID) (emptied L name (cleared L xs))"

section \<open>Writing an object\<close>

text \<open>A list of setters that write zero values\<close>

lemma set_metas_change:
  assumes "object ts s b xs" "(''ObjectMeta'', TStruct ms) \<in> set ts" "distinct (map fst ms)"
    and "list_all (\<lambda>((n, w), (m, y)). n = m \<and> (\<exists>t. (n, t) \<in> set ms \<and> w = zero t \<and> y = zero_tree t)) (zip nws nys)"
    and "length nws = length nys"
  shows "\<exists>s'. for_each (\<lambda>(n, w). set_meta n w b) nws s = Some s' \<and>
    at_object ts b s s' (fold (\<lambda>(n, y). on_meta (set_field n y)) nys xs)"
  using assms(1,4,5)
proof (induction nws arbitrary: nys s xs)
  case Nil
  then show ?case by (simp add: object_unchanged)
next
  case (Cons nw nws)
  obtain n w y nys' where ny: "nw = (n, w)" "nys = (n, y) # nys'" using Cons.prems(2,3) by (cases nys; cases nw) auto
  obtain t where t: "(n, t) \<in> set ms" "w = zero t" "y = zero_tree t" using Cons.prems(2) ny by auto
  obtain fs gs ys where ob: "read_var b s = Some (Struct fs)" "map_of fs ''ObjectMeta'' = Some (Struct gs)"
    "\<And>n t. (n, t) \<in> set ms \<Longrightarrow> \<exists>v y. map_of gs n = Some v \<and> map_of ys n = Some y \<and> load t s v = Some y"
    by (rule object_inner [OF Cons.prems(1) assms(2,3)]) (rule that)
  obtain v where v: "get_meta n b s = Some v" using ob(1,2) ob(3) [OF t(1)] by (auto simp: get_inner_def read_struct_def)
  from set_inner_changes [OF Cons.prems(1) assms(2,3) t(1) v zero_change] obtain s1 where
    s1: "set_meta n w b s = Some s1" "at_object ts b s s1 (on_meta (set_field n y) xs)" using t by auto
  from Cons.IH [OF object_changed [OF Cons.prems(1) s1(2)], of nys'] obtain s2 where
    s2: "for_each (\<lambda>(n, w). set_meta n w b) nws s1 = Some s2"
      "at_object ts b s1 s2 (fold (\<lambda>(n, y). on_meta (set_field n y)) nys' (on_meta (set_field n y) xs))"
    using Cons.prems(2,3) ny by auto
  then show ?case using s1 changes_trans [OF s1(2) s2(2)] by (simp add: ny)
qed

section \<open>The objects of the mirror\<close>

text \<open>What the Kubernetes API documents of the metadata of an object\<close>

locale kube_objects = go_copy_library +
  fixes meta_fields :: "(string \<times> gotype) list"
    and OwnerReference_t ManagedFieldsEntry_t :: gotype
  assumes ObjectMeta_fields: "ObjectMeta_t L = TStruct meta_fields"
    and meta_names: "distinct (map fst meta_fields)"
    and meta_types: "set [(''UID'', TScalar Text), (''ResourceVersion'', TScalar Text), (''Generation'', TScalar Number),
      (''CreationTimestamp'', Time_t L), (''DeletionTimestamp'', TPointer (Time_t L)),
      (''DeletionGracePeriodSeconds'', TPointer (TScalar Number)), (''ManagedFields'', TSlice ManagedFieldsEntry_t),
      (''OwnerReferences'', TSlice OwnerReference_t), (''Finalizers'', TSlice (TScalar Text)),
      (''Labels'', TMap (TScalar Text))] \<subseteq> set meta_fields"

definition mirror_types :: "copy_library \<Rightarrow> (string \<times> gotype) list" where
  "mirror_types L = [(''Location'', Location_type L), (''HealthCheckProfile'', HealthCheckProfile_type L), (''Zone'', Zone_type L),
     (''PrefixList'', PrefixList_type L), (''DNSEndpoint'', DNSEndpoint_type L), (''Service'', Service_type L)]"

context kube_objects
begin

lemma mirror_type:
  assumes "map_of (mirror_types L) name = Some t"
  obtains ts st f where "t = TStruct ts" "distinct (map fst ts)" "(''ObjectMeta'', TStruct meta_fields) \<in> set ts"
    "status_type L name = Some st" "(''Status'', st) \<in> set ts" "map_of (api_objects L) name = Some (t, f)" "object_copied name t f"
  using assms objects_copied
  by (auto simp: mirror_types_def status_type_def api_objects_def Location_type_def HealthCheckProfile_type_def Zone_type_def
      PrefixList_type_def DNSEndpoint_type_def Service_type_def ObjectMeta_fields split: if_splits)

lemma clear_changes:
  assumes "object ts s b xs" "(''ObjectMeta'', TStruct meta_fields) \<in> set ts"
  shows "\<exists>s'. clearRemoteMetadata_at L b s = Some s' \<and> at_object ts b s s' (cleared L xs)"
  unfolding clearRemoteMetadata_at_def cleared_def
  by (rule set_metas_change [OF assms meta_names]) (use meta_types in auto)

lemma status_changes:
  assumes "object ts s b xs" "status_type L name = Some st" "(''Status'', st) \<in> set ts"
  shows "\<exists>s'. setEmptyStatus_at L (Some (name, Pointer (Some b))) s = Some s' \<and> at_object ts b s s' (emptied L name xs)"
  using set_top_changes [OF assms(1,3)] assms(2) by (simp add: setEmptyStatus_at_def address_def emptied_def)

lemma label_map_change:
  assumes "load (TMap (TScalar Text)) s (GoMap (Some c)) = Some y"
  shows "\<exists>s' m. y = Dict m \<and> set_label (GoMap (Some c)) k v s = Some s' \<and>
    changes (TMap (TScalar Text)) s (GoMap (Some c)) s' (GoMap (Some c)) (Dict (fmupd k (Leaf (SText v)) m))"
proof -
  obtain es where es: "lookup s c = Some (Entries es)" using assms by (auto split: option.splits cell.splits)
  with assms load_map_iff [OF es, of "TScalar Text" y] obtain m where m: "distinct (map fst es)" "y = Dict m"
    "\<And>k. map_of es k = None \<Longrightarrow> fmlookup m k = None"
    "\<And>k u. map_of es k = Some u \<Longrightarrow> \<exists>x. load (TScalar Text) s u = Some x \<and> fmlookup m k = Some x" by auto
  let ?es = "AList.update k (Scalar (SText v)) es"
  let ?s = "s[c := Entries ?es]"
  have c: "c < length s" "lookup ?s c = Some (Entries ?es)" using lookup_less [OF es] by (simp_all add: lookup_def)
  have "load (TMap (TScalar Text)) ?s (GoMap (Some c)) = Some (Dict (fmupd k (Leaf (SText v)) m))"
    unfolding load_map_iff [OF c(2)] using m(1,3,4)
    by (auto simp: distinct_update update_conv' split: if_splits gval.splits)
  moreover have "apart (map (foot (TScalar Text) ?s) (map snd ?es))" by (rule apart_empty) auto
  moreover have "writes_only {c} s ?s" by (simp add: writes_only_def)
  ultimately show ?thesis
    using es c m(2) by (auto simp: set_label_def set_key_def read_entries_def changes_with_def list_all_iff writes_only_def)
qed

lemma label_changes:
  assumes "load (TMap (TScalar Text)) s labels = Some y"
  shows "\<exists>l s1 s2. make_labels labels s = (l, s1) \<and> set_label l k v s1 = Some s2 \<and>
    changes (TMap (TScalar Text)) s labels s2 l (Dict (fmupd k (Leaf (SText v)) (case y of Dict m \<Rightarrow> m | _ \<Rightarrow> fmempty)))"
proof (cases "labels = GoMap None")
  case True
  let ?s1 = "s @ [Entries []]" and ?l = "GoMap (Some (length s))"
  have "load (TMap (TScalar Text)) ?s1 ?l = Some (Dict fmempty)" by (simp add: load_map_iff)
  from label_map_change [OF this, of k v] obtain s2 where s2: "set_label ?l k v ?s1 = Some s2"
    "changes (TMap (TScalar Text)) ?s1 ?l s2 ?l (Dict (fmupd k (Leaf (SText v)) fmempty))" by auto
  moreover have "changes (TMap (TScalar Text)) s labels ?s1 ?l (Dict fmempty)"
    using True by (simp add: changes_with_def writes_only_def load_map_iff nth_append)
  ultimately show ?thesis using assms True by (auto simp: make_labels_def dest: changes_trans)
next
  case False
  then obtain c where c: "labels = GoMap (Some c)" using assms by (auto split: gval.splits option.splits)
  with label_map_change [of s c y k v] assms show ?thesis by (auto simp: make_labels_def)
qed

lemma labels_written:
  assumes "object ts s b xs" "(''ObjectMeta'', TStruct meta_fields) \<in> set ts"
  shows "\<exists>labels l s1 s2 s3. get_meta ''Labels'' b s = Some labels \<and> make_labels labels s = (l, s1) \<and>
    set_label l DownstreamManagedLabel v s1 = Some s2 \<and> set_meta ''Labels'' l b s2 = Some s3 \<and>
    at_object ts b s s3 (on_meta (labelled v) xs)"
proof -
  obtain fs gs ys where ob: "read_var b s = Some (Struct fs)" "map_of fs ''ObjectMeta'' = Some (Struct gs)"
    "map_of xs ''ObjectMeta'' = Some (Fields ys)"
    "\<And>n t. (n, t) \<in> set meta_fields \<Longrightarrow> \<exists>v y. map_of gs n = Some v \<and> map_of ys n = Some y \<and> load t s v = Some y"
    by (rule object_inner [OF assms meta_names]) (rule that)
  have "(''Labels'', TMap (TScalar Text)) \<in> set meta_fields" using meta_types by simp
  note labels_field = this
  from ob(4) [OF this] obtain u y where u: "map_of gs ''Labels'' = Some u" "map_of ys ''Labels'' = Some y"
    "load (TMap (TScalar Text)) s u = Some y" by blast
  then have get: "get_meta ''Labels'' b s = Some u" using ob(1,2) by (simp add: get_inner_def read_struct_def)
  obtain l s1 s2 where l: "make_labels u s = (l, s1)" "set_label l DownstreamManagedLabel v s1 = Some s2"
    "changes (TMap (TScalar Text)) s u s2 l (Dict (fmupd DownstreamManagedLabel (Leaf (SText v)) (case y of Dict m \<Rightarrow> m | _ \<Rightarrow> fmempty)))"
    using label_changes [OF u(3), of DownstreamManagedLabel v] by blast
  from set_inner_changes [OF assms meta_names labels_field get l(3)] ob(3) u(2) get l(1,2) show ?thesis
    by (simp add: on_inner_def labelled_def)
qed

lemma source_copied:
  assumes "map_of (mirror_types L) name = Some t" "load (TPointer t) h (Pointer (Some a)) = Some (PointsTo (Fields xs))"
  shows "\<exists>b s. DeepCopyObject L (Some (name, Pointer (Some a))) h = Some (Some (name, Pointer (Some b)), s) \<and>
    copied (TPointer t) h (PointsTo (Fields xs)) (Pointer (Some b)) s"
proof -
  obtain f where f: "map_of (api_objects L) name = Some (t, f)" "object_copied name t f" by (rule mirror_type [OF assms(1)])
  then obtain b s where "f (Pointer (Some a)) h = Some (Some (name, Pointer (Some b)), s)"
    "copied (TPointer t) h (PointsTo (Fields xs)) (Pointer (Some b)) s"
    using assms(2) unfolding object_copied_def by blast
  then show ?thesis using f(1) by (simp add: DeepCopyObject_def)
qed

lemma copied_object: "distinct (map fst ts) \<Longrightarrow> copied (TPointer (TStruct ts)) h (PointsTo (Fields xs)) (Pointer (Some b)) s \<Longrightarrow> object ts s b xs"
  by (simp add: object_def copied_def)

text \<open>The mirror that \<open>upsert\<close> prepares is a copy: the source and everything else in memory are as they were.\<close>

lemma mirror_prepared:
  assumes "map_of (mirror_types L) name = Some t" "load (TPointer t) h (Pointer (Some a)) = Some (PointsTo (Fields xs))"
  shows "\<exists>b s. desired_copy L sourceID (Some (name, Pointer (Some a))) h = Some (Some (name, Pointer (Some b)), s) \<and>
    copied (TPointer t) h (PointsTo (Fields (mirror_tree L sourceID name xs))) (Pointer (Some b)) s"
proof -
  obtain ts st where t: "t = TStruct ts" "distinct (map fst ts)" "(''ObjectMeta'', TStruct meta_fields) \<in> set ts"
    "status_type L name = Some st" "(''Status'', st) \<in> set ts" by (rule mirror_type [OF assms(1)])
  obtain b s1 where c: "DeepCopyObject L (Some (name, Pointer (Some a))) h = Some (Some (name, Pointer (Some b)), s1)"
    "copied (TPointer t) h (PointsTo (Fields xs)) (Pointer (Some b)) s1" using source_copied [OF assms] by blast
  then have ob1: "object ts s1 b xs" using t by (simp add: copied_object)
  from clear_changes [OF this t(3)] obtain s2 where s2: "clearRemoteMetadata_at L b s1 = Some s2"
    "at_object ts b s1 s2 (cleared L xs)" by blast
  note ob2 = object_changed [OF ob1 s2(2)]
  from status_changes [OF this t(4,5)] obtain s3 where s3: "setEmptyStatus_at L (Some (name, Pointer (Some b))) s2 = Some s3"
    "at_object ts b s2 s3 (emptied L name (cleared L xs))" by blast
  from labels_written [OF object_changed [OF ob2 s3(2)] t(3), of sourceID] obtain labels l s4 s5 s6 where
    s6: "get_meta ''Labels'' b s3 = Some labels" "make_labels labels s3 = (l, s4)" "set_label l DownstreamManagedLabel sourceID s4 = Some s5"
      "set_meta ''Labels'' l b s5 = Some s6" "at_object ts b s3 s6 (mirror_tree L sourceID name xs)"
    unfolding mirror_tree_def by blast
  have "at_object ts b s1 s6 (mirror_tree L sourceID name xs)" using changes_trans [OF changes_trans [OF s2(2) s3(2)] s6(5)] .
  from copied_changes [OF c(2) [unfolded t(1)] this] show ?thesis
    using c(1) s2(1) s3(1) s6(1-4) t(1) by (simp add: desired_copy_def address_def)
qed

end

text \<open>Two copies side by side: a change of one leaves the other.\<close>

definition two_copies :: "memory \<Rightarrow> (string \<times> gotype) list \<Rightarrow> addr \<Rightarrow> (string \<times> tree) list \<Rightarrow>
    (string \<times> gotype) list \<Rightarrow> addr \<Rightarrow> (string \<times> tree) list \<Rightarrow> memory \<Rightarrow> bool" where
  "two_copies h ts p xs us q ys s \<longleftrightarrow>
     copied (TPointer (TStruct ts)) h (PointsTo (Fields xs)) (Pointer (Some p)) s \<and>
     copied (TPointer (TStruct us)) h (PointsTo (Fields ys)) (Pointer (Some q)) s \<and>
     foot (TPointer (TStruct ts)) s (Pointer (Some p)) \<inter> foot (TPointer (TStruct us)) s (Pointer (Some q)) = {}"

lemma two_copies_commute: "two_copies h ts p xs us q ys s \<Longrightarrow> two_copies h us q ys ts p xs s"
  unfolding two_copies_def by blast

lemma two_copies_change:
  assumes "two_copies h ts p xs us q ys s" "at_object ts p s s' xs'"
  shows "two_copies h ts p xs' us q ys s'"
proof -
  have s: "copied (TPointer (TStruct ts)) h (PointsTo (Fields xs)) (Pointer (Some p)) s"
    "copied (TPointer (TStruct us)) h (PointsTo (Fields ys)) (Pointer (Some q)) s"
    "foot (TPointer (TStruct us)) s (Pointer (Some q)) \<inter> foot (TPointer (TStruct ts)) s (Pointer (Some p)) = {}"
    using assms(1) unfolding two_copies_def by blast+
  have one: "copied (TPointer (TStruct ts)) h (PointsTo (Fields xs')) (Pointer (Some p)) s'"
    by (rule copied_changes [OF s(1) assms(2)])
  then have "prefix h s'" by (simp add: copied_def)
  from other_copy [OF s(2) assms(2) s(3) this] one show ?thesis unfolding two_copies_def by blast
qed

lemma two_copies_start:
  assumes "copied (TPointer (TStruct ts)) h (PointsTo (Fields xs)) (Pointer (Some p)) s"
    and "copied (TPointer (TStruct us)) s (PointsTo (Fields ys)) (Pointer (Some q)) s'"
  shows "two_copies h ts p xs us q ys s'"
proof -
  have load: "load (TPointer (TStruct ts)) s (Pointer (Some p)) = Some (PointsTo (Fields xs))" and s': "prefix s s'" and h: "prefix h s"
    using assms by (simp_all add: copied_def)
  show ?thesis unfolding two_copies_def
    using copied_prefix [OF assms(1) s'] copied_later [OF assms(2) h] copied_disjoint(2) [OF assms(2) load] by blast
qed

context kube_objects
begin

lemma source_compared:
  assumes "map_of (mirror_types L) m = Some t" "load (TPointer t) h (Pointer (Some a)) = Some (PointsTo (Fields xs))"
    and "map_of (mirror_types L) n = Some u" "load (TPointer u) h (Pointer (Some b)) = Some (PointsTo (Fields ys))"
  shows "\<exists>s. downstreamSourceEqual_at L (Some (m, Pointer (Some a))) (Some (n, Pointer (Some b))) h =
      Some (m = n \<and> emptied L m (cleared L xs) = emptied L n (cleared L ys), s) \<and> prefix h s"
proof -
  obtain ts st f where t: "t = TStruct ts" "distinct (map fst ts)" "(''ObjectMeta'', TStruct meta_fields) \<in> set ts"
    "status_type L m = Some st" "(''Status'', st) \<in> set ts" "map_of (api_objects L) m = Some (t, f)" by (rule mirror_type [OF assms(1)])
  obtain us su where u: "u = TStruct us" "distinct (map fst us)" "(''ObjectMeta'', TStruct meta_fields) \<in> set us"
    "status_type L n = Some su" "(''Status'', su) \<in> set us" by (rule mirror_type [OF assms(3)])
  obtain p s1 where p: "DeepCopyObject L (Some (m, Pointer (Some a))) h = Some (Some (m, Pointer (Some p)), s1)"
    "copied (TPointer t) h (PointsTo (Fields xs)) (Pointer (Some p)) s1" using source_copied [OF assms(1,2)] by blast
  then have "load (TPointer u) s1 (Pointer (Some b)) = Some (PointsTo (Fields ys))"
    using load_prefix [OF assms(4)] by (simp add: copied_def)
  from source_copied [OF assms(3) this] obtain q s2 where
    q: "DeepCopyObject L (Some (n, Pointer (Some b))) s1 = Some (Some (n, Pointer (Some q)), s2)"
      "copied (TPointer u) s1 (PointsTo (Fields ys)) (Pointer (Some q)) s2" by blast
  from p(2) q(2) have two2: "two_copies h ts p xs us q ys s2" unfolding t(1) u(1) by (rule two_copies_start)
  have ob: "object ts s p xs \<and> object us s q ys" if "two_copies h ts p xs us q ys s" for s xs ys
    using that copied_object [OF t(2)] copied_object [OF u(2)] unfolding two_copies_def by blast
  from clear_changes [of ts s2 p xs] ob [OF two2] t(3) obtain s3 where s3: "clearRemoteMetadata_at L p s2 = Some s3"
    "at_object ts p s2 s3 (cleared L xs)" by blast
  note two3 = two_copies_change [OF two2 s3(2)]
  from clear_changes [of us s3 q ys] ob [OF two3] u(3) obtain s4 where s4: "clearRemoteMetadata_at L q s3 = Some s4"
    "at_object us q s3 s4 (cleared L ys)" by blast
  note two4 = two_copies_commute [OF two_copies_change [OF two_copies_commute [OF two3] s4(2)]]
  from status_changes [OF conjunct1 [OF ob [OF two4]] t(4,5)] obtain s5 where
    s5: "setEmptyStatus_at L (Some (m, Pointer (Some p))) s4 = Some s5" "at_object ts p s4 s5 (emptied L m (cleared L xs))" by blast
  note two5 = two_copies_change [OF two4 s5(2)]
  from status_changes [OF conjunct2 [OF ob [OF two5]] u(4,5)] obtain s6 where
    s6: "setEmptyStatus_at L (Some (n, Pointer (Some q))) s5 = Some s6" "at_object us q s5 s6 (emptied L n (cleared L ys))" by blast
  note two6 = two_copies_commute [OF two_copies_change [OF two_copies_commute [OF two5] s6(2)]]
  have "u = t" if "m = n" using assms(1,3) that by simp
  then have "DeepEqual L (Some (m, Pointer (Some p))) (Some (n, Pointer (Some q))) s6 =
      Some (m = n \<and> emptied L m (cleared L xs) = emptied L n (cleared L ys))"
    using two6 t(1,6) u(1) by (cases "m = n") (simp_all add: DeepEqual_def two_copies_def copied_def)
  moreover have "prefix h s6" using two6 by (simp add: two_copies_def copied_def)
  ultimately show ?thesis
    using p(1) q(1) s3(1) s4(1) s5(1) s6(1) by (simp add: downstreamSourceEqual_at_def address_def)
qed

end

section \<open>A zone in memory\<close>

interpretation reference_objects: kube_objects reference_library reference_meta_fields reference_OwnerReference reference_ManagedFieldsEntry
  by unfold_locales (simp_all add: reference_library_def reference_ObjectMeta_def reference_meta_fields_def)

text \<open>A zone with one label, in two cells: the struct and its label map\<close>

definition sample_zone :: "string \<Rightarrow> memory" where
  "sample_zone name =
     [Var (Struct
       [(''TypeMeta'', Struct [(''Kind'', Scalar (SText ''Zone'')), (''APIVersion'', Scalar (SText ''v1alpha1''))]),
        (''ObjectMeta'', Struct
          (set_field ''Name'' (Scalar (SText name)) (set_field ''UID'' (Scalar (SText ''42'')) (set_field ''Labels'' (GoMap (Some 1))
            (map (map_prod id zero) reference_meta_fields))))),
        (''Spec'', zero (ZoneSpec_type reference_library)),
        (''Status'', Struct [(''Status'', Scalar (SText ''Healthy''))])]),
      Entries [(''team'', Scalar (SText ''cdn''))]]"

definition sample_zone_tree :: "string \<Rightarrow> (string \<times> tree) list" where
  "sample_zone_tree name =
     [(''TypeMeta'', Fields [(''Kind'', Leaf (SText ''Zone'')), (''APIVersion'', Leaf (SText ''v1alpha1''))]),
      (''ObjectMeta'', Fields
        (set_field ''Name'' (Leaf (SText name)) (set_field ''UID'' (Leaf (SText ''42''))
          (set_field ''Labels'' (Dict (fmap_of_list [(''team'', Leaf (SText ''cdn''))]))
            (map (map_prod id zero_tree) reference_meta_fields))))),
      (''Spec'', zero_tree (ZoneSpec_type reference_library)),
      (''Status'', Fields [(''Status'', Leaf (SText ''Healthy''))])]"

lemma sample_zone_reads:
  "load (TPointer (Zone_type reference_library)) (sample_zone name) (Pointer (Some 0)) = Some (PointsTo (Fields (sample_zone_tree name)))"
  by (simp add: sample_zone_def sample_zone_tree_def Zone_type_def ZoneSpec_type_def ZoneStatus_type_def CertificateSpec_type_def
      reference_library_def reference_ObjectMeta_def reference_meta_fields_def reference_Time_def reference_LabelSelector_def
      load_struct set_field_def lookup_def)

lemma zone_is_mirrored: "map_of (mirror_types reference_library) ''Zone'' = Some (Zone_type reference_library)"
  by (simp add: mirror_types_def)

section \<open>Properties\<close>

text \<open>
  C13. The start of \<open>upsert\<close> on the memory, for every object of the mirrored kinds: it does not panic; the mirror reads as the source
  with cleared metadata, an empty status and the label of the upstream added to its labels; every value that could be read before reads
  the same and shares no cell with the mirror, so the informer cache is neither changed now nor by later writes to the mirror.
\<close>

theorem mirror_leaves_cache_alone:
  assumes "kube_objects L meta_fields OwnerReference_t ManagedFieldsEntry_t" "map_of (mirror_types L) name = Some t"
    and "load (TPointer t) h (Pointer (Some a)) = Some (PointsTo (Fields xs))"
  shows "\<exists>b s. desired_copy L sourceID (Some (name, Pointer (Some a))) h = Some (Some (name, Pointer (Some b)), s) \<and>
    load (TPointer t) s (Pointer (Some b)) = Some (PointsTo (Fields (mirror_tree L sourceID name xs))) \<and>
    (\<forall>t' v y. load t' h v = Some y \<longrightarrow> load t' s v = Some y \<and> foot t' s v \<inter> foot (TPointer t) s (Pointer (Some b)) = {})"
proof -
  obtain b s where "desired_copy L sourceID (Some (name, Pointer (Some a))) h = Some (Some (name, Pointer (Some b)), s)"
    and copy: "copied (TPointer t) h (PointsTo (Fields (mirror_tree L sourceID name xs))) (Pointer (Some b)) s"
    using kube_objects.mirror_prepared [OF assms] by blast
  moreover from copy have "load (TPointer t) s (Pointer (Some b)) = Some (PointsTo (Fields (mirror_tree L sourceID name xs)))"
    by (simp add: copied_def)
  ultimately show ?thesis using copied_disjoint [OF copy] by blast
qed

theorem mirror_leaves_cache_alone_witness:
  "\<exists>b s. desired_copy reference_library ''router-1'' (Some (''Zone'', Pointer (Some 0))) (sample_zone ''example'') =
      Some (Some (''Zone'', Pointer (Some b)), s) \<and>
    load (TPointer (Zone_type reference_library)) s (Pointer (Some b)) =
      Some (PointsTo (Fields (mirror_tree reference_library ''router-1'' ''Zone'' (sample_zone_tree ''example'')))) \<and>
    load (TPointer (Zone_type reference_library)) s (Pointer (Some 0)) = Some (PointsTo (Fields (sample_zone_tree ''example'')))"
  using mirror_leaves_cache_alone [OF reference_objects.kube_objects_axioms zone_is_mirrored sample_zone_reads, of "''router-1''" "''example''"]
    sample_zone_reads by blast

text \<open>
  C40. \<open>downstreamSourceEqual\<close> on the memory: it compares deep copies whose metadata and status it clears in place. It does not panic, its
  result is that the objects are of one kind and read the same apart from the cleared fields, and whatever could be read before
  reads the same afterwards.
\<close>

theorem comparison_leaves_cache_alone:
  assumes "kube_objects L meta_fields OwnerReference_t ManagedFieldsEntry_t"
    and "map_of (mirror_types L) m = Some t" "load (TPointer t) h (Pointer (Some a)) = Some (PointsTo (Fields xs))"
    and "map_of (mirror_types L) n = Some u" "load (TPointer u) h (Pointer (Some b)) = Some (PointsTo (Fields ys))"
  shows "\<exists>s. downstreamSourceEqual_at L (Some (m, Pointer (Some a))) (Some (n, Pointer (Some b))) h =
      Some (m = n \<and> emptied L m (cleared L xs) = emptied L n (cleared L ys), s) \<and>
    (\<forall>t' v y. load t' h v = Some y \<longrightarrow> load t' s v = Some y)"
  using kube_objects.source_compared [OF assms] load_prefix by blast

theorem comparison_leaves_cache_alone_witness:
  "\<exists>s. downstreamSourceEqual_at reference_library (Some (''Zone'', Pointer (Some 0))) (Some (''Zone'', Pointer (Some 0)))
      (sample_zone ''example'') = Some (True, s) \<and>
    load (TPointer (Zone_type reference_library)) s (Pointer (Some 0)) = Some (PointsTo (Fields (sample_zone_tree ''example'')))"
proof -
  obtain s where "downstreamSourceEqual_at reference_library (Some (''Zone'', Pointer (Some 0))) (Some (''Zone'', Pointer (Some 0)))
      (sample_zone ''example'') = Some (True, s)" "\<And>t' v y. load t' (sample_zone ''example'') v = Some y \<Longrightarrow> load t' s v = Some y"
    using comparison_leaves_cache_alone [OF reference_objects.kube_objects_axioms zone_is_mirrored sample_zone_reads zone_is_mirrored
      sample_zone_reads, of "''example''"] by (simp only: simp_thms) blast
  with sample_zone_reads [of "''example''"] show ?thesis by blast
qed

end
