(* ===== verification/Go_Setters.thy ===== *)
theory Go_Setters
  imports Go_Objects
begin

text \<open>
  Methods that set a field of the object they are called on, as code generators write them: a value behind a new pointer, a pointer
  that is taken over, values appended to a slice, entries added to a map. Each lemma says that the call changes
  exactly the field and that the object can be read as before.
\<close>

section \<open>Parts of an object\<close>

abbreviation at_object_with :: "addr set \<Rightarrow> (string \<times> gotype) list \<Rightarrow> addr \<Rightarrow> memory \<Rightarrow> memory \<Rightarrow> (string \<times> tree) list \<Rightarrow> bool" where
  "at_object_with A ts b s s' xs \<equiv>
     changes_with A (TPointer (TStruct ts)) s (Pointer (Some b)) s' (Pointer (Some b)) (PointsTo (Fields xs))"

abbreviation cells :: "(string \<times> gotype) list \<Rightarrow> memory \<Rightarrow> addr \<Rightarrow> addr set" where
  "cells ts s b \<equiv> foot (TPointer (TStruct ts)) s (Pointer (Some b))"

lemma changes_with_mono: "changes_with A t s v s' w y \<Longrightarrow> A \<subseteq> B \<Longrightarrow> changes_with B t s v s' w y"
  unfolding changes_with_def writes_only_def by blast

lemma object_field:
  assumes "object ts s b xs" "(n, t) \<in> set ts"
  obtains fs v y where "read_var b s = Some (Struct fs)" "map_of fs n = Some v" "map_of xs n = Some y" "load t s v = Some y"
    "separate t s v" "foot t s v \<subseteq> cells ts s b" "b \<notin> foot t s v"
proof -
  obtain fs where fs: "read_var b s = Some (Struct fs)" "load (TStruct ts) s (Struct fs) = Some (Fields xs)"
    "separate (TStruct ts) s (Struct fs)" "b \<notin> foot (TStruct ts) s (Struct fs)" "distinct (map fst ts)"
    by (rule objectE [OF assms(1)])
  then have names: "map fst fs = map fst ts" by (auto simp: load_struct load_fields_iff)
  obtain v y where v: "map_of fs n = Some v" "map_of xs n = Some y" "load t s v = Some y"
    using fs(2) assms(2) by (fastforce simp: load_struct load_fields_iff [OF fs(5)])
  have foot: "foot t s v \<subseteq> foot (TStruct ts) s (Struct fs)"
    using struct_by_name(1) [OF fs(5) names, of s] assms(2) v(1) by (fastforce simp: foot_struct)
  have "cells ts s b = insert b (foot (TStruct ts) s (Struct fs))"
    using fs(1) by (auto simp: read_var_def split: option.splits cell.splits)
  moreover have "separate t s v" using struct_by_name(2) [OF fs(5) names, of s] fs(3) assms(2) v(1) by fastforce
  ultimately show thesis using that fs(1,4) v foot by blast
qed

text \<open>A field of an object changes in memory and is written back.\<close>

lemma field_set:
  assumes ob: "object ts s b xs" and n: "(n, t) \<in> set ts" and A: "A \<inter> cells ts s b = {}"
    and change: "\<And>fs v y. read_struct b s = Some fs \<Longrightarrow> map_of fs n = Some v \<Longrightarrow> map_of xs n = Some y \<Longrightarrow> load t s v = Some y \<Longrightarrow>
      separate t s v \<Longrightarrow> foot t s v \<subseteq> cells ts s b \<Longrightarrow> changes_with A t s v s' w z"
  shows "\<exists>s''. set_top n w b s' = Some s'' \<and> at_object_with A ts b s s'' (set_field n z xs)"
proof -
  obtain fs v y where v: "read_var b s = Some (Struct fs)" "map_of fs n = Some v" "map_of xs n = Some y" "load t s v = Some y"
    "separate t s v" "foot t s v \<subseteq> cells ts s b" by (rule object_field [OF ob n])
  have "changes_with A t s v s' w z" by (rule change [OF _ v(2-6)]) (use v(1) in \<open>simp add: read_struct_def\<close>)
  then have "changes_with A t s (field fs n) s' w z" using v(2) by simp
  from object_change [OF ob v(1) n this A] show ?thesis by (simp add: set_top_def read_struct_def)
qed

text \<open>A field that is a reference stays, and what it refers to changes.\<close>

lemma field_unmoved:
  assumes ob: "object ts s b xs" and v: "read_var b s = Some (Struct fs)" "map_of fs n = Some u" and n: "(n, t) \<in> set ts"
    and change: "changes_with A t s u s' u z" and A: "A \<inter> cells ts s b = {}"
  shows "at_object_with A ts b s s' (set_field n z xs)"
proof -
  have "changes_with A t s (field fs n) s' u z" using change v(2) by simp
  note object_change = object_change [OF ob v(1) n this A]
  have "map fst fs = map fst ts" "distinct (map fst ts)"
    using ob v(1) by (auto simp: object_def read_var_def load_struct load_fields_iff split: option.splits cell.splits)
  then have "distinct (map fst fs)" by simp
  then have "set_field n u fs = fs" using v(2) unfolding set_field_def by (intro map_idI) (auto dest: eq_key_imp_eq_value)
  moreover have "s'[b := Var (Struct fs)] = s'"
    using object_change(1) by (simp add: read_var_def lookup_def list_update_same_conv split: option.splits cell.splits if_splits)
  ultimately show ?thesis using object_change(2) by (simp only:)
qed

section \<open>Values and pointers\<close>

text \<open>A call of a method on a receiver\<close>

type_synonym gomethod = "gval \<Rightarrow> memory \<Rightarrow> (gval \<times> memory) option"

text \<open>The receiver; a nil receiver panics.\<close>

definition receiver :: "gval \<Rightarrow> addr option" where
  "receiver p = (case p of Pointer a \<Rightarrow> a | _ \<Rightarrow> None)"

lemma receiver_simp [simp]: "receiver (Pointer a) = a"
  by (simp add: receiver_def)

text \<open>\<open>b.n = &value\<close>\<close>

definition with_value :: "string \<Rightarrow> gval \<Rightarrow> gomethod" where
  "with_value n v p h = do {
     b \<leftarrow> receiver p;
     h' \<leftarrow> set_top n (Pointer (Some (length h))) b (h @ [Var v]);
     Some (p, h') }"

text \<open>\<open>b.n = value\<close>\<close>

definition with_pointer :: "string \<Rightarrow> gval \<Rightarrow> gomethod" where
  "with_pointer n w p h = do {
     b \<leftarrow> receiver p;
     h' \<leftarrow> set_top n w b h;
     Some (p, h') }"

lemma new_value_change:
  assumes "load t h v = Some x" "separate t h v"
  shows "changes_with (foot t h v) (TPointer t) h u (h @ [Var v]) (Pointer (Some (length h))) (PointsTo x)"
proof -
  have "load t (h @ [Var v]) v = Some x" "foot t (h @ [Var v]) v = foot t h v" "separate t (h @ [Var v]) v"
    using load_prefix [OF assms(1), of "h @ [Var v]"] assms(2) by simp_all
  moreover have "length h \<notin> foot t h v" using load_cells [OF assms(1)] by auto
  ultimately show ?thesis by (auto simp: changes_with_def writes_only_def nth_append)
qed

lemma with_value_sets:
  assumes "object ts h b xs" "(n, TPointer t) \<in> set ts" "load t h v = Some x" "separate t h v" "foot t h v \<inter> cells ts h b = {}"
  shows "\<exists>h'. with_value n v (Pointer (Some b)) h = Some (Pointer (Some b), h') \<and>
    at_object_with (foot t h v) ts b h h' (set_field n (PointsTo x) xs)"
  using field_set [OF assms(1,2,5) new_value_change [OF assms(3,4)]] by (auto simp: with_value_def)

lemma with_pointer_sets:
  assumes "object ts h b xs" "(n, t) \<in> set ts" "load t h w = Some y" "separate t h w" "foot t h w \<inter> cells ts h b = {}"
  shows "\<exists>h'. with_pointer n w (Pointer (Some b)) h = Some (Pointer (Some b), h') \<and>
    at_object_with (foot t h w) ts b h h' (set_field n y xs)"
proof -
  have "changes_with (foot t h w) t h v h w y" for v using assms(3,4) by (auto simp: changes_with_def writes_only_def)
  from field_set [OF assms(1,2,5) this] show ?thesis by (auto simp: with_pointer_def)
qed

section \<open>Slices\<close>

text \<open>
  \<open>append(s, v)\<close>. The rest of the array after the slice is its capacity: when there is some, the array is written in place, otherwise a
  new array is made, whose spare room is up to the runtime (\<open>grow\<close>).
\<close>

definition append_slice :: "(nat \<Rightarrow> nat) \<Rightarrow> gotype \<Rightarrow> gval \<Rightarrow> gomethod" where
  "append_slice grow t s v h = (case s of
     Slice None \<Rightarrow> Some (Slice (Some (length h, 0, 1)), h @ [Array (v # replicate (grow 0) (zero t))])
   | Slice (Some (a, off, n)) \<Rightarrow> do {
       us \<leftarrow> read_array a h;
       (if off + n < length us then Some (Slice (Some (a, off, Suc n)), h[a := Array (us[off + n := v])])
        else Some (Slice (Some (length h, 0, Suc n)),
          h @ [Array (take n (drop off us) @ v # replicate (grow n) (zero t))])) }
   | _ \<Rightarrow> None)"

fun elems :: "tree \<Rightarrow> tree list" where
  "elems (Elems xs) = xs"
| "elems _ = []"

text \<open>The values of a slice or a map after a change that leaves each of them as it is\<close>

lemma values_kept:
  assumes "\<And>u. u \<in> set us \<Longrightarrow> load t h' u = load t h u \<and> foot t h' u = foot t h u \<and> separate t h' u = separate t h u"
  shows "load_all (load t h') us = load_all (load t h) us" "map (foot t h') us = map (foot t h) us"
    "list_all (separate t h') us = list_all (separate t h) us"
  using assms load_all_cong [of us "load t h'" "load t h"] by (auto simp: list_all_iff)

lemma load_all_snoc: "load_all l us = Some xs \<Longrightarrow> l v = Some x \<Longrightarrow> load_all l (us @ [v]) = Some (xs @ [x])"
  by (induction us arbitrary: xs) (auto split: bind_splits)

text \<open>A slice whose array holds the old elements and then the new one\<close>

lemma appended_slice:
  assumes us: "load_all (load t h') us = Some xs" "apart ({a} # map (foot t h') us)" "list_all (separate t h') us"
    and v: "load t h' v = Some x" "separate t h' v" "a \<notin> foot t h' v" "\<Union> (foot t h' ` set us) \<inter> foot t h' v = {}"
    and cell: "lookup h' a = Some (Array ws)" "off + Suc n \<le> length ws" "take (Suc n) (drop off ws) = us @ [v]"
  shows "load (TSlice t) h' (Slice (Some (a, off, Suc n))) = Some (Elems (xs @ [x]))"
    "separate (TSlice t) h' (Slice (Some (a, off, Suc n)))"
    "foot (TSlice t) h' (Slice (Some (a, off, Suc n))) = insert a (\<Union> (foot t h' ` set us) \<union> foot t h' v)"
proof -
  show "load (TSlice t) h' (Slice (Some (a, off, Suc n))) = Some (Elems (xs @ [x]))"
    using cell load_all_snoc [OF us(1) v(1)] by simp
  show "separate (TSlice t) h' (Slice (Some (a, off, Suc n)))"
    using cell us(2,3) v(2-4) by (simp add: apart_snoc)
  show "foot (TSlice t) h' (Slice (Some (a, off, Suc n))) = insert a (\<Union> (foot t h' ` set us) \<union> foot t h' v)"
    using cell by auto
qed

lemma append_changes:
  assumes s: "load (TSlice t) h s = Some y" "separate (TSlice t) h s"
    and v: "load t h v = Some x" "separate t h v" "foot t h v \<inter> foot (TSlice t) h s = {}"
  shows "\<exists>s' h'. append_slice grow t s v h = Some (s', h') \<and>
    changes_with (foot t h v) (TSlice t) h s h' s' (Elems (elems y @ [x]))"
proof (cases "s = Slice None")
  case True
  let ?h = "h @ [Array (v # replicate (grow 0) (zero t))]"
  have v': "load t ?h v = Some x" "foot t ?h v = foot t h v" "separate t ?h v"
    using load_prefix [OF v(1), of ?h] v(2) by simp_all
  have "length h \<notin> foot t h v" using load_cells [OF v(1)] by auto
  then show ?thesis using True s(1) v' by (auto simp: append_slice_def changes_with_def writes_only_def nth_append)
next
  case False
  then obtain a off n us xs where sl: "s = Slice (Some (a, off, n))" "lookup h a = Some (Array us)" "off + n \<le> length us"
    "load_all (load t h) (take n (drop off us)) = Some xs" "y = Elems xs"
    using s(1) by (auto split: gval.splits option.splits cell.splits if_splits)
  let ?us = "take n (drop off us)"
  have sep: "apart (map (foot t h) ?us)" "a \<notin> \<Union> (foot t h ` set ?us)" "list_all (separate t h) ?us" using s(2) sl by auto
  have foot_s: "foot (TSlice t) h s = insert a (\<Union> (foot t h ` set ?us))" using sl by simp
  have fv: "a \<notin> foot t h v" "\<Union> (foot t h ` set ?us) \<inter> foot t h v = {}" using v(3) unfolding foot_s by auto
  show ?thesis
  proof (cases "off + n < length us")
    case True
    let ?h = "h[a := Array (us[off + n := v])]"
    have same: "load t ?h u = load t h u \<and> foot t ?h u = foot t h u \<and> separate t ?h u = separate t h u"
      if "u \<in> set ?us \<or> u = v" for u
    proof -
      have "\<exists>z. load t h u = Some z" "a \<notin> foot t h u" using that load_all_Some [OF sl(4)] v(1) sep(2) fv(1) by auto
      then show ?thesis using load_store [of t h u _ a] by auto
    qed
    have kept: "load_all (load t ?h) ?us = Some xs" "map (foot t ?h) ?us = map (foot t h) ?us" "list_all (separate t ?h) ?us"
      using values_kept [of ?us t ?h h] same sl(4) sep(3) by simp_all
    have v': "load t ?h v = Some x" "foot t ?h v = foot t h v" "separate t ?h v" using same [of v] v(1,2) by simp_all
    have feet: "foot t ?h ` set ?us = foot t h ` set ?us" using kept(2) by (metis list.set_map)
    have cell: "lookup ?h a = Some (Array (us[off + n := v]))" using lookup_less [OF sl(2)] by (simp add: lookup_def)
    have room: "off + Suc n \<le> length (us[off + n := v])" "take (Suc n) (drop off (us[off + n := v])) = ?us @ [v]"
      using True by (simp_all add: take_Suc_conv_app_nth drop_update_swap)
    have apart: "apart ({a} # map (foot t ?h) ?us)" "a \<notin> foot t ?h v" "\<Union> (foot t ?h ` set ?us) \<inter> foot t ?h v = {}"
      unfolding kept(2) feet v'(2) using sep(1,2) fv by simp_all
    note new = appended_slice [OF kept(1) apart(1) kept(3) v'(1,3) apart(2,3) cell room]
    have "writes_only (foot (TSlice t) h s \<union> foot t h v) h ?h" unfolding foot_s by (auto simp: writes_only_def)
    with new(1,2) have "changes_with (foot t h v) (TSlice t) h s ?h (Slice (Some (a, off, Suc n))) (Elems (elems y @ [x]))"
      unfolding changes_with_def new(3) foot_s feet v'(2) sl(5) by auto
    then show ?thesis using True sl(1-3) by (simp add: append_slice_def read_array_def)
  next
    case False
    let ?h = "h @ [Array (?us @ v # replicate (grow n) (zero t))]"
    have same: "load t ?h u = load t h u \<and> foot t ?h u = foot t h u \<and> separate t ?h u = separate t h u \<and> foot t h u \<subseteq> {..<length h}"
      if "u \<in> set ?us \<or> u = v" for u
    proof -
      have "\<exists>z. load t h u = Some z" using that load_all_Some [OF sl(4)] v(1) by auto
      then show ?thesis using load_prefix [of t h u _ ?h] load_cells [of t h u] by auto
    qed
    have kept: "load_all (load t ?h) ?us = Some xs" "map (foot t ?h) ?us = map (foot t h) ?us" "list_all (separate t ?h) ?us"
      using values_kept [of ?us t ?h h] same sl(4) sep(3) by simp_all
    have v': "load t ?h v = Some x" "foot t ?h v = foot t h v" "separate t ?h v" using same [of v] v(1,2) by simp_all
    have feet: "foot t ?h ` set ?us = foot t h ` set ?us" using kept(2) by (metis list.set_map)
    have fresh: "length h \<notin> \<Union> (foot t h ` set ?us)" "length h \<notin> foot t h v" using same by fastforce+
    have room: "0 + Suc n \<le> length (?us @ v # replicate (grow n) (zero t))"
      "take (Suc n) (drop 0 (?us @ v # replicate (grow n) (zero t))) = ?us @ [v]" using sl(3) by simp_all
    have apart: "apart ({length h} # map (foot t ?h) ?us)" "length h \<notin> foot t ?h v" "\<Union> (foot t ?h ` set ?us) \<inter> foot t ?h v = {}"
      unfolding kept(2) feet v'(2) using sep(1) fv(2) fresh by simp_all
    note new = appended_slice [OF kept(1) apart(1) kept(3) v'(1,3) apart(2,3) lookup_new room]
    have "writes_only (foot (TSlice t) h s \<union> foot t h v) h ?h" by (simp add: writes_only_def nth_append)
    with new(1,2) have "changes_with (foot t h v) (TSlice t) h s ?h (Slice (Some (length h, 0, Suc n))) (Elems (elems y @ [x]))"
      unfolding changes_with_def new(3) foot_s feet v'(2) sl(5) by auto
    then show ?thesis using False sl(1-3) by (simp add: append_slice_def read_array_def)
  qed
qed

section \<open>One value after the other\<close>

text \<open>
  A loop in which each round takes a value over into the object. The values share no cells with the object nor with each other; the
  cells \<open>E\<close> that the loop itself reads are not among them.
\<close>

lemma rounds_take_over:
  assumes step: "\<And>s xs k. k \<in> set ks \<Longrightarrow> object ts s b xs \<Longrightarrow> Q xs \<Longrightarrow> same_on E s0 s \<Longrightarrow> load t s (val k) = Some (tr k) \<Longrightarrow>
      separate t s (val k) \<Longrightarrow> foot t s (val k) \<inter> cells ts s b = {} \<Longrightarrow>
      (\<exists>s'. f k s = Some s' \<and> at_object_with (foot t s (val k)) ts b s s' (g k xs)) \<and> Q (g k xs)"
    and "object ts s b xs" "Q xs" "same_on E s0 s" "E \<inter> (cells ts s b \<union> (\<Union>k \<in> set ks. foot t s (val k))) = {}" "E \<subseteq> {..<length s}"
      "E \<subseteq> {..<length s0}"
    and "\<And>k. k \<in> set ks \<Longrightarrow> load t s (val k) = Some (tr k) \<and> separate t s (val k) \<and> foot t s (val k) \<inter> cells ts s b = {}"
    and "apart (map (\<lambda>k. foot t s (val k)) ks)"
  shows "\<exists>s'. for_each f ks s = Some s' \<and> at_object_with (\<Union>k \<in> set ks. foot t s (val k)) ts b s s' (fold g ks xs)"
  using assms
proof (induction ks arbitrary: s xs)
  case Nil
  then show ?case by (simp add: object_unchanged)
next
  case (Cons k ks)
  note in0 = Cons.prems(8)
  let ?A = "foot t s (val k)"
  obtain s1 where s1: "f k s = Some s1" "at_object_with ?A ts b s s1 (g k xs)" "Q (g k xs)"
    using Cons.prems(1) [OF _ Cons.prems(2,3,4)] in0 [of k] by auto
  have writes: "writes_only (cells ts s b \<union> ?A) s s1" and cells1: "cells ts s1 b \<subseteq> cells ts s b \<union> ?A \<union> {length s..}"
    using s1(2) unfolding changes_with_def by blast+
  have rest: "load t s1 (val j) = Some (tr j) \<and> separate t s1 (val j) \<and> foot t s1 (val j) = foot t s (val j) \<and>
      foot t s (val j) \<inter> cells ts s1 b = {}" if j: "j \<in> set ks" for j
  proof -
    have load: "load t s (val j) = Some (tr j)" "separate t s (val j)" "foot t s (val j) \<inter> cells ts s b = {}"
      using in0 [of j] j by simp_all
    have apart: "foot t s (val j) \<inter> ?A = {}" using Cons.prems(9) j by auto
    have "same_on (foot t s (val j)) s s1"
      by (rule writes_only_same [OF writes]) (use load(3) apart in blast)
    from load_frame [OF load(1) this] have "load t s1 (val j) = Some (tr j)" "foot t s1 (val j) = foot t s (val j)" "separate t s1 (val j)"
      using load(2) by simp_all
    moreover have "foot t s (val j) \<inter> cells ts s1 b = {}"
      using cells1 load(3) apart load_cells [OF load(1)] by fastforce
    ultimately show ?thesis by blast
  qed
  then have feet: "(\<Union>j \<in> set ks. foot t s1 (val j)) = (\<Union>j \<in> set ks. foot t s (val j))"
    "map (\<lambda>j. foot t s1 (val j)) ks = map (\<lambda>j. foot t s (val j)) ks" by auto
  have E: "E \<inter> (cells ts s b \<union> ?A) = {}" "E \<inter> (\<Union>j \<in> set ks. foot t s (val j)) = {}" using Cons.prems(5) by auto
  have "E \<inter> cells ts s1 b = {}" using cells1 E(1) Cons.prems(6) by fastforce
  moreover have "same_on E s s1" by (rule writes_only_same [OF writes E(1)])
  then have "same_on E s0 s1" using Cons.prems(4) unfolding same_on_def by blast
  moreover have "length s \<le> length s1" using writes by (simp add: writes_only_def)
  ultimately have "\<exists>s'. for_each f ks s1 = Some s' \<and>
      at_object_with (\<Union>j \<in> set ks. foot t s1 (val j)) ts b s1 s' (fold g ks (g k xs))"
    using Cons.prems(1,6,7,9) rest E(2) s1(3) object_changed [OF Cons.prems(2) s1(2)]
    by (intro Cons.IH) (auto simp: feet simp del: foot.simps)
  then obtain s' where s': "for_each f ks s1 = Some s'"
    "at_object_with (\<Union>j \<in> set ks. foot t s (val j)) ts b s1 s' (fold g ks (g k xs))" unfolding feet(1) by blast
  from changes_with_trans [OF s1(2) s'(2)] s'(1) s1(1) show ?case by simp
qed

text \<open>Values that are handed to a method: they share no cells with the object nor with each other.\<close>

definition handed :: "gotype \<Rightarrow> (string \<times> gotype) list \<Rightarrow> memory \<Rightarrow> addr \<Rightarrow> gval list \<Rightarrow> tree list \<Rightarrow> bool" where
  "handed t ts s b vs ys \<longleftrightarrow> load_all (load t s) vs = Some ys \<and> list_all (separate t s) vs \<and> apart (map (foot t s) vs) \<and>
     list_all (\<lambda>v. foot t s v \<inter> cells ts s b = {}) vs"

lemma handed_rounds:
  assumes step: "\<And>s xs v y. y \<in> set ys \<Longrightarrow> object ts s b xs \<Longrightarrow> load t s v = Some y \<Longrightarrow> separate t s v \<Longrightarrow> foot t s v \<inter> cells ts s b = {} \<Longrightarrow>
      \<exists>s'. f v s = Some s' \<and> at_object_with (foot t s v) ts b s s' (g y xs)"
    and "object ts s b xs" "handed t ts s b vs ys"
  shows "\<exists>s'. for_each f vs s = Some s' \<and> at_object_with (\<Union> (foot t s ` set vs)) ts b s s' (fold g ys xs)"
proof -
  let ?tr = "\<lambda>v. the (load t s v)"
  have vs: "\<And>v. v \<in> set vs \<Longrightarrow> load t s v = Some (?tr v) \<and> separate t s v \<and> foot t s v \<inter> cells ts s b = {}"
    using assms(3) by (auto simp: handed_def list_all_iff dest: load_all_Some simp del: foot.simps)
  have ys: "map ?tr vs = ys" using assms(3) by (intro nth_equalityI) (auto simp: handed_def load_all_nth)
  have "\<exists>s'. for_each f vs s = Some s' \<and> at_object_with (\<Union>v \<in> set vs. foot t s v) ts b s s' (fold (\<lambda>v. g (?tr v)) vs xs)"
    by (rule rounds_take_over [where E = "{}" and Q = "\<lambda>_. True" and ?s0.0 = s and tr = ?tr and val = "\<lambda>v. v"])
      (use assms vs ys in \<open>auto simp: handed_def same_on_def simp del: foot.simps\<close>)
  then show ?thesis by (simp add: ys [symmetric] fold_map comp_def del: foot.simps)
qed

text \<open>\<open>for i := range values { b.n = append(b.n, values[i]) }\<close>, and the same with \<open>*values[i]\<close>, where nil panics\<close>

definition with_appended :: "(nat \<Rightarrow> nat) \<Rightarrow> string \<Rightarrow> gotype \<Rightarrow> addr \<Rightarrow> gval \<Rightarrow> memory \<Rightarrow> memory option" where
  "with_appended grow n t b v h = do {
     fs \<leftarrow> read_struct b h;
     s \<leftarrow> map_of fs n;
     (s', h') \<leftarrow> append_slice grow t s v h;
     set_top n s' b h' }"

definition with_values :: "(nat \<Rightarrow> nat) \<Rightarrow> string \<Rightarrow> gotype \<Rightarrow> gval list \<Rightarrow> gomethod" where
  "with_values grow n t vs p h = do {
     h' \<leftarrow> for_each (\<lambda>v h. do { b \<leftarrow> receiver p; with_appended grow n t b v h }) vs h;
     Some (p, h') }"

definition with_pointers :: "(nat \<Rightarrow> nat) \<Rightarrow> string \<Rightarrow> gotype \<Rightarrow> gval list \<Rightarrow> gomethod" where
  "with_pointers grow n t vs p h = do {
     h' \<leftarrow> for_each (\<lambda>v h. do {
         a \<leftarrow> receiver v;
         u \<leftarrow> read_var a h;
         b \<leftarrow> receiver p;
         with_appended grow n t b u h }) vs h;
     Some (p, h') }"

definition appended :: "string \<Rightarrow> tree \<Rightarrow> (string \<times> tree) list \<Rightarrow> (string \<times> tree) list" where
  "appended n x xs = set_field n (Elems (elems (the (map_of xs n)) @ [x])) xs"

lemma appended_sets:
  assumes ob: "object ts s b xs" and n: "(n, TSlice t) \<in> set ts" and v: "load t s v = Some x" "separate t s v"
    "foot t s v \<inter> cells ts s b = {}"
  shows "\<exists>s'. with_appended grow n t b v s = Some s' \<and> at_object_with (foot t s v) ts b s s' (appended n x xs)"
proof -
  obtain fs u y where u: "read_var b s = Some (Struct fs)" "map_of fs n = Some u" "map_of xs n = Some y"
    "load (TSlice t) s u = Some y" "separate (TSlice t) s u" "foot (TSlice t) s u \<subseteq> cells ts s b" by (rule object_field [OF ob n])
  have "foot t s v \<inter> foot (TSlice t) s u = {}" using v(3) u(6) by blast
  from append_changes [OF u(4,5) v(1,2) this, of grow] obtain s' h' where s':
    "append_slice grow t u v s = Some (s', h')" "changes_with (foot t s v) (TSlice t) s u h' s' (Elems (elems y @ [x]))" by blast
  then have "\<exists>s''. set_top n s' b h' = Some s'' \<and> at_object_with (foot t s v) ts b s s'' (set_field n (Elems (elems y @ [x])) xs)"
    using u(1,2) by (intro field_set [OF ob n v(3)]) (simp add: read_struct_def)
  then show ?thesis using u(1-3) s'(1) by (simp add: with_appended_def read_struct_def appended_def)
qed

lemma set_field_twice [simp]: "set_field n w (set_field n v xs) = set_field n w xs"
  by (simp add: set_field_def)

lemma fold_appended:
  assumes "map_of xs n = Some y"
  shows "fold (appended n) zs xs = (if zs = [] then xs else set_field n (Elems (elems y @ zs)) xs)"
  using assms
proof (induction zs arbitrary: xs y)
  case (Cons z zs)
  have "map_of (appended n z xs) n = Some (Elems (elems y @ [z]))" using Cons.prems by (simp add: appended_def map_of_set_field)
  from Cons.IH [OF this] Cons.prems show ?case by (simp add: appended_def)
qed simp

lemma with_values_sets:
  assumes "object ts h b xs" "(n, TSlice t) \<in> set ts" "handed t ts h b vs zs"
  shows "\<exists>h'. with_values grow n t vs (Pointer (Some b)) h = Some (Pointer (Some b), h') \<and>
    at_object_with (\<Union> (foot t h ` set vs)) ts b h h' (fold (appended n) zs xs)"
  using handed_rounds [where f = "with_appended grow n t b" and g = "appended n", OF _ assms(1,3)] appended_sets [OF _ assms(2)]
  by (auto simp: with_values_def)

lemma with_pointers_sets:
  assumes "object ts h b xs" "(n, TSlice t) \<in> set ts" "handed (TPointer t) ts h b ps (map PointsTo ys)"
  shows "\<exists>h'. with_pointers grow n t ps (Pointer (Some b)) h = Some (Pointer (Some b), h') \<and>
    at_object_with (\<Union> (foot (TPointer t) h ` set ps)) ts b h h' (fold (appended n) ys xs)"
proof -
  let ?g = "\<lambda>z. case z of PointsTo y \<Rightarrow> appended n y | _ \<Rightarrow> id"
  let ?f = "\<lambda>v h. do { a \<leftarrow> receiver v; u \<leftarrow> read_var a h; with_appended grow n t b u h }"
  have "\<exists>s'. ?f v s = Some s' \<and> at_object_with (foot (TPointer t) s v) ts b s s' (?g z xs)"
    if given: "z \<in> set (map PointsTo ys)" "object ts s b xs" "load (TPointer t) s v = Some z" "separate (TPointer t) s v"
      "foot (TPointer t) s v \<inter> cells ts s b = {}" for s xs v z
  proof -
    obtain a u y where v: "v = Pointer (Some a)" "lookup s a = Some (Var u)" "load t s u = Some y" "z = PointsTo y"
      using given(1,3) by (auto split: gval.splits option.splits cell.splits)
    then have u: "separate t s u" "foot t s u \<subseteq> foot (TPointer t) s v" using given(4) by auto
    with given(5) have "foot t s u \<inter> cells ts s b = {}" by blast
    from appended_sets [OF given(2) assms(2) v(3) u(1) this, of grow] obtain s' where
      s': "with_appended grow n t b u s = Some s'" "at_object_with (foot t s u) ts b s s' (appended n y xs)" by blast
    from changes_with_mono [OF s'(2) u(2)] s'(1) v show ?thesis by (simp add: read_var_def del: foot.simps)
  qed
  from handed_rounds [where f = ?f and g = ?g, OF this assms(1,3)] obtain h' where
    h': "for_each ?f ps h = Some h'" "at_object_with (\<Union> (foot (TPointer t) h ` set ps)) ts b h h' (fold ?g (map PointsTo ys) xs)"
    by blast
  have "fold ?g (map PointsTo ys) = fold (appended n) ys" by (simp add: fold_map comp_def)
  with h'(2) have "at_object_with (\<Union> (foot (TPointer t) h ` set ps)) ts b h h' (fold (appended n) ys xs)" by (simp only:)
  moreover have "with_pointers grow n t ps (Pointer (Some b)) h = Some (Pointer (Some b), h')"
    using h'(1) by (simp add: with_pointers_def)
  ultimately show ?thesis by blast
qed

text \<open>Nil among the pointers panics.\<close>

lemma for_each_stops: "v \<in> set vs \<Longrightarrow> (\<And>s. f v s = None) \<Longrightarrow> for_each f vs s = None"
  by (induction vs arbitrary: s) (auto split: bind_splits)

lemma with_pointers_nil: "Pointer None \<in> set ps \<Longrightarrow> with_pointers grow n t ps p h = None"
  by (simp add: with_pointers_def for_each_stops)

section \<open>Maps\<close>

text \<open>A key is set in a map: a new entry, or another value for the key.\<close>

lemma set_key_change:
  assumes m: "load (TMap t) s (GoMap (Some c)) = Some (Dict m)" "separate (TMap t) s (GoMap (Some c))"
    and v: "load t s v = Some x" "separate t s v" "foot t s v \<inter> foot (TMap t) s (GoMap (Some c)) = {}"
  shows "\<exists>s'. set_key c k v s = Some s' \<and>
    changes_with (foot t s v) (TMap t) s (GoMap (Some c)) s' (GoMap (Some c)) (Dict (fmupd k x m))"
proof -
  obtain es where es: "lookup s c = Some (Entries es)" using m(1) by (auto split: option.splits cell.splits)
  with m(1) load_map_iff [OF es, of t "Dict m"] have d: "distinct (map fst es)"
    "\<And>k. map_of es k = None \<Longrightarrow> fmlookup m k = None"
    "\<And>k u. map_of es k = Some u \<Longrightarrow> \<exists>y. load t s u = Some y \<and> fmlookup m k = Some y" by auto
  have foot: "foot (TMap t) s (GoMap (Some c)) = insert c (\<Union>e \<in> set es. foot t s (snd e))" using es by auto
  have sep: "c \<notin> (\<Union>e \<in> set es. foot t s (snd e))" "apart (map (\<lambda>e. foot t s (snd e)) es)" "\<And>e. e \<in> set es \<Longrightarrow> separate t s (snd e)"
    using m(2) es by (auto simp: list_all_iff comp_def)
  have fv: "c \<notin> foot t s v" "\<And>e. e \<in> set es \<Longrightarrow> foot t s (snd e) \<inter> foot t s v = {}" using v(3) unfolding foot by blast+
  let ?es = "AList.update k v es"
  let ?s = "s[c := Entries ?es]"
  have new: "e = (k, v) \<or> fst e \<noteq> k \<and> e \<in> set es" if "e \<in> set ?es" for e
  proof -
    have "map_of ?es (fst e) = Some (snd e)" using that distinct_update [OF d(1), of k v] by simp
    then have "(if fst e = k then Some v else map_of es (fst e)) = Some (snd e)" by (simp add: update_conv' eq_commute)
    then show ?thesis by (cases "fst e = k") (use map_of_SomeD [of es "fst e" "snd e"] in \<open>auto simp: prod_eq_iff\<close>)
  qed
  have names: "distinct (map fst ?es)" by (rule distinct_update [OF d(1)])
  have same: "load t ?s u = load t s u \<and> foot t ?s u = foot t s u \<and> separate t ?s u = separate t s u"
    if "u = v \<or> (\<exists>e \<in> set es. u = snd e)" for u
  proof -
    have "\<exists>y. load t s u = Some y" using that d(1,3) v(1) by (metis map_of_is_SomeI prod.collapse)
    moreover have "c \<notin> foot t s u" using that sep(1) fv(1) by auto
    ultimately show ?thesis using load_store [of t s u _ c] by auto
  qed
  then have feet: "foot t ?s (snd e) = foot t s (snd e)" if "e \<in> set ?es" for e using new [OF that] by auto
  have cell: "lookup ?s c = Some (Entries ?es)" using lookup_less [OF es] by (simp add: lookup_def)
  have "load (TMap t) ?s (GoMap (Some c)) = Some (Dict (fmupd k x m))"
  proof -
    have "fmlookup (fmupd k x m) k' = None" if "map_of ?es k' = None" for k'
      using that d(2) [of k'] by (auto simp: update_conv' split: if_splits)
    moreover have "\<exists>y. load t ?s u = Some y \<and> fmlookup (fmupd k x m) k' = Some y" if k': "map_of ?es k' = Some u" for k' u
    proof (cases "k' = k")
      case True
      then show ?thesis using k' same [of v] v(1) by (simp add: update_conv')
    next
      case False
      then have u: "map_of es k' = Some u" using k' by (simp add: update_conv')
      then have "load t ?s u = load t s u" using same [of u] map_of_SomeD [OF u] by force
      then show ?thesis using d(3) [OF u] False by auto
    qed
    ultimately show ?thesis unfolding load_map_iff [OF cell] using names by blast
  qed
  moreover have "apart (map (\<lambda>e. foot t ?s (snd e)) ?es)"
  proof -
    have "foot t s (snd e) \<inter> foot t s (snd e') = {}" if "e \<in> set ?es" "e' \<in> set ?es" "fst e \<noteq> fst e'" for e e'
    proof -
      have old: "foot t s (snd d) \<inter> foot t s (snd d') = {}" if "d \<in> set es" "d' \<in> set es" "fst d \<noteq> fst d'" for d d'
        using that sep(2) unfolding apart_map [OF d(1)] by blast
      have "foot t s v \<inter> foot t s (snd d) = {}" if "d \<in> set es" for d using fv(2) [OF that] by (simp add: Int_commute)
      with new [OF that(1)] new [OF that(2)] that(3) old fv(2) show ?thesis by (metis fst_conv snd_conv)
    qed
    then show ?thesis using feet unfolding apart_map [OF names] by simp
  qed
  moreover have "separate t ?s (snd e)" "c \<notin> foot t ?s (snd e)" if "e \<in> set ?es" for e
  proof -
    have "snd e = v \<or> (\<exists>d \<in> set es. snd e = snd d)" using new [OF that] by auto
    with same [OF this] show "separate t ?s (snd e)" "c \<notin> foot t ?s (snd e)" using sep(1,3) fv(1) v(2) by auto
  qed
  moreover have "foot (TMap t) ?s (GoMap (Some c)) \<subseteq> foot (TMap t) s (GoMap (Some c)) \<union> foot t s v \<union> {length s..}"
    unfolding foot using cell new feet by fastforce
  moreover have "writes_only (foot (TMap t) s (GoMap (Some c)) \<union> foot t s v) s ?s" unfolding foot by (auto simp: writes_only_def)
  ultimately show ?thesis using es cell
    by (auto simp: set_key_def read_entries_def changes_with_def list_all_iff comp_def simp del: foot.simps load.simps)
qed

text \<open>\<open>for k, v := range entries { b.n[k] = v }\<close>, after \<open>make\<close> when the map is nil and there are entries\<close>

definition read_map :: "gval \<Rightarrow> memory \<Rightarrow> (string \<times> gval) list option" where
  "read_map v h = (case v of GoMap None \<Rightarrow> Some [] | GoMap (Some c) \<Rightarrow> read_entries c h | _ \<Rightarrow> None)"

definition with_entries :: "(string list \<Rightarrow> string list) \<Rightarrow> string \<Rightarrow> gval \<Rightarrow> gomethod" where
  "with_entries ord n entries p h = do {
     b \<leftarrow> receiver p;
     fs \<leftarrow> read_struct b h;
     m \<leftarrow> map_of fs n;
     es \<leftarrow> read_map entries h;
     h' \<leftarrow> (if m = GoMap None \<and> es \<noteq> [] then set_top n (GoMap (Some (length h))) b (h @ [Entries []]) else Some h);
     h'' \<leftarrow> for_each (\<lambda>k h. do {
         es \<leftarrow> read_map entries h;
         v \<leftarrow> map_of es k;
         fs \<leftarrow> read_struct b h;
         m \<leftarrow> map_of fs n;
         (case m of GoMap (Some c) \<Rightarrow> set_key c k v h | _ \<Rightarrow> None) })
       (ord (map fst es)) h';
     Some (p, h'') }"

fun dict :: "tree \<Rightarrow> (string, tree) fmap" where
  "dict (Dict m) = m"
| "dict _ = fmempty"

definition keyed :: "string \<Rightarrow> string \<Rightarrow> tree \<Rightarrow> (string \<times> tree) list \<Rightarrow> (string \<times> tree) list" where
  "keyed n k x xs = set_field n (Dict (fmupd k x (dict (the (map_of xs n))))) xs"

text \<open>One key of the map of a field\<close>

lemma field_key_set:
  assumes ob: "object ts s b xs" and n: "(n, TMap t) \<in> set ts" and d: "map_of xs n = Some (Dict m)"
    and v: "load t s v = Some x" "separate t s v" "foot t s v \<inter> cells ts s b = {}"
  shows "\<exists>s'. do { fs \<leftarrow> read_struct b s; m \<leftarrow> map_of fs n; (case m of GoMap (Some c) \<Rightarrow> set_key c k v s | _ \<Rightarrow> None) } = Some s' \<and>
    at_object_with (foot t s v) ts b s s' (keyed n k x xs)"
proof -
  obtain fs u y where u: "read_var b s = Some (Struct fs)" "map_of fs n = Some u" "map_of xs n = Some y" "load (TMap t) s u = Some y"
    "separate (TMap t) s u" "foot (TMap t) s u \<subseteq> cells ts s b" by (rule object_field [OF ob n])
  have "load (TMap t) s u = Some (Dict m)" using u(3,4) d by simp
  then obtain c where c: "u = GoMap (Some c)" by (auto split: gval.splits option.splits)
  have "foot t s v \<inter> foot (TMap t) s (GoMap (Some c)) = {}" using v(3) u(6) unfolding c by blast
  from set_key_change [OF \<open>load (TMap t) s u = Some (Dict m)\<close> [unfolded c] u(5) [unfolded c] v(1,2) this, of k] obtain s' where
    s': "set_key c k v s = Some s'" "changes_with (foot t s v) (TMap t) s u s' u (Dict (fmupd k x m))" unfolding c by blast
  have "at_object_with (foot t s v) ts b s s' (keyed n k x xs)"
    using field_unmoved [OF ob u(1,2) n s'(2) v(3)] d by (simp only: keyed_def option.sel dict.simps)
  then show ?thesis using u(1,2) c s'(1) by (simp add: read_struct_def del: foot.simps)
qed

lemma fold_keyed:
  assumes "map_of xs n = Some (Dict m)"
  shows "fold (\<lambda>k. keyed n k (f k)) ks xs = (if ks = [] then xs else set_field n (Dict (fold (\<lambda>k. fmupd k (f k)) ks m)) xs)"
  using assms
proof (induction ks arbitrary: xs m)
  case (Cons k ks)
  have "map_of (keyed n k (f k) xs) n = Some (Dict (fmupd k (f k) m))" using Cons.prems by (simp add: keyed_def map_of_set_field)
  from Cons.IH [OF this] Cons.prems show ?case by (simp add: keyed_def)
qed simp

lemma fold_fmupd:
  assumes "set ks = {k. fmlookup d k \<noteq> None}"
  shows "fold (\<lambda>k. fmupd k (the (fmlookup d k))) ks m = m ++\<^sub>f d"
proof (rule fmap_ext)
  fix k
  have "fmlookup (fold (\<lambda>k. fmupd k (the (fmlookup d k))) ks m) k = (if k \<in> set ks then Some (the (fmlookup d k)) else fmlookup m k)"
    for ks by (induction ks arbitrary: m) auto
  then show "fmlookup (fold (\<lambda>k. fmupd k (the (fmlookup d k))) ks m) k = fmlookup (m ++\<^sub>f d) k"
    using assms by (auto simp: fmlookup_dom_iff)
qed

definition merged :: "string \<Rightarrow> tree \<Rightarrow> (string \<times> tree) list \<Rightarrow> (string \<times> tree) list" where
  "merged n z xs = (if dict z = fmempty then xs else set_field n (Dict (dict (the (map_of xs n)) ++\<^sub>f dict z)) xs)"

text \<open>The field before the loop: a map, made now if there was none\<close>

lemma map_made:
  assumes ob: "object ts h b xs" and n: "(n, TMap t) \<in> set ts"
  shows "\<exists>fs m h' xs'. read_struct b h = Some fs \<and> map_of fs n = Some m \<and>
    (if m = GoMap None then set_top n (GoMap (Some (length h))) b (h @ [Entries []]) else Some h) = Some h' \<and>
    at_object ts b h h' xs' \<and> map_of xs' n = Some (Dict (dict (the (map_of xs n)))) \<and> (\<forall>w. set_field n w xs' = set_field n w xs)"
proof -
  obtain fs u y where u: "read_var b h = Some (Struct fs)" "map_of fs n = Some u" "map_of xs n = Some y" "load (TMap t) h u = Some y"
    by (rule object_field [OF ob n])
  show ?thesis
  proof (cases "u = GoMap None")
    case True
    have "changes (TMap t) h v (h @ [Entries []]) (GoMap (Some (length h))) (Dict fmempty)" for v
      by (simp add: changes_with_def writes_only_def nth_append load_map_iff)
    from field_set [OF ob n _ this] obtain h' where "set_top n (GoMap (Some (length h))) b (h @ [Entries []]) = Some h'"
      "at_object ts b h h' (set_field n (Dict fmempty) xs)" by blast
    then show ?thesis using u True by (auto simp: read_struct_def map_of_set_field simp del: foot.simps)
  next
    case False
    then obtain d where "y = Dict d" using u(4) by (auto split: gval.splits option.splits cell.splits if_splits)
    then show ?thesis using u False object_unchanged [OF ob] by (auto simp: read_struct_def simp del: foot.simps)
  qed
qed

text \<open>The loop over the entries\<close>

lemma apart_keys:
  "distinct ks \<Longrightarrow> (\<And>i j. i \<in> set ks \<Longrightarrow> j \<in> set ks \<Longrightarrow> i \<noteq> j \<Longrightarrow> F i \<inter> F j = {}) \<Longrightarrow> apart (map F ks)"
proof (induction ks)
  case (Cons k ks)
  have "F k \<inter> F j = {}" if "j \<in> set ks" for j using Cons.prems(2) [of k j] that Cons.prems(1) by auto
  then show ?case using Cons by auto
qed simp

lemma entry_rounds:
  assumes ob: "object ts s b xs" and n: "(n, TMap t) \<in> set ts" and d0: "map_of xs n = Some (Dict m)"
    and entries: "load (TMap t) s (GoMap (Some e)) = Some (Dict d)" "separate (TMap t) s (GoMap (Some e))"
      "foot (TMap t) s (GoMap (Some e)) \<inter> cells ts s b = {}" "lookup s e = Some (Entries es)"
    and ks: "distinct ks" "set ks = fst ` set es"
  shows "\<exists>s'. for_each (\<lambda>k h. do {
         es \<leftarrow> read_map (GoMap (Some e)) h;
         v \<leftarrow> map_of es k;
         fs \<leftarrow> read_struct b h;
         m \<leftarrow> map_of fs n;
         (case m of GoMap (Some c) \<Rightarrow> set_key c k v h | _ \<Rightarrow> None) }) ks s = Some s' \<and>
    at_object_with (foot (TMap t) s (GoMap (Some e))) ts b s s' (if ks = [] then xs else set_field n (Dict (m ++\<^sub>f d)) xs)"
    (is "\<exists>s'. for_each ?f ks s = Some s' \<and> _")
proof -
  let ?val = "\<lambda>k. the (map_of es k)" and ?tr = "\<lambda>k. the (fmlookup d k)"
  have es: "distinct (map fst es)" "\<And>k. map_of es k = None \<Longrightarrow> fmlookup d k = None"
    "\<And>k u. map_of es k = Some u \<Longrightarrow> \<exists>y. load t s u = Some y \<and> fmlookup d k = Some y"
    using entries(1) load_map_iff [OF entries(4), of t "Dict d"] by auto
  have foot: "foot (TMap t) s (GoMap (Some e)) = insert e (\<Union>x \<in> set es. foot t s (snd x))" using entries(4) by auto
  have sep: "e \<notin> (\<Union>x \<in> set es. foot t s (snd x))" "apart (map (\<lambda>x. foot t s (snd x)) es)" "\<And>x. x \<in> set es \<Longrightarrow> separate t s (snd x)"
    using entries(2,4) by (auto simp: list_all_iff comp_def)
  have val: "(k, ?val k) \<in> set es" "map_of es k = Some (?val k)" if "k \<in> set ks" for k
    using that ks(2) es(1) by force+
  have given: "load t s (?val k) = Some (?tr k) \<and> separate t s (?val k) \<and> foot t s (?val k) \<inter> cells ts s b = {}"
    if "k \<in> set ks" for k
    using es(3) [OF val(2) [OF that]] sep(3) [OF val(1) [OF that]] entries(3) val(1) [OF that] unfolding foot by force
  have feet: "(\<Union>k \<in> set ks. foot t s (?val k)) \<subseteq> (\<Union>x \<in> set es. foot t s (snd x))" using val(1) by fastforce
  have "apart (map (\<lambda>k. foot t s (?val k)) ks)"
  proof (rule apart_keys [OF ks(1)])
    fix i j
    assume "i \<in> set ks" "j \<in> set ks" "i \<noteq> j"
    then show "foot t s (?val i) \<inter> foot t s (?val j) = {}"
      using sep(2) val(1) [of i] val(1) [of j] unfolding apart_map [OF es(1)] by (metis fst_conv snd_conv)
  qed
  moreover have "{e} \<inter> (cells ts s b \<union> (\<Union>k \<in> set ks. foot t s (?val k))) = {}" using entries(3) sep(1) feet unfolding foot by blast
  moreover have "e < length s" by (rule lookup_less [OF entries(4)])
  moreover have "(\<exists>s2. ?f k s1 = Some s2 \<and> at_object_with (foot t s1 (?val k)) ts b s1 s2 (keyed n k (?tr k) ys)) \<and>
      (\<exists>m. map_of (keyed n k (?tr k) ys) n = Some (Dict m))"
    if step: "k \<in> set ks" "object ts s1 b ys" "\<exists>m. map_of ys n = Some (Dict m)" "same_on {e} s s1" "load t s1 (?val k) = Some (?tr k)"
      "separate t s1 (?val k)" "foot t s1 (?val k) \<inter> cells ts s1 b = {}" for s1 ys k
  proof -
    obtain m where m: "map_of ys n = Some (Dict m)" using step(3) by blast
    have "read_map (GoMap (Some e)) s1 = Some es" using step(4) entries(4) by (simp add: read_map_def read_entries_def same_on_def)
    moreover have "map_of (keyed n k (?tr k) ys) n = Some (Dict (fmupd k (?tr k) m))" using m by (simp add: keyed_def map_of_set_field)
    moreover obtain u where u: "map_of es k = Some u" "?val k = u" using val(2) [OF step(1)] by simp
    ultimately show ?thesis
      using field_key_set [OF step(2) n m step(5-7) [unfolded u(2)], of k] unfolding u(2) by (simp add: u(1) del: foot.simps)
  qed
  ultimately have "\<exists>s'. for_each ?f ks s = Some s' \<and>
      at_object_with (\<Union>k \<in> set ks. foot t s (?val k)) ts b s s' (fold (\<lambda>k. keyed n k (?tr k)) ks xs)"
    using ob d0 given
    by (intro rounds_take_over [where Q = "\<lambda>xs. \<exists>m. map_of xs n = Some (Dict m)" and E = "{e}" and ?s0.0 = s and tr = ?tr])
      (auto simp: same_on_def simp del: foot.simps)
  then obtain s' where s': "for_each ?f ks s = Some s'"
    "at_object_with (\<Union>k \<in> set ks. foot t s (?val k)) ts b s s' (fold (\<lambda>k. keyed n k (?tr k)) ks xs)" by blast
  have "k \<in> set ks \<longleftrightarrow> fmlookup d k \<noteq> None" for k
    using ks(2) es(2,3) [of k] map_of_eq_None_iff [of es k] by (cases "map_of es k") auto
  then have "set ks = {k. fmlookup d k \<noteq> None}" by blast
  then have eq: "fold (\<lambda>k. keyed n k (?tr k)) ks xs = (if ks = [] then xs else set_field n (Dict (m ++\<^sub>f d)) xs)"
    by (simp add: fold_keyed [OF d0] fold_fmupd)
  have "(\<Union>k \<in> set ks. foot t s (?val k)) \<subseteq> foot (TMap t) s (GoMap (Some e))" using feet unfolding foot by blast
  from changes_with_mono [OF s'(2) this] s'(1) show ?thesis unfolding eq by blast
qed

lemma with_entries_sets:
  assumes ob: "object ts h b xs" and n: "(n, TMap t) \<in> set ts" and ord: "range_order ord"
    and z: "load (TMap t) h entries = Some z" "separate (TMap t) h entries" "foot (TMap t) h entries \<inter> cells ts h b = {}"
  shows "\<exists>h'. with_entries ord n entries (Pointer (Some b)) h = Some (Pointer (Some b), h') \<and>
    at_object_with (foot (TMap t) h entries) ts b h h' (merged n z xs)"
proof (cases "\<exists>e es. entries = GoMap (Some e) \<and> lookup h e = Some (Entries es) \<and> es \<noteq> []")
  case False
  obtain fs m where fs: "read_struct b h = Some fs" "map_of fs n = Some m" using map_made [OF ob n] by blast
  have "read_map entries h = Some []" "dict z = fmempty"
    using False z(1) by (auto simp: read_map_def read_entries_def split: gval.splits option.splits cell.splits)
  moreover have "ord [] = []" using ord unfolding range_order_def by (metis distinct.simps(1) set_empty)
  ultimately show ?thesis using fs changes_with_mono [OF object_unchanged [OF ob]]
    by (auto simp: with_entries_def merged_def simp del: foot.simps)
next
  case True
  then obtain e es where e: "entries = GoMap (Some e)" "lookup h e = Some (Entries es)" "es \<noteq> []" by blast
  obtain d where d: "z = Dict d" "distinct (map fst es)" "\<And>k. map_of es k = None \<Longrightarrow> fmlookup d k = None"
    "\<And>k u. map_of es k = Some u \<Longrightarrow> \<exists>y. load t h u = Some y \<and> fmlookup d k = Some y"
    using z(1) load_map_iff [OF e(2), of t z] unfolding e(1) by auto
  obtain fs m h1 xs1 where h1: "read_struct b h = Some fs" "map_of fs n = Some m"
    "(if m = GoMap None then set_top n (GoMap (Some (length h))) b (h @ [Entries []]) else Some h) = Some h1"
    "at_object ts b h h1 xs1" "map_of xs1 n = Some (Dict (dict (the (map_of xs n))))" "\<And>w. set_field n w xs1 = set_field n w xs"
    using map_made [OF ob n] by metis
  have "same_on (foot (TMap t) h entries) h h1"
    by (rule writes_only_same [of "cells ts h b"]) (use h1(4) z(3) in \<open>simp_all add: changes_with_def del: foot.simps\<close>)
  from load_frame [OF z(1) this] have z1: "load (TMap t) h1 entries = Some z" "foot (TMap t) h1 entries = foot (TMap t) h entries"
    "separate (TMap t) h1 entries" using z(2) by simp_all
  have e1: "lookup h1 e = Some (Entries es)" using \<open>same_on _ h h1\<close> e by (auto simp: same_on_def)
  have "cells ts h1 b \<subseteq> cells ts h b \<union> {length h..}" using h1(4) unfolding changes_with_def by blast
  then have disjoint: "foot (TMap t) h1 entries \<inter> cells ts h1 b = {}" using z1(2) z(3) load_cells [OF z(1)] by fastforce
  have ks: "distinct (ord (map fst es))" "set (ord (map fst es)) = fst ` set es" using ord d(2) by (simp_all add: range_order_def)
  then have "ord (map fst es) \<noteq> []" using e(3) by auto
  moreover have "dict z \<noteq> fmempty"
  proof -
    obtain k u es' where "es = (k, u) # es'" using e(3) by (cases es) auto
    then have "map_of es k = Some u" by simp
    from d(4) [OF this] d(1) show ?thesis by auto
  qed
  ultimately obtain h2 where "with_entries ord n entries (Pointer (Some b)) h = Some (Pointer (Some b), h2)"
    "at_object_with (foot (TMap t) h1 entries) ts b h1 h2 (merged n z xs)"
    using entry_rounds [OF object_changed [OF ob h1(4)] n h1(5), of e d es "ord (map fst es)"] z1 e1 disjoint ks h1(1-3,6) e d(1)
    by (auto simp: with_entries_def read_map_def read_entries_def merged_def simp del: foot.simps load.simps separate.simps)
  then show ?thesis using changes_with_trans [OF h1(4)] z1(2) by simp
qed

section \<open>Objects within objects\<close>

text \<open>\<open>&T{}\<close>\<close>

definition new_object :: "gotype \<Rightarrow> memory \<Rightarrow> (gval \<times> memory) option" where
  "new_object t h = Some (Pointer (Some (length h)), h @ [Var (zero t)])"

abbreviation zero_fields :: "(string \<times> gotype) list \<Rightarrow> (string \<times> tree) list" where
  "zero_fields \<equiv> map (\<lambda>nt. (fst nt, zero_tree (snd nt)))"

lemma new_object_change: "changes (TPointer t) h u (h @ [Var (zero t)]) (Pointer (Some (length h))) (PointsTo (zero_tree t))"
  using zero_reads [of t "h @ [Var (zero t)]"] by (simp add: changes_with_def writes_only_def nth_append)

lemma known_field: "(n, t) \<in> set ts \<Longrightarrow> map_of (zero_fields ts) n \<noteq> None"
  by (induction ts) auto

lemma set_last: "map_of xs n \<noteq> None \<Longrightarrow> map_of (set_field n w xs) n = Some w"
  by (simp add: map_of_set_field)

lemma set_before: "m \<noteq> n \<Longrightarrow> map_of (set_field n w xs) m = map_of xs m"
  by (simp add: map_of_set_field)

lemma zero_struct: "zero_tree (TStruct ts) = Fields (zero_fields ts)"
  by (simp add: map_prod_def split_beta')

lemma new_object_object:
  assumes "distinct (map fst ts)"
  shows "object ts (h @ [Var (zero (TStruct ts))]) (length h) (zero_fields ts)"
  using new_object_change [of "TStruct ts" h] assms unfolding zero_struct by (simp add: changes_with_def object_def)

text \<open>\<open>b.m.n = &value\<close> for a struct \<open>m\<close> within the object\<close>

definition with_inner_value :: "string \<Rightarrow> string \<Rightarrow> gval \<Rightarrow> gomethod" where
  "with_inner_value m n v p h = do {
     b \<leftarrow> receiver p;
     h' \<leftarrow> set_inner m n (Pointer (Some (length h))) b (h @ [Var v]);
     Some (p, h') }"

text \<open>\<open>b.m\<close> is a pointer to a struct: it is made when it is nil, and the method then works on that struct.\<close>

definition ensure_exists :: "string \<Rightarrow> gotype \<Rightarrow> addr \<Rightarrow> memory \<Rightarrow> memory option" where
  "ensure_exists m t b h = do {
     fs \<leftarrow> read_struct b h;
     v \<leftarrow> map_of fs m;
     (if v = Pointer None then set_top m (Pointer (Some (length h))) b (h @ [Var (zero t)]) else Some h) }"

definition on_pointer :: "string \<Rightarrow> gotype \<Rightarrow> gomethod \<Rightarrow> gomethod" where
  "on_pointer m t f p h = do {
     b \<leftarrow> receiver p;
     h \<leftarrow> ensure_exists m t b h;
     fs \<leftarrow> read_struct b h;
     v \<leftarrow> map_of fs m;
     (_, h) \<leftarrow> f v h;
     Some (p, h) }"

text \<open>The struct behind the pointer, on trees\<close>

definition pointed :: "string \<Rightarrow> (string \<times> gotype) list \<Rightarrow> (string \<times> tree) list \<Rightarrow> (string \<times> tree) list" where
  "pointed m ms xs = (case map_of xs m of Some (PointsTo (Fields ys)) \<Rightarrow> ys | _ \<Rightarrow> zero_fields ms)"

definition on_pointed :: "string \<Rightarrow> (string \<times> gotype) list \<Rightarrow> ((string \<times> tree) list \<Rightarrow> (string \<times> tree) list) \<Rightarrow>
    (string \<times> tree) list \<Rightarrow> (string \<times> tree) list" where
  "on_pointed m ms g xs = set_field m (PointsTo (Fields (g (pointed m ms xs)))) xs"

lemma ensured:
  assumes ob: "object ts h b xs" and m: "(m, TPointer (TStruct ms)) \<in> set ts" and ms: "distinct (map fst ms)"
  shows "\<exists>h' xs' c fs. ensure_exists m (TStruct ms) b h = Some h' \<and> at_object ts b h h' xs' \<and>
    read_var b h' = Some (Struct fs) \<and> map_of fs m = Some (Pointer (Some c)) \<and>
    object ms h' c (pointed m ms xs) \<and> cells ms h' c \<subseteq> cells ts h' b \<and> (\<forall>w. set_field m w xs' = set_field m w xs)"
proof -
  have inner: "\<exists>fs c. read_var b s = Some (Struct fs) \<and> map_of fs m = Some (Pointer (Some c)) \<and> object ms s c ys \<and>
      cells ms s c \<subseteq> cells ts s b"
    if zs: "object ts s b zs" "map_of zs m = Some (PointsTo (Fields ys))" for s zs ys
  proof -
    obtain fs v y where v: "read_var b s = Some (Struct fs)" "map_of fs m = Some v" "map_of zs m = Some y"
      "load (TPointer (TStruct ms)) s v = Some y" "separate (TPointer (TStruct ms)) s v"
      "foot (TPointer (TStruct ms)) s v \<subseteq> cells ts s b" by (rule object_field [OF zs(1) m])
    then have y: "load (TPointer (TStruct ms)) s v = Some (PointsTo (Fields ys))" using zs(2) by simp
    then obtain c where "v = Pointer (Some c)" by (auto split: gval.splits option.splits)
    with v y ms show ?thesis by (auto simp: object_def simp del: foot.simps load.simps separate.simps)
  qed
  obtain fs v y where v: "read_var b h = Some (Struct fs)" "map_of fs m = Some v" "map_of xs m = Some y"
    "load (TPointer (TStruct ms)) h v = Some y" by (rule object_field [OF ob m])
  show ?thesis
  proof (cases "v = Pointer None")
    case True
    have "\<exists>h'. set_top m (Pointer (Some (length h))) b (h @ [Var (zero (TStruct ms))]) = Some h' \<and>
      at_object ts b h h' (set_field m (PointsTo (zero_tree (TStruct ms))) xs)"
      by (rule field_set [OF ob m _ new_object_change]) simp
    then obtain h' where h': "set_top m (Pointer (Some (length h))) b (h @ [Var (zero (TStruct ms))]) = Some h'"
      "at_object ts b h h' (set_field m (PointsTo (Fields (zero_fields ms))) xs)" unfolding zero_struct by blast
    have "pointed m ms xs = zero_fields ms" using v(3,4) True by (auto simp: pointed_def)
    moreover have "map_of (set_field m (PointsTo (Fields (zero_fields ms))) xs) m = Some (PointsTo (Fields (zero_fields ms)))"
      using v(3) by (simp add: map_of_set_field)
    note inner [OF object_changed [OF ob h'(2)] this]
    ultimately show ?thesis using h' v(1,2) True
      by (auto simp: ensure_exists_def read_struct_def simp del: foot.simps)
  next
    case False
    then obtain ys where "y = PointsTo (Fields ys)"
      using v(4) by (auto simp: load_struct split: gval.splits option.splits cell.splits)
    then have "map_of xs m = Some (PointsTo (Fields ys))" "pointed m ms xs = ys" using v(3) by (simp_all add: pointed_def)
    with inner [OF ob this(1)] object_unchanged [OF ob] v(1,2) False show ?thesis
      by (auto simp: ensure_exists_def read_struct_def simp del: foot.simps)
  qed
qed

lemma on_pointer_sets:
  assumes ob: "object ts h b xs" and m: "(m, TPointer (TStruct ms)) \<in> set ts" and ms: "distinct (map fst ms)"
    and A: "A \<inter> cells ts h b = {}" "A \<subseteq> {..<length h}"
    and f: "\<And>s c ys. object ms s c ys \<Longrightarrow> same_on A h s \<Longrightarrow> A \<inter> cells ms s c = {} \<Longrightarrow>
      \<exists>s'. f (Pointer (Some c)) s = Some (Pointer (Some c), s') \<and> at_object_with A ms c s s' (g ys)"
  shows "\<exists>h'. on_pointer m (TStruct ms) f (Pointer (Some b)) h = Some (Pointer (Some b), h') \<and>
    at_object_with A ts b h h' (on_pointed m ms g xs)"
proof -
  obtain h1 xs1 c fs where h1: "ensure_exists m (TStruct ms) b h = Some h1" "at_object ts b h h1 xs1"
    "read_var b h1 = Some (Struct fs)" "map_of fs m = Some (Pointer (Some c))" "object ms h1 c (pointed m ms xs)"
    "cells ms h1 c \<subseteq> cells ts h1 b" "\<And>w. set_field m w xs1 = set_field m w xs" using ensured [OF ob m ms] by blast
  have "writes_only (cells ts h b) h h1" "cells ts h1 b \<subseteq> cells ts h b \<union> {length h..}"
    using h1(2) unfolding changes_with_def Un_empty_right by blast+
  then have "same_on A h h1" and A1: "A \<inter> cells ts h1 b = {}" using A writes_only_same by (blast, fastforce)
  moreover have "A \<inter> cells ms h1 c = {}" using A1 h1(6) by blast
  ultimately obtain h2 where h2: "f (Pointer (Some c)) h1 = Some (Pointer (Some c), h2)"
    "at_object_with A ms c h1 h2 (g (pointed m ms xs))" using f [OF h1(5)] by blast
  from field_unmoved [OF object_changed [OF ob h1(2)] h1(3,4) m h2(2) A1]
  have "at_object_with A ts b h1 h2 (on_pointed m ms g xs)" by (simp only: h1(7) on_pointed_def)
  from changes_with_trans [OF h1(2) this] h1(1,3,4) h2(1) show ?thesis
    by (simp add: on_pointer_def read_struct_def del: foot.simps)
qed

text \<open>Getters: a field of a struct within the object, and of the struct behind a pointer of the object, which is made when it is nil\<close>

definition get_inner_value :: "string \<Rightarrow> string \<Rightarrow> gomethod" where
  "get_inner_value m n p h = do {
     b \<leftarrow> receiver p;
     v \<leftarrow> get_inner m n b h;
     Some (v, h) }"

definition get_pointed :: "string \<Rightarrow> gotype \<Rightarrow> string \<Rightarrow> gomethod" where
  "get_pointed m t n p h = do {
     b \<leftarrow> receiver p;
     h \<leftarrow> ensure_exists m t b h;
     fs \<leftarrow> read_struct b h;
     v \<leftarrow> map_of fs m;
     c \<leftarrow> receiver v;
     gs \<leftarrow> read_struct c h;
     u \<leftarrow> map_of gs n;
     Some (u, h) }"

lemma get_inner_value_reads:
  assumes "object ts h b xs" "(m, TStruct ms) \<in> set ts" "distinct (map fst ms)" "(n, t) \<in> set ms" "map_of xs m = Some (Fields ys)"
  shows "\<exists>v. get_inner_value m n (Pointer (Some b)) h = Some (v, h) \<and> load t h v = map_of ys n"
proof -
  obtain fs gs zs where in0: "read_var b h = Some (Struct fs)" "map_of fs m = Some (Struct gs)" "map_of xs m = Some (Fields zs)"
    "\<And>n t. (n, t) \<in> set ms \<Longrightarrow> \<exists>v y. map_of gs n = Some v \<and> map_of zs n = Some y \<and> load t h v = Some y"
    by (rule object_inner [OF assms(1-3)]) (rule that)
  then show ?thesis using in0(4) [OF assms(4)] assms(5) by (auto simp: get_inner_value_def get_inner_def read_struct_def)
qed

lemma get_pointed_reads:
  assumes ob: "object ts h b xs" and m: "(m, TPointer (TStruct ms)) \<in> set ts" and ms: "distinct (map fst ms)" and n: "(n, t) \<in> set ms"
  shows "\<exists>v h' xs'. get_pointed m (TStruct ms) n (Pointer (Some b)) h = Some (v, h') \<and> at_object ts b h h' xs' \<and>
    load t h' v = map_of (pointed m ms xs) n \<and> (\<forall>w. set_field m w xs' = set_field m w xs) \<and> (map_of xs m \<noteq> Some NilRef \<longrightarrow> h' = h)"
proof -
  obtain h' xs' c fs where h': "ensure_exists m (TStruct ms) b h = Some h'" "at_object ts b h h' xs'"
    "read_var b h' = Some (Struct fs)" "map_of fs m = Some (Pointer (Some c))" "object ms h' c (pointed m ms xs)"
    "\<And>w. set_field m w xs' = set_field m w xs" using ensured [OF ob m ms] by blast
  obtain gs v y where v: "read_var c h' = Some (Struct gs)" "map_of gs n = Some v" "map_of (pointed m ms xs) n = Some y"
    "load t h' v = Some y" by (rule object_field [OF h'(5) n])
  obtain ks u z where u: "read_var b h = Some (Struct ks)" "map_of ks m = Some u" "map_of xs m = Some z"
    "load (TPointer (TStruct ms)) h u = Some z" by (rule object_field [OF ob m])
  then have "map_of xs m \<noteq> Some NilRef \<longrightarrow> h' = h"
    using h'(1) by (auto simp: ensure_exists_def read_struct_def split: if_splits simp del: foot.simps)
  moreover have "get_pointed m (TStruct ms) n (Pointer (Some b)) h = Some (v, h')"
    using h'(1,3,4) v(1,2) by (simp add: get_pointed_def read_struct_def)
  ultimately show ?thesis using h'(2,6) v(3,4) by metis
qed

lemma with_inner_value_sets:
  assumes ob: "object ts h b xs" and m: "(m, TStruct ms) \<in> set ts" and ms: "distinct (map fst ms)" and n: "(n, TPointer t) \<in> set ms"
    and v: "load t h v = Some x" "separate t h v" "foot t h v = {}"
  shows "\<exists>h'. with_inner_value m n v (Pointer (Some b)) h = Some (Pointer (Some b), h') \<and>
    at_object ts b h h' (on_inner m (set_field n (PointsTo x)) xs)"
proof -
  obtain fs gs ys where in0: "read_var b h = Some (Struct fs)" "map_of fs m = Some (Struct gs)"
    "\<And>n t. (n, t) \<in> set ms \<Longrightarrow> \<exists>v y. map_of gs n = Some v \<and> map_of ys n = Some y \<and> load t h v = Some y"
    by (rule object_inner [OF ob m ms]) (rule that)
  obtain u where "get_inner m n b h = Some u" using in0(1,2) in0(3) [OF n] by (auto simp: get_inner_def read_struct_def)
  from set_inner_changes [OF ob m ms n this] new_value_change [OF v(1,2), unfolded v(3)] show ?thesis
    by (fastforce simp: with_inner_value_def simp del: foot.simps)
qed

section \<open>What a setter promises\<close>

text \<open>
  A setter with an argument that shares no cell with the object: it returns the receiver, the object changes as \<open>g\<close> says and takes over
  the cells of the argument, and nothing else changes.
\<close>

definition argument_setter ::
  "(string \<times> gotype) list \<Rightarrow> gotype \<Rightarrow> (gval \<Rightarrow> gomethod) \<Rightarrow>
   (tree \<Rightarrow> (string \<times> tree) list \<Rightarrow> (string \<times> tree) list) \<Rightarrow> bool" where
  "argument_setter ts t f g \<longleftrightarrow> (\<forall>h b xs v x. object ts h b xs \<longrightarrow> load t h v = Some x \<longrightarrow> separate t h v \<longrightarrow>
     foot t h v \<inter> cells ts h b = {} \<longrightarrow>
     (\<exists>h'. f v (Pointer (Some b)) h = Some (Pointer (Some b), h') \<and> at_object_with (foot t h v) ts b h h' (g x xs)))"

text \<open>A setter with a list of arguments\<close>

definition variadic_setter ::
  "(string \<times> gotype) list \<Rightarrow> gotype \<Rightarrow> (gval list \<Rightarrow> gomethod) \<Rightarrow>
   (tree list \<Rightarrow> (string \<times> tree) list \<Rightarrow> (string \<times> tree) list) \<Rightarrow> bool" where
  "variadic_setter ts t f g \<longleftrightarrow> (\<forall>h b xs vs ys. object ts h b xs \<longrightarrow> handed t ts h b vs ys \<longrightarrow>
     (\<exists>h'. f vs (Pointer (Some b)) h = Some (Pointer (Some b), h') \<and>
       at_object_with (\<Union> (foot t h ` set vs)) ts b h h' (g ys xs)))"

text \<open>A setter with a list of pointers, which panics when one of them is nil\<close>

definition pointers_setter ::
  "(string \<times> gotype) list \<Rightarrow> gotype \<Rightarrow> (gval list \<Rightarrow> gomethod) \<Rightarrow>
   (tree list \<Rightarrow> (string \<times> tree) list \<Rightarrow> (string \<times> tree) list) \<Rightarrow> bool" where
  "pointers_setter ts t f g \<longleftrightarrow> (\<forall>h b xs ps ys. object ts h b xs \<longrightarrow> handed (TPointer t) ts h b ps (map PointsTo ys) \<longrightarrow>
     (\<exists>h'. f ps (Pointer (Some b)) h = Some (Pointer (Some b), h') \<and>
       at_object_with (\<Union> (foot (TPointer t) h ` set ps)) ts b h h' (g ys xs))) \<and>
     (\<forall>ps p h. Pointer None \<in> set ps \<longrightarrow> f ps p h = None)"

named_theorems setters \<open>the setters of each form keep their promise\<close>

lemma value_setter [setters]: "(n, TPointer t) \<in> set ts \<Longrightarrow> argument_setter ts t (with_value n) (\<lambda>x. set_field n (PointsTo x))"
  unfolding argument_setter_def using with_value_sets by blast

lemma pointer_setter [setters]: "(n, t) \<in> set ts \<Longrightarrow> argument_setter ts t (with_pointer n) (set_field n)"
  unfolding argument_setter_def using with_pointer_sets by blast

lemma entries_setter [setters]: "(n, TMap t) \<in> set ts \<Longrightarrow> range_order ord \<Longrightarrow> argument_setter ts (TMap t) (with_entries ord n) (merged n)"
  unfolding argument_setter_def using with_entries_sets by blast

lemma values_setter [setters]: "(n, TSlice t) \<in> set ts \<Longrightarrow> variadic_setter ts t (with_values grow n t) (fold (appended n))"
  unfolding variadic_setter_def using with_values_sets by blast

lemma appended_pointers_setter [setters]:
  "(n, TSlice t) \<in> set ts \<Longrightarrow> pointers_setter ts t (with_pointers grow n t) (fold (appended n))"
  unfolding pointers_setter_def using with_pointers_sets with_pointers_nil by blast

lemma inner_setter [setters]:
  "(m, TStruct ms) \<in> set ts \<Longrightarrow> distinct (map fst ms) \<Longrightarrow> (n, TPointer (TScalar k)) \<in> set ms \<Longrightarrow>
     argument_setter ts (TScalar k) (with_inner_value m n) (\<lambda>x. on_inner m (set_field n (PointsTo x)))"
  unfolding argument_setter_def using with_inner_value_sets [of ts _ _ _ m ms n "TScalar k"] by simp

text \<open>A chain of setters builds a new object: it stays apart from the memory that was there.\<close>

lemma chained_setter:
  assumes "argument_setter ts (TScalar k) f g" "distinct (map fst ts)" "kind_of v = k"
    and "copied (TPointer (TStruct ts)) h (PointsTo (Fields xs)) (Pointer (Some b)) s"
  shows "\<exists>s'. f (Scalar v) (Pointer (Some b)) s = Some (Pointer (Some b), s') \<and>
    copied (TPointer (TStruct ts)) h (PointsTo (Fields (g (Leaf v) xs))) (Pointer (Some b)) s'"
proof -
  have "object ts s b xs" using assms(2,4) by (simp add: object_def copied_def)
  moreover have "load (TScalar k) s (Scalar v) = Some (Leaf v)" "separate (TScalar k) s (Scalar v)" "foot (TScalar k) s (Scalar v) = {}"
    using assms(3) by simp_all
  ultimately obtain s' where "f (Scalar v) (Pointer (Some b)) s = Some (Pointer (Some b), s')"
    "at_object ts b s s' (g (Leaf v) xs)" using assms(1) unfolding argument_setter_def by (metis Int_empty_left)
  with copied_changes [OF assms(4)] show ?thesis by blast
qed

lemma new_object_copied: "copied (TPointer t) h (PointsTo (zero_tree t)) (Pointer (Some (length h))) (h @ [Var (zero t)])"
  using zero_reads [of t "h @ [Var (zero t)]"] by (simp add: copied_def nth_append)

text \<open>Arguments stay as they are when the object around the receiver is changed.\<close>

lemma handed_later:
  assumes vs: "handed t ts h b vs ys" and same: "same_on (\<Union> (foot t h ` set vs)) h s" and "(\<Union> (foot t h ` set vs)) \<inter> cells ms s c = {}"
  shows "handed t ms s c vs ys" "foot t s ` set vs = foot t h ` set vs"
proof -
  have kept: "load t s v = load t h v \<and> foot t s v = foot t h v \<and> separate t s v = separate t h v" if v: "v \<in> set vs" for v
  proof -
    obtain y where y: "load t h v = Some y" using vs load_all_Some [OF _ v] by (auto simp: handed_def)
    have "same_on (foot t h v) h s" by (rule same_on_subset [OF same]) (use v in blast)
    from load_frame [OF y this] y show ?thesis by simp
  qed
  show "foot t s ` set vs = foot t h ` set vs" using kept by auto
  show "handed t ms s c vs ys"
    using vs values_kept [of vs t s h, OF kept] kept assms(3)
    by (fastforce simp: handed_def list_all_iff simp del: foot.simps map_eq_conv)
qed

lemma on_pointer_argument [setters]:
  assumes f: "argument_setter ms t f g" and m: "(m, TPointer (TStruct ms)) \<in> set ts" and ms: "distinct (map fst ms)"
  shows "argument_setter ts t (\<lambda>v. on_pointer m (TStruct ms) (f v)) (\<lambda>x. on_pointed m ms (g x))"
  unfolding argument_setter_def
proof (intro allI impI)
  fix h b xs v x
  assume ob: "object ts h b xs" and v: "load t h v = Some x" "separate t h v" "foot t h v \<inter> cells ts h b = {}"
  show "\<exists>h'. on_pointer m (TStruct ms) (f v) (Pointer (Some b)) h = Some (Pointer (Some b), h') \<and>
      at_object_with (foot t h v) ts b h h' (on_pointed m ms (g x) xs)"
  proof (rule on_pointer_sets [OF ob m ms v(3) load_cells [OF v(1)]])
    fix s c ys
    assume s: "object ms s c ys" "same_on (foot t h v) h s" "foot t h v \<inter> cells ms s c = {}"
    have "load t s v = Some x" "foot t s v = foot t h v" "separate t s v" using load_frame [OF v(1) s(2)] v(2) by simp_all
    then show "\<exists>s'. f v (Pointer (Some c)) s = Some (Pointer (Some c), s') \<and> at_object_with (foot t h v) ms c s s' (g x ys)"
      using f s(1,3) unfolding argument_setter_def by metis
  qed
qed

lemma handed_cells:
  assumes "handed t ts h b vs ys"
  shows "(\<Union> (foot t h ` set vs)) \<inter> cells ts h b = {}" "(\<Union> (foot t h ` set vs)) \<subseteq> {..<length h}"
  using assms load_cells load_all_Some by (fastforce simp: handed_def list_all_iff simp del: foot.simps)+

lemma on_pointer_variadic [setters]:
  assumes f: "variadic_setter ms t f g" and m: "(m, TPointer (TStruct ms)) \<in> set ts" and ms: "distinct (map fst ms)"
  shows "variadic_setter ts t (\<lambda>vs. on_pointer m (TStruct ms) (f vs)) (\<lambda>ys. on_pointed m ms (g ys))"
  unfolding variadic_setter_def
proof (intro allI impI)
  fix h b xs vs ys
  assume ob: "object ts h b xs" and vs: "handed t ts h b vs ys"
  show "\<exists>h'. on_pointer m (TStruct ms) (f vs) (Pointer (Some b)) h = Some (Pointer (Some b), h') \<and>
      at_object_with (\<Union> (foot t h ` set vs)) ts b h h' (on_pointed m ms (g ys) xs)"
  proof (rule on_pointer_sets [OF ob m ms handed_cells [OF vs]])
    fix s c zs
    assume s: "object ms s c zs" "same_on (\<Union> (foot t h ` set vs)) h s" "\<Union> (foot t h ` set vs) \<inter> cells ms s c = {}"
    from handed_later [OF vs s(2,3)] f s(1)
    show "\<exists>s'. f vs (Pointer (Some c)) s = Some (Pointer (Some c), s') \<and>
        at_object_with (\<Union> (foot t h ` set vs)) ms c s s' (g ys zs)" unfolding variadic_setter_def by metis
  qed
qed

lemma on_pointer_pointers [setters]:
  assumes f: "pointers_setter ms t f g" and m: "(m, TPointer (TStruct ms)) \<in> set ts" and ms: "distinct (map fst ms)"
  shows "pointers_setter ts t (\<lambda>vs. on_pointer m (TStruct ms) (f vs)) (\<lambda>ys. on_pointed m ms (g ys))"
proof -
  have "\<exists>h'. on_pointer m (TStruct ms) (f ps) (Pointer (Some b)) h = Some (Pointer (Some b), h') \<and>
      at_object_with (\<Union> (foot (TPointer t) h ` set ps)) ts b h h' (on_pointed m ms (g ys) xs)"
    if ob: "object ts h b xs" and ps: "handed (TPointer t) ts h b ps (map PointsTo ys)" for h b xs ps ys
  proof (rule on_pointer_sets [OF ob m ms handed_cells [OF ps]])
    fix s c zs
    assume s: "object ms s c zs" "same_on (\<Union> (foot (TPointer t) h ` set ps)) h s" "\<Union> (foot (TPointer t) h ` set ps) \<inter> cells ms s c = {}"
    from handed_later [OF ps s(2,3)] f s(1)
    show "\<exists>s'. f ps (Pointer (Some c)) s = Some (Pointer (Some c), s') \<and>
        at_object_with (\<Union> (foot (TPointer t) h ` set ps)) ms c s s' (g ys zs)" unfolding pointers_setter_def by metis
  qed
  moreover have "on_pointer m (TStruct ms) (f ps) p h = None" if "Pointer None \<in> set ps" for ps p h
    using f that by (auto simp: pointers_setter_def on_pointer_def split: bind_splits)
  ultimately show ?thesis unfolding pointers_setter_def by blast
qed

end
