(* ===== verification/Apply_Config.thy ===== *)
theory Apply_Config
  imports Deep_Copy Go_Setters
begin

text \<open>
  The apply configurations of locations (\<open>api/v1alpha1/applyconfiguration\<close>), generated for server-side apply: structs whose fields are all
  optional, and setters that return their receiver. \<open>X_fields\<close> is the declaration of \<open>XApplyConfiguration\<close>, \<open>new_X\<close> its constructor and
  \<open>X_WithF\<close> the setter of a field. The configurations of metadata and owner references are types of client-go and arguments of the model.
\<close>

section \<open>What the generated code takes from its libraries\<close>

text \<open>\<open>append_room\<close> is the spare capacity of an array that \<open>append\<close> makes, given the number of values it had to move.\<close>

record apply_library =
  kube :: copy_library
  TypeMetaApply_fields :: "(string \<times> gotype) list"
  ObjectMetaApply_fields :: "(string \<times> gotype) list"
  OwnerReferenceApply_t :: gotype
  append_room :: "nat \<Rightarrow> nat"

locale go_apply_library =
  fixes A :: apply_library
  assumes any_order: "range_order (map_range (kube A))"
    and type_names: "distinct (map fst (TypeMetaApply_fields A))"
    and type_fields: "set [(''Kind'', TPointer (TScalar Text)), (''APIVersion'', TPointer (TScalar Text))] \<subseteq> set (TypeMetaApply_fields A)"
    and meta_names: "distinct (map fst (ObjectMetaApply_fields A))"
    and meta_fields: "set
      [(''Name'', TPointer (TScalar Text)), (''GenerateName'', TPointer (TScalar Text)), (''Namespace'', TPointer (TScalar Text)),
       (''UID'', TPointer (TScalar Text)), (''ResourceVersion'', TPointer (TScalar Text)), (''Generation'', TPointer (TScalar Number)),
       (''CreationTimestamp'', TPointer (Time_t (kube A))), (''DeletionTimestamp'', TPointer (Time_t (kube A))),
       (''DeletionGracePeriodSeconds'', TPointer (TScalar Number)), (''Labels'', TMap (TScalar Text)),
       (''Annotations'', TMap (TScalar Text)), (''OwnerReferences'', TSlice (OwnerReferenceApply_t A)),
       (''Finalizers'', TSlice (TScalar Text))] \<subseteq> set (ObjectMetaApply_fields A)"

section \<open>Types, constructors and setters\<close>

text \<open>\<open>CacheConfigSpecApplyConfiguration\<close> (\<open>api/v1alpha1/applyconfiguration/api/v1alpha1/cacheconfigspec.go\<close>)\<close>

definition CacheConfigSpec_fields :: "apply_library \<Rightarrow> (string \<times> gotype) list" where
  "CacheConfigSpec_fields A =
    [(''Name'', TPointer (TScalar Text)), (''Path'', TPointer (TScalar Text)), (''KeysZone'', TPointer (TScalar Text)),
     (''Inactive'', TPointer (TScalar Text)), (''MaxSize'', TPointer (TScalar Text))]"

definition new_CacheConfigSpec :: "apply_library \<Rightarrow> memory \<Rightarrow> (gval \<times> memory) option" where
  "new_CacheConfigSpec A = new_object (TStruct (CacheConfigSpec_fields A))"

definition CacheConfigSpec_WithName :: "gval \<Rightarrow> gomethod" where
  "CacheConfigSpec_WithName = with_value ''Name''"

definition CacheConfigSpec_WithPath :: "gval \<Rightarrow> gomethod" where
  "CacheConfigSpec_WithPath = with_value ''Path''"

definition CacheConfigSpec_WithKeysZone :: "gval \<Rightarrow> gomethod" where
  "CacheConfigSpec_WithKeysZone = with_value ''KeysZone''"

definition CacheConfigSpec_WithInactive :: "gval \<Rightarrow> gomethod" where
  "CacheConfigSpec_WithInactive = with_value ''Inactive''"

definition CacheConfigSpec_WithMaxSize :: "gval \<Rightarrow> gomethod" where
  "CacheConfigSpec_WithMaxSize = with_value ''MaxSize''"

text \<open>\<open>GeoLookupAttributeValuesSpecApplyConfiguration\<close> (\<open>api/v1alpha1/applyconfiguration/api/v1alpha1/geolookupattributevaluesspec.go\<close>)\<close>

definition GeoLookupAttributeValuesSpec_fields :: "apply_library \<Rightarrow> (string \<times> gotype) list" where
  "GeoLookupAttributeValuesSpec_fields A =
    [(''Value'', TPointer (TScalar Text)), (''Weight'', TPointer (TScalar Number))]"

definition new_GeoLookupAttributeValuesSpec :: "apply_library \<Rightarrow> memory \<Rightarrow> (gval \<times> memory) option" where
  "new_GeoLookupAttributeValuesSpec A = new_object (TStruct (GeoLookupAttributeValuesSpec_fields A))"

definition GeoLookupAttributeValuesSpec_WithValue :: "gval \<Rightarrow> gomethod" where
  "GeoLookupAttributeValuesSpec_WithValue = with_value ''Value''"

definition GeoLookupAttributeValuesSpec_WithWeight :: "gval \<Rightarrow> gomethod" where
  "GeoLookupAttributeValuesSpec_WithWeight = with_value ''Weight''"

text \<open>\<open>GeoLookupAttributeSpecApplyConfiguration\<close> (\<open>api/v1alpha1/applyconfiguration/api/v1alpha1/geolookupattributespec.go\<close>)\<close>

definition GeoLookupAttributeSpec_fields :: "apply_library \<Rightarrow> (string \<times> gotype) list" where
  "GeoLookupAttributeSpec_fields A =
    [(''Weight'', TPointer (TScalar Number)), (''Values'', TSlice (TStruct (GeoLookupAttributeValuesSpec_fields A)))]"

definition new_GeoLookupAttributeSpec :: "apply_library \<Rightarrow> memory \<Rightarrow> (gval \<times> memory) option" where
  "new_GeoLookupAttributeSpec A = new_object (TStruct (GeoLookupAttributeSpec_fields A))"

definition GeoLookupAttributeSpec_WithWeight :: "gval \<Rightarrow> gomethod" where
  "GeoLookupAttributeSpec_WithWeight = with_value ''Weight''"

definition GeoLookupAttributeSpec_WithValues :: "apply_library \<Rightarrow> gval list \<Rightarrow> gomethod" where
  "GeoLookupAttributeSpec_WithValues A =
     with_pointers (append_room A) ''Values'' (TStruct (GeoLookupAttributeValuesSpec_fields A))"

text \<open>\<open>GeoLookupSpecApplyConfiguration\<close> (\<open>api/v1alpha1/applyconfiguration/api/v1alpha1/geolookupspec.go\<close>)\<close>

definition GeoLookupSpec_fields :: "apply_library \<Rightarrow> (string \<times> gotype) list" where
  "GeoLookupSpec_fields A =
    [(''Weight'', TPointer (TScalar Number)), (''Attributes'', TMap (TStruct (GeoLookupAttributeSpec_fields A)))]"

definition new_GeoLookupSpec :: "apply_library \<Rightarrow> memory \<Rightarrow> (gval \<times> memory) option" where
  "new_GeoLookupSpec A = new_object (TStruct (GeoLookupSpec_fields A))"

definition GeoLookupSpec_WithWeight :: "gval \<Rightarrow> gomethod" where
  "GeoLookupSpec_WithWeight = with_value ''Weight''"

definition GeoLookupSpec_WithAttributes :: "apply_library \<Rightarrow> gval \<Rightarrow> gomethod" where
  "GeoLookupSpec_WithAttributes A = with_entries (map_range (kube A)) ''Attributes''"

text \<open>\<open>PrometheusAlertMatcherSpecApplyConfiguration\<close> (\<open>api/v1alpha1/applyconfiguration/api/v1alpha1/prometheusalertmatcherspec.go\<close>)\<close>

definition PrometheusAlertMatcherSpec_fields :: "apply_library \<Rightarrow> (string \<times> gotype) list" where
  "PrometheusAlertMatcherSpec_fields A =
    [(''AlertName'', TPointer (TScalar Text)), (''Labels'', TMap (TScalar Text))]"

definition new_PrometheusAlertMatcherSpec :: "apply_library \<Rightarrow> memory \<Rightarrow> (gval \<times> memory) option" where
  "new_PrometheusAlertMatcherSpec A = new_object (TStruct (PrometheusAlertMatcherSpec_fields A))"

definition PrometheusAlertMatcherSpec_WithAlertName :: "gval \<Rightarrow> gomethod" where
  "PrometheusAlertMatcherSpec_WithAlertName = with_value ''AlertName''"

definition PrometheusAlertMatcherSpec_WithLabels :: "apply_library \<Rightarrow> gval \<Rightarrow> gomethod" where
  "PrometheusAlertMatcherSpec_WithLabels A = with_entries (map_range (kube A)) ''Labels''"

text \<open>\<open>NodeSpecApplyConfiguration\<close> (\<open>api/v1alpha1/applyconfiguration/api/v1alpha1/nodespec.go\<close>)\<close>

definition NodeSpec_fields :: "apply_library \<Rightarrow> (string \<times> gotype) list" where
  "NodeSpec_fields A =
    [(''Name'', TPointer (TScalar Text)), (''Ipv4'', TPointer (TScalar Text)), (''Ipv6'', TPointer (TScalar Text)),
     (''Caches'', TSlice (TScalar Text)), (''MaintenanceMode'', TPointer (TScalar Flag)),
     (''Alerts'', TSlice (TStruct (PrometheusAlertMatcherSpec_fields A))),
     (''HealthCheck'', TPointer (LocalObjectReference_t (kube A)))]"

definition new_NodeSpec :: "apply_library \<Rightarrow> memory \<Rightarrow> (gval \<times> memory) option" where
  "new_NodeSpec A = new_object (TStruct (NodeSpec_fields A))"

definition NodeSpec_WithName :: "gval \<Rightarrow> gomethod" where
  "NodeSpec_WithName = with_value ''Name''"

definition NodeSpec_WithIpv4 :: "gval \<Rightarrow> gomethod" where
  "NodeSpec_WithIpv4 = with_value ''Ipv4''"

definition NodeSpec_WithIpv6 :: "gval \<Rightarrow> gomethod" where
  "NodeSpec_WithIpv6 = with_value ''Ipv6''"

definition NodeSpec_WithCaches :: "apply_library \<Rightarrow> gval list \<Rightarrow> gomethod" where
  "NodeSpec_WithCaches A = with_values (append_room A) ''Caches'' (TScalar Text)"

definition NodeSpec_WithMaintenanceMode :: "gval \<Rightarrow> gomethod" where
  "NodeSpec_WithMaintenanceMode = with_value ''MaintenanceMode''"

definition NodeSpec_WithAlerts :: "apply_library \<Rightarrow> gval list \<Rightarrow> gomethod" where
  "NodeSpec_WithAlerts A = with_pointers (append_room A) ''Alerts'' (TStruct (PrometheusAlertMatcherSpec_fields A))"

definition NodeSpec_WithHealthCheck :: "gval \<Rightarrow> gomethod" where
  "NodeSpec_WithHealthCheck = with_value ''HealthCheck''"

text \<open>\<open>NodeGroupSpecApplyConfiguration\<close> (\<open>api/v1alpha1/applyconfiguration/api/v1alpha1/nodegroupspec.go\<close>)\<close>

definition NodeGroupSpec_fields :: "apply_library \<Rightarrow> (string \<times> gotype) list" where
  "NodeGroupSpec_fields A =
    [(''Name'', TPointer (TScalar Text)), (''Flavor'', TPointer (TScalar Text)),
     (''Nodes'', TSlice (TStruct (NodeSpec_fields A))), (''CacheConfig'', TPointer (TStruct (CacheConfigSpec_fields A))),
     (''Metadata'', TMap (TScalar Text)), (''NodeSelector'', TMap (TScalar Text)),
     (''HealthCheck'', TPointer (LocalObjectReference_t (kube A))), (''Labels'', TMap (TScalar Text))]"

definition new_NodeGroupSpec :: "apply_library \<Rightarrow> memory \<Rightarrow> (gval \<times> memory) option" where
  "new_NodeGroupSpec A = new_object (TStruct (NodeGroupSpec_fields A))"

definition NodeGroupSpec_WithName :: "gval \<Rightarrow> gomethod" where
  "NodeGroupSpec_WithName = with_value ''Name''"

definition NodeGroupSpec_WithFlavor :: "gval \<Rightarrow> gomethod" where
  "NodeGroupSpec_WithFlavor = with_value ''Flavor''"

definition NodeGroupSpec_WithNodes :: "apply_library \<Rightarrow> gval list \<Rightarrow> gomethod" where
  "NodeGroupSpec_WithNodes A = with_pointers (append_room A) ''Nodes'' (TStruct (NodeSpec_fields A))"

definition NodeGroupSpec_WithCacheConfig :: "gval \<Rightarrow> gomethod" where
  "NodeGroupSpec_WithCacheConfig = with_pointer ''CacheConfig''"

definition NodeGroupSpec_WithMetadata :: "apply_library \<Rightarrow> gval \<Rightarrow> gomethod" where
  "NodeGroupSpec_WithMetadata A = with_entries (map_range (kube A)) ''Metadata''"

definition NodeGroupSpec_WithNodeSelector :: "apply_library \<Rightarrow> gval \<Rightarrow> gomethod" where
  "NodeGroupSpec_WithNodeSelector A = with_entries (map_range (kube A)) ''NodeSelector''"

definition NodeGroupSpec_WithHealthCheck :: "gval \<Rightarrow> gomethod" where
  "NodeGroupSpec_WithHealthCheck = with_value ''HealthCheck''"

definition NodeGroupSpec_WithLabels :: "apply_library \<Rightarrow> gval \<Rightarrow> gomethod" where
  "NodeGroupSpec_WithLabels A = with_entries (map_range (kube A)) ''Labels''"

text \<open>\<open>LocationSpecApplyConfiguration\<close> (\<open>api/v1alpha1/applyconfiguration/api/v1alpha1/locationspec.go\<close>)\<close>

definition LocationSpec_fields :: "apply_library \<Rightarrow> (string \<times> gotype) list" where
  "LocationSpec_fields A =
    [(''Project'', TPointer (LocalObjectReference_t (kube A))), (''FallbackLocations'', TSlice (TScalar Text)),
     (''Nodes'', TSlice (TStruct (NodeSpec_fields A))), (''GeoLookup'', TPointer (TStruct (GeoLookupSpec_fields A))),
     (''Weight'', TPointer (TScalar Number)), (''MaintenanceMode'', TPointer (TScalar Flag)),
     (''NodeGroups'', TSlice (TStruct (NodeGroupSpec_fields A))),
     (''Alerts'', TSlice (TStruct (PrometheusAlertMatcherSpec_fields A))), (''Parent'', TPointer (TScalar Text))]"

definition new_LocationSpec :: "apply_library \<Rightarrow> memory \<Rightarrow> (gval \<times> memory) option" where
  "new_LocationSpec A = new_object (TStruct (LocationSpec_fields A))"

definition LocationSpec_WithProject :: "gval \<Rightarrow> gomethod" where
  "LocationSpec_WithProject = with_value ''Project''"

definition LocationSpec_WithFallbackLocations :: "apply_library \<Rightarrow> gval list \<Rightarrow> gomethod" where
  "LocationSpec_WithFallbackLocations A = with_values (append_room A) ''FallbackLocations'' (TScalar Text)"

definition LocationSpec_WithNodes :: "apply_library \<Rightarrow> gval list \<Rightarrow> gomethod" where
  "LocationSpec_WithNodes A = with_pointers (append_room A) ''Nodes'' (TStruct (NodeSpec_fields A))"

definition LocationSpec_WithGeoLookup :: "gval \<Rightarrow> gomethod" where
  "LocationSpec_WithGeoLookup = with_pointer ''GeoLookup''"

definition LocationSpec_WithWeight :: "gval \<Rightarrow> gomethod" where
  "LocationSpec_WithWeight = with_value ''Weight''"

definition LocationSpec_WithMaintenanceMode :: "gval \<Rightarrow> gomethod" where
  "LocationSpec_WithMaintenanceMode = with_value ''MaintenanceMode''"

definition LocationSpec_WithNodeGroups :: "apply_library \<Rightarrow> gval list \<Rightarrow> gomethod" where
  "LocationSpec_WithNodeGroups A = with_pointers (append_room A) ''NodeGroups'' (TStruct (NodeGroupSpec_fields A))"

definition LocationSpec_WithAlerts :: "apply_library \<Rightarrow> gval list \<Rightarrow> gomethod" where
  "LocationSpec_WithAlerts A = with_pointers (append_room A) ''Alerts'' (TStruct (PrometheusAlertMatcherSpec_fields A))"

definition LocationSpec_WithParent :: "gval \<Rightarrow> gomethod" where
  "LocationSpec_WithParent = with_value ''Parent''"

text \<open>\<open>PrometheusAlertStatusApplyConfiguration\<close> (\<open>api/v1alpha1/applyconfiguration/api/v1alpha1/prometheusalertstatus.go\<close>)\<close>

definition PrometheusAlertStatus_fields :: "apply_library \<Rightarrow> (string \<times> gotype) list" where
  "PrometheusAlertStatus_fields A =
    [(''AlertName'', TPointer (TScalar Text)), (''State'', TPointer (TScalar Text)), (''Labels'', TMap (TScalar Text)),
     (''LastTransitionTime'', TPointer (Time_t (kube A)))]"

definition new_PrometheusAlertStatus :: "apply_library \<Rightarrow> memory \<Rightarrow> (gval \<times> memory) option" where
  "new_PrometheusAlertStatus A = new_object (TStruct (PrometheusAlertStatus_fields A))"

definition PrometheusAlertStatus_WithAlertName :: "gval \<Rightarrow> gomethod" where
  "PrometheusAlertStatus_WithAlertName = with_value ''AlertName''"

definition PrometheusAlertStatus_WithState :: "gval \<Rightarrow> gomethod" where
  "PrometheusAlertStatus_WithState = with_value ''State''"

definition PrometheusAlertStatus_WithLabels :: "apply_library \<Rightarrow> gval \<Rightarrow> gomethod" where
  "PrometheusAlertStatus_WithLabels A = with_entries (map_range (kube A)) ''Labels''"

definition PrometheusAlertStatus_WithLastTransitionTime :: "gval \<Rightarrow> gomethod" where
  "PrometheusAlertStatus_WithLastTransitionTime = with_value ''LastTransitionTime''"

text \<open>\<open>NodeConditionApplyConfiguration\<close> (\<open>api/v1alpha1/applyconfiguration/api/v1alpha1/nodecondition.go\<close>)\<close>

definition NodeCondition_fields :: "apply_library \<Rightarrow> (string \<times> gotype) list" where
  "NodeCondition_fields A =
    [(''Type'', TPointer (TScalar Text)), (''Stack'', TPointer (TScalar Text)), (''HealthCheckKey'', TPointer (TScalar Text)),
     (''Status'', TPointer (TScalar Flag)), (''LastTransitionTime'', TPointer (Time_t (kube A))),
     (''Reason'', TPointer (TScalar Text)), (''ObservedGeneration'', TPointer (TScalar Number))]"

definition new_NodeCondition :: "apply_library \<Rightarrow> memory \<Rightarrow> (gval \<times> memory) option" where
  "new_NodeCondition A = new_object (TStruct (NodeCondition_fields A))"

definition NodeCondition_WithType :: "gval \<Rightarrow> gomethod" where
  "NodeCondition_WithType = with_value ''Type''"

definition NodeCondition_WithStack :: "gval \<Rightarrow> gomethod" where
  "NodeCondition_WithStack = with_value ''Stack''"

definition NodeCondition_WithHealthCheckKey :: "gval \<Rightarrow> gomethod" where
  "NodeCondition_WithHealthCheckKey = with_value ''HealthCheckKey''"

definition NodeCondition_WithStatus :: "gval \<Rightarrow> gomethod" where
  "NodeCondition_WithStatus = with_value ''Status''"

definition NodeCondition_WithLastTransitionTime :: "gval \<Rightarrow> gomethod" where
  "NodeCondition_WithLastTransitionTime = with_value ''LastTransitionTime''"

definition NodeCondition_WithReason :: "gval \<Rightarrow> gomethod" where
  "NodeCondition_WithReason = with_value ''Reason''"

definition NodeCondition_WithObservedGeneration :: "gval \<Rightarrow> gomethod" where
  "NodeCondition_WithObservedGeneration = with_value ''ObservedGeneration''"

text \<open>\<open>NodeInstanceStatusApplyConfiguration\<close> (\<open>api/v1alpha1/applyconfiguration/api/v1alpha1/nodeinstancestatus.go\<close>)\<close>

definition NodeInstanceStatus_fields :: "apply_library \<Rightarrow> (string \<times> gotype) list" where
  "NodeInstanceStatus_fields A =
    [(''Conditions'', TSlice (TStruct (NodeCondition_fields A))), (''Alerts'', TSlice (TStruct (PrometheusAlertStatus_fields A)))]"

definition new_NodeInstanceStatus :: "apply_library \<Rightarrow> memory \<Rightarrow> (gval \<times> memory) option" where
  "new_NodeInstanceStatus A = new_object (TStruct (NodeInstanceStatus_fields A))"

definition NodeInstanceStatus_WithConditions :: "apply_library \<Rightarrow> gval list \<Rightarrow> gomethod" where
  "NodeInstanceStatus_WithConditions A = with_pointers (append_room A) ''Conditions'' (TStruct (NodeCondition_fields A))"

definition NodeInstanceStatus_WithAlerts :: "apply_library \<Rightarrow> gval list \<Rightarrow> gomethod" where
  "NodeInstanceStatus_WithAlerts A = with_pointers (append_room A) ''Alerts'' (TStruct (PrometheusAlertStatus_fields A))"

text \<open>\<open>LocationStatusApplyConfiguration\<close> (\<open>api/v1alpha1/applyconfiguration/api/v1alpha1/locationstatus.go\<close>)\<close>

definition LocationStatus_fields :: "apply_library \<Rightarrow> (string \<times> gotype) list" where
  "LocationStatus_fields A =
    [(''Status'', TPointer (TScalar Text)), (''Alerts'', TSlice (TStruct (PrometheusAlertStatus_fields A))),
     (''NodeStatus'', TMap (TStruct (NodeInstanceStatus_fields A)))]"

definition new_LocationStatus :: "apply_library \<Rightarrow> memory \<Rightarrow> (gval \<times> memory) option" where
  "new_LocationStatus A = new_object (TStruct (LocationStatus_fields A))"

definition LocationStatus_WithStatus :: "gval \<Rightarrow> gomethod" where
  "LocationStatus_WithStatus = with_value ''Status''"

definition LocationStatus_WithAlerts :: "apply_library \<Rightarrow> gval list \<Rightarrow> gomethod" where
  "LocationStatus_WithAlerts A = with_pointers (append_room A) ''Alerts'' (TStruct (PrometheusAlertStatus_fields A))"

definition LocationStatus_WithNodeStatus :: "apply_library \<Rightarrow> gval \<Rightarrow> gomethod" where
  "LocationStatus_WithNodeStatus A = with_entries (map_range (kube A)) ''NodeStatus''"

text \<open>\<open>LocationApplyConfiguration\<close> (\<open>api/v1alpha1/applyconfiguration/api/v1alpha1/location.go\<close>)\<close>

definition Location_fields :: "apply_library \<Rightarrow> (string \<times> gotype) list" where
  "Location_fields A =
    [(''TypeMetaApplyConfiguration'', TStruct (TypeMetaApply_fields A)),
     (''ObjectMetaApplyConfiguration'', TPointer (TStruct (ObjectMetaApply_fields A))),
     (''Spec'', TPointer (TStruct (LocationSpec_fields A))), (''Status'', TPointer (TStruct (LocationStatus_fields A)))]"

definition Location_WithKind :: "gval \<Rightarrow> gomethod" where
  "Location_WithKind = with_inner_value ''TypeMetaApplyConfiguration'' ''Kind''"

definition Location_WithAPIVersion :: "gval \<Rightarrow> gomethod" where
  "Location_WithAPIVersion = with_inner_value ''TypeMetaApplyConfiguration'' ''APIVersion''"

definition Location_WithName :: "apply_library \<Rightarrow> gval \<Rightarrow> gomethod" where
  "Location_WithName A v =
     on_pointer ''ObjectMetaApplyConfiguration'' (TStruct (ObjectMetaApply_fields A)) (with_value ''Name'' v)"

definition Location_WithGenerateName :: "apply_library \<Rightarrow> gval \<Rightarrow> gomethod" where
  "Location_WithGenerateName A v =
     on_pointer ''ObjectMetaApplyConfiguration'' (TStruct (ObjectMetaApply_fields A)) (with_value ''GenerateName'' v)"

definition Location_WithNamespace :: "apply_library \<Rightarrow> gval \<Rightarrow> gomethod" where
  "Location_WithNamespace A v =
     on_pointer ''ObjectMetaApplyConfiguration'' (TStruct (ObjectMetaApply_fields A)) (with_value ''Namespace'' v)"

definition Location_WithUID :: "apply_library \<Rightarrow> gval \<Rightarrow> gomethod" where
  "Location_WithUID A v =
     on_pointer ''ObjectMetaApplyConfiguration'' (TStruct (ObjectMetaApply_fields A)) (with_value ''UID'' v)"

definition Location_WithResourceVersion :: "apply_library \<Rightarrow> gval \<Rightarrow> gomethod" where
  "Location_WithResourceVersion A v =
     on_pointer ''ObjectMetaApplyConfiguration'' (TStruct (ObjectMetaApply_fields A)) (with_value ''ResourceVersion'' v)"

definition Location_WithGeneration :: "apply_library \<Rightarrow> gval \<Rightarrow> gomethod" where
  "Location_WithGeneration A v =
     on_pointer ''ObjectMetaApplyConfiguration'' (TStruct (ObjectMetaApply_fields A)) (with_value ''Generation'' v)"

definition Location_WithCreationTimestamp :: "apply_library \<Rightarrow> gval \<Rightarrow> gomethod" where
  "Location_WithCreationTimestamp A v =
     on_pointer ''ObjectMetaApplyConfiguration'' (TStruct (ObjectMetaApply_fields A)) (with_value ''CreationTimestamp'' v)"

definition Location_WithDeletionTimestamp :: "apply_library \<Rightarrow> gval \<Rightarrow> gomethod" where
  "Location_WithDeletionTimestamp A v =
     on_pointer ''ObjectMetaApplyConfiguration'' (TStruct (ObjectMetaApply_fields A)) (with_value ''DeletionTimestamp'' v)"

definition Location_WithDeletionGracePeriodSeconds :: "apply_library \<Rightarrow> gval \<Rightarrow> gomethod" where
  "Location_WithDeletionGracePeriodSeconds A v =
     on_pointer ''ObjectMetaApplyConfiguration'' (TStruct (ObjectMetaApply_fields A)) (with_value ''DeletionGracePeriodSeconds'' v)"

definition Location_WithLabels :: "apply_library \<Rightarrow> gval \<Rightarrow> gomethod" where
  "Location_WithLabels A entries =
     on_pointer ''ObjectMetaApplyConfiguration'' (TStruct (ObjectMetaApply_fields A))
       (with_entries (map_range (kube A)) ''Labels'' entries)"

definition Location_WithAnnotations :: "apply_library \<Rightarrow> gval \<Rightarrow> gomethod" where
  "Location_WithAnnotations A entries =
     on_pointer ''ObjectMetaApplyConfiguration'' (TStruct (ObjectMetaApply_fields A))
       (with_entries (map_range (kube A)) ''Annotations'' entries)"

definition Location_WithOwnerReferences :: "apply_library \<Rightarrow> gval list \<Rightarrow> gomethod" where
  "Location_WithOwnerReferences A vs =
     on_pointer ''ObjectMetaApplyConfiguration'' (TStruct (ObjectMetaApply_fields A))
       (with_pointers (append_room A) ''OwnerReferences'' (OwnerReferenceApply_t A) vs)"

definition Location_WithFinalizers :: "apply_library \<Rightarrow> gval list \<Rightarrow> gomethod" where
  "Location_WithFinalizers A vs =
     on_pointer ''ObjectMetaApplyConfiguration'' (TStruct (ObjectMetaApply_fields A))
       (with_values (append_room A) ''Finalizers'' (TScalar Text) vs)"

definition Location_WithSpec :: "gval \<Rightarrow> gomethod" where
  "Location_WithSpec = with_pointer ''Spec''"

definition Location_WithStatus :: "gval \<Rightarrow> gomethod" where
  "Location_WithStatus = with_pointer ''Status''"

text \<open>\<open>Location(name, namespace)\<close>\<close>

definition new_Location :: "apply_library \<Rightarrow> string \<Rightarrow> string \<Rightarrow> memory \<Rightarrow> (gval \<times> memory) option" where
  "new_Location A name namespace h = do {
     (b, h) \<leftarrow> new_object (TStruct (Location_fields A)) h;
     (b, h) \<leftarrow> Location_WithName A (Scalar (SText name)) b h;
     (b, h) \<leftarrow> Location_WithNamespace A (Scalar (SText namespace)) b h;
     (b, h) \<leftarrow> Location_WithKind (Scalar (SText ''Location'')) b h;
     (b, h) \<leftarrow> Location_WithAPIVersion (Scalar (SText ''infrastructure.edgecdnx.com/v1alpha1'')) b h;
     Some (b, h) }"

text \<open>The getters return the pointers that the setters made.\<close>

definition Location_GetKind :: "gomethod" where
  "Location_GetKind = get_inner_value ''TypeMetaApplyConfiguration'' ''Kind''"

definition Location_GetAPIVersion :: "gomethod" where
  "Location_GetAPIVersion = get_inner_value ''TypeMetaApplyConfiguration'' ''APIVersion''"

definition Location_GetName :: "apply_library \<Rightarrow> gomethod" where
  "Location_GetName A = get_pointed ''ObjectMetaApplyConfiguration'' (TStruct (ObjectMetaApply_fields A)) ''Name''"

definition Location_GetNamespace :: "apply_library \<Rightarrow> gomethod" where
  "Location_GetNamespace A = get_pointed ''ObjectMetaApplyConfiguration'' (TStruct (ObjectMetaApply_fields A)) ''Namespace''"

text \<open>\<open>ForKind\<close> (\<open>applyconfiguration/utils.go\<close>): an empty configuration for a kind of the API group, nil for any other\<close>

definition configurations :: "apply_library \<Rightarrow> (string \<times> (string \<times> gotype) list) list" where
  "configurations A =
    [(''CacheConfigSpec'', CacheConfigSpec_fields A), (''GeoLookupAttributeSpec'', GeoLookupAttributeSpec_fields A),
     (''GeoLookupAttributeValuesSpec'', GeoLookupAttributeValuesSpec_fields A), (''GeoLookupSpec'', GeoLookupSpec_fields A),
     (''Location'', Location_fields A), (''LocationSpec'', LocationSpec_fields A), (''LocationStatus'', LocationStatus_fields A),
     (''NodeCondition'', NodeCondition_fields A), (''NodeGroupSpec'', NodeGroupSpec_fields A),
     (''NodeInstanceStatus'', NodeInstanceStatus_fields A), (''NodeSpec'', NodeSpec_fields A),
     (''PrometheusAlertMatcherSpec'', PrometheusAlertMatcherSpec_fields A),
     (''PrometheusAlertStatus'', PrometheusAlertStatus_fields A)]"

definition ForKind :: "apply_library \<Rightarrow> string \<times> string \<times> string \<Rightarrow> memory \<Rightarrow> (runtime_object \<times> memory) option" where
  "ForKind A gvk h = (case gvk of (grp, version, kind) \<Rightarrow>
     (case (if grp = ''infrastructure.edgecdnx.com'' \<and> version = ''v1alpha1'' then map_of (configurations A) kind else None) of
        Some ts \<Rightarrow> do { (p, h) \<leftarrow> new_object (TStruct ts) h; Some (Some (kind @ ''ApplyConfiguration'', p), h) }
      | None \<Rightarrow> Some (None, h)))"

section \<open>All setters\<close>

text \<open>The setters with the type of their argument and with what they do to the fields\<close>

definition argument_setters ::
  "apply_library \<Rightarrow> ((string \<times> gotype) list \<times> gotype \<times> (gval \<Rightarrow> gomethod) \<times>
     (tree \<Rightarrow> (string \<times> tree) list \<Rightarrow> (string \<times> tree) list)) list" where
  "argument_setters A =
    [(CacheConfigSpec_fields A, TScalar Text, CacheConfigSpec_WithName, \<lambda>x. set_field ''Name'' (PointsTo x)),
     (CacheConfigSpec_fields A, TScalar Text, CacheConfigSpec_WithPath, \<lambda>x. set_field ''Path'' (PointsTo x)),
     (CacheConfigSpec_fields A, TScalar Text, CacheConfigSpec_WithKeysZone, \<lambda>x. set_field ''KeysZone'' (PointsTo x)),
     (CacheConfigSpec_fields A, TScalar Text, CacheConfigSpec_WithInactive, \<lambda>x. set_field ''Inactive'' (PointsTo x)),
     (CacheConfigSpec_fields A, TScalar Text, CacheConfigSpec_WithMaxSize, \<lambda>x. set_field ''MaxSize'' (PointsTo x)),
     (GeoLookupAttributeSpec_fields A, TScalar Number, GeoLookupAttributeSpec_WithWeight, \<lambda>x. set_field ''Weight'' (PointsTo x)),
     (GeoLookupAttributeValuesSpec_fields A, TScalar Text, GeoLookupAttributeValuesSpec_WithValue,
       \<lambda>x. set_field ''Value'' (PointsTo x)),
     (GeoLookupAttributeValuesSpec_fields A, TScalar Number, GeoLookupAttributeValuesSpec_WithWeight,
       \<lambda>x. set_field ''Weight'' (PointsTo x)),
     (GeoLookupSpec_fields A, TScalar Number, GeoLookupSpec_WithWeight, \<lambda>x. set_field ''Weight'' (PointsTo x)),
     (GeoLookupSpec_fields A, TMap (TStruct (GeoLookupAttributeSpec_fields A)), GeoLookupSpec_WithAttributes A, merged ''Attributes''),
     (Location_fields A, TScalar Text, Location_WithKind,
       \<lambda>x. on_inner ''TypeMetaApplyConfiguration'' (set_field ''Kind'' (PointsTo x))),
     (Location_fields A, TScalar Text, Location_WithAPIVersion,
       \<lambda>x. on_inner ''TypeMetaApplyConfiguration'' (set_field ''APIVersion'' (PointsTo x))),
     (Location_fields A, TScalar Text, Location_WithName A,
       \<lambda>x. on_pointed ''ObjectMetaApplyConfiguration'' (ObjectMetaApply_fields A) (set_field ''Name'' (PointsTo x))),
     (Location_fields A, TScalar Text, Location_WithGenerateName A,
       \<lambda>x. on_pointed ''ObjectMetaApplyConfiguration'' (ObjectMetaApply_fields A) (set_field ''GenerateName'' (PointsTo x))),
     (Location_fields A, TScalar Text, Location_WithNamespace A,
       \<lambda>x. on_pointed ''ObjectMetaApplyConfiguration'' (ObjectMetaApply_fields A) (set_field ''Namespace'' (PointsTo x))),
     (Location_fields A, TScalar Text, Location_WithUID A,
       \<lambda>x. on_pointed ''ObjectMetaApplyConfiguration'' (ObjectMetaApply_fields A) (set_field ''UID'' (PointsTo x))),
     (Location_fields A, TScalar Text, Location_WithResourceVersion A,
       \<lambda>x. on_pointed ''ObjectMetaApplyConfiguration'' (ObjectMetaApply_fields A) (set_field ''ResourceVersion'' (PointsTo x))),
     (Location_fields A, TScalar Number, Location_WithGeneration A,
       \<lambda>x. on_pointed ''ObjectMetaApplyConfiguration'' (ObjectMetaApply_fields A) (set_field ''Generation'' (PointsTo x))),
     (Location_fields A, Time_t (kube A), Location_WithCreationTimestamp A,
       \<lambda>x. on_pointed ''ObjectMetaApplyConfiguration'' (ObjectMetaApply_fields A) (set_field ''CreationTimestamp'' (PointsTo x))),
     (Location_fields A, Time_t (kube A), Location_WithDeletionTimestamp A,
       \<lambda>x. on_pointed ''ObjectMetaApplyConfiguration'' (ObjectMetaApply_fields A) (set_field ''DeletionTimestamp'' (PointsTo x))),
     (Location_fields A, TScalar Number, Location_WithDeletionGracePeriodSeconds A,
       \<lambda>x. on_pointed ''ObjectMetaApplyConfiguration'' (ObjectMetaApply_fields A) (set_field ''DeletionGracePeriodSeconds'' (PointsTo x))),
     (Location_fields A, TMap (TScalar Text), Location_WithLabels A,
       \<lambda>x. on_pointed ''ObjectMetaApplyConfiguration'' (ObjectMetaApply_fields A) (merged ''Labels'' x)),
     (Location_fields A, TMap (TScalar Text), Location_WithAnnotations A,
       \<lambda>x. on_pointed ''ObjectMetaApplyConfiguration'' (ObjectMetaApply_fields A) (merged ''Annotations'' x)),
     (Location_fields A, TPointer (TStruct (LocationSpec_fields A)), Location_WithSpec, set_field ''Spec''),
     (Location_fields A, TPointer (TStruct (LocationStatus_fields A)), Location_WithStatus, set_field ''Status''),
     (LocationSpec_fields A, LocalObjectReference_t (kube A), LocationSpec_WithProject, \<lambda>x. set_field ''Project'' (PointsTo x)),
     (LocationSpec_fields A, TPointer (TStruct (GeoLookupSpec_fields A)), LocationSpec_WithGeoLookup, set_field ''GeoLookup''),
     (LocationSpec_fields A, TScalar Number, LocationSpec_WithWeight, \<lambda>x. set_field ''Weight'' (PointsTo x)),
     (LocationSpec_fields A, TScalar Flag, LocationSpec_WithMaintenanceMode, \<lambda>x. set_field ''MaintenanceMode'' (PointsTo x)),
     (LocationSpec_fields A, TScalar Text, LocationSpec_WithParent, \<lambda>x. set_field ''Parent'' (PointsTo x)),
     (LocationStatus_fields A, TScalar Text, LocationStatus_WithStatus, \<lambda>x. set_field ''Status'' (PointsTo x)),
     (LocationStatus_fields A, TMap (TStruct (NodeInstanceStatus_fields A)), LocationStatus_WithNodeStatus A, merged ''NodeStatus''),
     (NodeCondition_fields A, TScalar Text, NodeCondition_WithType, \<lambda>x. set_field ''Type'' (PointsTo x)),
     (NodeCondition_fields A, TScalar Text, NodeCondition_WithStack, \<lambda>x. set_field ''Stack'' (PointsTo x)),
     (NodeCondition_fields A, TScalar Text, NodeCondition_WithHealthCheckKey, \<lambda>x. set_field ''HealthCheckKey'' (PointsTo x)),
     (NodeCondition_fields A, TScalar Flag, NodeCondition_WithStatus, \<lambda>x. set_field ''Status'' (PointsTo x)),
     (NodeCondition_fields A, Time_t (kube A), NodeCondition_WithLastTransitionTime,
       \<lambda>x. set_field ''LastTransitionTime'' (PointsTo x)),
     (NodeCondition_fields A, TScalar Text, NodeCondition_WithReason, \<lambda>x. set_field ''Reason'' (PointsTo x)),
     (NodeCondition_fields A, TScalar Number, NodeCondition_WithObservedGeneration,
       \<lambda>x. set_field ''ObservedGeneration'' (PointsTo x)),
     (NodeGroupSpec_fields A, TScalar Text, NodeGroupSpec_WithName, \<lambda>x. set_field ''Name'' (PointsTo x)),
     (NodeGroupSpec_fields A, TScalar Text, NodeGroupSpec_WithFlavor, \<lambda>x. set_field ''Flavor'' (PointsTo x)),
     (NodeGroupSpec_fields A, TPointer (TStruct (CacheConfigSpec_fields A)), NodeGroupSpec_WithCacheConfig, set_field ''CacheConfig''),
     (NodeGroupSpec_fields A, TMap (TScalar Text), NodeGroupSpec_WithMetadata A, merged ''Metadata''),
     (NodeGroupSpec_fields A, TMap (TScalar Text), NodeGroupSpec_WithNodeSelector A, merged ''NodeSelector''),
     (NodeGroupSpec_fields A, LocalObjectReference_t (kube A), NodeGroupSpec_WithHealthCheck,
       \<lambda>x. set_field ''HealthCheck'' (PointsTo x)),
     (NodeGroupSpec_fields A, TMap (TScalar Text), NodeGroupSpec_WithLabels A, merged ''Labels''),
     (NodeSpec_fields A, TScalar Text, NodeSpec_WithName, \<lambda>x. set_field ''Name'' (PointsTo x)),
     (NodeSpec_fields A, TScalar Text, NodeSpec_WithIpv4, \<lambda>x. set_field ''Ipv4'' (PointsTo x)),
     (NodeSpec_fields A, TScalar Text, NodeSpec_WithIpv6, \<lambda>x. set_field ''Ipv6'' (PointsTo x)),
     (NodeSpec_fields A, TScalar Flag, NodeSpec_WithMaintenanceMode, \<lambda>x. set_field ''MaintenanceMode'' (PointsTo x)),
     (NodeSpec_fields A, LocalObjectReference_t (kube A), NodeSpec_WithHealthCheck, \<lambda>x. set_field ''HealthCheck'' (PointsTo x)),
     (PrometheusAlertMatcherSpec_fields A, TScalar Text, PrometheusAlertMatcherSpec_WithAlertName,
       \<lambda>x. set_field ''AlertName'' (PointsTo x)),
     (PrometheusAlertMatcherSpec_fields A, TMap (TScalar Text), PrometheusAlertMatcherSpec_WithLabels A, merged ''Labels''),
     (PrometheusAlertStatus_fields A, TScalar Text, PrometheusAlertStatus_WithAlertName, \<lambda>x. set_field ''AlertName'' (PointsTo x)),
     (PrometheusAlertStatus_fields A, TScalar Text, PrometheusAlertStatus_WithState, \<lambda>x. set_field ''State'' (PointsTo x)),
     (PrometheusAlertStatus_fields A, TMap (TScalar Text), PrometheusAlertStatus_WithLabels A, merged ''Labels''),
     (PrometheusAlertStatus_fields A, Time_t (kube A), PrometheusAlertStatus_WithLastTransitionTime,
       \<lambda>x. set_field ''LastTransitionTime'' (PointsTo x))]"

definition text_setters ::
  "apply_library \<Rightarrow> ((string \<times> gotype) list \<times> (gval list \<Rightarrow> gomethod) \<times>
     (tree list \<Rightarrow> (string \<times> tree) list \<Rightarrow> (string \<times> tree) list)) list" where
  "text_setters A =
    [(Location_fields A, Location_WithFinalizers A, \<lambda>ys. on_pointed ''ObjectMetaApplyConfiguration'' (ObjectMetaApply_fields A) (fold (appended ''Finalizers'') ys)),
     (LocationSpec_fields A, LocationSpec_WithFallbackLocations A, fold (appended ''FallbackLocations'')),
     (NodeSpec_fields A, NodeSpec_WithCaches A, fold (appended ''Caches''))]"

definition pointers_setters ::
  "apply_library \<Rightarrow> ((string \<times> gotype) list \<times> gotype \<times> (gval list \<Rightarrow> gomethod) \<times>
     (tree list \<Rightarrow> (string \<times> tree) list \<Rightarrow> (string \<times> tree) list)) list" where
  "pointers_setters A =
    [(GeoLookupAttributeSpec_fields A, TStruct (GeoLookupAttributeValuesSpec_fields A), GeoLookupAttributeSpec_WithValues A,
       fold (appended ''Values'')),
     (Location_fields A, OwnerReferenceApply_t A, Location_WithOwnerReferences A,
       \<lambda>ys. on_pointed ''ObjectMetaApplyConfiguration'' (ObjectMetaApply_fields A) (fold (appended ''OwnerReferences'') ys)),
     (LocationSpec_fields A, TStruct (NodeSpec_fields A), LocationSpec_WithNodes A, fold (appended ''Nodes'')),
     (LocationSpec_fields A, TStruct (NodeGroupSpec_fields A), LocationSpec_WithNodeGroups A, fold (appended ''NodeGroups'')),
     (LocationSpec_fields A, TStruct (PrometheusAlertMatcherSpec_fields A), LocationSpec_WithAlerts A, fold (appended ''Alerts'')),
     (LocationStatus_fields A, TStruct (PrometheusAlertStatus_fields A), LocationStatus_WithAlerts A, fold (appended ''Alerts'')),
     (NodeGroupSpec_fields A, TStruct (NodeSpec_fields A), NodeGroupSpec_WithNodes A, fold (appended ''Nodes'')),
     (NodeInstanceStatus_fields A, TStruct (NodeCondition_fields A), NodeInstanceStatus_WithConditions A, fold (appended ''Conditions'')),
     (NodeInstanceStatus_fields A, TStruct (PrometheusAlertStatus_fields A), NodeInstanceStatus_WithAlerts A, fold (appended ''Alerts'')),
     (NodeSpec_fields A, TStruct (PrometheusAlertMatcherSpec_fields A), NodeSpec_WithAlerts A, fold (appended ''Alerts''))]"

lemmas configuration_defs =
  CacheConfigSpec_fields_def GeoLookupAttributeValuesSpec_fields_def GeoLookupAttributeSpec_fields_def GeoLookupSpec_fields_def
  PrometheusAlertMatcherSpec_fields_def NodeSpec_fields_def NodeGroupSpec_fields_def LocationSpec_fields_def
  PrometheusAlertStatus_fields_def NodeCondition_fields_def NodeInstanceStatus_fields_def LocationStatus_fields_def
  Location_fields_def

lemmas setter_defs =
  CacheConfigSpec_WithName_def CacheConfigSpec_WithPath_def CacheConfigSpec_WithKeysZone_def CacheConfigSpec_WithInactive_def
  CacheConfigSpec_WithMaxSize_def GeoLookupAttributeSpec_WithWeight_def GeoLookupAttributeSpec_WithValues_def
  GeoLookupAttributeValuesSpec_WithValue_def GeoLookupAttributeValuesSpec_WithWeight_def GeoLookupSpec_WithWeight_def
  GeoLookupSpec_WithAttributes_def Location_WithKind_def [abs_def] Location_WithAPIVersion_def [abs_def]
  Location_WithName_def [abs_def] Location_WithGenerateName_def [abs_def] Location_WithNamespace_def [abs_def]
  Location_WithUID_def [abs_def] Location_WithResourceVersion_def [abs_def] Location_WithGeneration_def [abs_def]
  Location_WithCreationTimestamp_def [abs_def] Location_WithDeletionTimestamp_def [abs_def]
  Location_WithDeletionGracePeriodSeconds_def [abs_def] Location_WithLabels_def [abs_def] Location_WithAnnotations_def [abs_def]
  Location_WithOwnerReferences_def [abs_def] Location_WithFinalizers_def [abs_def] Location_WithSpec_def [abs_def]
  Location_WithStatus_def [abs_def] LocationSpec_WithProject_def LocationSpec_WithFallbackLocations_def
  LocationSpec_WithNodes_def LocationSpec_WithGeoLookup_def LocationSpec_WithWeight_def LocationSpec_WithMaintenanceMode_def
  LocationSpec_WithNodeGroups_def LocationSpec_WithAlerts_def LocationSpec_WithParent_def LocationStatus_WithStatus_def
  LocationStatus_WithAlerts_def LocationStatus_WithNodeStatus_def NodeCondition_WithType_def NodeCondition_WithStack_def
  NodeCondition_WithHealthCheckKey_def NodeCondition_WithStatus_def NodeCondition_WithLastTransitionTime_def
  NodeCondition_WithReason_def NodeCondition_WithObservedGeneration_def NodeGroupSpec_WithName_def NodeGroupSpec_WithFlavor_def
  NodeGroupSpec_WithNodes_def NodeGroupSpec_WithCacheConfig_def NodeGroupSpec_WithMetadata_def NodeGroupSpec_WithNodeSelector_def
  NodeGroupSpec_WithHealthCheck_def NodeGroupSpec_WithLabels_def NodeInstanceStatus_WithConditions_def
  NodeInstanceStatus_WithAlerts_def NodeSpec_WithName_def NodeSpec_WithIpv4_def NodeSpec_WithIpv6_def NodeSpec_WithCaches_def
  NodeSpec_WithMaintenanceMode_def NodeSpec_WithAlerts_def NodeSpec_WithHealthCheck_def
  PrometheusAlertMatcherSpec_WithAlertName_def PrometheusAlertMatcherSpec_WithLabels_def PrometheusAlertStatus_WithAlertName_def
  PrometheusAlertStatus_WithState_def PrometheusAlertStatus_WithLabels_def PrometheusAlertStatus_WithLastTransitionTime_def

section \<open>A new location\<close>

text \<open>The fields of a configuration with the identity of a location\<close>

definition identified :: "apply_library \<Rightarrow> string \<Rightarrow> string \<Rightarrow> (string \<times> tree) list" where
  "identified A name namespace =
    [(''TypeMetaApplyConfiguration'', Fields
        (set_field ''APIVersion'' (PointsTo (Leaf (SText ''infrastructure.edgecdnx.com/v1alpha1'')))
        (set_field ''Kind'' (PointsTo (Leaf (SText ''Location''))) (zero_fields (TypeMetaApply_fields A))))),
     (''ObjectMetaApplyConfiguration'', PointsTo (Fields
        (set_field ''Namespace'' (PointsTo (Leaf (SText namespace)))
        (set_field ''Name'' (PointsTo (Leaf (SText name))) (zero_fields (ObjectMetaApply_fields A)))))),
     (''Spec'', NilRef), (''Status'', NilRef)]"

section \<open>The setters keep their promise\<close>

context go_apply_library
begin

lemma argument_setters_keep_promise: "list_all (\<lambda>(ts, t, f, g). argument_setter ts t f g) (argument_setters A)"
  using any_order type_names type_fields meta_names meta_fields
  by (simp add: argument_setters_def setter_defs configuration_defs setters)

lemma text_setters_keep_promise: "list_all (\<lambda>(ts, f, g). variadic_setter ts (TScalar Text) f g) (text_setters A)"
  using meta_names meta_fields by (simp add: text_setters_def setter_defs configuration_defs setters)

lemma pointers_setters_keep_promise: "list_all (\<lambda>(ts, t, f, g). pointers_setter ts t f g) (pointers_setters A)"
  using meta_names meta_fields by (simp add: pointers_setters_def setter_defs configuration_defs setters)

lemma Location_names: "distinct (map fst (Location_fields A))"
  by (simp add: Location_fields_def)

lemma identity_setters:
  "argument_setter (Location_fields A) (TScalar Text) (Location_WithName A)
     (\<lambda>x. on_pointed ''ObjectMetaApplyConfiguration'' (ObjectMetaApply_fields A) (set_field ''Name'' (PointsTo x)))"
  "argument_setter (Location_fields A) (TScalar Text) (Location_WithNamespace A)
     (\<lambda>x. on_pointed ''ObjectMetaApplyConfiguration'' (ObjectMetaApply_fields A) (set_field ''Namespace'' (PointsTo x)))"
  "argument_setter (Location_fields A) (TScalar Text) Location_WithKind
     (\<lambda>x. on_inner ''TypeMetaApplyConfiguration'' (set_field ''Kind'' (PointsTo x)))"
  "argument_setter (Location_fields A) (TScalar Text) Location_WithAPIVersion
     (\<lambda>x. on_inner ''TypeMetaApplyConfiguration'' (set_field ''APIVersion'' (PointsTo x)))"
  using argument_setters_keep_promise by (simp_all add: argument_setters_def)

text \<open>The constructor of a location makes a new object with the identity of the location and nothing else.\<close>

lemma new_Location_makes:
  "\<exists>h'. new_Location A name namespace h = Some (Pointer (Some (length h)), h') \<and>
     copied (TPointer (TStruct (Location_fields A))) h (PointsTo (Fields (identified A name namespace))) (Pointer (Some (length h))) h'"
proof -
  let ?t = "TStruct (Location_fields A)" and ?p = "Pointer (Some (length h))"
  have "copied (TPointer ?t) h (PointsTo (Fields (zero_fields (Location_fields A)))) ?p (h @ [Var (zero ?t)])"
    using new_object_copied [of ?t h] unfolding zero_struct .
  from chained_setter [OF identity_setters(1) Location_names _ this, of "SText name"] obtain h1 where
    h1: "Location_WithName A (Scalar (SText name)) ?p (h @ [Var (zero ?t)]) = Some (?p, h1)" "copied (TPointer ?t) h
      (PointsTo (Fields (on_pointed ''ObjectMetaApplyConfiguration'' (ObjectMetaApply_fields A)
        (set_field ''Name'' (PointsTo (Leaf (SText name)))) (zero_fields (Location_fields A))))) ?p h1" by auto
  from chained_setter [OF identity_setters(2) Location_names _ this(2), of "SText namespace"] obtain h2 where
    h2: "Location_WithNamespace A (Scalar (SText namespace)) ?p h1 = Some (?p, h2)" "copied (TPointer ?t) h
      (PointsTo (Fields (on_pointed ''ObjectMetaApplyConfiguration'' (ObjectMetaApply_fields A)
        (set_field ''Namespace'' (PointsTo (Leaf (SText namespace)))) (on_pointed ''ObjectMetaApplyConfiguration'' (ObjectMetaApply_fields A)
        (set_field ''Name'' (PointsTo (Leaf (SText name)))) (zero_fields (Location_fields A)))))) ?p h2" by auto
  from chained_setter [OF identity_setters(3) Location_names _ this(2), of "SText ''Location''"] obtain h3 xs where
    h3: "Location_WithKind (Scalar (SText ''Location'')) ?p h2 = Some (?p, h3)" "copied (TPointer ?t) h (PointsTo (Fields xs)) ?p h3"
    "xs = on_inner ''TypeMetaApplyConfiguration'' (set_field ''Kind'' (PointsTo (Leaf (SText ''Location''))))
        (on_pointed ''ObjectMetaApplyConfiguration'' (ObjectMetaApply_fields A)
        (set_field ''Namespace'' (PointsTo (Leaf (SText namespace)))) (on_pointed ''ObjectMetaApplyConfiguration'' (ObjectMetaApply_fields A)
        (set_field ''Name'' (PointsTo (Leaf (SText name)))) (zero_fields (Location_fields A))))" by auto
  let ?v = "SText ''infrastructure.edgecdnx.com/v1alpha1''"
  from chained_setter [OF identity_setters(4) Location_names _ h3(2), of ?v] obtain h4 where
    h4: "Location_WithAPIVersion (Scalar ?v) ?p h3 = Some (?p, h4)" "copied (TPointer ?t) h (PointsTo (Fields
      (on_inner ''TypeMetaApplyConfiguration'' (set_field ''APIVersion'' (PointsTo (Leaf ?v))) xs))) ?p h4" by auto
  have "on_inner ''TypeMetaApplyConfiguration'' (set_field ''APIVersion'' (PointsTo (Leaf ?v))) xs = identified A name namespace"
    unfolding h3(3) Location_fields_def identified_def
    by (simp add: zero_struct on_inner_def on_pointed_def pointed_def set_field_def del: zero_tree.simps(2))
  with h1(1) h2(1) h3(1) h4 show ?thesis by (simp add: new_Location_def new_object_def)
qed

text \<open>The getters of a new location return what the constructor was given, and the memory that was there stays.\<close>

lemma new_Location_identity:
  "\<exists>p h'. new_Location A name namespace h = Some (p, h') \<and> prefix h h' \<and>
     list_all (\<lambda>(get, value). \<exists>q. get p h' = Some (q, h') \<and> load (TPointer (TScalar Text)) h' q = Some (PointsTo (Leaf (SText value))))
       [(Location_GetKind, ''Location''), (Location_GetAPIVersion, ''infrastructure.edgecdnx.com/v1alpha1''),
        (Location_GetName A, name), (Location_GetNamespace A, namespace)]"
proof -
  let ?p = "Pointer (Some (length h))"
  obtain h' where h': "new_Location A name namespace h = Some (?p, h')"
    "copied (TPointer (TStruct (Location_fields A))) h (PointsTo (Fields (identified A name namespace))) ?p h'"
    using new_Location_makes by blast
  then have ob: "object (Location_fields A) h' (length h) (identified A name namespace)" "prefix h h'"
    using Location_names by (simp_all add: object_def copied_def)
  have fields: "(''TypeMetaApplyConfiguration'', TStruct (TypeMetaApply_fields A)) \<in> set (Location_fields A)"
    "(''ObjectMetaApplyConfiguration'', TPointer (TStruct (ObjectMetaApply_fields A))) \<in> set (Location_fields A)"
    by (simp_all add: Location_fields_def)
  have meta: "map_of (identified A name namespace) ''ObjectMetaApplyConfiguration'' \<noteq> Some NilRef" by (simp add: identified_def)
  have of_type: "\<exists>q. get_inner_value ''TypeMetaApplyConfiguration'' n ?p h' = Some (q, h') \<and>
      load (TPointer (TScalar Text)) h' q = map_of ys n"
    if "(n, TPointer (TScalar Text)) \<in> set (TypeMetaApply_fields A)"
      "map_of (identified A name namespace) ''TypeMetaApplyConfiguration'' = Some (Fields ys)" for n ys
    by (rule get_inner_value_reads [OF ob(1) fields(1) type_names that])
  have of_meta: "\<exists>q. get_pointed ''ObjectMetaApplyConfiguration'' (TStruct (ObjectMetaApply_fields A)) n ?p h' = Some (q, h') \<and>
      load (TPointer (TScalar Text)) h' q =
        map_of (pointed ''ObjectMetaApplyConfiguration'' (ObjectMetaApply_fields A) (identified A name namespace)) n"
    if "(n, TPointer (TScalar Text)) \<in> set (ObjectMetaApply_fields A)" for n
    using get_pointed_reads [OF ob(1) fields(2) meta_names that] meta by blast
  have ids: "map_of (identified A name namespace) ''TypeMetaApplyConfiguration'' = Some (Fields
      (set_field ''APIVersion'' (PointsTo (Leaf (SText ''infrastructure.edgecdnx.com/v1alpha1'')))
        (set_field ''Kind'' (PointsTo (Leaf (SText ''Location''))) (zero_fields (TypeMetaApply_fields A)))))"
    "pointed ''ObjectMetaApplyConfiguration'' (ObjectMetaApply_fields A) (identified A name namespace) =
      set_field ''Namespace'' (PointsTo (Leaf (SText namespace)))
        (set_field ''Name'' (PointsTo (Leaf (SText name))) (zero_fields (ObjectMetaApply_fields A)))"
    by (simp_all add: identified_def pointed_def)
  have "\<exists>q. Location_GetKind ?p h' = Some (q, h') \<and> load (TPointer (TScalar Text)) h' q = Some (PointsTo (Leaf (SText ''Location'')))"
    "\<exists>q. Location_GetAPIVersion ?p h' = Some (q, h') \<and>
      load (TPointer (TScalar Text)) h' q = Some (PointsTo (Leaf (SText ''infrastructure.edgecdnx.com/v1alpha1'')))"
    using of_type [OF _ ids(1), of "''Kind''"] of_type [OF _ ids(1), of "''APIVersion''"] type_fields
    by (simp_all add: Location_GetKind_def Location_GetAPIVersion_def set_last set_before known_field del: load.simps)
  moreover have "\<exists>q. Location_GetName A ?p h' = Some (q, h') \<and> load (TPointer (TScalar Text)) h' q = Some (PointsTo (Leaf (SText name)))"
    "\<exists>q. Location_GetNamespace A ?p h' = Some (q, h') \<and>
      load (TPointer (TScalar Text)) h' q = Some (PointsTo (Leaf (SText namespace)))"
    using of_meta [of "''Name''", unfolded ids(2)] of_meta [of "''Namespace''", unfolded ids(2)] meta_fields
    by (simp_all add: Location_GetName_def Location_GetNamespace_def set_last set_before known_field del: load.simps)
  ultimately show ?thesis using h'(1) ob(2) by (auto simp del: load.simps)
qed

end

text \<open>A kind of the API group has an empty configuration, in new memory.\<close>

lemma ForKind_makes:
  "map_of (configurations A) k = Some ts \<Longrightarrow>
   \<exists>p h'. ForKind A (''infrastructure.edgecdnx.com'', ''v1alpha1'', k) h = Some (Some (k @ ''ApplyConfiguration'', p), h') \<and>
     copied (TPointer (TStruct ts)) h (PointsTo (Fields (zero_fields ts))) p h'"
  using new_object_copied [of "TStruct ts" h] unfolding zero_struct by (simp add: ForKind_def new_object_def)

section \<open>The schema\<close>

text \<open>
  The variables of \<open>applyconfiguration/internal\<close>: whether \<open>parserOnce\<close> has run, and \<open>parser\<close>. A function that panics has run as well, so
  later calls return the parser that was stored then.
\<close>

record 'p parser_state =
  once_ran :: bool
  parser :: "'p option"

definition schemaYAML :: string where
  "schemaYAML = concat (map (\<lambda>l. l @ [CHR 0x0A])
     [''types:'', ''- name: __untyped_atomic_'', ''  scalar: untyped'', ''  list:'', ''    elementType:'',
      ''      namedType: __untyped_atomic_'', ''    elementRelationship: atomic'', ''  map:'', ''    elementType:'',
      ''      namedType: __untyped_atomic_'', ''    elementRelationship: atomic'', ''- name: __untyped_deduced_'',
      ''  scalar: untyped'', ''  list:'', ''    elementType:'', ''      namedType: __untyped_atomic_'',
      ''    elementRelationship: atomic'', ''  map:'', ''    elementType:'', ''      namedType: __untyped_deduced_'',
      ''    elementRelationship: separable''])"

text \<open>\<open>Inl\<close> is the text of a panic; \<open>NewParser\<close> is the function of the merge library.\<close>

definition Parser :: "(string \<Rightarrow> 'p option \<times> string option) \<Rightarrow> 'p parser_state \<Rightarrow> (string + 'p option) \<times> 'p parser_state" where
  "Parser NewParser st =
    (if once_ran st then (Inr (parser st), st)
     else let (p, err) = NewParser schemaYAML; st' = \<lparr>once_ran = True, parser = p\<rparr>
          in (case err of Some e \<Rightarrow> (Inl (''Failed to parse schema: '' @ e), st') | None \<Rightarrow> (Inr (parser st'), st')))"

definition NewTypeConverter ::
  "('s \<Rightarrow> 'p option \<Rightarrow> 'c) \<Rightarrow> (string \<Rightarrow> 'p option \<times> string option) \<Rightarrow> 's \<Rightarrow> 'p parser_state \<Rightarrow> (string + 'c) \<times> 'p parser_state" where
  "NewTypeConverter NewSchemeTypeConverter NewParser scheme st =
    (case Parser NewParser st of
       (Inl panic, st') \<Rightarrow> (Inl panic, st')
     | (Inr p, st') \<Rightarrow> (Inr (NewSchemeTypeConverter scheme p), st'))"

text \<open>The schema is parsed by the first call only, and all converters share its parser.\<close>

lemma Parser_once:
  assumes "NewParser schemaYAML = (p, None)" "\<not> once_ran st"
  obtains st' where "Parser NewParser st = (Inr p, st')" "\<And>f. Parser f st' = (Inr p, st')"
    "\<And>f scheme. NewTypeConverter conv f scheme st' = (Inr (conv scheme p), st')"
  using assms by (simp add: Parser_def NewTypeConverter_def)

text \<open>A schema that does not parse panics once; later calls go on with what the failed call stored.\<close>

lemma Parser_after_panic:
  assumes "NewParser schemaYAML = (p, Some err)" "\<not> once_ran st"
  obtains st' where "Parser NewParser st = (Inl (''Failed to parse schema: '' @ err), st')" "\<And>f. Parser f st' = (Inr p, st')"
  using assms by (simp add: Parser_def)

section \<open>The reference library\<close>

definition reference_apply_library :: apply_library where
  "reference_apply_library = \<lparr>
     kube = reference_library,
     TypeMetaApply_fields = [(''Kind'', TPointer (TScalar Text)), (''APIVersion'', TPointer (TScalar Text))],
     ObjectMetaApply_fields =
      [(''Name'', TPointer (TScalar Text)), (''GenerateName'', TPointer (TScalar Text)), (''Namespace'', TPointer (TScalar Text)),
       (''UID'', TPointer (TScalar Text)), (''ResourceVersion'', TPointer (TScalar Text)), (''Generation'', TPointer (TScalar Number)),
       (''CreationTimestamp'', TPointer reference_Time), (''DeletionTimestamp'', TPointer reference_Time),
       (''DeletionGracePeriodSeconds'', TPointer (TScalar Number)), (''Labels'', TMap (TScalar Text)),
       (''Annotations'', TMap (TScalar Text)), (''OwnerReferences'', TSlice reference_OwnerReference),
       (''Finalizers'', TSlice (TScalar Text))],
     OwnerReferenceApply_t = reference_OwnerReference,
     append_room = id \<rparr>"

interpretation applied: go_apply_library reference_apply_library
  by unfold_locales (simp_all add: reference_apply_library_def reference_library_def range_order_def)

section \<open>Properties\<close>

text \<open>
  C39. Every setter of the apply configurations does what its comment says. Given an argument that shares no memory with the receiver
  it returns the receiver, whose field now holds the argument (values are put behind a new pointer, pointers are taken over,
  the values of a variadic call are appended in their order, entries are merged into the map and win over old ones), all other
  fields read as before, and nothing but the receiver, the argument and new memory is written; the metadata of a location is made
  when it is missing. A nil pointer among the values of a variadic call panics.
\<close>

theorem setters_keep_promise:
  "go_apply_library A \<Longrightarrow>
   list_all (\<lambda>(ts, t, f, g). argument_setter ts t f g) (argument_setters A) \<and>
   list_all (\<lambda>(ts, f, g). variadic_setter ts (TScalar Text) f g) (text_setters A) \<and>
   list_all (\<lambda>(ts, t, f, g). pointers_setter ts t f g) (pointers_setters A)"
  using go_apply_library.argument_setters_keep_promise go_apply_library.text_setters_keep_promise
    go_apply_library.pointers_setters_keep_promise by blast

theorem setters_keep_promise_witness:
  "argument_setter (LocationSpec_fields reference_apply_library) (TScalar Text) LocationSpec_WithParent
     (\<lambda>x. set_field ''Parent'' (PointsTo x))"
  using setters_keep_promise [OF applied.go_apply_library_axioms] by (simp add: argument_setters_def)

text \<open>
  C22. What the constructor of a location configuration is given, its getters return: for every name and namespace the constructor
  does not panic and leaves the memory that was there as it is, and afterwards the getters of kind, API version, name and namespace return, without
  a write, pointers to \<open>Location\<close>, to the version of the API group, to the name and to the namespace.
\<close>

theorem new_Location_roundtrip:
  assumes "go_apply_library A"
  shows "\<exists>p h'. new_Location A name namespace h = Some (p, h') \<and> prefix h h' \<and>
     list_all (\<lambda>(get, value). \<exists>q. get p h' = Some (q, h') \<and> load (TPointer (TScalar Text)) h' q = Some (PointsTo (Leaf (SText value))))
       [(Location_GetKind, ''Location''), (Location_GetAPIVersion, ''infrastructure.edgecdnx.com/v1alpha1''),
        (Location_GetName A, name), (Location_GetNamespace A, namespace)]"
  by (rule go_apply_library.new_Location_identity [OF assms])

theorem new_Location_roundtrip_witness:
  "\<exists>p h' q. new_Location reference_apply_library ''l'' ''team-a'' [] = Some (p, h') \<and>
     Location_GetName reference_apply_library p h' = Some (q, h') \<and>
     load (TPointer (TScalar Text)) h' q = Some (PointsTo (Leaf (SText ''l'')))"
  using new_Location_roundtrip [OF applied.go_apply_library_axioms, of "''l''" "''team-a''" "[]"] by auto

end
