(* ===== verification/Spec2Isabelle.thy ===== *)
theory Spec2Isabelle
  imports Consolidation_Props Startup_Config Guarded_Cluster Challenge_Controller Downstream_Memory Apply_Config
begin

text \<open>
  A verification development for the EdgeCDN-X controller (\<open>src/\<close>): a Kubernetes operator, written
  in Go, that keeps the services, DNS zones, records, locations and prefix lists of a content delivery
  network, in one of four roles (controller, cache controller, router, downstream).

  \<^bold>\<open>The parts of the program.\<close> \<open>cmd/main.go\<close> reads the flags and sets up the controllers and the
  webhooks of a role. The custom resources are the Go structs of \<open>api/v1alpha1\<close>. Before the API
  server stores one of them it asks the admission webhooks (\<open>internal/webhook/v1alpha1\<close>), among them the
  tenancy webhook that applies \<open>internal/tenancy\<close>. The reconcilers (\<open>internal/controller\<close>) bring the
  stored objects to the state that the specs ask for; the objects they create come from
  \<open>internal/builder\<close>, each with the hash of its contents as an annotation. The downstream reconciler copies
  resources of an upstream cluster into the local one. \<open>internal/consolidation\<close> joins prefixes of a prefix list.

  \<^bold>\<open>The shared theories.\<close>
  \<^item> \<open>Go_Prelude\<close>: strings and numbers of Go and the list lemmas. \<open>Net_IP\<close>, \<open>Net_Roundtrip\<close>: package
    \<open>net\<close>, with the round trip of printing and parsing. \<open>Encoding\<close>: hexadecimal and base64 with its
    round trip, hashes, the record \<open>golib\<close> of the library functions that are arguments.
  \<^item> \<open>Kube_Meta\<close>, \<open>Kube_Objects\<close>, \<open>Api_Types\<close>, \<open>Zero_Values\<close>: the objects as records with the fields of
    the source, the sum \<open>kobject\<close> of all kinds.
  \<^item> \<open>Kube_Client\<close>: the API client as a record of functions in the state monad over a world of any type.
    The locale \<open>api_server\<close> has the laws of the server: a read returns what is stored, a write stores what
    the client decides of an object (\<open>core\<close>: not the status, the metadata that belong to the server, and what the server fills in, such as the
    cluster address of a core service, the rollout settings of a deployment, a label of a namespace and the defaults of the custom resources), an error changes nothing
    unless it is an unspecific one. It is interpreted on a reference server that keeps a list of objects.
  \<^item> \<open>Kube_Programs\<close>: a calculus of weakest preconditions for programs over the client, by which every
    reconciler is taken apart along its structure, and loops that stop at the first error.
  \<^item> \<open>Owned_Objects\<close>: the step "read, create with a controller reference, or update when the hash
    differs" that three reconcilers repeat, as one definition, with the locale \<open>wanted_object\<close> between it and the builders.

  \<^item> \<open>Go_Memory\<close>, \<open>Go_Copy\<close>: a memory of cells for the code whose correctness is about sharing: values with pointers, slices and maps, the tree
    that a value of a type stands for, the cells it is made of, the statements of Go that copy values, and the contract \<open>deep_copy\<close>
    with a rule for each of these statements. \<open>Go_Objects\<close>: an object changes in place, and who does not notice. \<open>Go_Setters\<close>: methods that
    set a field of their receiver, \<open>append\<close> with the spare room of an array, loops over maps, and what such a method promises.

  \<^bold>\<open>The components.\<close>
  \<^item> \<open>Consolidation\<close>, \<open>Consolidation_Correct\<close>, \<open>Consolidation_Props\<close> (\<open>consolidation.go\<close>): both functions
    round by round. The order in which Go visits a map and the result of the unstable sort are arguments
    (locale \<open>go_runtime\<close>). Shown: the covered addresses stay the same, the result is disjoint, sorted, fully
    joined down to length 2, and stable under another call. For IPv4-mapped IPv6 networks coverage is lost.
  \<^item> \<open>Tenancy\<close> (\<open>internal/tenancy\<close>, \<open>tenancy_webhook.go\<close>, \<open>project_webhook.go\<close>): the checks agree
    with a declarative rule; references of admitted resources stay in their project; the project of a resource never changes.
  \<^item> \<open>Startup\<close>, \<open>Startup_Config\<close> (\<open>cmd/main.go\<close>, \<open>featuregate.go\<close>): the set-up as a sequence of actions, each of which may fail;
    the flags with their defaults and what they configure. Shown: a started program has checked its flags and set up the controllers of its
    role; the downstream reconciler that is set up has the target, source, workers and namespace of the flags, and with them what the theorems on it need.
  \<^item> \<open>Dns_Library\<close>, \<open>Webhooks\<close>, \<open>Webhook_DNS\<close>: the validators of health check profiles, zones, services and DNS
    records, and what exactly they accept.
  \<^item> \<open>Admission\<close>: the entry points of all webhooks (those of prefix lists accept everything), the kinds and verbs they are registered for, and a cluster
    whose objects change by requests that the webhooks allow, while the server writes statuses and removes objects without asking them.
    Shown for every reachable cluster, also when reads of the webhooks fail: every object is well-formed, zones do not overlap,
    no two services share a domain or an alias (a domain may be the alias of another service), the DNS records of a namespace do not clash. That no alias is at the
    name of a mail exchanger or name server is shown for records whose owner is a plain name only, for other owners may change how the text of a record is read.
  \<^item> \<open>Status_Controllers\<close>, \<open>Zone_Controller\<close>: the reconcilers of profiles, locations, prefix lists and zones.
    They change only the status of their object (the zone also its finalizer and its records), and settle; a zone outlives its records.
  \<^item> \<open>Downstream\<close>: construction, event handlers, reconcile of a key, pages of existing mirrors. Shown: only
    mirrors of the source are touched; an error-free call makes the mirror a copy or removes it, but leaves a mirror that is being deleted; the handler drops exactly
    the events that change nothing; the loop over the pages returns all mirrors.
  \<^item> \<open>Work_Queue\<close>, \<open>Downstream_Workers\<close>: the work queue as a record of functions with the laws of the locale \<open>work_queue\<close> (interpreted on a
    queue of lists), and \<open>Start\<close> with its workers as a transition system in which the informers, the handlers, the workers, the clock
    and other clients that delete local objects take turns.
    Shown by rule induction: no two workers hold the same key; no change of a source is lost, so that at rest everything is mirrored, apart from mirrors that
    are being deleted or were deleted by others since their key was reconciled; an example run in which such a mirror is missing for good; what the
    result of \<open>Start\<close> says about the workers.
  \<^item> \<open>Deep_Copy\<close> (\<open>zz_generated.deepcopy.go\<close>): the declaration of every struct and its three copy functions statement by statement; the
    types and copy functions of the Kubernetes library are a record of parameters (locale \<open>go_copy_library\<close>). Shown: all of them are deep copies.
  \<^item> \<open>Downstream_Memory\<close>: the two places where the mirror changes objects in place, on the memory (locale \<open>kube_objects\<close> for the documented
    metadata). Shown: the informer cache stays as it was, and the values are those of the setters applied to the tree of the source.
  \<^item> \<open>Apply_Config\<close> (\<open>applyconfiguration/\<close>): the configurations for server-side apply, with their constructors, setters and getters on the memory, and the schema parser that is made once
    (locale \<open>go_apply_library\<close> for the types of client-go). Shown: every setter changes its field as its comment says and writes nothing
    else; a new location has the identity it was given.
  \<^item> \<open>Builders\<close>, \<open>Ingress_Builder\<close> (\<open>internal/builder\<close>): every builder and factory. Shown: what the ingress of a service routes.
  \<^item> \<open>Service_Cache\<close>, \<open>Service_Routing\<close>, \<open>Service_Controller\<close>, \<open>Service_Safety\<close>: the three reconcilers of a service. Shown: the
    objects they touch; a service is reported healthy only when its objects are there; the records of a service are exactly
    those of its names, with the spec that is asked for unless they carried its hash before; the key pair of a certificate reaches the caches unchanged.
  \<^item> \<open>Challenge_Controller\<close>: the reconciler of ACME challenges. The walk up the owner references is a
    \<open>partial_function\<close>; it returns when the references have no cycle, and an example shows that it does not otherwise.
  \<^item> \<open>Guarded_Cluster\<close>: the reconcilers behind the webhooks. An API server that asks the webhooks keeps the laws of \<open>api_server\<close>, so all that is shown
    of the reconcilers holds on it, and every call of a client is a step of the cluster of \<open>Admission\<close>. Shown: a zone that
    outlives its project is never released, because the webhooks deny the update that removes its finalizer.

  \<^bold>\<open>Conventions.\<close> An error is a value of an error type or \<open>Inl\<close>; a Go panic that the code can reach is an
  error of its own. A loop is structural recursion on what it ranges over; the two that may run forever
  (continue tokens, owner references) are \<open>partial_function (option)\<close> and their properties include that they
  return. The number of rounds of the consolidation is the constant of the code. Integers are unbounded except where a
  conversion of the code narrows them.

  \<^bold>\<open>What the theorems rest on.\<close> The calls of one reconcile run one after the other and a read sees the
  last write: other clients and the delay of the informer cache are not modelled. In \<open>Downstream_Workers\<close> the workers do interleave, but the local calls
  of one key are one step and others only delete local objects, they do not create or change mirrors of the source; in \<open>Admission\<close> a request is checked and stored in one step.
  The functions of third-party packages are arguments; the locales \<open>api_server\<close>, \<open>go_library\<close>, \<open>go_copy_library\<close>, \<open>go_apply_library\<close>, \<open>dns_names\<close>, \<open>dns_records\<close>, \<open>work_queue\<close> and \<open>go_runtime\<close> state what is assumed of them,
  each with an interpretation on computable functions. The law of \<open>dns_records\<close> is about MX and NS records with plain owners and 31-bit times to live, and only the absence of aliases
  at the names of servers rests on it. Letter case and white space are those of ASCII.

  Outside \<open>Downstream_Memory\<close> and \<open>Apply_Config\<close> objects are values and a deep copy is the identity; \<open>Deep_Copy\<close> is the reason that this is sound.

  \<^bold>\<open>Not modelled.\<close> The markers \<open>IsApplyConfiguration\<close> without a body, the registration of types and controllers with the libraries, logging, and the test utilities.
\<close>

end
